(* ===== verification/Awl_Prelude.thy ===== *)
theory Awl_Prelude
  imports Main "HOL-Library.Word" "HOL-Library.AList" "HOL-Library.Multiset" "HOL-Library.Code_Target_Nat"
begin

text \<open>
  Shared vocabulary of the development: machine integers as words, Go slices and the
  built-in \<open>copy\<close> as operations on lists, Go maps as association lists with distinct keys,
  big-endian byte strings, decimal printing, and the generic invariant rule for state
  machines. Nothing here is specific to one component; the lemmas are declared
  \<open>[simp]\<close> or collected in \<open>slice_simps\<close>, \<open>gomap_simps\<close> and \<open>be_simps\<close>,
  and the component theories rest on them.
\<close>

unbundle bit_operations_syntax

named_theorems slice_simps
named_theorems gomap_simps
named_theorems be_simps

type_synonym byte = "8 word"
type_synonym u16 = "16 word"
type_synonym u32 = "32 word"
type_synonym u64 = "64 word"

section \<open>Slices and the built-in copy\<close>

text \<open>
  \<open>go_slice xs i j\<close> is Go's \<open>xs[i:j]\<close> for indices within range (the caller states the
  range check where the code can leave it). \<open>blit dst i src\<close> is
  \<open>copy(dst[i:], src)\<close>: it overwrites from index \<open>i\<close> and stops at the shorter of the two.
\<close>

definition go_slice :: "'a list \<Rightarrow> nat \<Rightarrow> nat \<Rightarrow> 'a list" where
  "go_slice xs i j = take (j - i) (drop i xs)"

definition blit :: "'a list \<Rightarrow> nat \<Rightarrow> 'a list \<Rightarrow> 'a list" where
  "blit dst i src = take i dst @ take (length dst - i) src @ drop (i + length src) dst"

lemma length_slice [simp]: "length (go_slice xs i j) = min (j - i) (length xs - i)"
  by (simp add: go_slice_def)

lemma length_blit [simp]: "i \<le> length dst \<Longrightarrow> length (blit dst i src) = length dst"
  by (auto simp: blit_def min_def)

lemma nth_slice [slice_simps]:
  "k < j - i \<Longrightarrow> i + k < length xs \<Longrightarrow> go_slice xs i j ! k = xs ! (i + k)"
  by (simp add: go_slice_def)

lemma nth_blit [slice_simps]:
  assumes "i \<le> length dst" and "k < length dst"
  shows "blit dst i src ! k = (if i \<le> k \<and> k < i + length src then src ! (k - i) else dst ! k)"
  using assms by (auto simp: blit_def nth_append min_def)

lemma take_blit_exact:
  "i + length src \<le> length dst \<Longrightarrow> take (i + length src) (blit dst i src) = take i dst @ src"
  by (simp add: blit_def)

lemma slice_full [simp]: "go_slice xs 0 (length xs) = xs"
  by (simp add: go_slice_def)

lemma slice_empty [simp]: "go_slice xs i i = []"
  by (simp add: go_slice_def)

lemma slice_blit_same:
  "i + length src \<le> length dst \<Longrightarrow> go_slice (blit dst i src) i (i + length src) = src"
  by (simp add: go_slice_def blit_def)

lemma slice_blit_before:
  "j \<le> i \<Longrightarrow> i \<le> length dst \<Longrightarrow> go_slice (blit dst i src) k j = go_slice dst k j"
  by (rule nth_equalityI) (auto simp: slice_simps)

lemma slice_blit_after:
  "i + length src \<le> k \<Longrightarrow> i \<le> length dst \<Longrightarrow> go_slice (blit dst i src) k j = go_slice dst k j"
  by (rule nth_equalityI) (auto simp: slice_simps)

lemma blit_blit_append:
  "p + length xs \<le> length d \<Longrightarrow> blit (blit d p xs) (p + length xs) ys = blit d p (xs @ ys)"
  by (rule nth_equalityI) (auto simp: nth_blit nth_append)

section \<open>The last bytes of a history\<close>

definition last_n :: "nat \<Rightarrow> 'a list \<Rightarrow> 'a list" where
  "last_n n xs = drop (length xs - n) xs"

lemma length_last_n [simp]: "length (last_n n xs) = min n (length xs)"
  by (simp add: last_n_def)

lemma last_n_all: "length xs \<le> n \<Longrightarrow> last_n n xs = xs"
  by (simp add: last_n_def)

lemma last_n_append: "last_n n (xs @ ys) = last_n (n - length ys) xs @ last_n n ys"
  by (cases "n \<le> length ys") (simp_all add: last_n_def)

lemma last_n_last_n: "n \<le> m \<Longrightarrow> last_n n (last_n m xs) = last_n n xs"
  by (auto simp: last_n_def intro!: arg_cong [where f = "\<lambda>k. drop k xs"])

section \<open>Go maps\<close>

text \<open>
  A Go map is an association list with distinct keys. The position of a key stands for the
  (unspecified) iteration order of \<open>range\<close>, so a statement about an operation that ranges
  over a map, proved for every list, holds for every order the runtime may choose.
\<close>

type_synonym ('k, 'v) gomap = "('k \<times> 'v) list"

definition gm_wf :: "('k, 'v) gomap \<Rightarrow> bool" where
  "gm_wf m \<longleftrightarrow> distinct (map fst m)"

definition gm_get :: "('k, 'v) gomap \<Rightarrow> 'k \<Rightarrow> 'v option" where
  "gm_get m k = map_of m k"

definition gm_set :: "('k, 'v) gomap \<Rightarrow> 'k \<Rightarrow> 'v \<Rightarrow> ('k, 'v) gomap" where
  "gm_set m k v = AList.update k v m"

definition gm_del :: "('k, 'v) gomap \<Rightarrow> 'k \<Rightarrow> ('k, 'v) gomap" where
  "gm_del m k = AList.delete k m"

definition gm_vals :: "('k, 'v) gomap \<Rightarrow> 'v list" where
  "gm_vals m = map snd m"

text \<open>
  The contract a client of a Go map relies on: what a lookup returns after a store and a
  delete, and that both keep the representation invariant.
\<close>

locale go_map =
  fixes get :: "'m \<Rightarrow> 'k \<Rightarrow> 'v option"
    and put :: "'m \<Rightarrow> 'k \<Rightarrow> 'v \<Rightarrow> 'm"
    and del :: "'m \<Rightarrow> 'k \<Rightarrow> 'm"
    and wf :: "'m \<Rightarrow> bool"
  assumes get_put: "get (put m k v) k' = (if k' = k then Some v else get m k')"
    and get_del: "get (del m k) k' = (if k' = k then None else get m k')"
    and wf_put: "wf m \<Longrightarrow> wf (put m k v)"
    and wf_del: "wf m \<Longrightarrow> wf (del m k)"
begin

lemma put_put_get: "get (put (put m k v) k w) = get (put m k w)"
  by (rule ext) (simp add: get_put)

lemma del_put_get: "get (del (put m k v) k) = get (del m k)"
  by (rule ext) (simp add: get_put get_del)

lemma put_commute: "k \<noteq> k' \<Longrightarrow> get (put (put m k v) k' w) = get (put (put m k' w) k v)"
  by (rule ext) (simp add: get_put)

lemma dom_put: "dom (get (put m k v)) = insert k (dom (get m))"
  by (auto simp: get_put dom_def)

lemma dom_del: "dom (get (del m k)) = dom (get m) - {k}"
  by (auto simp: get_del dom_def split: if_splits)

end

interpretation gm: go_map gm_get gm_set gm_del gm_wf
  by unfold_locales
    (auto simp: gm_get_def gm_set_def gm_del_def gm_wf_def update_conv' delete_conv'
      distinct_update distinct_delete)

lemmas gm_laws [gomap_simps] = gm.get_put gm.get_del gm.wf_put gm.wf_del gm.dom_put gm.dom_del

lemma gm_wf_Nil [simp]: "gm_wf []"
  by (simp add: gm_wf_def)

lemma gm_get_Nil [simp]: "gm_get [] k = None"
  by (simp add: gm_get_def)

lemma gm_get_Some_in: "gm_get m k = Some v \<Longrightarrow> (k, v) \<in> set m"
  by (simp add: gm_get_def map_of_SomeD)

lemma gm_get_iff: "gm_wf m \<Longrightarrow> gm_get m k = Some v \<longleftrightarrow> (k, v) \<in> set m"
  by (simp add: gm_get_def gm_wf_def)

lemma gm_get_None_iff: "gm_get m k = None \<longleftrightarrow> k \<notin> fst ` set m"
  by (simp add: gm_get_def map_of_eq_None_iff)

lemma gm_vals_iff: "gm_wf m \<Longrightarrow> v \<in> set (gm_vals m) \<longleftrightarrow> (\<exists>k. gm_get m k = Some v)"
  by (force simp: gm_vals_def gm_get_iff)

lemma set_gm_set:
  "gm_wf m \<Longrightarrow> set (gm_set m k v) = insert (k, v) {(k', v') \<in> set m. k' \<noteq> k}"
proof -
  assume wf: "gm_wf m"
  then have "gm_wf (gm_set m k v)" by (rule gm.wf_put)
  then have "\<And>a b. (a, b) \<in> set (gm_set m k v) \<longleftrightarrow> gm_get (gm_set m k v) a = Some b"
    by (simp add: gm_get_iff)
  then have "\<And>a b. (a, b) \<in> set (gm_set m k v) \<longleftrightarrow> (if a = k then b = v else (a, b) \<in> set m)"
    using wf by (auto simp: gm.get_put gm_get_iff)
  then show ?thesis by (auto split: if_splits)
qed

lemma set_gm_del: "set (gm_del m k) = {(k', v') \<in> set m. k' \<noteq> k}"
  by (auto simp: gm_del_def AList.delete_eq)

section \<open>Big-endian integers\<close>

text \<open>
  \<open>be_val\<close> reads a byte string as an unsigned big-endian number, \<open>be_bytes k n\<close> writes
  the low \<open>k\<close> bytes of \<open>n\<close>: \<open>binary.BigEndian.Uint16/32/64\<close> and
  \<open>PutUint16/32/64\<close> at \<open>k = 2, 4, 8\<close>.
\<close>

fun be_val :: "byte list \<Rightarrow> nat" where
  "be_val [] = 0"
| "be_val (b # bs) = unat b * 256 ^ length bs + be_val bs"

fun be_bytes :: "nat \<Rightarrow> nat \<Rightarrow> byte list" where
  "be_bytes 0 n = []"
| "be_bytes (Suc k) n = be_bytes k (n div 256) @ [of_nat (n mod 256)]"

lemma length_be_bytes [simp]: "length (be_bytes k n) = k"
  by (induction k arbitrary: n) simp_all

lemma be_val_append: "be_val (xs @ ys) = be_val xs * 256 ^ length ys + be_val ys"
  by (induction xs) (simp_all add: power_add algebra_simps)

lemma unat_byte_less [simp]: "unat (b :: byte) < 256"
proof -
  have "unat b < 2 ^ LENGTH(8)" by (rule unsigned_less)
  then show ?thesis by simp
qed

lemma be_val_less: "be_val bs < 256 ^ length bs"
proof (induction bs)
  case Nil
  show ?case by simp
next
  case (Cons b bs)
  have "unat b + 1 \<le> 256" using unat_byte_less [of b] by linarith
  then have "(unat b + 1) * 256 ^ length bs \<le> 256 * 256 ^ length bs"
    by (rule mult_right_mono) simp
  then have "unat b * 256 ^ length bs + 256 ^ length bs \<le> 256 ^ length (b # bs)"
    by (simp only: distrib_right mult_1 length_Cons power_Suc)
  with Cons show ?case by (simp only: be_val.simps)
qed

lemma be_val_be_bytes: "be_val (be_bytes k n) = n mod 256 ^ k"
proof (induction k arbitrary: n)
  case 0
  show ?case by simp
next
  case (Suc k)
  have *: "unat (of_nat (n mod 256) :: byte) = n mod 256"
    by (simp add: unat_of_nat)
  have "be_val (be_bytes (Suc k) n) = (n div 256) mod 256 ^ k * 256 + n mod 256"
    by (simp add: be_val_append Suc *)
  also have "\<dots> = n mod 256 ^ Suc k"
    by (simp add: mod_mult2_eq mult.commute)
  finally show ?case .
qed

lemma be_bytes_be_val: "be_bytes (length bs) (be_val bs) = bs"
proof (induction bs rule: rev_induct)
  case Nil
  show ?case by simp
next
  case (snoc b bs)
  have "(be_val bs * 256 + unat b) div 256 = be_val bs"
    and "(be_val bs * 256 + unat b) mod 256 = unat b"
    using unat_byte_less [of b] by simp_all
  with snoc show ?case by (simp add: be_val_append)
qed

lemmas be_laws [be_simps] = be_val_be_bytes be_bytes_be_val be_val_append

section \<open>State machines\<close>

text \<open>
  Reachable states of a transition relation, and the rule every component invariant uses:
  what holds initially and is kept by each step holds in every reachable state.
\<close>

inductive reachable :: "('s \<Rightarrow> bool) \<Rightarrow> ('s \<Rightarrow> 's \<Rightarrow> bool) \<Rightarrow> 's \<Rightarrow> bool"
  for init :: "'s \<Rightarrow> bool" and step :: "'s \<Rightarrow> 's \<Rightarrow> bool" where
  reach_init: "init s \<Longrightarrow> reachable init step s"
| reach_step: "reachable init step s \<Longrightarrow> step s t \<Longrightarrow> reachable init step t"

locale inductive_invariant =
  fixes init :: "'s \<Rightarrow> bool" and step :: "'s \<Rightarrow> 's \<Rightarrow> bool" and inv :: "'s \<Rightarrow> bool"
  assumes inv_init: "init s \<Longrightarrow> inv s"
    and inv_step: "inv s \<Longrightarrow> step s t \<Longrightarrow> inv t"
begin

lemma inv_reachable: "reachable init step s \<Longrightarrow> inv s"
  by (induction rule: reachable.induct) (auto intro: inv_init inv_step)

end

end
