(* ===== verification/Checksum.thy ===== *)
theory Checksum
  imports Awl_Prelude
begin

text \<open>
  The checksum routines of \<open>src/vpn/packet.go\<close> on 32-bit words, as the code computes them,
  and their correctness: the ones' complement sum of RFC 1071. The nat-valued \<open>nsum\<close> is the
  specification; the word computation equals it while the sum stays below \<open>2^32\<close>, which
  holds for every packet that fits the 3600-byte buffer.
\<close>

section \<open>The routines\<close>

text \<open>
  The summing loop: big-endian 16-bit words two bytes at a time, a last odd byte as the high
  half of a word.
\<close>

fun sum16 :: "u32 \<Rightarrow> byte list \<Rightarrow> u32" where
  "sum16 v (a # b # rest) = sum16 (v + push_bit 8 (ucast a) + ucast b) rest"
| "sum16 v [a] = v + push_bit 8 (ucast a)"
| "sum16 v [] = v"

lemma unat_u32_less: "unat (v :: u32) < 2 ^ 32"
proof -
  have "unat v < 2 ^ LENGTH(32)" by (rule unsigned_less)
  then show ?thesis by simp
qed

lemma unat_drop16: "unat (drop_bit 16 v :: u32) = unat v div 65536"
  by (simp add: drop_bit_eq_div unat_div)

lemma unat_and_ffff: "unat ((v :: u32) AND 0xFFFF) = unat v mod 65536"
proof -
  have "v AND 0xFFFF = take_bit 16 v" by (simp only: take_bit_eq_mask) (simp add: mask_eq_exp_minus_1)
  then show ?thesis by (simp add: take_bit_eq_mod unat_mod)
qed

lemma unat_fold_step: "unat ((drop_bit 16 v :: u32) + (v AND 0xFFFF)) = unat v div 65536 + unat v mod 65536"
proof -
  have "unat v div 65536 + unat v mod 65536 \<le> unat v"
    using div_mult_mod_eq [of "unat v" 65536] by linarith
  also have "\<dots> < 2 ^ 32" by (rule unat_u32_less)
  finally show ?thesis by (simp add: unat_word_ariths unat_drop16 unat_and_ffff)
qed

text \<open>The folding loop \<open>for v > 0xffff\<close>; each round makes the value smaller.\<close>

function fold16 :: "u32 \<Rightarrow> u32" where
  "fold16 v = (if v > 0xFFFF then fold16 (drop_bit 16 v + (v AND 0xFFFF)) else v)"
  by pat_completeness auto
termination
proof (relation "measure unat")
  fix v :: u32
  assume "v > 0xFFFF"
  then have "65535 < unat v" by (simp add: word_less_nat_alt)
  then have "0 < unat v div 65536" by simp
  moreover have "unat v = 65536 * (unat v div 65536) + unat v mod 65536" by simp
  ultimately have "unat v div 65536 + unat v mod 65536 < unat v" by linarith
  then show "(drop_bit 16 v + (v AND 0xFFFF), v) \<in> measure unat"
    by (simp add: unat_fold_step)
qed simp

declare fold16.simps [simp del]

definition checksumIPv4Header :: "byte list \<Rightarrow> u16" where
  "checksumIPv4Header buf = NOT (ucast (fold16 (sum16 0 buf)))"

definition tcpipChecksum :: "byte list \<Rightarrow> u32 \<Rightarrow> u16" where
  "tcpipChecksum data csum = NOT (ucast (fold16 (sum16 csum data)))"

text \<open>The pseudo header; \<open>None\<close> is the index panic on an address shorter than four bytes.\<close>

definition pseudo_sum :: "nat \<Rightarrow> u32 \<Rightarrow> byte list \<Rightarrow> byte list \<Rightarrow> u32" where
  "pseudo_sum len protocol src dst =
     push_bit 8 (ucast (src ! 0) + ucast (src ! 2)) + (ucast (src ! 1) + ucast (src ! 3)) +
     push_bit 8 (ucast (dst ! 0) + ucast (dst ! 2)) + (ucast (dst ! 1) + ucast (dst ! 3)) +
     protocol + ((of_nat len :: u32) AND 0xFFFF) + drop_bit 16 (of_nat len :: u32)"

definition checksumIPv4TCPUDP :: "byte list \<Rightarrow> u32 \<Rightarrow> byte list \<Rightarrow> byte list \<Rightarrow> u16 option" where
  "checksumIPv4TCPUDP headerAndPayload protocol srcIP dstIP =
     (if length srcIP < 4 \<or> length dstIP < 4 then None
      else Some (tcpipChecksum headerAndPayload
                   (pseudo_sum (length headerAndPayload) protocol srcIP dstIP)))"

section \<open>The sum as a number\<close>

fun nsum :: "byte list \<Rightarrow> nat" where
  "nsum (a # b # rest) = unat a * 256 + unat b + nsum rest"
| "nsum [a] = unat a * 256"
| "nsum [] = 0"

lemma nsum_bound: "nsum bs \<le> 65535 * ((length bs + 1) div 2)"
proof (induction bs rule: nsum.induct)
  case (1 a b rest)
  have "unat a * 256 + unat b \<le> 65535"
    using unat_byte_less [of a] unat_byte_less [of b] by linarith
  with 1 show ?case by simp
next
  case (2 a)
  have "unat a * 256 \<le> 65535" using unat_byte_less [of a] by linarith
  then show ?case by simp
qed simp

lemma nsum_append: "even (length xs) \<Longrightarrow> nsum (xs @ ys) = nsum xs + nsum ys"
  by (induction xs rule: nsum.induct) auto

lemma unat_ucast_byte [simp]: "unat (ucast (a :: byte) :: u32) = unat a"
  by (simp add: unsigned_ucast_eq take_bit_eq_mod order.strict_trans [OF unat_byte_less])

lemma unat_byte_shift [simp]: "unat (push_bit 8 (ucast (a :: byte)) :: u32) = unat a * 256"
proof -
  have "unat a * 256 < 4294967296" using unat_byte_less [of a] by linarith
  then show ?thesis by (simp add: push_bit_eq_mult unat_word_ariths)
qed

lemma unat_push8: "unat (push_bit 8 w :: u32) = unat w * 256 mod 2 ^ 32"
  by (simp add: push_bit_eq_mult unat_word_ariths)

lemma unat_add_u32: "unat (x :: u32) + unat y < 2 ^ 32 \<Longrightarrow> unat (x + y) = unat x + unat y"
  by (simp add: unat_word_ariths)

lemma unat_sum16: "unat v + nsum bs < 2 ^ 32 \<Longrightarrow> unat (sum16 v bs) = unat v + nsum bs"
proof (induction v bs rule: sum16.induct)
  case (1 v a b rest)
  let ?w = "v + push_bit 8 (ucast a) + ucast b :: u32"
  have "unat ?w = unat v + unat a * 256 + unat b"
    using "1.prems" by (simp add: unat_add_u32)
  with 1 show ?case by simp
next
  case (2 v a)
  then show ?case by (simp add: unat_add_u32)
qed simp

section \<open>Folding is arithmetic modulo 65535\<close>

lemma fold16_props: "unat (fold16 v) \<le> 65535 \<and> unat (fold16 v) mod 65535 = unat v mod 65535 \<and>
  (unat (fold16 v) = 0 \<longleftrightarrow> unat v = 0)"
proof (induction v rule: fold16.induct)
  case (1 v)
  show ?case
  proof (cases "v > 0xFFFF")
    case True
    let ?w = "drop_bit 16 v + (v AND 0xFFFF) :: u32"
    have w: "unat ?w = unat v div 65536 + unat v mod 65536" by (rule unat_fold_step)
    have big: "65535 < unat v" using True by (simp add: word_less_nat_alt)
    have "unat v = 65535 * (unat v div 65536) + unat ?w"
      using w div_mult_mod_eq [of "unat v" 65536] by linarith
    then have "unat ?w mod 65535 = unat v mod 65535" by (metis mod_mult_self4)
    moreover have "unat ?w \<noteq> 0" using big w by (simp add: div_eq_0_iff)
    ultimately show ?thesis using 1 [OF True] True big by (simp add: fold16.simps [of v])
  next
    case False
    then have "unat v \<le> 65535" by (simp add: word_le_nat_alt not_less)
    with False show ?thesis by (simp add: fold16.simps [of v])
  qed
qed

lemma unat_NOT_u16: "unat (NOT (w :: u16)) = 65535 - unat w"
proof -
  have "NOT w = - 1 - w" by (simp add: not_eq_complement)
  moreover have "w \<le> - 1" by simp
  ultimately have "unat (NOT w) = unat (- 1 :: u16) - unat w" by (simp add: unat_sub)
  moreover have "(- 1 :: u16) = 65535" by simp
  ultimately show ?thesis by simp
qed

lemma unat_tcpipChecksum: "unat (tcpipChecksum data csum) = 65535 - unat (fold16 (sum16 csum data))"
proof -
  have "unat (ucast (fold16 (sum16 csum data)) :: u16) = unat (fold16 (sum16 csum data))"
    using fold16_props [of "sum16 csum data"]
    by (simp add: unsigned_ucast_eq take_bit_eq_mod)
  then show ?thesis by (simp add: tcpipChecksum_def unat_NOT_u16)
qed

lemma checksumIPv4Header_eq: "checksumIPv4Header buf = tcpipChecksum buf 0"
  by (simp add: checksumIPv4Header_def tcpipChecksum_def)

text \<open>A ones' complement checksum is zero exactly when the sum is a non-zero multiple of 65535.\<close>

lemma tcpipChecksum_zero_iff:
  "tcpipChecksum data csum = 0 \<longleftrightarrow>
     unat (sum16 csum data) mod 65535 = 0 \<and> unat (sum16 csum data) \<noteq> 0"
proof -
  let ?f = "unat (fold16 (sum16 csum data))"
  have "tcpipChecksum data csum = 0 \<longleftrightarrow> unat (tcpipChecksum data csum) = 0"
    by (metis unsigned_0 unsigned_word_eqI)
  also have "\<dots> \<longleftrightarrow> ?f = 65535"
    using fold16_props [of "sum16 csum data"] by (auto simp: unat_tcpipChecksum)
  also have "\<dots> \<longleftrightarrow> ?f mod 65535 = 0 \<and> ?f \<noteq> 0"
  proof
    assume "?f mod 65535 = 0 \<and> ?f \<noteq> 0"
    then have "65535 dvd ?f" "0 < ?f" by (auto simp: mod_eq_0_iff_dvd)
    then have "65535 \<le> ?f" by (rule dvd_imp_le)
    then show "?f = 65535" using fold16_props [of "sum16 csum data"] by simp
  qed simp
  finally show ?thesis using fold16_props [of "sum16 csum data"] by metis
qed

lemma nsum_checksum_field:
  assumes "even i" and "i + 2 \<le> length bs" and "go_slice bs i (i + 2) = [0, 0]" and "x < 65536"
  shows "nsum (blit bs i (be_bytes 2 x)) = nsum bs + x"
proof -
  have drop0: "drop i bs = [0, 0] @ drop (i + 2) bs"
    using assms(3) append_take_drop_id [of 2 "drop i bs"]
    by (simp add: go_slice_def add.commute)
  have bs: "bs = take i bs @ [0, 0] @ drop (i + 2) bs"
    using drop0 append_take_drop_id [of i bs] by simp
  have field: "nsum (be_bytes 2 x) = x"
  proof -
    have "unat (of_nat (x div 256 mod 256) :: byte) = x div 256" "unat (of_nat (x mod 256) :: byte) = x mod 256"
      using assms(4) by (simp_all add: unat_of_nat)
    then show ?thesis by (simp add: numeral_2_eq_2)
  qed
  have even: "even (length (take i bs))" using assms(1,2) by (simp add: min_def)
  have e2: "even (length (be_bytes 2 x))" by simp
  have "nsum (blit bs i (be_bytes 2 x)) = nsum (take i bs @ be_bytes 2 x @ drop (i + 2) bs)"
    using assms(2) by (simp add: blit_def)
  also have "\<dots> = nsum (take i bs) + (x + nsum (drop (i + 2) bs))"
    by (simp only: nsum_append [OF even] nsum_append [OF e2] field)
  moreover have "nsum bs = nsum (take i bs) + (nsum [0, 0] + nsum (drop (i + 2) bs))"
    using bs nsum_append [OF even, of "[0, 0] @ drop (i + 2) bs"]
      nsum_append [of "[0, 0]" "drop (i + 2) bs"] by simp
  ultimately show ?thesis by simp
qed

text \<open>
  The receiver's check: with the computed checksum written into its (zeroed, even) field, the
  same routine over the whole returns zero.
\<close>

lemma checksum_verifies:
  assumes "even i" and "i + 2 \<le> length bs" and "go_slice bs i (i + 2) = [0, 0]"
    and small: "unat csum + nsum bs + 65535 < 2 ^ 32"
  shows "tcpipChecksum (blit bs i (be_bytes 2 (unat (tcpipChecksum bs csum)))) csum = 0"
proof -
  let ?s = "unat csum + nsum bs"
  let ?f = "unat (fold16 (sum16 csum bs))"
  let ?x = "unat (tcpipChecksum bs csum)"
  have s: "unat (sum16 csum bs) = ?s" using small by (intro unat_sum16) simp
  have f: "?f \<le> 65535" "?f mod 65535 = ?s mod 65535" "?f = 0 \<longleftrightarrow> ?s = 0"
    using fold16_props [of "sum16 csum bs"] by (simp_all add: s)
  have x: "?x = 65535 - ?f" by (rule unat_tcpipChecksum)
  have n: "nsum (blit bs i (be_bytes 2 ?x)) = nsum bs + ?x"
    using assms(1-3) x by (intro nsum_checksum_field) auto
  have t: "unat (sum16 csum (blit bs i (be_bytes 2 ?x))) = ?s + ?x"
    using small x n unat_sum16 [of csum "blit bs i (be_bytes 2 ?x)"] by simp
  have "(?s + ?x) mod 65535 = (?f + ?x) mod 65535"
    using f(2) by (metis mod_add_left_eq)
  also have "\<dots> = 0" using x f(1) by simp
  finally have "(?s + ?x) mod 65535 = 0" .
  moreover have "?s + ?x \<noteq> 0" using x f by auto
  ultimately show ?thesis by (simp add: tcpipChecksum_zero_iff t)
qed

lemma pseudo_sum_bound:
  assumes "len < 65536" and "protocol < 256"
  shows "unat (pseudo_sum len protocol src dst) < 2 ^ 19"
proof -
  have l: "unat (of_nat len :: u32) = len" using assms(1) by (simp add: unat_of_nat)
  have len: "unat ((of_nat len :: u32) AND 0xFFFF) = len" "unat (drop_bit 16 (of_nat len :: u32)) = 0"
    using l assms(1) by (simp_all only: unat_and_ffff unat_drop16) simp_all
  have p: "unat protocol < 256" using assms(2) by (simp add: word_less_nat_alt)
  have two: "unat (push_bit 8 (ucast (a :: byte) + ucast (b :: byte)) :: u32) < 131072" for a b
  proof -
    have "unat (ucast a + ucast b :: u32) = unat a + unat b"
    proof -
      have "unat a + unat b < 4294967296" using unat_byte_less [of a] unat_byte_less [of b] by linarith
      then show ?thesis using unat_add_u32 [of "ucast a" "ucast b"] by simp
    qed
    then have "unat (push_bit 8 (ucast a + ucast b) :: u32) = (unat a + unat b) * 256 mod 2 ^ 32"
      by (simp only: unat_push8)
    moreover have "(unat a + unat b) * 256 < 131072"
    proof -
      have "unat a < 256" "unat b < 256" by (rule unat_byte_less)+
      then have "unat a + unat b < 512" by linarith
      then have "(unat a + unat b) * 256 < 512 * 256" by (rule mult_less_mono1) simp
      then show ?thesis by simp
    qed
    ultimately show ?thesis by simp
  qed
  have le: "unat (x + y :: u32) \<le> i + j" if "unat x \<le> i" "unat y \<le> j" for x y i j
    using that by (simp add: unat_word_ariths)
  have byte: "unat (ucast (a :: byte) :: u32) \<le> 255" for a
  proof -
    have "unat a < 256" by (rule unat_byte_less)
    then have "unat a \<le> 255" by linarith
    then show ?thesis by (simp only: unat_ucast_byte)
  qed
  have two': "unat (push_bit 8 (ucast (a :: byte) + ucast (b :: byte)) :: u32) \<le> 131071" for a b
    using two [of a b] by linarith
  have p': "unat protocol \<le> 255" using p by linarith
  have l': "unat ((of_nat len :: u32) AND 0xFFFF) \<le> 65535" "unat (drop_bit 16 (of_nat len :: u32)) \<le> 0"
    using len assms(1) by linarith+
  have "unat (pseudo_sum len protocol src dst) \<le>
      131071 + (255 + 255) + 131071 + (255 + 255) + 255 + 65535 + 0"
    unfolding pseudo_sum_def by (intro le byte two' p' l')
  then show ?thesis by simp
qed

end
