(* ===== verification/Wire_Protocol.thy ===== *)
theory Wire_Protocol
  imports Awl_Prelude
begin

text \<open>
  The wire format of \<open>src/protocol/protocol.go\<close>: the protocol identifiers, the messages of
  the status and auth exchanges, and the length-prefixed packet frames of the tunnel.
  A network stream is the list of bytes still to arrive and the error that ends it.
  The message records below are what the handlers receive and send; their JSON text is in
  \<open>Wire_Messages\<close>.
\<close>

section \<open>Protocol identifiers\<close>

definition basePath :: string where
  "basePath = ''/awl/'' @ ''0.3.0''"

definition AuthMethod :: string where
  "AuthMethod = basePath @ ''/auth/''"

definition GetStatusMethod :: string where
  "GetStatusMethod = basePath @ ''/status/''"

definition TunnelPacketMethod :: string where
  "TunnelPacketMethod = basePath @ ''/tunnel/''"

definition Socks5PacketMethod :: string where
  "Socks5PacketMethod = basePath @ ''/socks5/''"

definition Socks5NoAuthMethod :: string where
  "Socks5NoAuthMethod = basePath @ ''/socks5-noauth/''"

section \<open>Messages\<close>

record PeerStatusInfo =
  psi_Name :: string
  psi_Declined :: bool
  psi_AllowUsingAsExitNode :: bool
  psi_UsingPeerID :: string

record AuthPeer =
  ap_Name :: string

record AuthPeerResponse =
  apr_Confirmed :: bool
  apr_Declined :: bool

section \<open>Streams and framing\<close>

text \<open>
  \<open>EOF\<close>, \<open>UnexpectedEOF\<close> (a read stopped inside a value) and any other transport
  error, such as a stream reset.
\<close>

datatype rerr = EOF | UnexpectedEOF | StreamReset

record stream =
  st_bytes :: "byte list"
  st_end :: rerr

text \<open>
  \<open>io.ReadFull\<close>: exactly \<open>n\<close> bytes or an error; an end of stream before the first byte
  is reported as it is, one inside the value as \<open>UnexpectedEOF\<close>.
\<close>

definition ReadFull :: "nat \<Rightarrow> 'a stream_scheme \<Rightarrow> (rerr + byte list) \<times> 'a stream_scheme" where
  "ReadFull n s =
     (if n \<le> length (st_bytes s)
      then (Inr (take n (st_bytes s)), s\<lparr>st_bytes := drop n (st_bytes s)\<rparr>)
      else (Inl (if st_bytes s \<noteq> [] \<and> st_end s = EOF then UnexpectedEOF else st_end s),
            s\<lparr>st_bytes := []\<rparr>))"

definition ReadUint64 :: "'a stream_scheme \<Rightarrow> (rerr + u64) \<times> 'a stream_scheme" where
  "ReadUint64 s =
     (case ReadFull 8 s of
        (Inl e, s') \<Rightarrow> (Inl e, s')
      | (Inr data, s') \<Rightarrow> (Inr (of_nat (be_val data)), s'))"

definition AppendPacketToBuf :: "byte list \<Rightarrow> byte list \<Rightarrow> byte list" where
  "AppendPacketToBuf buf packet = (buf @ be_bytes 8 (length packet)) @ packet"

lemma AppendPacketToBuf_Nil:
  "AppendPacketToBuf buf p = buf @ AppendPacketToBuf [] p"
  by (simp add: AppendPacketToBuf_def)

lemma fold_AppendPacketToBuf:
  "fold (\<lambda>p b. AppendPacketToBuf b p) ps buf = buf @ concat (map (AppendPacketToBuf []) ps)"
proof (induction ps arbitrary: buf)
  case Nil
  show ?case by simp
next
  case (Cons p ps)
  show ?case
    by (simp add: Cons AppendPacketToBuf_Nil [of buf p])
qed

lemma ReadUint64_header:
  assumes "n < 2 ^ 64"
  shows "ReadUint64 (s\<lparr>st_bytes := be_bytes 8 n @ rest\<rparr>) = (Inr (of_nat n), s\<lparr>st_bytes := rest\<rparr>)"
proof -
  have "n mod 256 ^ 8 = n" using assms by simp
  then show ?thesis by (simp add: ReadUint64_def ReadFull_def be_simps)
qed

lemma ReadUint64_short:
  "length (st_bytes s) < 8 \<Longrightarrow> \<exists>e. ReadUint64 s = (Inl e, s\<lparr>st_bytes := []\<rparr>)"
  by (simp add: ReadUint64_def ReadFull_def)

section \<open>Properties\<close>

text \<open>
  A frame written by \<open>AppendPacketToBuf\<close> is read back: \<open>ReadUint64\<close> on the frame
  followed by any other bytes returns the packet's length and leaves the stream at the
  packet's first byte, for every packet a Go slice can hold.
\<close>

theorem frame_roundtrip:
  assumes "length p < 2 ^ 63"
  shows "ReadUint64 \<lparr>st_bytes = AppendPacketToBuf [] p @ rest, st_end = e\<rparr> =
           (Inr (of_nat (length p)), \<lparr>st_bytes = p @ rest, st_end = e\<rparr>)
         \<and> unat (of_nat (length p) :: u64) = length p"
proof -
  have "length p < 2 ^ 64" using assms by simp
  then show ?thesis
    using ReadUint64_header [where n = "length p" and rest = "p @ rest"
      and s = "\<lparr>st_bytes = [], st_end = e\<rparr>"]
    by (simp add: AppendPacketToBuf_def unat_of_nat)
qed

theorem frame_roundtrip_witness:
  "ReadUint64 \<lparr>st_bytes = AppendPacketToBuf [] [7, 8, 9] @ [1], st_end = EOF\<rparr> =
     (Inr 3, \<lparr>st_bytes = [7, 8, 9, 1], st_end = EOF\<rparr>)"
  using frame_roundtrip [of "[7, 8, 9]" "[1]" EOF] by simp

end
