(* ===== verification/Go_Strings.thy ===== *)
theory Go_Strings
  imports Awl_Prelude
begin

text \<open>
  The string functions of Go's standard library that the program calls. A Go string is its
  bytes, so it is Isabelle's \<open>string\<close> (eight-bit characters). Functions that Go defines on
  code points work on the UTF-8 segmentation \<open>runes\<close>; \<open>unicode.ToLower\<close> outside ASCII is
  the argument \<open>ulower\<close> of the functions that use it.
\<close>

section \<open>Decimal numbers\<close>

fun itoa :: "nat \<Rightarrow> string" where
  "itoa n = (if n < 10 then [char_of (48 + n)] else itoa (n div 10) @ [char_of (48 + n mod 10)])"

declare itoa.simps [simp del]

definition is_digit :: "char \<Rightarrow> bool" where
  "is_digit c \<longleftrightarrow> 48 \<le> (of_char c :: nat) \<and> (of_char c :: nat) \<le> 57"

definition digit_val :: "char \<Rightarrow> nat" where
  "digit_val c = of_char c - 48"

definition atoi :: "string \<Rightarrow> nat" where
  "atoi s = foldl (\<lambda>a c. a * 10 + digit_val c) 0 s"

lemma of_char_digit [simp]: "n < 10 \<Longrightarrow> (of_char (char_of (48 + n) :: char) :: nat) = 48 + n"
  by simp

lemma is_digit_char [simp]: "(n :: nat) < 10 \<Longrightarrow> is_digit (char_of (48 + n))"
  by (simp add: is_digit_def)

lemma digit_val_char [simp]: "(n :: nat) < 10 \<Longrightarrow> digit_val (char_of (48 + n)) = n"
  by (simp add: digit_val_def)

lemma atoi_itoa [simp]: "atoi (itoa n) = n"
proof (induction n rule: itoa.induct)
  case (1 n)
  show ?case
  proof (cases "n < 10")
    case True
    then show ?thesis by (simp add: itoa.simps [of n] atoi_def)
  next
    case False
    with 1 have "atoi (itoa (n div 10)) = n div 10" by simp
    with False show ?thesis by (simp add: itoa.simps [of n] atoi_def)
  qed
qed

lemma itoa_inj: "itoa m = itoa n \<Longrightarrow> m = n"
  by (metis atoi_itoa)

lemma itoa_digits: "\<forall>c \<in> set (itoa n). is_digit c"
proof (induction n rule: itoa.induct)
  case (1 n)
  then show ?case by (cases "n < 10") (auto simp: itoa.simps [of n])
qed

lemma itoa_not_Nil [simp]: "itoa n \<noteq> []"
  by (simp add: itoa.simps [of n])

section \<open>Prefixes, suffixes and separators\<close>

definition HasPrefix :: "string \<Rightarrow> string \<Rightarrow> bool" where
  "HasPrefix s p \<longleftrightarrow> take (length p) s = p"

definition TrimPrefix :: "string \<Rightarrow> string \<Rightarrow> string" where
  "TrimPrefix s p = (if HasPrefix s p then drop (length p) s else s)"

definition HasSuffix :: "string \<Rightarrow> string \<Rightarrow> bool" where
  "HasSuffix s p \<longleftrightarrow> length p \<le> length s \<and> drop (length s - length p) s = p"

definition TrimSuffix :: "string \<Rightarrow> string \<Rightarrow> string" where
  "TrimSuffix s p = (if HasSuffix s p then take (length s - length p) s else s)"

text \<open>\<open>strings.Cut\<close> with a one-character separator.\<close>

definition Cut :: "string \<Rightarrow> char \<Rightarrow> string \<times> string \<times> bool" where
  "Cut s c =
     (if c \<in> set s then (takeWhile (\<lambda>x. x \<noteq> c) s, tl (dropWhile (\<lambda>x. x \<noteq> c) s), True)
      else (s, [], False))"

text \<open>The part after the last occurrence of a character, \<open>None\<close> when it does not occur.\<close>

definition after_last :: "char \<Rightarrow> string \<Rightarrow> string option" where
  "after_last c s = (if c \<in> set s then Some (rev (takeWhile (\<lambda>x. x \<noteq> c) (rev s))) else None)"

lemma Cut_found: "c \<notin> set a \<Longrightarrow> Cut (a @ c # b) c = (a, b, True)"
  by (auto simp: Cut_def takeWhile_append dropWhile_append)

lemma Cut_not_found: "c \<notin> set s \<Longrightarrow> Cut s c = (s, [], False)"
  by (simp add: Cut_def)

lemma after_last_append: "c \<notin> set b \<Longrightarrow> after_last c (a @ c # b) = Some b"
  by (simp add: after_last_def takeWhile_append)

lemma TrimPrefix_append [simp]: "TrimPrefix (p @ s) p = s"
  by (simp add: TrimPrefix_def HasPrefix_def)

lemma TrimSuffix_append [simp]: "TrimSuffix (s @ p) p = s"
  by (simp add: TrimSuffix_def HasSuffix_def)

section \<open>UTF-8\<close>

definition RuneError :: nat where
  "RuneError = 0xFFFD"

definition cont :: "nat \<Rightarrow> bool" where
  "cont b \<longleftrightarrow> 0x80 \<le> b \<and> b \<le> 0xBF"

text \<open>
  The first code point of a byte string with its width, \<open>None\<close> when the bytes do not start
  a valid sequence (no overlong forms, no surrogates, nothing above U+10FFFF).
\<close>

fun decode_valid :: "nat list \<Rightarrow> (nat \<times> nat) option" where
  "decode_valid [] = None"
| "decode_valid (a # s) =
     (if a < 0x80 then Some (a, 1)
      else if 0xC2 \<le> a \<and> a \<le> 0xDF then
        (case s of
           b # _ \<Rightarrow> if cont b then Some ((a - 0xC0) * 64 + (b - 0x80), 2) else None
         | _ \<Rightarrow> None)
      else if 0xE0 \<le> a \<and> a \<le> 0xEF then
        (case s of
           b # c # _ \<Rightarrow>
             if cont b \<and> cont c \<and> (a = 0xE0 \<longrightarrow> 0xA0 \<le> b) \<and> (a = 0xED \<longrightarrow> b \<le> 0x9F)
             then Some (((a - 0xE0) * 64 + (b - 0x80)) * 64 + (c - 0x80), 3) else None
         | _ \<Rightarrow> None)
      else if 0xF0 \<le> a \<and> a \<le> 0xF4 then
        (case s of
           b # c # d # _ \<Rightarrow>
             if cont b \<and> cont c \<and> cont d \<and> (a = 0xF0 \<longrightarrow> 0x90 \<le> b) \<and> (a = 0xF4 \<longrightarrow> b \<le> 0x8F)
             then Some ((((a - 0xF0) * 64 + (b - 0x80)) * 64 + (c - 0x80)) * 64 + (d - 0x80), 4)
             else None
         | _ \<Rightarrow> None)
      else None)"

definition DecodeRune :: "string \<Rightarrow> nat \<times> nat" where
  "DecodeRune s = (case decode_valid (map of_char s) of None \<Rightarrow> (RuneError, 1) | Some rw \<Rightarrow> rw)"

lemma decode_valid_width: "decode_valid bs = Some (r, w) \<Longrightarrow> 1 \<le> w \<and> w \<le> length bs"
  by (cases bs rule: decode_valid.cases) (auto split: if_splits list.splits)

lemma decode_valid_append: "decode_valid p = Some rw \<Longrightarrow> decode_valid (p @ q) = Some rw"
  by (cases p rule: decode_valid.cases) (auto split: if_splits list.splits)

lemma DecodeRune_width: "1 \<le> snd (DecodeRune s)"
  by (auto simp: DecodeRune_def split: option.splits dest: decode_valid_width)

text \<open>\<open>for i, r := range s\<close>: each code point with the bytes it was read from.\<close>

function runes :: "string \<Rightarrow> (nat \<times> string) list" where
  "runes [] = []"
| "s \<noteq> [] \<Longrightarrow> runes s =
     (fst (DecodeRune s), take (snd (DecodeRune s)) s) # runes (drop (snd (DecodeRune s)) s)"
  by (metis, auto)
termination
proof (relation "measure length")
  fix s :: string
  assume "s \<noteq> []"
  then show "(drop (snd (DecodeRune s)) s, s) \<in> measure length"
    using DecodeRune_width [of s] by (simp add: Suc_le_eq)
qed simp

lemma runes_code [code]:
  "runes s =
     (if s = [] then []
      else (fst (DecodeRune s), take (snd (DecodeRune s)) s) # runes (drop (snd (DecodeRune s)) s))"
  by simp

definition encode_rune :: "nat \<Rightarrow> string" where
  "encode_rune r0 =
     (let r = (if 0x10FFFF < r0 \<or> (0xD800 \<le> r0 \<and> r0 \<le> 0xDFFF) then RuneError else r0)
      in map char_of
        (if r < 0x80 then [r]
         else if r < 0x800 then [0xC0 + r div 64, 0x80 + r mod 64]
         else if r < 0x10000 then [0xE0 + r div 4096, 0x80 + r div 64 mod 64, 0x80 + r mod 64]
         else [0xF0 + r div 262144, 0x80 + r div 4096 mod 64, 0x80 + r div 64 mod 64, 0x80 + r mod 64]))"

section \<open>Trimming and case\<close>

definition IsSpace :: "nat \<Rightarrow> bool" where
  "IsSpace r \<longleftrightarrow> r \<in> {9, 10, 11, 12, 13, 32, 0x85, 0xA0, 0x1680, 0x2028, 0x2029, 0x202F, 0x205F, 0x3000}
     \<or> (0x2000 \<le> r \<and> r \<le> 0x200A)"

definition trim_runes :: "(nat \<times> string) list \<Rightarrow> (nat \<times> string) list" where
  "trim_runes rs =
     rev (dropWhile (\<lambda>x. IsSpace (fst x)) (rev (dropWhile (\<lambda>x. IsSpace (fst x)) rs)))"

definition TrimSpace :: "string \<Rightarrow> string" where
  "TrimSpace s = concat (map snd (trim_runes (runes s)))"

text \<open>\<open>strings.Map\<close>: bytes that are no valid UTF-8 are mapped as U+FFFD and written back as it.\<close>

definition map_runes :: "(nat \<Rightarrow> nat) \<Rightarrow> string \<Rightarrow> string" where
  "map_runes f s = concat (map (\<lambda>x. encode_rune (f (fst x))) (runes s))"

definition lower_rune :: "(nat \<Rightarrow> nat) \<Rightarrow> nat \<Rightarrow> nat" where
  "lower_rune ulower r = (if r < 0x80 then (if 65 \<le> r \<and> r \<le> 90 then r + 32 else r) else ulower r)"

definition ToLower :: "(nat \<Rightarrow> nat) \<Rightarrow> string \<Rightarrow> string" where
  "ToLower ulower s = map_runes (lower_rune ulower) s"

lemma concat_runes [simp]: "concat (map snd (runes s)) = s"
  by (induction s rule: runes.induct) simp_all

text \<open>
  Segmentation is stable under cutting at a segment boundary, on either side: UTF-8 is
  self-synchronising.
\<close>

lemma DecodeRune_prefix:
  assumes "DecodeRune (p @ q) = (r, w)" and "w \<le> length p" and "p \<noteq> []"
  shows "DecodeRune p = (r, w)"
proof (cases "decode_valid (map of_char p :: nat list)")
  case (Some rw)
  then have "decode_valid (map of_char (p @ q) :: nat list) = Some rw"
    by (simp add: decode_valid_append)
  with Some assms(1) show ?thesis by (simp add: DecodeRune_def)
next
  case None
  show ?thesis
  proof (cases "decode_valid (map of_char (p @ q) :: nat list)")
    case None': None
    with None assms(1) show ?thesis by (simp add: DecodeRune_def)
  next
    case (Some rw)
    with assms(1) have rw: "rw = (r, w)" by (simp add: DecodeRune_def)
    have "decode_valid (map of_char p :: nat list) = Some (r, w)"
      using Some assms(2,3) unfolding rw
      by (cases "map of_char p :: nat list" rule: decode_valid.cases)
        (auto split: if_splits list.splits simp: Cons_eq_append_conv append_eq_Cons_conv)
    with None show ?thesis by simp
  qed
qed

lemma runes_drop: "runes (concat (map snd (drop k (runes s)))) = drop k (runes s)"
proof (induction s arbitrary: k rule: runes.induct)
  case 1
  show ?case by simp
next
  case (2 s)
  show ?case
  proof (cases k)
    case 0
    then show ?thesis by simp
  next
    case (Suc j)
    with 2 show ?thesis by simp
  qed
qed

lemma runes_take: "runes (concat (map snd (take k (runes s)))) = take k (runes s)"
proof (induction s arbitrary: k rule: runes.induct)
  case 1
  show ?case by simp
next
  case (2 s)
  show ?case
  proof (cases k)
    case 0
    then show ?thesis by simp
  next
    case (Suc j)
    let ?r = "fst (DecodeRune s)" and ?w = "snd (DecodeRune s)"
    let ?rest = "concat (map snd (take j (runes (drop ?w s))))"
    let ?p = "take ?w s @ ?rest"
    obtain q where q: "drop ?w s = ?rest @ q"
      by (metis append_take_drop_id concat_append concat_runes map_append)
    have w: "1 \<le> ?w" by (rule DecodeRune_width)
    have ne: "?p \<noteq> []" using w \<open>s \<noteq> []\<close> by auto
    have s: "s = ?p @ q" using q by (metis append.assoc append_take_drop_id)
    have wp: "?w \<le> length s"
      using \<open>s \<noteq> []\<close> by (auto simp: DecodeRune_def Suc_le_eq split: option.splits dest: decode_valid_width)
    have "DecodeRune ?p = (?r, ?w)"
      by (rule DecodeRune_prefix [where q = q]) (use s wp ne in \<open>simp_all\<close>)
    then have "runes ?p = (?r, take ?w s) # runes ?rest"
      using ne wp by (simp add: runes.simps(2))
    with 2 Suc show ?thesis by simp
  qed
qed

lemma trim_runes_cut: "\<exists>a b. trim_runes rs = take b (drop a rs)"
proof -
  let ?P = "\<lambda>x. IsSpace (fst x)"
  have "dropWhile ?P rs = drop (length (takeWhile ?P rs)) rs"
    by (rule dropWhile_eq_drop)
  moreover have "\<And>ys. rev (dropWhile ?P (rev ys)) = take (length ys - length (takeWhile ?P (rev ys))) ys"
    by (simp add: dropWhile_eq_drop rev_drop)
  ultimately show ?thesis unfolding trim_runes_def by metis
qed

lemma dropWhile_prefix_stable:
  assumes "dropWhile P rs = zs @ ts"
  shows "dropWhile P zs = zs"
proof (cases zs)
  case (Cons z zs')
  with assms have "dropWhile P rs = z # zs' @ ts" by simp
  then have "\<not> P z" by (rule dropWhile_eq_Cons_conv [THEN iffD1, THEN conjunct2])
  with Cons show ?thesis by simp
qed simp

lemma trim_runes_idem: "trim_runes (trim_runes rs) = trim_runes rs"
proof -
  define P where "P = (\<lambda>x :: nat \<times> string. IsSpace (fst x))"
  define zs where "zs = rev (dropWhile P (rev (dropWhile P rs)))"
  have "rev (dropWhile P rs) = takeWhile P (rev (dropWhile P rs)) @ rev zs"
    by (simp add: zs_def)
  then have "dropWhile P rs = zs @ rev (takeWhile P (rev (dropWhile P rs)))"
    by (metis rev_append rev_rev_ident)
  then have "dropWhile P zs = zs" by (rule dropWhile_prefix_stable)
  moreover have "dropWhile P (rev zs) = rev zs" by (simp add: zs_def)
  ultimately show ?thesis
    unfolding trim_runes_def P_def [symmetric] zs_def [symmetric] by simp
qed

lemma runes_TrimSpace: "runes (TrimSpace s) = trim_runes (runes s)"
proof -
  obtain a b where cut: "trim_runes (runes s) = take b (drop a (runes s))"
    using trim_runes_cut by blast
  have "drop a (runes s) = runes (concat (map snd (drop a (runes s))))"
    by (simp add: runes_drop)
  then show ?thesis unfolding TrimSpace_def cut by (metis runes_take)
qed

lemma TrimSpace_idem [simp]: "TrimSpace (TrimSpace s) = TrimSpace s"
  by (simp add: TrimSpace_def [of "TrimSpace s"] runes_TrimSpace trim_runes_idem)
    (simp add: TrimSpace_def)

end
