(* ===== verification/Go_Net.thy ===== *)
theory Go_Net
  imports Go_Strings
begin

text \<open>
  What the program uses of Go's packages \<open>net\<close> and \<open>net/netip\<close>: textual addresses,
  CIDR prefixes, masks and membership. An address is its bytes (four, or sixteen for IPv6),
  and the nil address is the empty list. \<open>ParseIP\<close> returns the sixteen-byte form, as Go's
  does, and \<open>To4\<close> reads an IPv4 address out of it.
\<close>

type_synonym ip = "byte list"

definition v4InV6Prefix :: "byte list" where
  "v4InV6Prefix = replicate 10 0 @ [0xFF, 0xFF]"

lemma length_v4InV6Prefix [simp]: "length v4InV6Prefix = 12"
  by (simp add: v4InV6Prefix_def)

definition To4 :: "ip \<Rightarrow> ip" where
  "To4 a =
     (if length a = 4 then a
      else if length a = 16 \<and> take 12 a = v4InV6Prefix then drop 12 a
      else [])"

definition ip_Equal :: "ip \<Rightarrow> ip \<Rightarrow> bool" where
  "ip_Equal a b =
     (if length a = length b then a = b
      else if length a = 4 \<and> length b = 16 then take 12 b = v4InV6Prefix \<and> a = drop 12 b
      else if length a = 16 \<and> length b = 4 then take 12 a = v4InV6Prefix \<and> drop 12 a = b
      else False)"

definition and_bytes :: "byte list \<Rightarrow> byte list \<Rightarrow> byte list" where
  "and_bytes a m = map2 (\<lambda>x y. x AND y) a m"

definition ip_Mask :: "ip \<Rightarrow> byte list \<Rightarrow> ip" where
  "ip_Mask a m =
     (let m' = (if length m = 16 \<and> length a = 4 \<and> take 12 m = replicate 12 0xFF then drop 12 m else m);
          a' = (if length m' = 4 \<and> length a = 16 \<and> take 12 a = v4InV6Prefix then drop 12 a else a)
      in if length a' \<noteq> length m' then [] else and_bytes a' m')"

definition CIDRMask :: "nat \<Rightarrow> nat \<Rightarrow> byte list" where
  "CIDRMask ones bits =
     map (\<lambda>i. if 8 * i + 8 \<le> ones then 255
              else if ones \<le> 8 * i then 0
              else of_nat (256 - 2 ^ (8 * i + 8 - ones))) [0..<bits div 8]"

record IPNet =
  net_IP :: ip
  net_Mask :: "byte list"

definition networkNumberAndMask :: "IPNet \<Rightarrow> ip \<times> byte list" where
  "networkNumberAndMask n =
     (let a = (if To4 (net_IP n) \<noteq> [] then To4 (net_IP n)
               else if length (net_IP n) = 16 then net_IP n else []);
          m = net_Mask n
      in if a = [] then ([], [])
         else if length m = 4 then (if length a = 4 then (a, m) else ([], []))
         else if length m = 16 then (a, if length a = 4 then drop 12 m else m)
         else ([], []))"

definition IPNet_Contains :: "IPNet \<Rightarrow> ip \<Rightarrow> bool" where
  "IPNet_Contains n a =
     (let (nn, m) = networkNumberAndMask n;
          a' = (if To4 a \<noteq> [] then To4 a else a)
      in length a' = length nn \<and> and_bytes nn m = and_bytes a' m)"

section \<open>Parsing\<close>

text \<open>
  Four decimal fields without leading zeros, each at most 255: \<open>v\<close> is the field read so
  far, \<open>d\<close> its number of digits, \<open>acc\<close> the finished fields.
\<close>

fun parse_fields :: "nat \<Rightarrow> nat \<Rightarrow> byte list \<Rightarrow> string \<Rightarrow> ip option" where
  "parse_fields v d acc [] = (if length acc < 3 then None else Some (acc @ [of_nat v]))"
| "parse_fields v d acc (c # cs) =
     (if is_digit c then
        (if d = 1 \<and> v = 0 then None
         else let v' = v * 10 + digit_val c
              in if 255 < v' then None else parse_fields v' (Suc d) acc cs)
      else if c = CHR ''.'' then
        (if d = 0 \<or> cs = [] \<or> length acc = 3 then None
         else parse_fields 0 0 (acc @ [of_nat v]) cs)
      else None)"

definition parse_ipv4 :: "string \<Rightarrow> ip option" where
  "parse_ipv4 s = parse_fields 0 0 [] s"

definition hex_val :: "char \<Rightarrow> nat option" where
  "hex_val c =
     (let n = of_char c :: nat
      in if 48 \<le> n \<and> n \<le> 57 then Some (n - 48)
         else if 97 \<le> n \<and> n \<le> 102 then Some (n - 87)
         else if 65 \<le> n \<and> n \<le> 70 then Some (n - 55)
         else None)"

definition is_hex :: "char \<Rightarrow> bool" where
  "is_hex c \<longleftrightarrow> hex_val c \<noteq> None"

definition hex_num :: "string \<Rightarrow> nat" where
  "hex_num s = foldl (\<lambda>a c. a * 16 + (case hex_val c of Some v \<Rightarrow> v | None \<Rightarrow> 0)) 0 s"

text \<open>
  The group loop of the IPv6 parser. \<open>a\<close> holds the bytes read so far, \<open>ell\<close> the position
  of the ellipsis; the result carries the unread rest of the text.
\<close>

function parse_groups :: "ip \<Rightarrow> nat option \<Rightarrow> string \<Rightarrow> (ip \<times> nat option \<times> string) option" where
  "parse_groups a ell s =
     (if 16 \<le> length a then Some (a, ell, s)
      else
        let g = takeWhile is_hex s; r = drop (length g) s
        in if g = [] \<or> 4 < length g then None
           else if r \<noteq> [] \<and> hd r = CHR ''.'' then
             (if (ell = None \<and> length a \<noteq> 12) \<or> 16 < length a + 4 then None
              else map_option (\<lambda>q. (a @ q, ell, [])) (parse_ipv4 s))
           else
             let a' = a @ be_bytes 2 (hex_num g)
             in if r = [] then Some (a', ell, [])
                else if hd r \<noteq> CHR '':'' \<or> length r = 1 then None
                else if hd (tl r) = CHR '':'' then
                  (if ell \<noteq> None then None
                   else if tl (tl r) = [] then Some (a', Some (length a'), [])
                   else parse_groups a' (Some (length a')) (tl (tl r)))
                else parse_groups a' ell (tl r))"
  by pat_completeness auto
termination
  by (relation "measure (\<lambda>(a, ell, s). 16 - length a)") auto

declare parse_groups.simps [simp del]

definition parse_ipv6 :: "string \<Rightarrow> (ip \<times> string) option" where
  "parse_ipv6 txt =
     (let (s0, zone, hasZone) = Cut txt (CHR ''%'')
      in if hasZone \<and> zone = [] then None
         else
           let lead = HasPrefix s0 ''::''; s = (if lead then drop 2 s0 else s0)
           in if lead \<and> s = [] then Some (replicate 16 0, zone)
              else case parse_groups [] (if lead then Some 0 else None) s of
                None \<Rightarrow> None
              | Some (a, ell, rest) \<Rightarrow>
                  if rest \<noteq> [] then None
                  else if length a < 16 then
                    (case ell of
                       None \<Rightarrow> None
                     | Some e \<Rightarrow> Some (take e a @ replicate (16 - length a) 0 @ drop e a, zone))
                  else if ell \<noteq> None then None
                  else Some (a, zone))"

text \<open>A parsed \<open>netip.Addr\<close>: four bytes, or sixteen with a zone.\<close>

datatype addr = A4 ip | A6 ip string

definition ParseAddr :: "string \<Rightarrow> addr option" where
  "ParseAddr s =
     (case filter (\<lambda>c. c \<in> {CHR ''.'', CHR '':'', CHR ''%''}) s of
        [] \<Rightarrow> None
      | c # _ \<Rightarrow>
          if c = CHR ''.'' then map_option A4 (parse_ipv4 s)
          else if c = CHR '':'' then map_option (\<lambda>(a, z). A6 a z) (parse_ipv6 s)
          else None)"

fun addr_As16 :: "addr \<Rightarrow> ip" where
  "addr_As16 (A4 a) = v4InV6Prefix @ a"
| "addr_As16 (A6 a z) = a"

fun addr_zone :: "addr \<Rightarrow> string" where
  "addr_zone (A4 a) = []"
| "addr_zone (A6 a z) = z"

fun addr_BitLen :: "addr \<Rightarrow> nat" where
  "addr_BitLen (A4 a) = 32"
| "addr_BitLen (A6 a z) = 128"

text \<open>\<open>Addr.As4\<close>: \<open>None\<close> is its panic on an IPv6 address that is not an IPv4-mapped one.\<close>

fun addr_As4 :: "addr \<Rightarrow> ip option" where
  "addr_As4 (A4 a) = Some a"
| "addr_As4 (A6 a z) = (if To4 a \<noteq> [] then Some (To4 a) else None)"

definition ParseIP :: "string \<Rightarrow> ip" where
  "ParseIP s =
     (case ParseAddr s of
        None \<Rightarrow> []
      | Some a \<Rightarrow> if addr_zone a \<noteq> [] then [] else addr_As16 a)"

definition ParseCIDR :: "string \<Rightarrow> (ip \<times> IPNet) option" where
  "ParseCIDR s =
     (let (a, mask, found) = Cut s (CHR ''/'')
      in if \<not> found then None
         else case ParseAddr a of
           None \<Rightarrow> None
         | Some ad \<Rightarrow>
             if addr_zone ad \<noteq> [] then None
             else if mask = [] \<or> \<not> list_all is_digit mask \<or> addr_BitLen ad < atoi mask then None
             else let m = CIDRMask (atoi mask) (addr_BitLen ad); a16 = addr_As16 ad
                  in Some (a16, \<lparr>net_IP = ip_Mask a16 m, net_Mask = m\<rparr>))"

section \<open>Printing\<close>

text \<open>\<open>IP.String\<close> of a four-byte address.\<close>

definition ip4_String :: "ip \<Rightarrow> string" where
  "ip4_String a =
     itoa (unat (a ! 0)) @ ''.'' @ itoa (unat (a ! 1)) @ ''.'' @
     itoa (unat (a ! 2)) @ ''.'' @ itoa (unat (a ! 3))"

lemma length4_exhaust: "length a = 4 \<Longrightarrow> \<exists>w x y z. a = [w, x, y, z]"
  by (auto simp: numeral_eq_Suc length_Suc_conv)

lemma itoa_lt10: "n < 10 \<Longrightarrow> itoa n = [char_of (48 + n)]"
  by (simp add: itoa.simps [of n])

lemma itoa_lt100: "10 \<le> n \<Longrightarrow> n < 100 \<Longrightarrow> itoa n = [char_of (48 + n div 10), char_of (48 + n mod 10)]"
  by (simp add: itoa.simps [of n] itoa_lt10)

lemma itoa_lt1000:
  assumes "100 \<le> n" and "n < 1000"
  shows "itoa n = [char_of (48 + n div 100), char_of (48 + n div 10 mod 10), char_of (48 + n mod 10)]"
proof -
  have "10 \<le> n div 10" and "n div 10 < 100" and "n div 10 div 10 = n div 100"
    using assms by simp_all
  then show ?thesis using assms by (simp add: itoa.simps [of n] itoa_lt100)
qed

text \<open>Reading a printed field leaves its value and a non-zero digit count.\<close>

lemma parse_fields_itoa:
  assumes "n < 256"
  shows "\<exists>d. 0 < d \<and> parse_fields 0 0 acc (itoa n @ rest) = parse_fields n d acc rest"
proof -
  consider (a) "n < 10" | (b) "10 \<le> n" "n < 100" | (c) "100 \<le> n" "n < 256"
    using assms by linarith
  then show ?thesis
  proof cases
    case a
    then have "parse_fields 0 0 acc (itoa n @ rest) = parse_fields n 1 acc rest"
      by (simp add: itoa_lt10)
    then show ?thesis by (metis zero_less_one)
  next
    case b
    then have "n div 10 \<noteq> 0" "n div 10 < 10" "n div 10 < 256" "n div 10 * 10 + n mod 10 = n"
      by simp_all
    then have "parse_fields 0 0 acc (itoa n @ rest) = parse_fields n 2 acc rest"
      using b by (auto simp: itoa_lt100 Let_def numeral_2_eq_2)
    then show ?thesis by (metis zero_less_numeral)
  next
    case c
    have e: "n div 100 * 10 + n div 10 mod 10 = n div 10"
      using div_mult2_eq [of n 10 10] by simp
    have d: "n div 100 \<noteq> 0" "n div 100 < 10" "n div 100 < 256" "n div 10 mod 10 < 10"
      "n div 10 * 10 + n mod 10 = n" "n div 10 < 256"
      using c by simp_all
    have "itoa n = [char_of (48 + n div 100), char_of (48 + n div 10 mod 10), char_of (48 + n mod 10)]"
      using c by (simp add: itoa_lt1000)
    then have "parse_fields 0 0 acc (itoa n @ rest) = parse_fields n 3 acc rest"
      using c d e by (auto simp: Let_def numeral_3_eq_3)
    then show ?thesis by (metis zero_less_numeral)
  qed
qed

lemma parse_fields_last:
  "n < 256 \<Longrightarrow> length acc = 3 \<Longrightarrow> parse_fields 0 0 acc (itoa n) = Some (acc @ [of_nat n])"
  using parse_fields_itoa [of n acc "[]"] by auto

lemma parse_fields_dot:
  assumes "n < 256" and "length acc < 3" and "cs \<noteq> []"
  shows "parse_fields 0 0 acc (itoa n @ CHR ''.'' # cs) = parse_fields 0 0 (acc @ [of_nat n]) cs"
  using parse_fields_itoa [OF assms(1), of acc "CHR ''.'' # cs"] assms(2,3)
  by (auto simp: is_digit_def)

lemma parse_ipv4_String:
  assumes "length a = 4"
  shows "parse_ipv4 (ip4_String a) = Some a"
proof -
  obtain w x y z where a: "a = [w, x, y, z]" using length4_exhaust [OF assms] by blast
  show ?thesis
    unfolding a parse_ipv4_def ip4_String_def by (simp add: parse_fields_dot parse_fields_last)
qed

lemma digit_not_sep: "is_digit c \<Longrightarrow> c \<noteq> CHR ''.'' \<and> c \<noteq> CHR '':'' \<and> c \<noteq> CHR ''%'' \<and> c \<noteq> CHR ''/''"
  by (auto simp: is_digit_def)

lemma filter_itoa_sep: "filter (\<lambda>c. c \<in> {CHR ''.'', CHR '':'', CHR ''%''}) (itoa n) = []"
  using itoa_digits [of n] by (auto simp: filter_empty_conv dest: digit_not_sep)

lemma ParseAddr_String:
  assumes "length a = 4"
  shows "ParseAddr (ip4_String a) = Some (A4 a)"
proof -
  have "\<exists>r. filter (\<lambda>c. c \<in> {CHR ''.'', CHR '':'', CHR ''%''}) (ip4_String a) = CHR ''.'' # r"
    unfolding ip4_String_def by (simp only: filter_append filter_itoa_sep) simp
  with parse_ipv4_String [OF assms] show ?thesis by (auto simp: ParseAddr_def)
qed

lemma To4_ParseIP_String [simp]: "length a = 4 \<Longrightarrow> To4 (ParseIP (ip4_String a)) = a"
  by (simp add: ParseIP_def ParseAddr_String To4_def)

lemma ip4_String_inj: "length a = 4 \<Longrightarrow> length b = 4 \<Longrightarrow> ip4_String a = ip4_String b \<Longrightarrow> a = b"
  by (metis To4_ParseIP_String)

lemma length_To4: "length (To4 a) = 4 \<or> To4 a = []"
  by (auto simp: To4_def)

end
