(* ===== verification/Vpn_Packet.thy ===== *)
theory Vpn_Packet
  imports Checksum Wire_Protocol Go_Net "HOL-Library.Monad_Syntax"
begin

text \<open>
  The packet object of \<open>src/vpn/packet.go\<close>. The fields \<open>Packet\<close>, \<open>Src\<close> and
  \<open>Dst\<close> of the Go struct are slices of some packet's \<open>Buffer\<close>, so a packet lives in a
  heap of packet objects and a slice is a base object, an offset and a length: writing through
  one slice is visible through the others. A slice expression or an index out of range, which
  panics in Go, is \<open>None\<close>.
\<close>

section \<open>Sizes\<close>

definition InterfaceMTU :: nat where
  "InterfaceMTU = 3500"

definition maxContentSize :: nat where
  "maxContentSize = InterfaceMTU + 100"

definition tunPacketOffset :: nat where
  "tunPacketOffset = 14"

definition IPProtocolTCP :: byte where
  "IPProtocolTCP = 6"

definition IPProtocolUDP :: byte where
  "IPProtocolUDP = 17"

definition ipv4offsetChecksum :: nat where
  "ipv4offsetChecksum = 10"

lemmas packet_consts = InterfaceMTU_def maxContentSize_def tunPacketOffset_def
  IPProtocolTCP_def IPProtocolUDP_def ipv4offsetChecksum_def

section \<open>Slices of a packet buffer\<close>

record slc =
  sl_base :: nat
  sl_off :: nat
  sl_len :: nat

record Packet =
  pk_Buffer :: "byte list"
  pk_Packet :: "slc option"
  pk_Src :: "slc option"
  pk_Dst :: "slc option"
  pk_IsIPv6 :: bool
  pk_IPProtocol :: byte

type_synonym heap = "nat \<Rightarrow> Packet"

definition zero_Packet :: Packet where
  "zero_Packet = \<lparr>pk_Buffer = replicate maxContentSize 0, pk_Packet = None, pk_Src = None,
     pk_Dst = None, pk_IsIPv6 = False, pk_IPProtocol = 0\<rparr>"

fun slc_len :: "slc option \<Rightarrow> nat" where
  "slc_len None = 0"
| "slc_len (Some s) = sl_len s"

fun slc_bytes :: "heap \<Rightarrow> slc option \<Rightarrow> byte list" where
  "slc_bytes h None = []"
| "slc_bytes h (Some s) = go_slice (pk_Buffer (h (sl_base s))) (sl_off s) (sl_off s + sl_len s)"

definition put_buf :: "heap \<Rightarrow> nat \<Rightarrow> nat \<Rightarrow> byte list \<Rightarrow> heap" where
  "put_buf h a i bs = h(a := (h a)\<lparr>pk_Buffer := blit (pk_Buffer (h a)) i bs\<rparr>)"

text \<open>The built-in \<open>copy\<close> to a slice; to a nil slice it does nothing.\<close>

fun slc_copy :: "heap \<Rightarrow> slc option \<Rightarrow> byte list \<Rightarrow> heap" where
  "slc_copy h None bs = h"
| "slc_copy h (Some s) bs = put_buf h (sl_base s) (sl_off s) (take (sl_len s) bs)"

text \<open>\<open>s[lo:]\<close>, \<open>s[:hi]\<close> (allowed up to the capacity) and \<open>s[i]\<close>.\<close>

definition slc_from :: "slc \<Rightarrow> nat \<Rightarrow> slc option" where
  "slc_from s lo =
     (if lo \<le> sl_len s then Some (s\<lparr>sl_off := sl_off s + lo, sl_len := sl_len s - lo\<rparr>) else None)"

definition slc_upto :: "slc \<Rightarrow> nat \<Rightarrow> slc option" where
  "slc_upto s hi = (if sl_off s + hi \<le> maxContentSize then Some (s\<lparr>sl_len := hi\<rparr>) else None)"

definition slc_nth :: "heap \<Rightarrow> slc \<Rightarrow> nat \<Rightarrow> byte option" where
  "slc_nth h s i =
     (if i < sl_len s then Some (pk_Buffer (h (sl_base s)) ! (sl_off s + i)) else None)"

text \<open>\<open>binary.BigEndian.PutUint16\<close> panics on a slice shorter than two bytes.\<close>

definition PutUint16 :: "heap \<Rightarrow> slc \<Rightarrow> u16 \<Rightarrow> heap option" where
  "PutUint16 h s v =
     (if 2 \<le> sl_len s then Some (slc_copy h (Some s) (be_bytes 2 (unat v))) else None)"

section \<open>Operations\<close>

definition clear :: "heap \<Rightarrow> nat \<Rightarrow> heap" where
  "clear h a = h(a := (h a)\<lparr>pk_Packet := None, pk_Src := None, pk_Dst := None,
     pk_IsIPv6 := False, pk_IPProtocol := 0\<rparr>)"

text \<open>
  The struct assignment copies the buffer but only the headers of the slices: \<open>Packet\<close> is
  then set to the new buffer, \<open>Src\<close> and \<open>Dst\<close> still point into the source's.
\<close>

definition CopyTo :: "heap \<Rightarrow> nat \<Rightarrow> nat \<Rightarrow> heap option" where
  "CopyTo h a c =
     (let n = slc_len (pk_Packet (h a))
      in if n + tunPacketOffset \<le> maxContentSize
         then Some (h(c := (h a)\<lparr>pk_Packet :=
                Some \<lparr>sl_base = c, sl_off = tunPacketOffset, sl_len = n\<rparr>\<rparr>))
         else None)"

definition Parse :: "heap \<Rightarrow> nat \<Rightarrow> bool \<times> heap" where
  "Parse h a =
     (case pk_Packet (h a) of
        None \<Rightarrow> (False, h)
      | Some s \<Rightarrow>
          if sl_len s = 0 then (False, h)
          else
            let packet = slc_bytes h (Some s); version = drop_bit 4 (packet ! 0) in
            if version = 4 then
              if length packet < 20 then (False, h)
              else (True, h(a := (h a)\<lparr>
                pk_Src := Some (s\<lparr>sl_off := sl_off s + 12, sl_len := 4\<rparr>),
                pk_Dst := Some (s\<lparr>sl_off := sl_off s + 16, sl_len := 4\<rparr>),
                pk_IsIPv6 := False,
                pk_IPProtocol := packet ! 9\<rparr>))
            else if version = 6 then
              if length packet < 40 then (False, h)
              else (True, h(a := (h a)\<lparr>
                pk_Src := Some (s\<lparr>sl_off := sl_off s + 8, sl_len := 16\<rparr>),
                pk_Dst := Some (s\<lparr>sl_off := sl_off s + 24, sl_len := 16\<rparr>),
                pk_IsIPv6 := True\<rparr>))
            else (False, h))"

definition header_len :: "byte \<Rightarrow> nat" where
  "header_len b0 = 4 * unat (b0 AND 0x0F)"

text \<open>Zero the field, sum the header, store the checksum.\<close>

definition fix_header :: "heap \<Rightarrow> slc \<Rightarrow> nat \<Rightarrow> heap option" where
  "fix_header h s ihl = do {
     f \<leftarrow> slc_from s ipv4offsetChecksum;
     let h1 = slc_copy h (Some f) [0, 0];
     hdr \<leftarrow> slc_upto s ihl;
     PutUint16 h1 f (checksumIPv4Header (slc_bytes h1 (Some hdr)))
   }"

text \<open>The same for the transport checksum at offset \<open>field\<close> of the segment.\<close>

definition fix_transport :: "heap \<Rightarrow> slc \<Rightarrow> nat \<Rightarrow> nat \<Rightarrow> byte \<Rightarrow> slc option \<Rightarrow> slc option \<Rightarrow> heap option" where
  "fix_transport h s ihl field protocol src dst = do {
     f \<leftarrow> slc_from s (ihl + field);
     let h1 = slc_copy h (Some f) [0, 0];
     seg \<leftarrow> slc_from s ihl;
     v \<leftarrow> checksumIPv4TCPUDP (slc_bytes h1 (Some seg)) (ucast protocol)
           (slc_bytes h1 src) (slc_bytes h1 dst);
     PutUint16 h1 f v
   }"

definition RecalculateChecksum :: "heap \<Rightarrow> nat \<Rightarrow> heap option" where
  "RecalculateChecksum h a =
     (if pk_IsIPv6 (h a) then Some h
      else do {
        s \<leftarrow> pk_Packet (h a);
        b0 \<leftarrow> slc_nth h s 0;
        let ihl = header_len b0;
        h1 \<leftarrow> fix_header h s ihl;
        protocol \<leftarrow> slc_nth h1 s 9;
        (if protocol = IPProtocolTCP
         then fix_transport h1 s ihl 16 protocol (pk_Src (h1 a)) (pk_Dst (h1 a))
         else if protocol = IPProtocolUDP
         then fix_transport h1 s ihl 6 protocol (pk_Src (h1 a)) (pk_Dst (h1 a))
         else Some h1)
      })"

text \<open>
  \<open>network | ^mask\<close> byte by byte; the length is that of the four-byte form but the bytes are
  read from \<open>ipNet.IP\<close> itself. \<open>None\<close> is the index panic on a short mask.
\<close>

definition GetIPv4BroadcastAddress :: "IPNet \<Rightarrow> ip option" where
  "GetIPv4BroadcastAddress ipNet =
     (let n = length (To4 (net_IP ipNet))
      in if n \<le> length (net_Mask ipNet)
         then Some (map (\<lambda>i. net_IP ipNet ! i OR NOT (net_Mask ipNet ! i)) [0..<n])
         else None)"

section \<open>Reading a packet from a stream\<close>

text \<open>
  A reader returns the bytes it read, an optional error and its next state. The loop of
  \<open>ReadFrom\<close> has no bound of its own, so it is a \<open>partial_function\<close>; \<open>None\<close>
  means that it never returns.
\<close>

type_synonym 'r read_fn = "'r \<Rightarrow> nat \<Rightarrow> byte list \<times> rerr option \<times> 'r"

partial_function (option) read_loop ::
    "'r read_fn \<Rightarrow> byte list \<Rightarrow> nat \<Rightarrow> 'r \<Rightarrow> (byte list \<times> nat \<times> rerr option \<times> 'r) option" where
  "read_loop rd buf totalRead r =
     (case rd r (length buf - totalRead) of (bs, err, r') \<Rightarrow>
        if err = Some EOF then Some (blit buf totalRead bs, totalRead + length bs, None, r')
        else if err \<noteq> None then Some (blit buf totalRead bs, totalRead + length bs, err, r')
        else read_loop rd (blit buf totalRead bs) (totalRead + length bs) r')"

declare read_loop.simps [code]

definition ReadFrom :: "'r read_fn \<Rightarrow> heap \<Rightarrow> nat \<Rightarrow> 'r \<Rightarrow> (nat \<times> rerr option \<times> heap \<times> 'r) option" where
  "ReadFrom rd h a r =
     (case read_loop rd (pk_Buffer (h a)) tunPacketOffset r of
        None \<Rightarrow> None
      | Some (buf, totalRead, err, r') \<Rightarrow>
          let n = totalRead - tunPacketOffset
          in Some (n, err,
               h(a := (if err = None
                       then (h a)\<lparr>pk_Buffer := buf, pk_Packet :=
                              Some \<lparr>sl_base = a, sl_off = tunPacketOffset, sl_len = n\<rparr>\<rparr>
                       else (h a)\<lparr>pk_Buffer := buf\<rparr>)), r'))"

text \<open>\<open>io.LimitedReader\<close> of the standard library.\<close>

record 'r LimitedReader =
  lr_R :: 'r
  lr_N :: int

definition limited_Read :: "'r read_fn \<Rightarrow> 'r LimitedReader read_fn" where
  "limited_Read rd l n =
     (if lr_N l \<le> 0 then ([], Some EOF, l)
      else case rd (lr_R l) (if int n > lr_N l then nat (lr_N l) else n) of
        (bs, err, r') \<Rightarrow> (bs, err, l\<lparr>lr_R := r', lr_N := lr_N l - int (length bs)\<rparr>))"

text \<open>
  A network stream delivers its bytes in pieces whose sizes the network chooses:
  \<open>ns_chunks\<close> holds the sizes of the next reads. A read into an empty buffer returns
  nothing and no error, as the contract of \<open>io.Reader\<close> allows.
\<close>

record net_stream = stream +
  ns_chunks :: "nat list"

definition net_Read :: "net_stream read_fn" where
  "net_Read s n =
     (if n = 0 then ([], None, s)
      else if st_bytes s = [] then ([], Some (st_end s), s)
      else let k = (case ns_chunks s of [] \<Rightarrow> n | c # _ \<Rightarrow> min n (max 1 c))
           in (take k (st_bytes s), None,
               s\<lparr>st_bytes := drop k (st_bytes s), ns_chunks := tl (ns_chunks s)\<rparr>))"

section \<open>Laws of the buffer\<close>

lemma slice_blit_inside:
  assumes "i + length xs \<le> L" and "p + L \<le> length b"
  shows "go_slice (blit b (p + i) xs) p (p + L) = blit (go_slice b p (p + L)) i xs"
  using assms by (intro nth_equalityI) (auto simp: nth_slice nth_blit)

text \<open>The checksum of \<open>L\<close> bytes from \<open>p\<close>, stored in its own zeroed field at \<open>p + i\<close>.\<close>

definition set_csum :: "byte list \<Rightarrow> nat \<Rightarrow> nat \<Rightarrow> nat \<Rightarrow> u32 \<Rightarrow> byte list" where
  "set_csum b p L i csum =
     (let z = blit b (p + i) [0, 0]
      in blit z (p + i) (be_bytes 2 (unat (tcpipChecksum (go_slice z p (p + L)) csum))))"

lemma length_set_csum [simp]: "p + i \<le> length b \<Longrightarrow> length (set_csum b p L i csum) = length b"
  by (simp add: set_csum_def Let_def)

lemma nth_set_csum:
  "p + i \<le> length b \<Longrightarrow> k < length b \<Longrightarrow> k < p + i \<or> p + i + 2 \<le> k \<Longrightarrow>
     set_csum b p L i csum ! k = b ! k"
  by (auto simp: set_csum_def Let_def nth_blit)

lemma slice_set_csum_other:
  assumes "p + i \<le> length b" and "j \<le> p + i \<or> p + i + 2 \<le> k"
  shows "go_slice (set_csum b p L i csum) k j = go_slice b k j"
  using assms by (intro nth_equalityI) (auto simp: nth_slice intro!: nth_set_csum)

lemma set_csum_verifies:
  assumes "even i" and "i + 2 \<le> L" and "p + L \<le> length b" and "length b \<le> maxContentSize"
    and "unat csum < 2 ^ 19"
  shows "tcpipChecksum (go_slice (set_csum b p L i csum) p (p + L)) csum = 0"
proof -
  let ?z = "blit (go_slice b p (p + L)) i [0, 0]"
  have z: "go_slice (blit b (p + i) [0, 0]) p (p + L) = ?z"
    using assms by (intro slice_blit_inside) simp_all
  have len: "length ?z = L" using assms by simp
  have "(length ?z + 1) div 2 \<le> 1801" using assms len by (simp add: packet_consts)
  then have "nsum ?z \<le> 65535 * 1801" using nsum_bound [of ?z] by (meson le_trans mult_le_mono2)
  then have small: "unat csum + nsum ?z + 65535 < 2 ^ 32" using assms(5) by simp
  have zero: "go_slice ?z i (i + 2) = [0, 0]"
    using slice_blit_same [of i "[0, 0]" "go_slice b p (p + L)"] assms by simp
  have "go_slice (set_csum b p L i csum) p (p + L) =
      blit (go_slice (blit b (p + i) [0, 0]) p (p + L)) i (be_bytes 2 (unat (tcpipChecksum ?z csum)))"
    unfolding set_csum_def Let_def z using assms by (intro trans [OF slice_blit_inside]) (simp_all add: z)
  then show ?thesis
    using checksum_verifies [of i ?z csum] assms(1,2) len zero small by (simp add: z)
qed

section \<open>Layout of a parsed packet\<close>

definition packet_ok :: "heap \<Rightarrow> nat \<Rightarrow> nat \<Rightarrow> bool" where
  "packet_ok h a n \<longleftrightarrow> length (pk_Buffer (h a)) = maxContentSize \<and>
     pk_Packet (h a) = Some \<lparr>sl_base = a, sl_off = tunPacketOffset, sl_len = n\<rparr> \<and>
     n + tunPacketOffset \<le> maxContentSize"

definition parsed4 :: "heap \<Rightarrow> nat \<Rightarrow> nat \<Rightarrow> bool" where
  "parsed4 h a n \<longleftrightarrow> packet_ok h a n \<and> 20 \<le> n \<and> \<not> pk_IsIPv6 (h a) \<and>
     pk_Src (h a) = Some \<lparr>sl_base = a, sl_off = tunPacketOffset + 12, sl_len = 4\<rparr> \<and>
     pk_Dst (h a) = Some \<lparr>sl_base = a, sl_off = tunPacketOffset + 16, sl_len = 4\<rparr>"

text \<open>Header length and protocol as stored in the buffer.\<close>

definition buf_ihl :: "byte list \<Rightarrow> nat" where
  "buf_ihl b = header_len (b ! tunPacketOffset)"

definition buf_proto :: "byte list \<Rightarrow> byte" where
  "buf_proto b = b ! (tunPacketOffset + 9)"

abbreviation set_buf :: "heap \<Rightarrow> nat \<Rightarrow> byte list \<Rightarrow> heap" where
  "set_buf h a b \<equiv> h(a := (h a)\<lparr>pk_Buffer := b\<rparr>)"

lemma header_len_bound: "header_len b \<le> 60"
proof -
  have "b AND 0x0F = take_bit 4 b" by (simp only: take_bit_eq_mask) (simp add: mask_eq_exp_minus_1)
  then have "unat (b AND 0x0F) = unat b mod 16" by (simp add: take_bit_eq_mod unat_mod)
  moreover have "unat b mod 16 < 16" by simp
  ultimately have "unat (b AND 0x0F) \<le> 15" by linarith
  then show ?thesis by (simp add: header_len_def)
qed

lemma header_len_even [simp]: "even (header_len b)"
  by (simp add: header_len_def)

lemma fix_header_eq:
  assumes "packet_ok h a n" and "12 \<le> n" and "ihl \<le> 60"
    and s: "s = \<lparr>sl_base = a, sl_off = tunPacketOffset, sl_len = n\<rparr>"
  shows "fix_header h s ihl =
           Some (set_buf h a (set_csum (pk_Buffer (h a)) tunPacketOffset ihl ipv4offsetChecksum 0))"
  using assms
  by (auto simp: fix_header_def slc_from_def slc_upto_def PutUint16_def put_buf_def packet_ok_def
      packet_consts set_csum_def Let_def checksumIPv4Header_eq)

lemma fix_transport_eq:
  assumes "packet_ok h a n" and "ihl + field + 2 \<le> n" and "20 \<le> ihl"
    and s: "s = \<lparr>sl_base = a, sl_off = tunPacketOffset, sl_len = n\<rparr>"
    and src: "src = Some \<lparr>sl_base = a, sl_off = tunPacketOffset + 12, sl_len = 4\<rparr>"
    and dst: "dst = Some \<lparr>sl_base = a, sl_off = tunPacketOffset + 16, sl_len = 4\<rparr>"
  shows "fix_transport h s ihl field p src dst =
           Some (set_buf h a (set_csum (pk_Buffer (h a)) (tunPacketOffset + ihl) (n - ihl) field
             (pseudo_sum (n - ihl) (ucast p) (slc_bytes h src) (slc_bytes h dst))))"
proof -
  have *: "slc_bytes (set_buf h a (blit (pk_Buffer (h a)) (14 + (ihl + field)) [0, 0])) src = slc_bytes h src"
    "slc_bytes (set_buf h a (blit (pk_Buffer (h a)) (14 + (ihl + field)) [0, 0])) dst = slc_bytes h dst"
    using assms by (simp_all add: packet_ok_def packet_consts slice_blit_before)
  have l: "length (slc_bytes h src) = 4" "length (slc_bytes h dst) = 4"
    using assms by (simp_all add: packet_ok_def packet_consts)
  have t: "14 + ihl + (n - ihl) = 14 + n" "min (n - ihl) (maxContentSize - (14 + ihl)) = n - ihl"
    using assms by (auto simp: packet_ok_def packet_consts min_def)
  show ?thesis
    using assms(1,2) l
    by (simp add: fix_transport_def slc_from_def PutUint16_def put_buf_def s checksumIPv4TCPUDP_def
        Let_def set_csum_def * t packet_ok_def tunPacketOffset_def add.assoc)
qed

lemma fix_transport_None_iff:
  assumes "parsed4 h a n" and s: "s = \<lparr>sl_base = a, sl_off = tunPacketOffset, sl_len = n\<rparr>"
  shows "fix_transport h s ihl field p (pk_Src (h a)) (pk_Dst (h a)) = None \<longleftrightarrow> n < ihl + field + 2"
proof -
  have l: "length (slc_bytes (put_buf h a k xs) (pk_Src (h a))) = 4"
    "length (slc_bytes (put_buf h a k xs) (pk_Dst (h a))) = 4" if "k \<le> maxContentSize" for k xs
    using assms that by (simp_all add: parsed4_def packet_ok_def packet_consts put_buf_def)
  have k: "tunPacketOffset + (ihl + field) \<le> maxContentSize" if "ihl + field \<le> n"
    using that assms by (simp add: parsed4_def packet_ok_def)
  show ?thesis
    using k
    by (auto simp: fix_transport_def slc_from_def PutUint16_def s checksumIPv4TCPUDP_def Let_def
        l split: if_splits)
qed

lemma parsed4_set_csum:
  assumes "parsed4 h a n" and "p + i \<le> maxContentSize"
  shows "parsed4 (set_buf h a (set_csum (pk_Buffer (h a)) p L i csum)) a n"
  using assms by (simp add: parsed4_def packet_ok_def)

lemma slc_nth_buf:
  "packet_ok h a n \<Longrightarrow> i < n \<Longrightarrow> s = \<lparr>sl_base = a, sl_off = tunPacketOffset, sl_len = n\<rparr> \<Longrightarrow>
     slc_nth h s i = Some (pk_Buffer (h a) ! (tunPacketOffset + i))"
  by (simp add: slc_nth_def)

text \<open>The whole routine on a parsed IPv4 packet: header first, then the transport checksum.\<close>

lemma RecalculateChecksum_parsed:
  assumes p: "parsed4 h a n"
    and "b = pk_Buffer (h a)" and "b1 = set_csum b tunPacketOffset (buf_ihl b) ipv4offsetChecksum 0"
    and "h1 = set_buf h a b1"
    and s: "s = \<lparr>sl_base = a, sl_off = tunPacketOffset, sl_len = n\<rparr>"
  shows "RecalculateChecksum h a =
     (if buf_proto b = IPProtocolTCP
      then fix_transport h1 s (buf_ihl b) 16 IPProtocolTCP (pk_Src (h1 a)) (pk_Dst (h1 a))
      else if buf_proto b = IPProtocolUDP
      then fix_transport h1 s (buf_ihl b) 6 IPProtocolUDP (pk_Src (h1 a)) (pk_Dst (h1 a))
      else Some h1)"
proof -
  have ok: "packet_ok h a n" "20 \<le> n" "\<not> pk_IsIPv6 (h a)" "pk_Packet (h a) = Some s"
    using p by (simp_all add: parsed4_def packet_ok_def s)
  have b0: "slc_nth h s 0 = Some (b ! tunPacketOffset)"
    using ok assms by (simp add: slc_nth_buf)
  have f: "fix_header h s (buf_ihl b) = Some h1"
    using ok assms fix_header_eq [of h a n "buf_ihl b" s] header_len_bound
    by (simp add: buf_ihl_def)
  have "b1 ! (tunPacketOffset + 9) = b ! (tunPacketOffset + 9)"
    using ok assms by (simp add: packet_ok_def nth_set_csum packet_consts)
  then have "slc_nth h1 s 9 = Some (buf_proto b)"
    using ok assms by (simp add: slc_nth_def buf_proto_def)
  then show ?thesis
    using ok b0 f by (simp add: RecalculateChecksum_def buf_ihl_def Let_def)
qed

lemma RecalculateChecksum_None_iff:
  assumes "parsed4 h a n" and "b = pk_Buffer (h a)"
  shows "RecalculateChecksum h a = None \<longleftrightarrow>
     buf_proto b = IPProtocolTCP \<and> n < buf_ihl b + 18 \<or>
     buf_proto b = IPProtocolUDP \<and> n < buf_ihl b + 8"
proof -
  define h1 where "h1 = set_buf h a (set_csum b tunPacketOffset (buf_ihl b) ipv4offsetChecksum 0)"
  have "parsed4 h1 a n"
    using assms parsed4_set_csum [of h a n] by (simp add: h1_def packet_consts)
  note none = fix_transport_None_iff [OF this refl]
  show ?thesis
    unfolding RecalculateChecksum_parsed [OF assms(1,2) refl h1_def refl]
    by (auto simp: none IPProtocolTCP_def IPProtocolUDP_def)
qed


section \<open>The receiver's check\<close>

text \<open>
  RFC 1071: a block with its checksum is intact when the ones' complement sum of its 16-bit
  words is all ones, that is a non-zero multiple of 65535. RFC 793 and 768 sum the segment
  behind a pseudo header of the two addresses, the protocol and the segment's length.
\<close>

definition ones_ok :: "byte list \<Rightarrow> bool" where
  "ones_ok bs \<longleftrightarrow> nsum bs \<noteq> 0 \<and> nsum bs mod 65535 = 0"

definition pseudo_header :: "byte list \<Rightarrow> nat \<Rightarrow> byte list" where
  "pseudo_header bs ihl = go_slice bs 12 20 @ [0, bs ! 9] @ be_bytes 2 (length bs - ihl)"

definition ipv4_valid :: "byte list \<Rightarrow> bool" where
  "ipv4_valid bs \<longleftrightarrow>
     (let ihl = header_len (bs ! 0)
      in ones_ok (take ihl bs) \<and>
         (bs ! 9 \<in> {6, 17} \<longrightarrow> ones_ok (pseudo_header bs ihl @ drop ihl bs)))"

lemma ones_ok_tcpipChecksum:
  assumes "unat csum = nsum pre" and "even (length pre)" and "unat csum < 2 ^ 19"
    and "length bs \<le> maxContentSize" and "tcpipChecksum bs csum = 0"
  shows "ones_ok (pre @ bs)"
proof -
  have "(length bs + 1) div 2 \<le> 1801" using assms by (simp add: packet_consts)
  then have "nsum bs \<le> 65535 * 1801" using nsum_bound [of bs] by (meson le_trans mult_le_mono2)
  then have "unat (sum16 csum bs) = nsum (pre @ bs)"
    using assms by (simp add: unat_sum16 nsum_append)
  then show ?thesis using assms(5) by (simp add: tcpipChecksum_zero_iff ones_ok_def)
qed

lemma nsum_be_bytes: "x < 65536 \<Longrightarrow> nsum (be_bytes 2 x) = x"
  by (simp add: numeral_2_eq_2 unat_of_nat)

lemma unat_ucast_sum: "unat (ucast (a :: byte) + ucast (b :: byte) :: u32) = unat a + unat b"
proof -
  have "unat a < 256" "unat b < 256" by (rule unat_byte_less)+
  then have "unat a + unat b < 4294967296" by linarith
  then show ?thesis using unat_add_u32 [of "ucast a" "ucast b"] by simp
qed

lemma unat_push8_sum:
  "unat (push_bit 8 (ucast (a :: byte) + ucast (b :: byte)) :: u32) = unat a * 256 + unat b * 256"
proof -
  have "unat a < 256" "unat b < 256" by (rule unat_byte_less)+
  then have "unat a + unat b < 512" by linarith
  then have "(unat a + unat b) * 256 < 512 * 256" by (rule mult_less_mono1) simp
  then show ?thesis by (simp only: unat_push8 unat_ucast_sum) (simp add: distrib_right)
qed

lemma unat_pseudo_sum:
  assumes "length src = 4" and "length dst = 4" and "len < 65536"
  shows "unat (pseudo_sum len (ucast (p :: byte)) src dst) = nsum (src @ dst @ [0, p] @ be_bytes 2 len)"
proof -
  obtain a b c d where src: "src = [a, b, c, d]" using length4_exhaust [OF assms(1)] by blast
  obtain e f g i where dst: "dst = [e, f, g, i]" using length4_exhaust [OF assms(2)] by blast
  have l: "unat (of_nat len :: u32) = len" using assms(3) by (simp add: unat_of_nat)
  have len: "unat ((of_nat len :: u32) AND 0xFFFF) = len" "unat (drop_bit 16 (of_nat len :: u32)) = 0"
    using l assms(3) by (simp_all only: unat_and_ffff unat_drop16) simp_all
  have byte: "unat x < 256" for x :: byte by (rule unat_byte_less)
  note bounds = byte [of a] byte [of b] byte [of c] byte [of d] byte [of e] byte [of f] byte [of g]
    byte [of i] byte [of p]
  have add: "unat (x + y :: u32) = m + n" if "unat x = m" "unat y = n" "m + n < 4294967296" for x y m n
    using that by (simp add: unat_add_u32)
  have nths: "[x, y, z, w] ! 0 = x" "[x, y, z, w] ! 1 = y" "[x, y, z, w] ! 2 = z" "[x, y, z, w] ! 3 = w"
    for x y z w :: byte by simp_all
  have "unat (pseudo_sum len (ucast p) src dst) =
      (unat a * 256 + unat c * 256) + (unat b + unat d) + (unat e * 256 + unat g * 256) + (unat f + unat i) +
      unat p + len + 0"
    unfolding pseudo_sum_def src dst nths
    by (rule add)+ (use bounds assms(3) in \<open>(simp only: unat_push8_sum unat_ucast_sum
      unat_ucast_byte len) | linarith\<close>)+
  then show ?thesis by (simp add: src dst nsum_be_bytes assms(3) numeral_2_eq_2 [symmetric])
qed

lemma slice_slice: "j \<le> n \<Longrightarrow> go_slice (go_slice b p (p + n)) i j = go_slice b (p + i) (p + j)"
  by (simp add: go_slice_def drop_take take_take min_def add.commute)

lemma slice_append: "i \<le> j \<Longrightarrow> j \<le> k \<Longrightarrow> go_slice b i j @ go_slice b j k = go_slice b i k"
proof -
  assume "i \<le> j" "j \<le> k"
  then have "go_slice b i k = take (j - i) (drop i b) @ take (k - j) (drop (j - i) (drop i b))"
    by (simp only: go_slice_def take_add [symmetric]) simp
  with \<open>i \<le> j\<close> show ?thesis by (simp add: go_slice_def)
qed

lemma ipv4_validI:
  assumes "length b = maxContentSize" and "20 \<le> ihl" and "ihl \<le> n" and "n + 14 \<le> maxContentSize"
    and "header_len (b ! 14) = ihl"
    and hdr: "tcpipChecksum (go_slice b 14 (14 + ihl)) 0 = 0"
    and seg: "b ! 23 \<in> {6, 17} \<Longrightarrow> tcpipChecksum (go_slice b (14 + ihl) (14 + n))
       (pseudo_sum (n - ihl) (ucast (b ! 23)) (go_slice b 26 30) (go_slice b 30 34)) = 0"
  shows "ipv4_valid (go_slice b 14 (14 + n))"
proof -
  let ?bs = "go_slice b 14 (14 + n)"
  have n: "n \<le> 3586" and len: "length ?bs = n" using assms by (simp_all add: packet_consts)
  have nths: "?bs ! 0 = b ! 14" "?bs ! 9 = b ! 23" using assms n by (simp_all add: nth_slice packet_consts)
  have take_drop: "take ihl ?bs = go_slice b 14 (14 + ihl)" "drop ihl ?bs = go_slice b (14 + ihl) (14 + n)"
    using assms(3) by (simp_all add: go_slice_def min_def add.commute drop_take)
  have "ones_ok ([] @ go_slice b 14 (14 + ihl))"
    using hdr assms by (intro ones_ok_tcpipChecksum [where csum = 0]) (auto simp: packet_consts)
  moreover have "ones_ok (pseudo_header ?bs ihl @ go_slice b (14 + ihl) (14 + n))" if p: "b ! 23 \<in> {6, 17}"
  proof (rule ones_ok_tcpipChecksum)
    have addr: "go_slice ?bs 12 20 = go_slice b 26 30 @ go_slice b 30 34"
      using slice_slice [of 20 n b 14 12] assms by (simp add: slice_append)
    show "unat (pseudo_sum (n - ihl) (ucast (b ! 23)) (go_slice b 26 30) (go_slice b 30 34)) =
        nsum (pseudo_header ?bs ihl)"
      using n assms by (subst unat_pseudo_sum) (simp_all add: pseudo_header_def addr len nths packet_consts)
    show "unat (pseudo_sum (n - ihl) (ucast (b ! 23)) (go_slice b 26 30) (go_slice b 30 34)) < 2 ^ 19"
      using n p by (intro pseudo_sum_bound) auto
    show "even (length (pseudo_header ?bs ihl))" using assms n by (simp add: pseudo_header_def packet_consts)
    show "length (go_slice b (14 + ihl) (14 + n)) \<le> maxContentSize" using assms by simp
    show "tcpipChecksum (go_slice b (14 + ihl) (14 + n))
       (pseudo_sum (n - ihl) (ucast (b ! 23)) (go_slice b 26 30) (go_slice b 30 34)) = 0" by (rule seg [OF p])
  qed
  ultimately show ?thesis using assms(5) by (simp add: ipv4_valid_def nths take_drop)
qed

definition checksum_fields :: "byte list \<Rightarrow> nat set" where
  "checksum_fields b = {24, 25} \<union>
     (if buf_proto b = 6 then {14 + buf_ihl b + 16, 14 + buf_ihl b + 17}
      else if buf_proto b = 17 then {14 + buf_ihl b + 6, 14 + buf_ihl b + 7} else {})"

lemma ipv4_valid_transport:
  assumes "length b = maxContentSize" and "20 \<le> ihl" and "ihl + field + 2 \<le> n" and "even field"
    and "n + 14 \<le> maxContentSize" and "header_len (b ! 14) = ihl"
    and hdr: "tcpipChecksum (go_slice b 14 (14 + ihl)) 0 = 0"
    and "csum = pseudo_sum (n - ihl) (ucast (b ! 23)) (go_slice b 26 30) (go_slice b 30 34)"
    and "b ! 23 \<in> {6, 17}"
  shows "ipv4_valid (go_slice (set_csum b (14 + ihl) (n - ihl) field csum) 14 (14 + n))"
proof (rule ipv4_validI)
  let ?b = "set_csum b (14 + ihl) (n - ihl) field csum"
  have fit: "14 + ihl + field \<le> length b" using assms by simp
  show "length ?b = maxContentSize" using assms by simp
  show "20 \<le> ihl" "ihl \<le> n" "n + 14 \<le> maxContentSize" using assms by simp_all
  have nths: "?b ! 14 = b ! 14" "?b ! 23 = b ! 23"
    using assms by (simp_all add: nth_set_csum packet_consts)
  show "header_len (?b ! 14) = ihl" using assms(6) by (simp only: nths)
  show "tcpipChecksum (go_slice ?b 14 (14 + ihl)) 0 = 0"
    using assms fit by (simp add: slice_set_csum_other)
  have n: "n - ihl < 65536" using assms by (simp add: packet_consts)
  have p: "ucast (b ! 23) < (256 :: u32)" using assms(9) by auto
  have c: "unat csum < 2 ^ 19" unfolding assms(8) using n p by (rule pseudo_sum_bound)
  have same: "go_slice ?b 26 30 = go_slice b 26 30" "go_slice ?b 30 34 = go_slice b 30 34"
    using assms(2) fit by (auto intro!: slice_set_csum_other)
  have "tcpipChecksum (go_slice ?b (14 + ihl) (14 + ihl + (n - ihl))) csum = 0"
    using assms(1,3,4,5) c by (intro set_csum_verifies) simp_all
  then show "tcpipChecksum (go_slice ?b (14 + ihl) (14 + n))
     (pseudo_sum (n - ihl) (ucast (?b ! 23)) (go_slice ?b 26 30) (go_slice ?b 30 34)) = 0"
    using assms(3) by (simp only: same nths assms(8) [symmetric]) simp
qed

lemma RecalculateChecksum_transport:
  assumes p: "parsed4 h a n" and "b = pk_Buffer (h a)" and ihl: "20 \<le> buf_ihl b"
    and "buf_proto b = proto" and "proto = 6 \<and> field = 16 \<or> proto = 17 \<and> field = 6"
    and fit: "buf_ihl b + field + 2 \<le> n"
  shows "\<exists>b'. RecalculateChecksum h a = Some (set_buf h a b') \<and> length b' = maxContentSize \<and>
     ipv4_valid (go_slice b' 14 (14 + n)) \<and>
     (\<forall>k < maxContentSize. k \<notin> checksum_fields b \<longrightarrow> b' ! k = b ! k)"
proof -
  define b1 where "b1 = set_csum b tunPacketOffset (buf_ihl b) ipv4offsetChecksum 0"
  define h1 where "h1 = set_buf h a b1"
  let ?s = "\<lparr>sl_base = a, sl_off = tunPacketOffset, sl_len = n\<rparr>"
  let ?csum = "pseudo_sum (n - buf_ihl b) (ucast proto) (go_slice b1 26 30) (go_slice b1 30 34)"
  let ?b2 = "set_csum b1 (14 + buf_ihl b) (n - buf_ihl b) field ?csum"
  have len: "length b = maxContentSize" "n + 14 \<le> maxContentSize" "b = pk_Buffer (h a)"
    using p assms(2) by (simp_all add: parsed4_def packet_ok_def packet_consts)
  have len1: "length b1 = maxContentSize" using len by (simp add: b1_def packet_consts)
  have h1: "parsed4 h1 a n" "pk_Buffer (h1 a) = b1"
    using p len parsed4_set_csum [of h a n] by (simp_all add: h1_def b1_def packet_consts)
  then have ok1: "packet_ok h1 a n" "pk_Src (h1 a) = Some \<lparr>sl_base = a, sl_off = tunPacketOffset + 12, sl_len = 4\<rparr>"
    "pk_Dst (h1 a) = Some \<lparr>sl_base = a, sl_off = tunPacketOffset + 16, sl_len = 4\<rparr>"
    by (simp_all add: parsed4_def)
  have "RecalculateChecksum h a = fix_transport h1 ?s (buf_ihl b) field proto (pk_Src (h1 a)) (pk_Dst (h1 a))"
    unfolding RecalculateChecksum_parsed [OF p assms(2) b1_def h1_def refl]
    using assms(4,5) by (auto simp: IPProtocolTCP_def IPProtocolUDP_def)
  also have "\<dots> = Some (set_buf h1 a ?b2)"
    unfolding fix_transport_eq [OF ok1(1) fit ihl refl ok1(2,3)]
    using h1(2) ok1 by (simp add: tunPacketOffset_def)
  finally have run: "RecalculateChecksum h a = Some (set_buf h a ?b2)" by (simp add: h1_def)
  have nths: "b1 ! 14 = b ! 14" "b1 ! 23 = b ! 23"
    using len by (simp_all add: b1_def nth_set_csum packet_consts)
  have hdr: "tcpipChecksum (go_slice b1 14 (14 + buf_ihl b)) 0 = 0"
    using set_csum_verifies [of 10 "buf_ihl b" 14 b 0] len ihl fit by (simp add: b1_def packet_consts)
  have valid: "ipv4_valid (go_slice ?b2 14 (14 + n))"
    using assms(4,5) fit ihl len(2) len1 hdr
    by (intro ipv4_valid_transport) (auto simp: nths buf_ihl_def buf_proto_def packet_consts)
  have "?b2 ! k = b ! k" if "k < maxContentSize" "k \<notin> checksum_fields b" for k
  proof -
    have k: "k \<noteq> 24" "k \<noteq> 25" "k \<noteq> 14 + buf_ihl b + field" "k \<noteq> 14 + buf_ihl b + field + 1"
      using that(2) assms(4,5) by (auto simp: checksum_fields_def)
    have "?b2 ! k = b1 ! k" using k len len1 fit that(1) by (intro nth_set_csum) auto
    also have "\<dots> = b ! k" using k len that(1) by (auto simp: b1_def packet_consts intro!: nth_set_csum)
    finally show ?thesis .
  qed
  then show ?thesis using run valid len1 len(2) fit by (intro exI [of _ ?b2]) simp
qed

lemma RecalculateChecksum_plain:
  assumes p: "parsed4 h a n" and "b = pk_Buffer (h a)" and ihl: "20 \<le> buf_ihl b" "buf_ihl b \<le> n"
    and proto: "buf_proto b \<notin> {6, 17}"
  shows "\<exists>b'. RecalculateChecksum h a = Some (set_buf h a b') \<and> length b' = maxContentSize \<and>
     ipv4_valid (go_slice b' 14 (14 + n)) \<and>
     (\<forall>k < maxContentSize. k \<notin> checksum_fields b \<longrightarrow> b' ! k = b ! k)"
proof -
  let ?b1 = "set_csum b tunPacketOffset (buf_ihl b) ipv4offsetChecksum 0"
  have len: "length b = maxContentSize" "n + 14 \<le> maxContentSize"
    using p assms(2) by (simp_all add: parsed4_def packet_ok_def packet_consts)
  have len1: "length ?b1 = maxContentSize" using len by (simp add: packet_consts)
  have run: "RecalculateChecksum h a = Some (set_buf h a ?b1)"
    unfolding RecalculateChecksum_parsed [OF p assms(2) refl refl refl]
    using proto by (simp add: IPProtocolTCP_def IPProtocolUDP_def)
  have nths: "?b1 ! 14 = b ! 14" "?b1 ! 23 = b ! 23"
    using len by (simp_all add: nth_set_csum packet_consts)
  have "ipv4_valid (go_slice ?b1 14 (14 + n))"
  proof (rule ipv4_validI)
    show "length ?b1 = maxContentSize" by (rule len1)
    show "header_len (?b1 ! 14) = buf_ihl b" by (simp only: nths) (simp add: buf_ihl_def packet_consts)
    show "tcpipChecksum (go_slice ?b1 14 (14 + buf_ihl b)) 0 = 0"
      using set_csum_verifies [of 10 "buf_ihl b" 14 b 0] len ihl by (simp add: packet_consts)
  qed (use ihl len proto nths in \<open>auto simp: buf_proto_def packet_consts\<close>)
  moreover have "?b1 ! k = b ! k" if "k < maxContentSize" "k \<notin> checksum_fields b" for k
    using that len by (auto simp: checksum_fields_def packet_consts intro!: nth_set_csum split: if_splits)
  ultimately show ?thesis using run len1 by (intro exI [of _ ?b1]) simp
qed

text \<open>A segment long enough for its checksum field.\<close>

definition segment_fits :: "byte list \<Rightarrow> nat \<Rightarrow> bool" where
  "segment_fits b n \<longleftrightarrow> 20 \<le> buf_ihl b \<and> buf_ihl b \<le> n \<and>
     (buf_proto b = 6 \<longrightarrow> buf_ihl b + 18 \<le> n) \<and> (buf_proto b = 17 \<longrightarrow> buf_ihl b + 8 \<le> n)"

lemma RecalculateChecksum_fits:
  assumes "parsed4 h a n" and "b = pk_Buffer (h a)" and "segment_fits b n"
  shows "\<exists>b'. RecalculateChecksum h a = Some (set_buf h a b') \<and> length b' = maxContentSize \<and>
     ipv4_valid (go_slice b' 14 (14 + n)) \<and>
     (\<forall>k < maxContentSize. k \<notin> checksum_fields b \<longrightarrow> b' ! k = b ! k)"
proof -
  consider "buf_proto b = 6" | "buf_proto b = 17" | "buf_proto b \<notin> {6, 17}" by blast
  then show ?thesis
  proof cases
    case 1
    with assms show ?thesis
      by (intro RecalculateChecksum_transport [where proto = 6 and field = 16]) (auto simp: segment_fits_def)
  next
    case 2
    with assms show ?thesis
      by (intro RecalculateChecksum_transport [where proto = 17 and field = 6]) (auto simp: segment_fits_def)
  next
    case 3
    with assms show ?thesis by (intro RecalculateChecksum_plain) (auto simp: segment_fits_def)
  qed
qed

section \<open>Parsing\<close>

lemma Parse_frame:
  "Parse h a = (ok, h') \<Longrightarrow> pk_Buffer (h' a) = pk_Buffer (h a) \<and> pk_Packet (h' a) = pk_Packet (h a)
     \<and> (\<forall>c. c \<noteq> a \<longrightarrow> h' c = h c)"
  by (auto simp: Parse_def Let_def split: option.splits if_splits)

lemma Parse_True_iff:
  assumes "packet_ok h a n"
  shows "fst (Parse h a) \<longleftrightarrow>
     (drop_bit 4 (pk_Buffer (h a) ! 14) = 4 \<and> 20 \<le> n \<or> drop_bit 4 (pk_Buffer (h a) ! 14) = 6 \<and> 40 \<le> n)"
proof (cases "n = 0")
  case False
  then have "go_slice (pk_Buffer (h a)) 14 (14 + n) ! 0 = pk_Buffer (h a) ! 14"
    using assms by (simp add: nth_slice packet_ok_def packet_consts)
  with False assms show ?thesis
    by (auto simp: Parse_def Let_def packet_ok_def packet_consts)
qed (use assms in \<open>simp add: Parse_def packet_ok_def\<close>)

lemma Parse_parsed4:
  assumes "packet_ok h a n" and "Parse h a = (True, h')" and "\<not> pk_IsIPv6 (h' a)"
  shows "parsed4 h' a n"
  using assms
  by (auto simp: Parse_def Let_def parsed4_def packet_ok_def packet_consts split: if_splits)

lemma Parse_preserves_ok: "packet_ok h a n \<Longrightarrow> packet_ok (snd (Parse h a)) a n"
  by (cases "Parse h a") (auto dest: Parse_frame simp: packet_ok_def)

section \<open>Properties of the checksums\<close>

text \<open>
  C11. After \<open>Parse\<close> accepted an IPv4 packet whose header is complete and whose TCP or UDP
  segment holds its checksum field, \<open>RecalculateChecksum\<close> returns, the packet passes the
  receiver's check of the header and of the transport checksum with its pseudo header, and no
  byte of the buffer outside the checksum fields has changed.
\<close>

theorem recalculate_checksum_valid:
  assumes "packet_ok h a n" and "Parse h a = (True, h1)" and "\<not> pk_IsIPv6 (h1 a)"
    and "segment_fits (pk_Buffer (h a)) n"
  shows "\<exists>h2. RecalculateChecksum h1 a = Some h2 \<and> ipv4_valid (slc_bytes h2 (pk_Packet (h2 a))) \<and>
     (\<forall>k < maxContentSize. k \<notin> checksum_fields (pk_Buffer (h a)) \<longrightarrow>
        pk_Buffer (h2 a) ! k = pk_Buffer (h a) ! k)"
proof -
  have p: "parsed4 h1 a n" using assms by (intro Parse_parsed4)
  have b: "pk_Buffer (h a) = pk_Buffer (h1 a)" using Parse_frame [OF assms(2)] by simp
  show ?thesis
    using RecalculateChecksum_fits [OF p b] assms(4) p
    by (force simp: parsed4_def packet_ok_def packet_consts)
qed

text \<open>
  C39. On a parsed IPv4 packet \<open>RecalculateChecksum\<close> panics exactly when the packet announces
  TCP or UDP and is too short for the checksum field of that segment.
\<close>

theorem recalculate_checksum_panics_iff:
  assumes "packet_ok h a n" and "Parse h a = (True, h1)" and "\<not> pk_IsIPv6 (h1 a)"
  shows "RecalculateChecksum h1 a = None \<longleftrightarrow>
     buf_proto (pk_Buffer (h a)) = 6 \<and> n < buf_ihl (pk_Buffer (h a)) + 18 \<or>
     buf_proto (pk_Buffer (h a)) = 17 \<and> n < buf_ihl (pk_Buffer (h a)) + 8"
proof -
  have "pk_Buffer (h a) = pk_Buffer (h1 a)" using Parse_frame [OF assms(2)] by simp
  from RecalculateChecksum_None_iff [OF Parse_parsed4 [OF assms] this] show ?thesis
    by (simp add: IPProtocolTCP_def IPProtocolUDP_def)
qed

text \<open>Sample packets: an IPv4/UDP datagram with one byte of payload, and its header alone.\<close>

definition sample_header :: "byte list" where
  "sample_header = [0x45, 0, 0, 29, 0, 0, 0, 0, 64, 17, 0, 0, 10, 66, 0, 1, 10, 66, 0, 2]"

definition sample_udp :: "byte list" where
  "sample_udp = sample_header @ [0, 53, 0, 53, 0, 9, 0, 0, 1]"

definition sample_heap :: "byte list \<Rightarrow> heap" where
  "sample_heap bs = (\<lambda>_. zero_Packet)(0 := zero_Packet\<lparr>
     pk_Buffer := blit (replicate maxContentSize 0) tunPacketOffset bs,
     pk_Packet := Some \<lparr>sl_base = 0, sl_off = tunPacketOffset, sl_len = length bs\<rparr>\<rparr>)"

lemma sample_heap_ok: "length bs \<le> 3586 \<Longrightarrow> packet_ok (sample_heap bs) 0 (length bs)"
  by (simp add: packet_ok_def sample_heap_def packet_consts)

lemma sample_heap_nth:
  "length bs \<le> 3586 \<Longrightarrow> k < length bs \<Longrightarrow> pk_Buffer (sample_heap bs 0) ! (14 + k) = bs ! k"
  by (simp add: sample_heap_def nth_blit packet_consts)

lemma sample_heap_hdr:
  assumes "length bs \<le> 3586" and "20 \<le> length bs"
  shows "buf_ihl (pk_Buffer (sample_heap bs 0)) = header_len (bs ! 0)"
    and "buf_proto (pk_Buffer (sample_heap bs 0)) = bs ! 9"
proof -
  have "0 < length bs" using assms(2) by linarith
  then show "buf_ihl (pk_Buffer (sample_heap bs 0)) = header_len (bs ! 0)"
    using sample_heap_nth [of bs 0] assms by (simp add: buf_ihl_def packet_consts)
  show "buf_proto (pk_Buffer (sample_heap bs 0)) = bs ! 9"
    using sample_heap_nth [of bs 9] assms by (simp add: buf_proto_def packet_consts)
qed

lemma sample_heap_Parse:
  assumes "length bs \<le> 3586" and "20 \<le> length bs" and "drop_bit 4 (bs ! 0) = 4"
  shows "\<exists>h1. Parse (sample_heap bs) 0 = (True, h1) \<and> \<not> pk_IsIPv6 (h1 0)"
proof -
  have "slc_bytes (sample_heap bs) (pk_Packet (sample_heap bs 0)) = bs"
    using assms(1) slice_blit_same [of 14 bs "replicate 3600 0"]
    by (simp add: sample_heap_def packet_consts)
  moreover have "pk_Packet (sample_heap bs 0) = Some \<lparr>sl_base = 0, sl_off = tunPacketOffset, sl_len = length bs\<rparr>"
    by (simp add: sample_heap_def)
  moreover have "0 < length bs" using assms(2) by linarith
  ultimately show ?thesis
    using assms by (simp add: Parse_def Let_def)
qed

lemma sample_udp_facts:
  "length sample_udp = 29" "drop_bit 4 (sample_udp ! 0) = 4" "header_len (sample_udp ! 0) = 20"
  "sample_udp ! 9 = 17"
  "length sample_header = 20" "drop_bit 4 (sample_header ! 0) = 4" "header_len (sample_header ! 0) = 20"
  "sample_header ! 9 = 17"
  by code_simp+

theorem recalculate_checksum_valid_witness:
  "\<exists>h1 h2. Parse (sample_heap sample_udp) 0 = (True, h1) \<and> RecalculateChecksum h1 0 = Some h2 \<and>
     ipv4_valid (slc_bytes h2 (pk_Packet (h2 0)))"
proof -
  obtain h1 where h1: "Parse (sample_heap sample_udp) 0 = (True, h1)" "\<not> pk_IsIPv6 (h1 0)"
    using sample_heap_Parse [of sample_udp] by (auto simp: sample_udp_facts)
  have ok: "packet_ok (sample_heap sample_udp) 0 29"
    using sample_heap_ok [of sample_udp] by (simp add: sample_udp_facts)
  have "segment_fits (pk_Buffer (sample_heap sample_udp 0)) 29"
    using sample_heap_hdr [of sample_udp] by (simp add: segment_fits_def sample_udp_facts)
  from recalculate_checksum_valid [OF ok h1 this] h1 show ?thesis by blast
qed

theorem recalculate_checksum_panics_iff_witness:
  "\<exists>h1. Parse (sample_heap sample_header) 0 = (True, h1) \<and> RecalculateChecksum h1 0 = None"
proof -
  obtain h1 where h1: "Parse (sample_heap sample_header) 0 = (True, h1)" "\<not> pk_IsIPv6 (h1 0)"
    using sample_heap_Parse [of sample_header] by (auto simp: sample_udp_facts)
  have ok: "packet_ok (sample_heap sample_header) 0 20"
    using sample_heap_ok [of sample_header] by (simp add: sample_udp_facts)
  from recalculate_checksum_panics_iff [OF ok h1] h1 show ?thesis
    using sample_heap_hdr [of sample_header] by (auto simp: sample_udp_facts)
qed

section \<open>Reading\<close>

lemma blit_Nil [simp]: "blit d p [] = d"
  by (simp add: blit_def)

lemma read_loop_stuck:
  assumes ret: "read_loop f b p s = Some y"
  shows "f s (length b - p) \<noteq> ([], None, s)"
proof (induction f b p s y rule: read_loop.raw_induct)
  case (1 g f b p s y)
  then show ?case by (cases y) auto
qed (rule ret)

text \<open>
  What \<open>ReadFrom\<close> relies on in a stream: a read into a non-empty buffer returns at least one
  and at most the asked number of the pending bytes, in order, and when none is left the error
  that ends the stream.
\<close>

locale byte_reader =
  fixes rd :: "'r read_fn" and pending :: "'r \<Rightarrow> byte list" and fin :: "'r \<Rightarrow> rerr"
  assumes rd_data: "0 < n \<Longrightarrow> pending r \<noteq> [] \<Longrightarrow>
      \<exists>bs r'. rd r n = (bs, None, r') \<and> bs \<noteq> [] \<and> length bs \<le> n \<and> pending r = bs @ pending r' \<and> fin r' = fin r"
    and rd_end: "0 < n \<Longrightarrow> pending r = [] \<Longrightarrow> rd r n = ([], Some (fin r), r)"
begin

text \<open>A limited reader hands over exactly the announced bytes, however they are cut.\<close>

lemma read_loop_exact:
  assumes "lr_N l = int m" and "m \<le> length (pending (lr_R l))" and "p + m \<le> length buf"
  shows "\<exists>r'. read_loop (limited_Read rd) buf p l =
      Some (blit buf p (take m (pending (lr_R l))), p + m, None, \<lparr>lr_R = r', lr_N = 0\<rparr>) \<and>
      pending r' = drop m (pending (lr_R l)) \<and> fin r' = fin (lr_R l)"
  using assms
proof (induction m arbitrary: l p buf rule: less_induct)
  case (less m)
  show ?case
  proof (cases "m = 0")
    case True
    with less.prems have "limited_Read rd l (length buf - p) = ([], Some EOF, l)"
      by (simp add: limited_Read_def)
    moreover have "l = \<lparr>lr_R = lr_R l, lr_N = 0\<rparr>" using less.prems True by simp
    ultimately show ?thesis using True by (intro exI [of _ "lr_R l"]) (simp add: read_loop.simps)
  next
    case False
    let ?n = "min (length buf - p) m"
    have "0 < ?n" "pending (lr_R l) \<noteq> []" using less.prems False by auto
    from rd_data [OF this] obtain bs r' where r: "rd (lr_R l) ?n = (bs, None, r')" "bs \<noteq> []"
      "length bs \<le> ?n" "pending (lr_R l) = bs @ pending r'" "fin r' = fin (lr_R l)" by blast
    let ?l = "\<lparr>lr_R = r', lr_N = int m - int (length bs)\<rparr>"
    have "(if int (length buf - p) > lr_N l then nat (lr_N l) else length buf - p) = ?n"
      using less.prems by auto
    then have lim: "limited_Read rd l (length buf - p) = (bs, None, ?l)"
      using r False less.prems by (simp add: limited_Read_def)
    have N: "lr_N ?l = int (m - length bs)" using r by simp
    have lt: "m - length bs < m" using r False by (cases bs) auto
    have le: "m - length bs \<le> length (pending (lr_R ?l))" using less.prems r by simp
    have fit: "p + length bs + (m - length bs) \<le> length (blit buf p bs)" using less.prems r by simp
    obtain r2 where r2: "read_loop (limited_Read rd) (blit buf p bs) (p + length bs) ?l =
        Some (blit (blit buf p bs) (p + length bs) (take (m - length bs) (pending r')),
          p + length bs + (m - length bs), None, \<lparr>lr_R = r2, lr_N = 0\<rparr>)"
      "pending r2 = drop (m - length bs) (pending r')" "fin r2 = fin r'"
      using less.IH [OF lt N le fit] by (simp only: LimitedReader.select_convs) blast
    have short: "length bs \<le> m" "p + length bs \<le> length buf" using r less.prems by auto
    have "blit (blit buf p bs) (p + length bs) (take (m - length bs) (pending r')) =
        blit buf p (take m (pending (lr_R l)))"
      using blit_blit_append [OF short(2)] short(1) r(4) by simp
    with r2 r have "read_loop (limited_Read rd) buf p l =
        Some (blit buf p (take m (pending (lr_R l))), p + m, None, \<lparr>lr_R = r2, lr_N = 0\<rparr>)"
      by (subst read_loop.simps) (simp add: lim)
    moreover have "pending r2 = drop m (pending (lr_R l))" "fin r2 = fin (lr_R l)"
      using r2 r by simp_all
    ultimately show ?thesis by blast
  qed
qed

text \<open>A stream that ends before the announced number of bytes.\<close>

lemma read_loop_short:
  assumes "lr_N l = int m" and "length (pending (lr_R l)) < m" and "p + length (pending (lr_R l)) < length buf"
  shows "\<exists>l'. read_loop (limited_Read rd) buf p l =
      Some (blit buf p (pending (lr_R l)), p + length (pending (lr_R l)),
        if fin (lr_R l) = EOF then None else Some (fin (lr_R l)), l')"
  using assms
proof (induction "length (pending (lr_R l))" arbitrary: m l p buf rule: less_induct)
  case less
  let ?n = "min (length buf - p) m"
  have n: "(if int (length buf - p) > lr_N l then nat (lr_N l) else length buf - p) = ?n" "0 < ?n"
    using less.prems by auto
  show ?case
  proof (cases "pending (lr_R l) = []")
    case True
    then have "limited_Read rd l (length buf - p) = ([], Some (fin (lr_R l)), l)"
      using rd_end [OF n(2) True] n(1) less.prems by (simp add: limited_Read_def)
    then show ?thesis using True by (subst read_loop.simps) simp
  next
    case False
    from rd_data [OF n(2) False] obtain bs r' where r: "rd (lr_R l) ?n = (bs, None, r')" "bs \<noteq> []"
      "length bs \<le> ?n" "pending (lr_R l) = bs @ pending r'" "fin r' = fin (lr_R l)" by blast
    let ?l = "\<lparr>lr_R = r', lr_N = int m - int (length bs)\<rparr>"
    have lim: "limited_Read rd l (length buf - p) = (bs, None, ?l)"
      using r n less.prems by (simp add: limited_Read_def)
    have N: "lr_N ?l = int (m - length bs)" using r by simp
    have lt: "length (pending (lr_R ?l)) < length (pending (lr_R l))" using r by simp
    have le: "length (pending (lr_R ?l)) < m - length bs" using less.prems r by simp
    have fit: "p + length bs + length (pending (lr_R ?l)) < length (blit buf p bs)"
      using less.prems r by simp
    obtain l' where l': "read_loop (limited_Read rd) (blit buf p bs) (p + length bs) ?l =
        Some (blit (blit buf p bs) (p + length bs) (pending r'), p + length bs + length (pending r'),
          if fin r' = EOF then None else Some (fin r'), l')"
      using less.hyps [OF lt N le fit] by (simp only: LimitedReader.select_convs) blast
    have short: "p + length bs \<le> length buf" using r less.prems by auto
    have "read_loop (limited_Read rd) buf p l =
        Some (blit buf p (pending (lr_R l)), p + length (pending (lr_R l)),
          if fin (lr_R l) = EOF then None else Some (fin (lr_R l)), l')"
      using l' blit_blit_append [OF short, of "pending r'"] r(4,5)
      by (subst read_loop.simps) (simp add: lim)
    then show ?thesis by blast
  qed
qed

text \<open>
  A full buffer with bytes still announced: if the stream answers an empty read with nothing
  and no error, the loop runs forever.
\<close>

lemma read_loop_full:
  assumes "rd (lr_R l) 0 = ([], None, lr_R l)" and "0 < lr_N l" and "length buf \<le> p"
  shows "read_loop (limited_Read rd) buf p l = None"
proof -
  have lim: "limited_Read rd l 0 = ([], None, l)" using assms by (simp add: limited_Read_def)
  show ?thesis
    using read_loop_stuck [of "limited_Read rd" buf p l] lim assms(3)
    by (cases "read_loop (limited_Read rd) buf p l") auto
qed

lemma read_loop_oversized:
  assumes "\<And>r. rd r 0 = ([], None, r)"
    and "int (length buf - p) < lr_N l" and "length buf - p \<le> length (pending (lr_R l))"
  shows "read_loop (limited_Read rd) buf p l = None"
  using assms(2,3)
proof (induction "length buf - p" arbitrary: buf p l rule: less_induct)
  case less
  show ?case
  proof (cases "length buf \<le> p")
    case True
    with less.prems show ?thesis by (intro read_loop_full assms(1)) auto
  next
    case False
    let ?n = "length buf - p"
    have n: "0 < ?n" "pending (lr_R l) \<noteq> []" using False less.prems by auto
    from rd_data [OF n] obtain bs r' where r: "rd (lr_R l) ?n = (bs, None, r')" "bs \<noteq> []"
      "length bs \<le> ?n" "pending (lr_R l) = bs @ pending r'" by blast
    let ?l = "l\<lparr>lr_R := r', lr_N := lr_N l - int (length bs)\<rparr>"
    have lim: "limited_Read rd l ?n = (bs, None, ?l)"
      using r less.prems by (simp add: limited_Read_def)
    have len: "length (blit buf p bs) = length buf" using False by simp
    have "length (blit buf p bs) - (p + length bs) < ?n" using r n by (cases bs) (auto simp: len)
    then have "read_loop (limited_Read rd) (blit buf p bs) (p + length bs) ?l = None"
      using less.prems r n by (intro less.hyps) (auto simp: len)
    then show ?thesis by (subst read_loop.simps) (simp add: lim)
  qed
qed

end

interpretation ns: byte_reader net_Read st_bytes st_end
proof
  fix n :: nat and r :: net_stream
  assume n: "0 < n" and p: "st_bytes r \<noteq> []"
  define k where "k = (case ns_chunks r of [] \<Rightarrow> n | c # _ \<Rightarrow> min n (max 1 c))"
  have "0 < k" "k \<le> n" using n by (auto simp: k_def split: list.splits)
  moreover have "net_Read r n = (take k (st_bytes r), None,
      r\<lparr>st_bytes := drop k (st_bytes r), ns_chunks := tl (ns_chunks r)\<rparr>)"
    using n p by (simp add: net_Read_def k_def Let_def)
  ultimately show "\<exists>bs r'. net_Read r n = (bs, None, r') \<and> bs \<noteq> [] \<and> length bs \<le> n \<and>
      st_bytes r = bs @ st_bytes r' \<and> st_end r' = st_end r"
    using p by auto
next
  show "net_Read r n = ([], Some (st_end r), r)" if "0 < n" "st_bytes r = []" for n r
    using that by (simp add: net_Read_def)
qed

section \<open>Properties of ReadFrom\<close>

text \<open>The object after a successful read of \<open>bs\<close>.\<close>

definition received :: "heap \<Rightarrow> nat \<Rightarrow> byte list \<Rightarrow> heap" where
  "received h a bs = h(a := (h a)\<lparr>pk_Buffer := blit (pk_Buffer (h a)) tunPacketOffset bs,
     pk_Packet := Some \<lparr>sl_base = a, sl_off = tunPacketOffset, sl_len = length bs\<rparr>\<rparr>)"

lemma received_ok:
  "length (pk_Buffer (h a)) = maxContentSize \<Longrightarrow> length bs \<le> 3586 \<Longrightarrow>
     packet_ok (received h a bs) a (length bs) \<and>
     slc_bytes (received h a bs) (pk_Packet (received h a bs a)) = bs"
  using slice_blit_same [of 14 bs "pk_Buffer (h a)"]
  by (simp add: received_def packet_ok_def packet_consts)

lemma ReadFrom_exact:
  assumes "length (pk_Buffer (h a)) = maxContentSize" and "m \<le> 3586" and "m \<le> length (st_bytes s)"
  shows "\<exists>s'. ReadFrom (limited_Read net_Read) h a \<lparr>lr_R = s, lr_N = int m\<rparr> =
      Some (m, None, received h a (take m (st_bytes s)), \<lparr>lr_R = s', lr_N = 0\<rparr>) \<and>
      st_bytes s' = drop m (st_bytes s) \<and> st_end s' = st_end s"
proof -
  let ?l = "\<lparr>lr_R = s, lr_N = int m\<rparr>"
  obtain s' where "read_loop (limited_Read net_Read) (pk_Buffer (h a)) tunPacketOffset ?l =
      Some (blit (pk_Buffer (h a)) tunPacketOffset (take m (st_bytes s)), tunPacketOffset + m, None,
        \<lparr>lr_R = s', lr_N = 0\<rparr>)" "st_bytes s' = drop m (st_bytes s)" "st_end s' = st_end s"
    using ns.read_loop_exact [of ?l m tunPacketOffset "pk_Buffer (h a)"] assms
    by (auto simp: packet_consts)
  with assms(3) show ?thesis by (auto simp: ReadFrom_def received_def Let_def)
qed

text \<open>
  \<open>ReadFrom\<close> on a limited stream returns the announced bytes as the packet, whatever the
  pieces in which the network delivers them, and leaves the stream at the byte behind them, for
  every announced size up to the room behind the tunnel offset.
\<close>

theorem read_from_frame:
  assumes "length (pk_Buffer (h a)) = maxContentSize" and "m \<le> maxContentSize - tunPacketOffset"
    and "m \<le> length (st_bytes s)"
  shows "\<exists>s' h'. ReadFrom (limited_Read net_Read) h a \<lparr>lr_R = s, lr_N = int m\<rparr> =
      Some (m, None, h', \<lparr>lr_R = s', lr_N = 0\<rparr>) \<and>
      slc_bytes h' (pk_Packet (h' a)) = take m (st_bytes s) \<and> packet_ok h' a m \<and>
      st_bytes s' = drop m (st_bytes s) \<and> st_end s' = st_end s"
proof -
  have m: "m \<le> 3586" using assms(2) by (simp add: packet_consts)
  from ReadFrom_exact [of h a m s, OF assms(1) m assms(3)] show ?thesis
    using received_ok [of h a "take m (st_bytes s)", OF assms(1)] m assms(3) by (auto simp: min.absorb2)
qed

theorem read_from_frame_witness:
  "\<exists>s' h'. ReadFrom (limited_Read net_Read) (sample_heap []) 0
      \<lparr>lr_R = \<lparr>st_bytes = [1, 2, 3, 4], st_end = EOF, ns_chunks = [2, 1]\<rparr>, lr_N = 3\<rparr> =
      Some (3, None, h', \<lparr>lr_R = s', lr_N = 0\<rparr>) \<and>
      slc_bytes h' (pk_Packet (h' 0)) = [1, 2, 3] \<and> st_bytes s' = [4]"
  using read_from_frame [of "sample_heap []" 0 3 "\<lparr>st_bytes = [1, 2, 3, 4], st_end = EOF, ns_chunks = [2, 1]\<rparr>"]
  by (auto simp: sample_heap_def zero_Packet_def packet_consts)

text \<open>
  A frame cut off by the end of the stream is not an error for \<open>ReadFrom\<close>: the bytes that
  arrived become the packet. Any other transport error is returned and sets no packet.
\<close>

theorem read_from_truncated:
  assumes "length (pk_Buffer (h a)) = maxContentSize" and "length (st_bytes s) < m"
    and "length (st_bytes s) < maxContentSize - tunPacketOffset"
  shows "\<exists>l h'. ReadFrom (limited_Read net_Read) h a \<lparr>lr_R = s, lr_N = int m\<rparr> =
      Some (length (st_bytes s), if st_end s = EOF then None else Some (st_end s), h', l) \<and>
      (if st_end s = EOF then slc_bytes h' (pk_Packet (h' a)) = st_bytes s
       else pk_Packet (h' a) = pk_Packet (h a))"
proof -
  let ?l = "\<lparr>lr_R = s, lr_N = int m\<rparr>"
  let ?buf = "blit (pk_Buffer (h a)) tunPacketOffset (st_bytes s)"
  obtain l' where run: "read_loop (limited_Read net_Read) (pk_Buffer (h a)) tunPacketOffset ?l =
      Some (?buf, tunPacketOffset + length (st_bytes s),
        if st_end s = EOF then None else Some (st_end s), l')"
    using ns.read_loop_short [of ?l m tunPacketOffset "pk_Buffer (h a)"] assms
    by (auto simp: less_diff_conv add.commute)
  have "go_slice ?buf tunPacketOffset (tunPacketOffset + length (st_bytes s)) = st_bytes s"
    using assms by (intro slice_blit_same) simp
  with run show ?thesis by (simp add: ReadFrom_def Let_def)
qed

theorem read_from_truncated_witness:
  "\<exists>l h'. ReadFrom (limited_Read net_Read) (sample_heap []) 0
      \<lparr>lr_R = \<lparr>st_bytes = [1, 2], st_end = EOF, ns_chunks = []\<rparr>, lr_N = 3\<rparr> = Some (2, None, h', l) \<and>
      slc_bytes h' (pk_Packet (h' 0)) = [1, 2]"
  using read_from_truncated [of "sample_heap []" 0 "\<lparr>st_bytes = [1, 2], st_end = EOF, ns_chunks = []\<rparr>" 3]
  by (auto simp: sample_heap_def zero_Packet_def packet_consts numeral_2_eq_2)

text \<open>
  An announced size beyond the room in the buffer makes \<open>ReadFrom\<close> run forever once the
  buffer is full, on a stream that answers a read into an empty buffer with no bytes and no
  error: the sender of a frame header holds the handler in a busy loop.
\<close>

theorem read_from_oversized_diverges:
  assumes "length (pk_Buffer (h a)) = maxContentSize" and "m > maxContentSize - tunPacketOffset"
    and "length (st_bytes s) \<ge> maxContentSize - tunPacketOffset"
  shows "ReadFrom (limited_Read net_Read) h a \<lparr>lr_R = s, lr_N = int m\<rparr> = None"
proof -
  have "read_loop (limited_Read net_Read) (pk_Buffer (h a)) tunPacketOffset \<lparr>lr_R = s, lr_N = int m\<rparr> = None"
    using assms by (intro ns.read_loop_oversized) (simp_all add: net_Read_def)
  then show ?thesis by (simp add: ReadFrom_def)
qed

theorem read_from_oversized_diverges_witness:
  "ReadFrom (limited_Read net_Read) (sample_heap []) 0
     \<lparr>lr_R = \<lparr>st_bytes = replicate 4000 7, st_end = EOF, ns_chunks = []\<rparr>, lr_N = 4000\<rparr> = None"
  using read_from_oversized_diverges [of "sample_heap []" 0 4000
    "\<lparr>st_bytes = replicate 4000 7, st_end = EOF, ns_chunks = []\<rparr>"]
  by (simp add: sample_heap_def zero_Packet_def packet_consts)

end
