(* ===== verification/Vpn_Device.thy ===== *)
theory Vpn_Device
  imports Vpn_Packet
begin

text \<open>
  The TUN device of \<open>src/vpn/vpn.go\<close>: the pool of packet objects, the writes to the
  interface, the MTU events and the reading loop. The interface itself (\<open>tun.Device\<close> of the
  wireguard library) is outside: what it answers is an argument of each operation, and what
  the code hands to it is collected in \<open>dv_out\<close>. \<open>None\<close> is a run-time panic.
\<close>

section \<open>State\<close>

text \<open>
  \<open>dv_heap\<close> holds the packet objects, \<open>dv_next\<close> the first address not yet allocated,
  \<open>dv_pool\<close> the objects in the \<open>sync.Pool\<close>. A pool hands out any of its objects or a
  new one; \<open>dv_picks\<close> holds the runtime's next choices.
\<close>

record Device =
  dv_mtu :: int
  dv_localIP :: ip
  dv_heap :: heap
  dv_next :: nat
  dv_pool :: "nat list"
  dv_picks :: "nat option list"
  dv_out :: "byte list list"

definition zero_Device :: "int \<Rightarrow> ip \<Rightarrow> Device" where
  "zero_Device m lip = \<lparr>dv_mtu = m, dv_localIP = lip, dv_heap = (\<lambda>_. zero_Packet), dv_next = 0,
     dv_pool = [], dv_picks = [], dv_out = []\<rparr>"

text \<open>
  \<open>NewDevice\<close>: the outcomes of creating the interface (skipped when one exists) and of
  asking for its MTU are arguments. The MTU is stored as reported.
\<close>

datatype dev_error = CreateTunFailed | GetMtuFailed

definition NewDevice :: "bool \<Rightarrow> bool \<Rightarrow> int option \<Rightarrow> ip \<Rightarrow> dev_error + Device" where
  "NewDevice existingTun newTunOk realMtu localIP =
     (if \<not> existingTun \<and> \<not> newTunOk then Inl CreateTunFailed
      else case realMtu of
             None \<Rightarrow> Inl GetMtuFailed
           | Some m \<Rightarrow> Inr (zero_Device m localIP))"

definition GetTempPacket :: "Device \<Rightarrow> nat \<times> Device" where
  "GetTempPacket d =
     (let pick = (case dv_picks d of [] \<Rightarrow> None | p # _ \<Rightarrow> p);
          d1 = d\<lparr>dv_picks := tl (dv_picks d)\<rparr>;
          new = (dv_next d, d1\<lparr>dv_next := Suc (dv_next d),
                   dv_heap := (dv_heap d)(dv_next d := zero_Packet)\<rparr>)
      in case pick of
           None \<Rightarrow> new
         | Some i \<Rightarrow>
             if i < length (dv_pool d)
             then (dv_pool d ! i, d1\<lparr>dv_pool := take i (dv_pool d) @ drop (Suc i) (dv_pool d)\<rparr>)
             else new)"

definition PutTempPacket :: "nat \<Rightarrow> Device \<Rightarrow> Device" where
  "PutTempPacket a d = d\<lparr>dv_heap := clear (dv_heap d) a, dv_pool := a # dv_pool d\<rparr>"

section \<open>Writing\<close>

text \<open>
  The rewriting shared by both writers: addresses through the slices \<open>Src\<close> and
  \<open>Dst\<close>, then the checksums.
\<close>

definition rewrite_packet :: "ip \<Rightarrow> ip \<Rightarrow> heap \<Rightarrow> nat \<Rightarrow> heap option" where
  "rewrite_packet senderIP localIP h a =
     (let h1 = slc_copy h (pk_Src (h a)) senderIP;
          h2 = slc_copy h1 (pk_Dst (h1 a)) localIP
      in RecalculateChecksum h2 a)"

text \<open>\<open>data.Buffer[:tunPacketOffset+len(data.Packet)]\<close>, of which the device sends what
  follows the offset.\<close>

definition tun_buf :: "heap \<Rightarrow> nat \<Rightarrow> byte list option" where
  "tun_buf h a =
     (let n = slc_len (pk_Packet (h a))
      in if tunPacketOffset + n \<le> maxContentSize
         then Some (go_slice (pk_Buffer (h a)) tunPacketOffset (tunPacketOffset + n))
         else None)"

definition WritePacket :: "Device \<Rightarrow> nat \<Rightarrow> ip \<Rightarrow> bool \<Rightarrow> (bool \<times> Device) option" where
  "WritePacket d a senderIP tunOk =
     (if pk_IsIPv6 (dv_heap d a) then Some (True, d)
      else do {
        h \<leftarrow> rewrite_packet senderIP (dv_localIP d) (dv_heap d) a;
        buf \<leftarrow> tun_buf h a;
        Some (tunOk, d\<lparr>dv_heap := h, dv_out := dv_out d @ [buf]\<rparr>)
      })"

fun batch_bufs :: "ip \<Rightarrow> ip \<Rightarrow> heap \<Rightarrow> nat list \<Rightarrow> byte list list \<Rightarrow> (heap \<times> byte list list) option" where
  "batch_bufs senderIP localIP h [] bufs = Some (h, bufs)"
| "batch_bufs senderIP localIP h (a # as) bufs =
     (if pk_IsIPv6 (h a) then batch_bufs senderIP localIP h as bufs
      else do {
        h1 \<leftarrow> rewrite_packet senderIP localIP h a;
        buf \<leftarrow> tun_buf h1 a;
        batch_bufs senderIP localIP h1 as (bufs @ [buf])
      })"

definition WritePacketsBatch :: "Device \<Rightarrow> nat list \<Rightarrow> ip \<Rightarrow> bool \<Rightarrow> (bool \<times> Device) option" where
  "WritePacketsBatch d packets senderIP tunOk = do {
     (h, bufs) \<leftarrow> batch_bufs senderIP (dv_localIP d) (dv_heap d) packets [];
     Some (tunOk, d\<lparr>dv_heap := h, dv_out := dv_out d @ bufs\<rparr>)
   }"

section \<open>Events\<close>

text \<open>An event with its MTU-update flag and the answer of \<open>d.tun.MTU()\<close>.\<close>

record tun_event =
  te_mtuUpdate :: bool
  te_mtu :: "int option"

definition tunEventsReader_step :: "Device \<Rightarrow> tun_event \<Rightarrow> Device" where
  "tunEventsReader_step d e =
     (if te_mtuUpdate e then
        (case te_mtu e of
           None \<Rightarrow> d
         | Some mtu \<Rightarrow>
             if mtu < 0 then d
             else d\<lparr>dv_mtu := (if mtu > int maxContentSize then int maxContentSize else mtu)\<rparr>)
      else d)"

definition tunEventsReader :: "Device \<Rightarrow> tun_event list \<Rightarrow> Device" where
  "tunEventsReader d es = foldl tunEventsReader_step d es"

section \<open>The reading loop\<close>

text \<open>
  Before a read, every slot of \<open>packets\<close> holds an object: an empty slot takes one from the
  pool, a slot kept from the last round is cleared.
\<close>

fun fill_slots :: "nat option list \<Rightarrow> Device \<Rightarrow> nat list \<times> Device" where
  "fill_slots [] d = ([], d)"
| "fill_slots (None # ps) d =
     (let (a, d1) = GetTempPacket d; (as, d2) = fill_slots ps d1 in (a # as, d2))"
| "fill_slots (Some a # ps) d =
     (let (as, d2) = fill_slots ps (d\<lparr>dv_heap := clear (dv_heap d) a\<rparr>)
      in (a # as, d2))"

datatype tun_err = ErrTooManySegments | ErrClosed | TunOther

text \<open>
  What \<open>d.tun.Read\<close> did: the bytes it put behind the offset of each buffer, the sizes it
  reported, and its error.
\<close>

record tun_read =
  tr_data :: "byte list list"
  tr_sizes :: "nat list"
  tr_err :: "tun_err option"

definition tun_fill :: "byte list list \<Rightarrow> nat list \<Rightarrow> heap \<Rightarrow> heap" where
  "tun_fill data as h = fold (\<lambda>(a, bs) h. put_buf h a tunPacketOffset bs) (zip as data) h"

text \<open>The loop over the packets that were read; \<open>None\<close> is the slice panic.\<close>

fun parse_read :: "nat list \<Rightarrow> nat list \<Rightarrow> Device \<Rightarrow> (nat option list \<times> Device) option" where
  "parse_read (sz # sizes) (a # as) d =
     (if sz = 0 \<or> sz > maxContentSize then
        map_option (\<lambda>(ps, d). (Some a # ps, d)) (parse_read sizes as d)
      else if tunPacketOffset + sz > maxContentSize then None
      else
        let h = dv_heap d;
            h1 = h(a := (h a)\<lparr>pk_Packet := Some \<lparr>sl_base = a, sl_off = tunPacketOffset, sl_len = sz\<rparr>\<rparr>);
            (okay, h2) = Parse h1 a;
            d1 = d\<lparr>dv_heap := h2\<rparr>
        in if okay then map_option (\<lambda>(ps, d). (Some a # ps, d)) (parse_read sizes as d1)
           else map_option (\<lambda>(ps, d). (None # ps, d)) (parse_read sizes as (PutTempPacket a d1)))"
| "parse_read _ _ d = Some ([], d)"

text \<open>
  One round: \<open>packetsHandler\<close> receives the first \<open>packetsCount\<close> slots and empties those it
  took over; it works on a state \<open>t\<close> of its own and may use the pool. The result says
  whether the loop goes on.
\<close>

type_synonym 't packets_handler =
  "nat option list \<Rightarrow> Device \<Rightarrow> 't \<Rightarrow> (nat option list \<times> Device \<times> 't) option"

definition ReadTUNPackets_round ::
    "'t packets_handler \<Rightarrow> nat option list \<Rightarrow> tun_read \<Rightarrow> Device \<Rightarrow> 't \<Rightarrow>
     (bool \<times> nat option list \<times> Device \<times> 't) option" where
  "ReadTUNPackets_round packetsHandler packets r d t =
     (let (as, d1) = fill_slots packets d;
          d2 = d1\<lparr>dv_heap := tun_fill (tr_data r) as (dv_heap d1)\<rparr>;
          packetsCount = length (tr_sizes r)
      in do {
        (ps, d3) \<leftarrow> parse_read (tr_sizes r) as d2;
        (ps', d4, t') \<leftarrow> (if packetsCount > 0 then packetsHandler ps d3 t else Some (ps, d3, t));
        Some (tr_err r = None \<or> tr_err r = Some ErrTooManySegments,
              ps' @ map Some (drop packetsCount as), d4, t')
      })"

text \<open>The loop, over the reads the interface delivers until it is closed or fails.\<close>

fun ReadTUNPackets ::
    "'t packets_handler \<Rightarrow> nat option list \<Rightarrow> tun_read list \<Rightarrow> Device \<Rightarrow> 't \<Rightarrow>
     (nat option list \<times> Device \<times> 't) option" where
  "ReadTUNPackets packetsHandler packets [] d t = Some (packets, d, t)"
| "ReadTUNPackets packetsHandler packets (r # rs) d t = do {
     (continues, packets', d', t') \<leftarrow> ReadTUNPackets_round packetsHandler packets r d t;
     (if continues then ReadTUNPackets packetsHandler packets' rs d' t' else Some (packets', d', t'))
   }"

section \<open>What the interface receives\<close>

definition packet_bytes :: "heap \<Rightarrow> nat \<Rightarrow> byte list" where
  "packet_bytes h a = slc_bytes h (pk_Packet (h a))"

text \<open>The bytes a rewrite may change: header checksum, addresses, transport checksum.\<close>

definition rewritable :: "byte list \<Rightarrow> nat set" where
  "rewritable bs = {10..<20} \<union>
     (if bs ! 9 = 6 then {header_len (bs ! 0) + 16, header_len (bs ! 0) + 17}
      else if bs ! 9 = 17 then {header_len (bs ! 0) + 6, header_len (bs ! 0) + 7} else {})"

definition rewritten :: "ip \<Rightarrow> ip \<Rightarrow> byte list \<Rightarrow> byte list \<Rightarrow> bool" where
  "rewritten senderIP localIP old new \<longleftrightarrow>
     length new = length old \<and> ipv4_valid new \<and>
     go_slice new 12 16 = senderIP \<and> go_slice new 16 20 = localIP \<and>
     (\<forall>k < length old. k \<notin> rewritable old \<longrightarrow> new ! k = old ! k)"

definition writable :: "heap \<Rightarrow> nat \<Rightarrow> bool" where
  "writable h a \<longleftrightarrow> (\<exists>n. parsed4 h a n \<and> segment_fits (pk_Buffer (h a)) n)"

lemma rewritten_buffer:
  assumes "length b = maxContentSize" and "length b' = maxContentSize"
    and n: "n + 14 \<le> maxContentSize" "20 \<le> n"
    and ips: "length senderIP = 4" "length localIP = 4"
    and b2: "b2 = blit (blit b 26 senderIP) 30 localIP" and ihl: "20 \<le> buf_ihl b2"
    and valid: "ipv4_valid (go_slice b' 14 (14 + n))"
    and same: "\<forall>k < maxContentSize. k \<notin> checksum_fields b2 \<longrightarrow> b' ! k = b2 ! k"
  shows "rewritten senderIP localIP (go_slice b 14 (14 + n)) (go_slice b' 14 (14 + n))"
proof -
  have len: "length b2 = maxContentSize" using assms(1) by (simp add: b2 packet_consts)
  have b2_nth: "b2 ! k = (if 30 \<le> k \<and> k < 34 then localIP ! (k - 30)
      else if 26 \<le> k \<and> k < 30 then senderIP ! (k - 26) else b ! k)" if "k < 3600" for k
    using that assms(1) ips by (auto simp: b2 nth_blit packet_consts)
  have hdr: "buf_ihl b2 = header_len (b ! 14)" "buf_proto b2 = b ! 23"
    by (simp_all add: buf_ihl_def buf_proto_def packet_consts b2_nth)
  have keep: "b' ! k = b2 ! k" if "k < 3600" "k \<notin> checksum_fields b2" for k
    using same that by (simp add: packet_consts)
  have out: "k \<notin> checksum_fields b2" if "26 \<le> k" "k < 34" for k
    using that ihl by (auto simp: checksum_fields_def split: if_splits)
  have old: "go_slice b 14 (14 + n) ! k = b ! (14 + k)" "go_slice b' 14 (14 + n) ! k = b' ! (14 + k)"
    if "k < n" for k
    using that assms(1,2) n by (simp_all add: nth_slice packet_consts)
  have "go_slice b' 26 30 = senderIP"
  proof (rule nth_equalityI)
    show "go_slice b' 26 30 ! i = senderIP ! i" if "i < length (go_slice b' 26 30)" for i
      using that assms(2) out [of "26 + i"] keep [of "26 + i"] by (simp add: nth_slice b2_nth packet_consts)
  qed (use assms(2) ips in \<open>simp add: packet_consts\<close>)
  moreover have "go_slice b' 30 34 = localIP"
  proof (rule nth_equalityI)
    show "go_slice b' 30 34 ! i = localIP ! i" if "i < length (go_slice b' 30 34)" for i
      using that assms(2) out [of "30 + i"] keep [of "30 + i"] by (simp add: nth_slice b2_nth packet_consts)
  qed (use assms(2) ips in \<open>simp add: packet_consts\<close>)
  moreover have "go_slice b' 14 (14 + n) ! k = go_slice b 14 (14 + n) ! k"
    if "k < n" "k \<notin> rewritable (go_slice b 14 (14 + n))" for k
  proof -
    have k: "k \<notin> {10..<20}" "14 + k \<notin> checksum_fields b2"
      using that n old [of 0] old [of 9]
      by (auto simp: rewritable_def checksum_fields_def hdr split: if_splits)
    have "14 + k < 3600" using that n by (simp add: packet_consts)
    with k show ?thesis by (auto simp: old [OF that(1)] keep b2_nth)
  qed
  ultimately show ?thesis
    using assms(1,2) n valid slice_slice [of 16 n b' 14 12] slice_slice [of 20 n b' 14 16]
    by (simp add: rewritten_def packet_consts)
qed

lemma slc_copy_parsed4:
  assumes "parsed4 h a n" and "length senderIP = 4" and "length localIP = 4"
    and "b2 = blit (blit (pk_Buffer (h a)) 26 senderIP) 30 localIP"
  shows "(let h1 = slc_copy h (pk_Src (h a)) senderIP in slc_copy h1 (pk_Dst (h1 a)) localIP) = set_buf h a b2"
    and "parsed4 (set_buf h a b2) a n"
  using assms by (simp_all add: parsed4_def packet_ok_def packet_consts put_buf_def Let_def)

lemma rewrite_packet_ok:
  assumes p: "parsed4 h a n" and fits: "segment_fits (pk_Buffer (h a)) n"
    and ips: "length senderIP = 4" "length localIP = 4"
  shows "\<exists>b'. rewrite_packet senderIP localIP h a = Some (set_buf h a b') \<and>
     tun_buf (set_buf h a b') a = Some (go_slice b' 14 (14 + n)) \<and>
     rewritten senderIP localIP (packet_bytes h a) (go_slice b' 14 (14 + n))"
proof -
  define b where "b = pk_Buffer (h a)"
  define b2 where "b2 = blit (blit b 26 senderIP) 30 localIP"
  have len: "length b = maxContentSize" "n + 14 \<le> maxContentSize" "20 \<le> n"
    using p by (simp_all add: parsed4_def packet_ok_def packet_consts b_def)
  note cp = slc_copy_parsed4 [OF p ips b2_def [unfolded b_def]]
  have nths: "b2 ! 14 = b ! 14" "b2 ! 23 = b ! 23"
    using len by (simp_all add: b2_def nth_blit packet_consts)
  have fits2: "segment_fits b2 n" "20 \<le> buf_ihl b2"
    using fits nths by (simp_all add: segment_fits_def buf_ihl_def buf_proto_def packet_consts b_def)
  obtain b' where b': "RecalculateChecksum (set_buf h a b2) a = Some (set_buf (set_buf h a b2) a b')"
    "length b' = maxContentSize" "ipv4_valid (go_slice b' 14 (14 + n))"
    "\<forall>k < maxContentSize. k \<notin> checksum_fields b2 \<longrightarrow> b' ! k = b2 ! k"
    using RecalculateChecksum_fits [OF cp(2), of b2] fits2 by auto
  have "rewrite_packet senderIP localIP h a = Some (set_buf h a b')"
    using cp(1) b'(1) by (simp add: rewrite_packet_def Let_def)
  moreover have "rewritten senderIP localIP (go_slice b 14 (14 + n)) (go_slice b' 14 (14 + n))"
    using len b' ips fits2 by (intro rewritten_buffer [OF _ _ _ _ _ _ b2_def]) auto
  moreover have "packet_bytes h a = go_slice b 14 (14 + n)" "slc_len (pk_Packet (h a)) = n"
    using p by (simp_all add: packet_bytes_def parsed4_def packet_ok_def packet_consts b_def)
  ultimately show ?thesis using len by (auto simp: tun_buf_def packet_consts)
qed

lemma writable_cong: "h' a = h a \<Longrightarrow> writable h' a = writable h a"
  by (simp add: writable_def parsed4_def packet_ok_def)

lemma packet_bytes_cong: "parsed4 h a n \<Longrightarrow> h' a = h a \<Longrightarrow> packet_bytes h' a = packet_bytes h a"
  by (simp add: packet_bytes_def parsed4_def packet_ok_def)

lemma batch_bufs_ok:
  assumes "distinct as" and "\<forall>a \<in> set as. \<not> pk_IsIPv6 (h a) \<longrightarrow> writable h a"
    and ips: "length senderIP = 4" "length localIP = 4"
  shows "\<exists>h' outs. batch_bufs senderIP localIP h as bufs = Some (h', bufs @ outs) \<and>
     list_all2 (rewritten senderIP localIP)
       (map (packet_bytes h) (filter (\<lambda>a. \<not> pk_IsIPv6 (h a)) as)) outs \<and>
     (\<forall>c. c \<notin> set as \<longrightarrow> h' c = h c)"
  using assms(1,2)
proof (induction as arbitrary: h bufs)
  case Nil
  show ?case by simp
next
  case (Cons a as)
  show ?case
  proof (cases "pk_IsIPv6 (h a)")
    case True
    with Cons.prems Cons.IH [of h bufs] show ?thesis by auto
  next
    case False
    then obtain n where p: "parsed4 h a n" "segment_fits (pk_Buffer (h a)) n"
      using Cons.prems by (auto simp: writable_def)
    from rewrite_packet_ok [OF p ips] obtain b' where r:
      "rewrite_packet senderIP localIP h a = Some (set_buf h a b')"
      "tun_buf (set_buf h a b') a = Some (go_slice b' 14 (14 + n))"
      "rewritten senderIP localIP (packet_bytes h a) (go_slice b' 14 (14 + n))" by blast
    let ?h1 = "set_buf h a b'"
    have same: "?h1 c = h c" if "c \<in> set as" for c using that Cons.prems by auto
    have prems: "distinct as" "\<forall>c \<in> set as. \<not> pk_IsIPv6 (?h1 c) \<longrightarrow> writable ?h1 c"
      using Cons.prems writable_cong [of ?h1 _ h] by auto
    obtain h' outs where ih: "batch_bufs senderIP localIP ?h1 as (bufs @ [go_slice b' 14 (14 + n)]) =
        Some (h', (bufs @ [go_slice b' 14 (14 + n)]) @ outs)"
      "list_all2 (rewritten senderIP localIP)
         (map (packet_bytes ?h1) (filter (\<lambda>c. \<not> pk_IsIPv6 (?h1 c)) as)) outs"
      "\<forall>c. c \<notin> set as \<longrightarrow> h' c = ?h1 c"
      using Cons.IH [OF prems] by blast
    have v4: "filter (\<lambda>c. \<not> pk_IsIPv6 (?h1 c)) as = filter (\<lambda>c. \<not> pk_IsIPv6 (h c)) as"
      using same by (intro filter_cong) auto
    have "map (packet_bytes ?h1) (filter (\<lambda>c. \<not> pk_IsIPv6 (?h1 c)) as) =
        map (packet_bytes h) (filter (\<lambda>c. \<not> pk_IsIPv6 (h c)) as)"
      unfolding v4
    proof (rule map_cong [OF refl])
      fix c assume c: "c \<in> set (filter (\<lambda>c. \<not> pk_IsIPv6 (h c)) as)"
      then obtain k where "parsed4 h c k" using Cons.prems by (auto simp: writable_def)
      with c show "packet_bytes ?h1 c = packet_bytes h c" using same by (intro packet_bytes_cong) auto
    qed
    then have "list_all2 (rewritten senderIP localIP)
        (map (packet_bytes h) (filter (\<lambda>c. \<not> pk_IsIPv6 (h c)) (a # as))) (go_slice b' 14 (14 + n) # outs)"
      using ih(2) r(3) False by simp
    moreover have "batch_bufs senderIP localIP h (a # as) bufs =
        Some (h', bufs @ (go_slice b' 14 (14 + n) # outs))"
      using False r ih(1) by simp
    moreover have "\<forall>c. c \<notin> set (a # as) \<longrightarrow> h' c = h c" using ih(3) by simp
    ultimately show ?thesis by blast
  qed
qed

section \<open>Properties\<close>

text \<open>
  C10. \<open>WritePacketsBatch\<close> hands the interface, in order, one packet for every IPv4 packet of
  the batch and none for IPv6: each has the sender's address as source and the device's as
  destination, passes the receiver's checksum checks, and agrees with the packet as parsed
  outside the addresses and the checksum fields.
\<close>

theorem write_packets_batch_rewrites:
  assumes "distinct packets"
    and "\<forall>a \<in> set packets. \<not> pk_IsIPv6 (dv_heap d a) \<longrightarrow> writable (dv_heap d) a"
    and "length senderIP = 4" and "length (dv_localIP d) = 4"
  shows "\<exists>d' outs. WritePacketsBatch d packets senderIP tunOk = Some (tunOk, d') \<and>
     dv_out d' = dv_out d @ outs \<and> dv_pool d' = dv_pool d \<and>
     list_all2 (rewritten senderIP (dv_localIP d))
       (map (packet_bytes (dv_heap d)) (filter (\<lambda>a. \<not> pk_IsIPv6 (dv_heap d a)) packets)) outs"
proof -
  from batch_bufs_ok [OF assms, of "[]"] obtain h' outs where
    "batch_bufs senderIP (dv_localIP d) (dv_heap d) packets [] = Some (h', outs)"
    "list_all2 (rewritten senderIP (dv_localIP d))
       (map (packet_bytes (dv_heap d)) (filter (\<lambda>a. \<not> pk_IsIPv6 (dv_heap d a)) packets)) outs"
    by auto
  then show ?thesis by (auto simp: WritePacketsBatch_def)
qed

lemma sample_writable:
  "\<exists>h1. Parse (sample_heap sample_udp) 0 = (True, h1) \<and> \<not> pk_IsIPv6 (h1 0) \<and> writable h1 0"
proof -
  obtain h1 where h1: "Parse (sample_heap sample_udp) 0 = (True, h1)" "\<not> pk_IsIPv6 (h1 0)"
    using sample_heap_Parse [of sample_udp] by (auto simp: sample_udp_facts)
  have ok: "packet_ok (sample_heap sample_udp) 0 29"
    using sample_heap_ok [of sample_udp] by (simp add: sample_udp_facts)
  have "segment_fits (pk_Buffer (sample_heap sample_udp 0)) 29"
    using sample_heap_hdr [of sample_udp] by (simp add: segment_fits_def sample_udp_facts)
  then have "writable h1 0"
    using Parse_parsed4 [OF ok h1] Parse_frame [OF h1(1)] by (auto simp: writable_def)
  with h1 show ?thesis by blast
qed

theorem write_packets_batch_rewrites_witness:
  "\<exists>h1 d' out. Parse (sample_heap sample_udp) 0 = (True, h1) \<and>
     WritePacketsBatch ((zero_Device 1500 [10, 66, 0, 1])\<lparr>dv_heap := h1\<rparr>) [0] [10, 66, 0, 7] True = Some (True, d') \<and>
     dv_out d' = [out] \<and> rewritten [10, 66, 0, 7] [10, 66, 0, 1] (packet_bytes h1 0) out"
proof -
  obtain h1 where h1: "Parse (sample_heap sample_udp) 0 = (True, h1)" "\<not> pk_IsIPv6 (h1 0)" "writable h1 0"
    using sample_writable by blast
  define d where "d = (zero_Device 1500 [10, 66, 0, 1])\<lparr>dv_heap := h1\<rparr>"
  have d: "dv_heap d = h1" "dv_localIP d = [10, 66, 0, 1]" "dv_out d = []"
    by (simp_all add: d_def zero_Device_def)
  obtain d' outs where r: "WritePacketsBatch d [0] [10, 66, 0, 7] True = Some (True, d')" "dv_out d' = outs"
    "list_all2 (rewritten [10, 66, 0, 7] [10, 66, 0, 1]) [packet_bytes h1 0] outs"
    using write_packets_batch_rewrites [of "[0]" d "[10, 66, 0, 7]" True] h1 by (auto simp: d)
  then obtain out where "outs = [out]" "rewritten [10, 66, 0, 7] [10, 66, 0, 1] (packet_bytes h1 0) out"
    by (auto simp: list_all2_Cons1)
  with r h1 show ?thesis unfolding d_def by blast
qed

section \<open>Ownership of packet objects\<close>

text \<open>
  The multiset of objects in use together with the free ones holds every object at most once,
  and none that was never allocated.
\<close>

definition owned_once :: "nat multiset \<Rightarrow> nat multiset \<Rightarrow> nat \<Rightarrow> bool" where
  "owned_once used free bound \<longleftrightarrow> (\<forall>a. count (used + free) a \<le> (if a < bound then 1 else 0))"

text \<open>What the users of the pool rely on.\<close>

locale packet_pool =
  fixes get :: "'s \<Rightarrow> nat \<times> 's" and put :: "nat \<Rightarrow> 's \<Rightarrow> 's"
    and free :: "'s \<Rightarrow> nat multiset" and bound :: "'s \<Rightarrow> nat"
  assumes get_law: "get s = (a, s') \<Longrightarrow>
      (free s = add_mset a (free s') \<and> bound s' = bound s) \<or>
      (a = bound s \<and> free s' = free s \<and> bound s' = Suc (bound s))"
    and free_put: "free (put a s) = add_mset a (free s)"
    and bound_put: "bound (put a s) = bound s"
begin

lemma get_owned:
  assumes "owned_once used (free s) (bound s)" and "get s = (a, s')"
  shows "owned_once (add_mset a used) (free s') (bound s')"
  using get_law [OF assms(2)]
proof
  assume "free s = add_mset a (free s') \<and> bound s' = bound s"
  with assms(1) show ?thesis by (simp add: owned_once_def)
next
  assume n: "a = bound s \<and> free s' = free s \<and> bound s' = Suc (bound s)"
  have b: "count (used + free s) c \<le> (if c < bound s then 1 else 0)" for c
    using assms(1) unfolding owned_once_def by blast
  have "count (add_mset a used + free s') c \<le> (if c < bound s' then 1 else 0)" for c
    using n b [of c] by (auto split: if_splits)
  then show ?thesis by (simp only: owned_once_def) blast
qed

lemma put_owned:
  "owned_once (add_mset a used) (free s) (bound s) \<Longrightarrow> owned_once used (free (put a s)) (bound (put a s))"
  by (simp add: owned_once_def free_put bound_put)

text \<open>An object taken from the pool is neither in use nor still free.\<close>

lemma get_fresh:
  assumes "owned_once used (free s) (bound s)" and "get s = (a, s')"
  shows "a \<notin># used \<and> a \<notin># free s'"
proof -
  have "count (add_mset a used + free s') a \<le> (if a < bound s' then 1 else 0)"
    using get_owned [OF assms] unfolding owned_once_def by blast
  then show ?thesis by (simp add: not_in_iff split: if_splits)
qed

end

definition pool_free :: "Device \<Rightarrow> nat multiset" where
  "pool_free d = mset (dv_pool d)"

abbreviation dev_owned :: "nat multiset \<Rightarrow> Device \<Rightarrow> bool" where
  "dev_owned used d \<equiv> owned_once used (pool_free d) (dv_next d)"

interpretation pool: packet_pool GetTempPacket PutTempPacket pool_free dv_next
proof
  fix s a s'
  assume g: "GetTempPacket s = (a, s')"
  show "(pool_free s = add_mset a (pool_free s') \<and> dv_next s' = dv_next s) \<or>
      (a = dv_next s \<and> pool_free s' = pool_free s \<and> dv_next s' = Suc (dv_next s))"
  proof (cases "\<exists>i ps. dv_picks s = Some i # ps \<and> i < length (dv_pool s)")
    case True
    then obtain i ps where i: "dv_picks s = Some i # ps" "i < length (dv_pool s)" by blast
    have "dv_pool s = take i (dv_pool s) @ dv_pool s ! i # drop (Suc i) (dv_pool s)"
      using i(2) by (rule id_take_nth_drop)
    then have "mset (dv_pool s) = add_mset (dv_pool s ! i) (mset (take i (dv_pool s) @ drop (Suc i) (dv_pool s)))"
      by (metis mset_append union_mset_add_mset_right mset.simps(2))
    with g i show ?thesis by (auto simp: GetTempPacket_def pool_free_def Let_def)
  next
    case False
    with g show ?thesis
      by (auto simp: GetTempPacket_def pool_free_def Let_def split: option.splits list.splits if_splits)
  qed
qed (simp_all add: PutTempPacket_def pool_free_def)

definition somes :: "'a option list \<Rightarrow> 'a list" where
  "somes ps = map the (filter (\<lambda>p. p \<noteq> None) ps)"

lemma somes_simps [simp]:
  "somes [] = []" "somes (None # ps) = somes ps" "somes (Some a # ps) = a # somes ps"
  "somes (ps @ qs) = somes ps @ somes qs" "somes (map Some as) = as"
  by (induction as) (simp_all add: somes_def)

lemma fill_slots_owned:
  assumes "dev_owned (used + mset (somes ps)) d" and "fill_slots ps d = (as, d')"
  shows "dev_owned (used + mset as) d' \<and> length as = length ps"
  using assms
proof (induction ps d arbitrary: used as d' rule: fill_slots.induct)
  case (2 ps d)
  obtain a d1 where g: "GetTempPacket d = (a, d1)" by fastforce
  obtain as' d2 where f: "fill_slots ps d1 = (as', d2)" by fastforce
  have "dev_owned (add_mset a used + mset (somes ps)) d1"
    using pool.get_owned [OF _ g] "2.prems"(1) by simp
  from "2.IH" [OF g [symmetric] refl this f] "2.prems"(2) g f show ?case by auto
next
  case (3 a ps d)
  obtain as' d2 where f: "fill_slots ps (d\<lparr>dv_heap := clear (dv_heap d) a\<rparr>) = (as', d2)" by fastforce
  have "dev_owned (add_mset a used + mset (somes ps)) (d\<lparr>dv_heap := clear (dv_heap d) a\<rparr>)"
    using "3.prems"(1) by (simp add: pool_free_def)
  from "3.IH" [OF this f] "3.prems"(2) f show ?case by auto
qed simp

lemma parse_read_owned:
  assumes "dev_owned (used + mset as) d" and "parse_read sizes as d = Some (ps, d')"
    and "length sizes \<le> length as"
  shows "dev_owned (used + mset (somes ps) + mset (drop (length sizes) as)) d'"
  using assms
proof (induction sizes as d arbitrary: used ps d' rule: parse_read.induct)
  case (1 sz sizes a as d)
  let ?h1 = "(dv_heap d)(a := (dv_heap d a)\<lparr>pk_Packet := Some \<lparr>sl_base = a, sl_off = tunPacketOffset, sl_len = sz\<rparr>\<rparr>)"
  have len: "length sizes \<le> length as" using "1.prems" by simp
  have own: "dev_owned (add_mset a used + mset as) (d\<lparr>dv_heap := h\<rparr>)" for h
    using "1.prems"(1) by (simp add: pool_free_def)
  obtain okay h2 where p: "Parse ?h1 a = (okay, h2)" by fastforce
  consider (skip) "sz = 0 \<or> sz > maxContentSize"
    | (panic) "\<not> (sz = 0 \<or> sz > maxContentSize)" "tunPacketOffset + sz > maxContentSize"
    | (okay) "\<not> (sz = 0 \<or> sz > maxContentSize)" "\<not> tunPacketOffset + sz > maxContentSize" "okay"
    | (bad) "\<not> (sz = 0 \<or> sz > maxContentSize)" "\<not> tunPacketOffset + sz > maxContentSize" "\<not> okay"
    by blast
  then show ?case
  proof cases
    case skip
    then obtain ps' where r: "parse_read sizes as d = Some (ps', d')" "ps = Some a # ps'"
      using "1.prems"(2) by auto
    from "1.IH"(1) [OF skip _ r(1) len, of "add_mset a used"] own [of "dv_heap d"] r(2) show ?thesis by simp
  next
    case panic
    with "1.prems"(2) show ?thesis by simp
  next
    case okay
    then obtain ps' where r: "parse_read sizes as (d\<lparr>dv_heap := h2\<rparr>) = Some (ps', d')" "ps = Some a # ps'"
      using "1.prems"(2) p by (auto simp: Let_def)
    from "1.IH"(2) [OF okay(1,2) refl refl p [symmetric] refl refl okay(3) _ r(1) len, of "add_mset a used"]
      own r(2) show ?thesis by simp
  next
    case bad
    then obtain ps' where r: "parse_read sizes as (PutTempPacket a (d\<lparr>dv_heap := h2\<rparr>)) = Some (ps', d')"
      "ps = None # ps'"
      using "1.prems"(2) p by (auto simp: Let_def)
    have "dev_owned (used + mset as) (PutTempPacket a (d\<lparr>dv_heap := h2\<rparr>))"
      using own by (intro pool.put_owned) simp
    from "1.IH"(3) [OF bad(1,2) refl refl p [symmetric] refl refl bad(3) this r(1) len]
      r(2) show ?thesis by simp
  qed
qed simp_all

lemma parse_read_None_iff:
  "length sizes \<le> length as \<Longrightarrow> parse_read sizes as d = None \<longleftrightarrow>
     (\<exists>sz \<in> set sizes. maxContentSize - tunPacketOffset < sz \<and> sz \<le> maxContentSize)"
proof (induction sizes as d rule: parse_read.induct)
  case (1 sz sizes a as d)
  have len: "length sizes \<le> length as" using "1.prems" by simp
  let ?h1 = "(dv_heap d)(a := (dv_heap d a)\<lparr>pk_Packet := Some \<lparr>sl_base = a, sl_off = tunPacketOffset, sl_len = sz\<rparr>\<rparr>)"
  obtain okay h2 where p: "Parse ?h1 a = (okay, h2)" by fastforce
  consider (skip) "sz = 0 \<or> sz > maxContentSize"
    | (panic) "\<not> (sz = 0 \<or> sz > maxContentSize)" "tunPacketOffset + sz > maxContentSize"
    | (okay) "\<not> (sz = 0 \<or> sz > maxContentSize)" "\<not> tunPacketOffset + sz > maxContentSize" "okay"
    | (bad) "\<not> (sz = 0 \<or> sz > maxContentSize)" "\<not> tunPacketOffset + sz > maxContentSize" "\<not> okay"
    by blast
  then show ?case
  proof cases
    case skip
    with "1.IH"(1) [OF skip len] show ?thesis by (auto simp: packet_consts)
  next
    case panic
    then show ?thesis by (auto simp: packet_consts)
  next
    case okay
    with "1.IH"(2) [OF okay(1,2) refl refl p [symmetric] refl refl okay(3) len] p show ?thesis
      by (auto simp: Let_def packet_consts)
  next
    case bad
    with "1.IH"(3) [OF bad(1,2) refl refl p [symmetric] refl refl bad(3) len] p show ?thesis
      by (auto simp: Let_def packet_consts)
  qed
qed simp_all

lemma parse_read_length:
  "parse_read sizes as d = Some (ps, d') \<Longrightarrow> length sizes \<le> length as \<Longrightarrow> length ps = length sizes"
  by (induction sizes as d arbitrary: ps d' rule: parse_read.induct)
    (auto simp: Let_def split: if_splits prod.splits)

text \<open>
  A handler of read packets must account for every object it was handed: it keeps it in its
  own state, returns it to the pool, or leaves it in its slot.
\<close>

locale packets_consumer =
  fixes handler :: "'t packets_handler" and held :: "'t \<Rightarrow> nat multiset"
  assumes handler_owned: "dev_owned (mset (somes ps) + rest + held t) d \<Longrightarrow>
      handler ps d t = Some (ps', d', t') \<Longrightarrow>
      dev_owned (mset (somes ps') + rest + held t') d' \<and> length ps' = length ps"
begin

lemma round_owned:
  assumes "dev_owned (mset (somes packets) + held t) d" and "length (tr_sizes r) \<le> length packets"
    and "ReadTUNPackets_round handler packets r d t = Some (c, packets', d', t')"
  shows "dev_owned (mset (somes packets') + held t') d' \<and> length packets' = length packets"
proof -
  obtain as d1 where f: "fill_slots packets d = (as, d1)" by fastforce
  let ?d2 = "d1\<lparr>dv_heap := tun_fill (tr_data r) as (dv_heap d1)\<rparr>"
  let ?n = "length (tr_sizes r)"
  have as: "dev_owned (held t + mset as) d1" "length as = length packets"
    using fill_slots_owned [OF _ f, of "held t"] assms(1) by (simp_all add: add.commute)
  then have own2: "dev_owned (held t + mset as) ?d2" by (simp add: pool_free_def)
  obtain ps d3 where pr: "parse_read (tr_sizes r) as ?d2 = Some (ps, d3)"
    using assms(3) f by (auto simp: ReadTUNPackets_round_def bind_eq_Some_conv)
  have own3: "dev_owned (mset (somes ps) + mset (drop ?n as) + held t) d3"
    using parse_read_owned [OF own2 pr] assms(2) as(2) by (simp add: ac_simps)
  have len: "length ps = ?n" using parse_read_length [OF pr] assms(2) as(2) by simp
  obtain ps' where h: "(if ?n > 0 then handler ps d3 t else Some (ps, d3, t)) = Some (ps', d', t')"
    and p': "packets' = ps' @ map Some (drop ?n as)"
    using assms(3) f pr by (auto simp: ReadTUNPackets_round_def bind_eq_Some_conv)
  have "dev_owned (mset (somes ps') + mset (drop ?n as) + held t') d' \<and> length ps' = length ps"
    using h handler_owned [OF own3] own3 by (auto split: if_splits)
  then show ?thesis using p' len as(2) assms(2) by (simp add: ac_simps)
qed

lemma loop_owned:
  assumes "dev_owned (mset (somes packets) + held t) d" and "\<forall>r \<in> set rs. length (tr_sizes r) \<le> length packets"
    and "ReadTUNPackets handler packets rs d t = Some (packets', d', t')"
  shows "dev_owned (mset (somes packets') + held t') d'"
  using assms
proof (induction rs arbitrary: packets d t)
  case (Cons r rs)
  obtain c p1 d1 t1 where r: "ReadTUNPackets_round handler packets r d t = Some (c, p1, d1, t1)"
    and rest: "(if c then ReadTUNPackets handler p1 rs d1 t1 else Some (p1, d1, t1)) = Some (packets', d', t')"
    using Cons.prems(3) by (auto simp: bind_eq_Some_conv)
  have "dev_owned (mset (somes p1) + held t1) d1" "length p1 = length packets"
    using round_owned [OF Cons.prems(1) _ r] Cons.prems(2) by simp_all
  with Cons.IH [of p1 t1 d1] Cons.prems(2) rest show ?case by (auto split: if_splits)
qed simp

end

section \<open>Properties of the reading loop and the events\<close>

text \<open>
  The loop over the packets just read panics exactly when the interface reports a size
  above the room behind the offset that still passes the guard against \<open>maxContentSize\<close>.
\<close>

theorem read_tun_panics_iff:
  assumes "length sizes \<le> length packets"
  shows "parse_read sizes packets d = None \<longleftrightarrow>
     (\<exists>sz \<in> set sizes. maxContentSize - tunPacketOffset < sz \<and> sz \<le> maxContentSize)"
  by (rule parse_read_None_iff [OF assms])

theorem read_tun_panics_iff_witness:
  "parse_read [0, 3590] [0, 1] (zero_Device 1500 []) = None"
  using read_tun_panics_iff [of "[0, 3590]" "[0, 1]" "zero_Device 1500 []"] by (simp add: packet_consts)

text \<open>
  Whatever events arrive, an MTU that starts between 0 and \<open>maxContentSize\<close> stays there,
  and no event touches the packets, the pool or what was sent.
\<close>

theorem mtu_bounded:
  assumes "0 \<le> dv_mtu d" and "dv_mtu d \<le> int maxContentSize"
  shows "0 \<le> dv_mtu (tunEventsReader d es) \<and> dv_mtu (tunEventsReader d es) \<le> int maxContentSize \<and>
     tunEventsReader d es = d\<lparr>dv_mtu := dv_mtu (tunEventsReader d es)\<rparr>"
  using assms
proof (induction es arbitrary: d)
  case (Cons e es)
  let ?d = "tunEventsReader_step d e"
  have step: "0 \<le> dv_mtu ?d" "dv_mtu ?d \<le> int maxContentSize" "?d = d\<lparr>dv_mtu := dv_mtu ?d\<rparr>"
    using Cons.prems by (auto simp: tunEventsReader_step_def split: option.splits)
  have "tunEventsReader d (e # es) = tunEventsReader ?d es" by (simp add: tunEventsReader_def)
  with Cons.IH [OF step(1,2)] step(3) show ?case by (metis Device.surjective Device.update_convs(1))
qed (simp add: tunEventsReader_def)

theorem mtu_bounded_witness:
  "dv_mtu (tunEventsReader (zero_Device 1500 []) [\<lparr>te_mtuUpdate = True, te_mtu = Some 9000\<rparr>]) = 3600 \<and>
   dv_mtu (tunEventsReader (zero_Device 1500 []) [\<lparr>te_mtuUpdate = True, te_mtu = Some 9000\<rparr>]) \<le> int maxContentSize"
  using mtu_bounded [of "zero_Device 1500 []" "[\<lparr>te_mtuUpdate = True, te_mtu = Some 9000\<rparr>]"]
  by (simp add: zero_Device_def tunEventsReader_def tunEventsReader_step_def packet_consts)

end
