(* ===== verification/Awl_Config.thy ===== *)
theory Awl_Config
  imports Go_Net Wire_Protocol
begin

text \<open>
  The configuration of \<open>src/config/config.go\<close>: its records, the operations on known and
  blocked peers, unique alias generation, and the state around it (the file last written and
  the events emitted). Every operation holds the configuration's lock for its whole body, so
  it is one atomic state change. A nil slice or map is the empty one; times are numbers, the
  zero time is 0, and the current time is an argument.
\<close>

section \<open>Constants and data\<close>

definition DefaultPeerAlias :: string where
  "DefaultPeerAlias = ''peer''"

definition DefaultHTTPPort :: nat where
  "DefaultHTTPPort = 8639"

definition AdminHttpServerDomainName :: string where
  "AdminHttpServerDomainName = ''admin''"

definition AdminHttpServerIP :: string where
  "AdminHttpServerIP = ''127.0.0.66''"

definition defaultSOCKS5ListenAddress :: string where
  "defaultSOCKS5ListenAddress = ''127.0.0.1:10808''"

record P2pNodeConfig =
  pn_PeerID :: string
  pn_Name :: string
  pn_Identity :: string
  pn_BootstrapPeers :: "string list"
  pn_IgnoreDefaultBootstrapPeers :: "bool option"
  pn_ListenAddresses :: "string list"
  pn_ReconnectionIntervalSec :: int
  pn_AutoAcceptAuthRequests :: bool
  pn_UseDedicatedConnForEachStream :: bool
  pn_ParallelSendingStreamsCount :: int

record VPNConfig =
  vc_DisableVPNInterface :: bool
  vc_InterfaceName :: string
  vc_IPNet :: string

record SOCKS5Config =
  sc_ListenerEnabled :: bool
  sc_ProxyingEnabled :: bool
  sc_ListenAddress :: string
  sc_UsingPeerID :: string

record DNSConfig =
  dc_DisableDNS :: bool
  dc_ListenAddress :: string

record KnownPeer =
  kp_PeerID :: string
  kp_Name :: string
  kp_Alias :: string
  kp_IPAddr :: string
  kp_DomainName :: string
  kp_CreatedAt :: nat
  kp_LastSeen :: nat
  kp_Confirmed :: bool
  kp_Declined :: bool
  kp_WeAllowUsingAsExitNode :: bool
  kp_AllowedUsingAsExitNode :: bool
  kp_ReportedUsingPeerID :: string

record BlockedPeer =
  bp_PeerID :: string
  bp_DisplayName :: string
  bp_CreatedAt :: nat

record UpdateConfig =
  uc_LowestPriorityChan :: string
  uc_UpdateServerURL :: string
  uc_TrayAutoCheckEnabled :: bool
  uc_TrayAutoCheckInterval :: string

record HttpBasicAuthConfig =
  ha_Username :: string
  ha_Password :: string

record Config =
  c_dataDir :: string
  c_Version :: string
  c_LoggerLevel :: string
  c_HttpListenAddress :: string
  c_HttpListenOnAdminHost :: bool
  c_HttpBasicAuth :: HttpBasicAuthConfig
  c_P2pNode :: P2pNodeConfig
  c_VPNConfig :: VPNConfig
  c_SOCKS5 :: SOCKS5Config
  c_DNS :: DNSConfig
  c_KnownPeers :: "(string, KnownPeer) gomap"
  c_BlockedPeers :: "(string, BlockedPeer) gomap"
  c_Update :: UpdateConfig

text \<open>The zero values Go gives to a struct literal or a missing map entry.\<close>

definition zero_KnownPeer :: KnownPeer where
  "zero_KnownPeer =
     \<lparr>kp_PeerID = [], kp_Name = [], kp_Alias = [], kp_IPAddr = [], kp_DomainName = [],
      kp_CreatedAt = 0, kp_LastSeen = 0, kp_Confirmed = False, kp_Declined = False,
      kp_WeAllowUsingAsExitNode = False, kp_AllowedUsingAsExitNode = False,
      kp_ReportedUsingPeerID = []\<rparr>"

definition zero_BlockedPeer :: BlockedPeer where
  "zero_BlockedPeer = \<lparr>bp_PeerID = [], bp_DisplayName = [], bp_CreatedAt = 0\<rparr>"

definition zero_SOCKS5Config :: SOCKS5Config where
  "zero_SOCKS5Config =
     \<lparr>sc_ListenerEnabled = False, sc_ProxyingEnabled = False, sc_ListenAddress = [],
      sc_UsingPeerID = []\<rparr>"

definition zero_Config :: Config where
  "zero_Config =
     \<lparr>c_dataDir = [], c_Version = [], c_LoggerLevel = [], c_HttpListenAddress = [],
      c_HttpListenOnAdminHost = False,
      c_HttpBasicAuth = \<lparr>ha_Username = [], ha_Password = []\<rparr>,
      c_P2pNode =
        \<lparr>pn_PeerID = [], pn_Name = [], pn_Identity = [], pn_BootstrapPeers = [],
         pn_IgnoreDefaultBootstrapPeers = None, pn_ListenAddresses = [],
         pn_ReconnectionIntervalSec = 0, pn_AutoAcceptAuthRequests = False,
         pn_UseDedicatedConnForEachStream = False, pn_ParallelSendingStreamsCount = 0\<rparr>,
      c_VPNConfig = \<lparr>vc_DisableVPNInterface = False, vc_InterfaceName = [], vc_IPNet = []\<rparr>,
      c_SOCKS5 = zero_SOCKS5Config,
      c_DNS = \<lparr>dc_DisableDNS = False, dc_ListenAddress = []\<rparr>,
      c_KnownPeers = [], c_BlockedPeers = [],
      c_Update =
        \<lparr>uc_LowestPriorityChan = [], uc_UpdateServerURL = [], uc_TrayAutoCheckEnabled = False,
         uc_TrayAutoCheckInterval = []\<rparr>\<rparr>"

text \<open>
  Events of \<open>src/awlevent/awlevent.go\<close>, and the state the operations act on: the
  configuration, the contents of its file (\<open>None\<close> before the first write), whether writing
  the file succeeds, and the events emitted so far.
\<close>

datatype awl_event = KnownPeerChanged | ReceivedAuthRequest AuthPeer string

record conf_state =
  cs_conf :: Config
  cs_disk :: "Config option"
  cs_diskOK :: bool
  cs_events :: "awl_event list"

section \<open>Operations\<close>

definition c_save :: "conf_state \<Rightarrow> conf_state" where
  "c_save s = (if cs_diskOK s then s\<lparr>cs_disk := Some (cs_conf s)\<rparr> else s)"

definition emit :: "awl_event \<Rightarrow> conf_state \<Rightarrow> conf_state" where
  "emit e s = s\<lparr>cs_events := cs_events s @ [e]\<rparr>"

definition set_known :: "(string, KnownPeer) gomap \<Rightarrow> conf_state \<Rightarrow> conf_state" where
  "set_known m s = s\<lparr>cs_conf := (cs_conf s)\<lparr>c_KnownPeers := m\<rparr>\<rparr>"

definition set_blocked :: "(string, BlockedPeer) gomap \<Rightarrow> conf_state \<Rightarrow> conf_state" where
  "set_blocked m s = s\<lparr>cs_conf := (cs_conf s)\<lparr>c_BlockedPeers := m\<rparr>\<rparr>"

definition DisplayName :: "KnownPeer \<Rightarrow> string" where
  "DisplayName p = (if kp_Alias p \<noteq> [] then kp_Alias p else kp_Name p)"

definition IsUniqPeerAlias :: "Config \<Rightarrow> string \<Rightarrow> string \<Rightarrow> bool" where
  "IsUniqPeerAlias c excludePeerID alias \<longleftrightarrow>
     list_all (\<lambda>p. kp_PeerID p = excludePeerID \<or> kp_Alias p \<noteq> alias) (gm_vals (c_KnownPeers c))"

definition GetPeer :: "Config \<Rightarrow> string \<Rightarrow> KnownPeer option" where
  "GetPeer c peerID = gm_get (c_KnownPeers c) peerID"

definition RemovePeer :: "string \<Rightarrow> conf_state \<Rightarrow> KnownPeer option \<times> conf_state" where
  "RemovePeer peerID s =
     (case gm_get (c_KnownPeers (cs_conf s)) peerID of
        None \<Rightarrow> (None, s)
      | Some p \<Rightarrow>
          (Some p, emit KnownPeerChanged
             (c_save (set_known (gm_del (c_KnownPeers (cs_conf s)) peerID) s))))"

definition UpsertPeer :: "KnownPeer \<Rightarrow> conf_state \<Rightarrow> conf_state" where
  "UpsertPeer p s =
     emit KnownPeerChanged
       (c_save (set_known (gm_set (c_KnownPeers (cs_conf s)) (kp_PeerID p) p) s))"

definition UpdatePeerLastSeen :: "nat \<Rightarrow> string \<Rightarrow> conf_state \<Rightarrow> conf_state" where
  "UpdatePeerLastSeen now peerID s =
     (case gm_get (c_KnownPeers (cs_conf s)) peerID of
        None \<Rightarrow> s
      | Some p \<Rightarrow> set_known (gm_set (c_KnownPeers (cs_conf s)) peerID (p\<lparr>kp_LastSeen := now\<rparr>)) s)"

definition GetBlockedPeer :: "Config \<Rightarrow> string \<Rightarrow> BlockedPeer option" where
  "GetBlockedPeer c peerID = gm_get (c_BlockedPeers c) peerID"

definition RemoveBlockedPeer :: "string \<Rightarrow> conf_state \<Rightarrow> conf_state" where
  "RemoveBlockedPeer peerID s =
     (case gm_get (c_BlockedPeers (cs_conf s)) peerID of
        None \<Rightarrow> s
      | Some _ \<Rightarrow> c_save (set_blocked (gm_del (c_BlockedPeers (cs_conf s)) peerID) s))"

definition UpsertBlockedPeer :: "nat \<Rightarrow> string \<Rightarrow> string \<Rightarrow> conf_state \<Rightarrow> conf_state" where
  "UpsertBlockedPeer now peerID displayName s =
     (let b = (case gm_get (c_BlockedPeers (cs_conf s)) peerID of
                 None \<Rightarrow> zero_BlockedPeer\<lparr>bp_CreatedAt := now\<rparr>
               | Some b \<Rightarrow> b);
          b' = b\<lparr>bp_PeerID := peerID, bp_DisplayName := displayName\<rparr>
      in c_save (set_blocked (gm_set (c_BlockedPeers (cs_conf s)) peerID b') s))"

definition SetIdentity :: "string \<Rightarrow> string \<Rightarrow> conf_state \<Rightarrow> conf_state" where
  \<comment> \<open>the base58 text of the raw key and the printed peer ID are arguments\<close>
  "SetIdentity identity idStr s =
     c_save (s\<lparr>cs_conf := (cs_conf s)\<lparr>c_P2pNode := (c_P2pNode (cs_conf s))
       \<lparr>pn_Identity := identity, pn_PeerID := idStr\<rparr>\<rparr>\<rparr>)"

definition SetListenAddresses :: "string list \<Rightarrow> conf_state \<Rightarrow> conf_state" where
  \<comment> \<open>the argument is the list of printed multiaddresses\<close>
  "SetListenAddresses addrs s =
     s\<lparr>cs_conf := (cs_conf s)\<lparr>c_P2pNode := (c_P2pNode (cs_conf s))\<lparr>pn_ListenAddresses := addrs\<rparr>\<rparr>\<rparr>"

definition DNSNamesMapping :: "Config \<Rightarrow> (string, string) gomap" where
  "DNSNamesMapping c =
     foldl (\<lambda>m p.
         let m1 = gm_set m (kp_PeerID p) (kp_IPAddr p)
         in if kp_DomainName p \<noteq> [] then gm_set m1 (kp_DomainName p) (kp_IPAddr p) else m1)
       [] (gm_vals (c_KnownPeers c))"

definition DevMode :: "Config \<Rightarrow> bool" where
  "DevMode c \<longleftrightarrow> c_LoggerLevel c = ''dev''"

text \<open>
  \<open>KnownPeer.PeerId\<close>: libp2p's \<open>peer.Decode\<close> is the argument \<open>pdec\<close>; a text that does not
  decode is logged and yields the empty ID (the production logger does not panic).
\<close>

definition PeerId :: "(string \<Rightarrow> string option) \<Rightarrow> KnownPeer \<Rightarrow> string" where
  "PeerId pdec p = (case pdec (kp_PeerID p) of None \<Rightarrow> [] | Some i \<Rightarrow> i)"

definition KnownPeersIds :: "(string \<Rightarrow> string option) \<Rightarrow> Config \<Rightarrow> string list" where
  "KnownPeersIds pdec c = map (PeerId pdec) (gm_vals (c_KnownPeers c))"

section \<open>Unique aliases\<close>

definition alias_i :: "string \<Rightarrow> nat \<Rightarrow> string" where
  "alias_i alias i = alias @ ''_'' @ itoa i"

lemma alias_i_inj: "alias_i a i = alias_i a j \<Longrightarrow> i = j"
  by (auto simp: alias_i_def dest: itoa_inj)

text \<open>The loop that appends \<open>_0\<close>, \<open>_1\<close>, \dots until the candidate is not taken.\<close>

function alias_loop :: "string \<Rightarrow> string list \<Rightarrow> nat \<Rightarrow> string" where
  "alias_loop alias taken i =
     (if alias_i alias i \<in> set taken then alias_loop alias taken (Suc i) else alias_i alias i)"
  by pat_completeness auto
termination
proof (relation "measure (\<lambda>(a, taken, i). card {x \<in> set taken. \<exists>j \<ge> i. x = alias_i a j})")
  fix al :: string and taken i
  assume hit: "alias_i al i \<in> set taken"
  let ?S = "\<lambda>i. {x \<in> set taken. \<exists>j \<ge> i. x = alias_i al j}"
  have "?S (Suc i) \<subseteq> ?S i" by (auto dest: Suc_leD)
  moreover have "alias_i al i \<in> ?S i" using hit by auto
  moreover have "alias_i al i \<notin> ?S (Suc i)" by (auto dest: alias_i_inj)
  ultimately have "?S (Suc i) \<subset> ?S i" by blast
  then have "card (?S (Suc i)) < card (?S i)" by (intro psubset_card_mono) auto
  then show "((al, taken, Suc i), (al, taken, i))
      \<in> measure (\<lambda>(a, taken, i). card {x \<in> set taken. \<exists>j \<ge> i. x = alias_i a j})"
    by simp
qed simp

declare alias_loop.simps [simp del]

text \<open>
  \<open>genUniqPeerAlias\<close> with the set of taken aliases as an optional argument: \<open>None\<close> is the
  nil map, for which the code collects the known peers' aliases. It returns the alias and the
  set with the alias added.
\<close>

definition genUniqPeerAlias ::
    "Config \<Rightarrow> string \<Rightarrow> string \<Rightarrow> string list option \<Rightarrow> string \<times> string list" where
  "genUniqPeerAlias c name alias uniqAliases =
     (let a = (if alias = [] then (if name = [] then DefaultPeerAlias else name) else alias);
          taken = (case uniqAliases of
                     None \<Rightarrow> map kp_Alias (gm_vals (c_KnownPeers c))
                   | Some u \<Rightarrow> u);
          a' = (if a \<in> set taken then alias_loop a taken 0 else a)
      in (a', a' # taken))"

definition GenUniqPeerAlias :: "Config \<Rightarrow> string \<Rightarrow> string \<Rightarrow> string" where
  "GenUniqPeerAlias c name alias = fst (genUniqPeerAlias c name alias None)"

lemma alias_loop_fresh: "alias_loop a taken i \<notin> set taken"
proof (induction a taken i rule: alias_loop.induct)
  case (1 a taken i)
  then show ?case
    by (cases "alias_i a i \<in> set taken") (simp_all add: alias_loop.simps [of a taken i])
qed

lemma alias_loop_first:
  "\<exists>j \<ge> i. alias_loop a taken i = alias_i a j \<and> (\<forall>k. i \<le> k \<and> k < j \<longrightarrow> alias_i a k \<in> set taken)"
proof (induction a taken i rule: alias_loop.induct)
  case (1 a taken i)
  show ?case
  proof (cases "alias_i a i \<in> set taken")
    case True
    then obtain j where j: "Suc i \<le> j" "alias_loop a taken (Suc i) = alias_i a j"
      and before: "\<forall>k. Suc i \<le> k \<and> k < j \<longrightarrow> alias_i a k \<in> set taken"
      using 1 by blast
    have "\<forall>k. i \<le> k \<and> k < j \<longrightarrow> alias_i a k \<in> set taken"
      using True before by (metis Suc_le_eq le_neq_implies_less)
    with j True show ?thesis
      by (metis Suc_leD alias_loop.simps)
  next
    case False
    then show ?thesis by (auto simp: alias_loop.simps [of a taken i])
  qed
qed

lemma alias_loop_not_Nil: "alias_loop a taken i \<noteq> []"
  using alias_loop_first [of i a taken] by (auto simp: alias_i_def)

lemma genUniqPeerAlias_fresh:
  assumes "genUniqPeerAlias c name al (Some taken) = (a, taken')"
  shows "a \<notin> set taken \<and> taken' = a # taken \<and> a \<noteq> []"
  using assms alias_loop_fresh alias_loop_not_Nil
  by (auto simp: genUniqPeerAlias_def Let_def DefaultPeerAlias_def split: if_splits)

lemma genUniqPeerAlias_None:
  "genUniqPeerAlias c name al None =
     genUniqPeerAlias c name al (Some (map kp_Alias (gm_vals (c_KnownPeers c))))"
  by (simp add: genUniqPeerAlias_def)

lemma GenUniqPeerAlias_fresh:
  "GenUniqPeerAlias c name al \<notin> kp_Alias ` set (gm_vals (c_KnownPeers c))"
  using genUniqPeerAlias_fresh [OF surjective_pairing, of c name al "map kp_Alias (gm_vals (c_KnownPeers c))"]
  by (simp add: GenUniqPeerAlias_def genUniqPeerAlias_None)

section \<open>Well-formed configurations\<close>

text \<open>
  The representation invariant of a configuration: both maps have distinct keys and every
  entry is stored under its own peer ID; and the invariant the alias checks maintain: no two
  known peers share an alias.
\<close>

definition peers_wf :: "Config \<Rightarrow> bool" where
  "peers_wf c \<longleftrightarrow>
     gm_wf (c_KnownPeers c) \<and> gm_wf (c_BlockedPeers c) \<and>
     (\<forall>(k, p) \<in> set (c_KnownPeers c). kp_PeerID p = k) \<and>
     (\<forall>(k, b) \<in> set (c_BlockedPeers c). bp_PeerID b = k)"

definition alias_wf :: "Config \<Rightarrow> bool" where
  "alias_wf c \<longleftrightarrow>
     (\<forall>(k, p) \<in> set (c_KnownPeers c). \<forall>(k', p') \<in> set (c_KnownPeers c).
        kp_Alias p = kp_Alias p' \<longrightarrow> k = k')"

definition conf_wf :: "Config \<Rightarrow> bool" where
  "conf_wf c \<longleftrightarrow> peers_wf c \<and> alias_wf c"

lemmas conf_op_defs =
  c_save_def emit_def set_known_def set_blocked_def UpsertPeer_def RemovePeer_def
  UpdatePeerLastSeen_def RemoveBlockedPeer_def UpsertBlockedPeer_def SetIdentity_def
  SetListenAddresses_def

lemma conf_c_save [simp]: "cs_conf (c_save s) = cs_conf s"
  by (simp add: c_save_def)

lemma conf_emit [simp]: "cs_conf (emit e s) = cs_conf s"
  by (simp add: emit_def)

lemma conf_set_known [simp]: "cs_conf (set_known m s) = (cs_conf s)\<lparr>c_KnownPeers := m\<rparr>"
  by (simp add: set_known_def)

lemma conf_set_blocked [simp]: "cs_conf (set_blocked m s) = (cs_conf s)\<lparr>c_BlockedPeers := m\<rparr>"
  by (simp add: set_blocked_def)

lemma conf_UpsertPeer [simp]:
  "cs_conf (UpsertPeer p s) =
     (cs_conf s)\<lparr>c_KnownPeers := gm_set (c_KnownPeers (cs_conf s)) (kp_PeerID p) p\<rparr>"
  by (simp add: UpsertPeer_def)

lemma peers_wf_known_set:
  "peers_wf c \<Longrightarrow> peers_wf (c\<lparr>c_KnownPeers := gm_set (c_KnownPeers c) (kp_PeerID p) p\<rparr>)"
  by (auto simp: peers_wf_def gm.wf_put set_gm_set)

lemma peers_wf_known_del:
  "peers_wf c \<Longrightarrow> peers_wf (c\<lparr>c_KnownPeers := gm_del (c_KnownPeers c) k\<rparr>)"
  by (auto simp: peers_wf_def gm.wf_del set_gm_del)

lemma peers_wf_blocked_set:
  "peers_wf c \<Longrightarrow> peers_wf (c\<lparr>c_BlockedPeers := gm_set (c_BlockedPeers c) (bp_PeerID b) b\<rparr>)"
  by (auto simp: peers_wf_def gm.wf_put set_gm_set)

lemma peers_wf_blocked_del:
  "peers_wf c \<Longrightarrow> peers_wf (c\<lparr>c_BlockedPeers := gm_del (c_BlockedPeers c) k\<rparr>)"
  by (auto simp: peers_wf_def gm.wf_del set_gm_del)

lemma alias_wf_del:
  "alias_wf c \<Longrightarrow> alias_wf (c\<lparr>c_KnownPeers := gm_del (c_KnownPeers c) k\<rparr>)"
  by (auto simp: alias_wf_def set_gm_del)

text \<open>Storing a peer whose alias no other entry has keeps the aliases unique.\<close>

lemma alias_wf_set:
  assumes "alias_wf c" and "gm_wf (c_KnownPeers c)"
    and "\<forall>(k, q) \<in> set (c_KnownPeers c). k \<noteq> kp_PeerID p \<longrightarrow> kp_Alias q \<noteq> kp_Alias p"
  shows "alias_wf (c\<lparr>c_KnownPeers := gm_set (c_KnownPeers c) (kp_PeerID p) p\<rparr>)"
  using assms by (fastforce simp: alias_wf_def set_gm_set)

lemma GetPeer_PeerID: "peers_wf c \<Longrightarrow> GetPeer c k = Some p \<Longrightarrow> kp_PeerID p = k"
  by (auto simp: peers_wf_def GetPeer_def dest: gm_get_Some_in)

lemma IsUniqPeerAlias_iff:
  "peers_wf c \<Longrightarrow> IsUniqPeerAlias c ex al \<longleftrightarrow>
     (\<forall>(k, q) \<in> set (c_KnownPeers c). k \<noteq> ex \<longrightarrow> kp_Alias q \<noteq> al)"
  by (fastforce simp: IsUniqPeerAlias_def peers_wf_def gm_vals_def list_all_iff)

end
