(* ===== verification/Net_Addr.thy ===== *)
theory Net_Addr
  imports Awl_Config
begin

text \<open>
  Address allocation of \<open>src/config/network_addr.go\<close>: the VPN's own address and mask, the
  next address for a new peer, and the check of an address chosen by the user.
  \<open>GenerateNextIpAddrExcept\<close> has a loop without a bound of its own, so it is a
  \<open>partial_function\<close>: \<open>None\<close> means that it panics or does not return, and the termination
  theorem shows that neither happens for a configuration with a valid IPv4 network.
\<close>

definition DefaultVPNInterfaceName :: string where
  "DefaultVPNInterfaceName = ''awl0''"

definition DefaultVPNNetworkSubnet :: string where
  "DefaultVPNNetworkSubnet = ''10.66.0.1/24''"

definition VPNLocalIPMask :: "Config \<Rightarrow> ip \<times> byte list" where
  "VPNLocalIPMask c =
     (case ParseCIDR (vc_IPNet (c_VPNConfig c)) of
        None \<Rightarrow> ([], [])
      | Some (localIP, ipNet) \<Rightarrow> (To4 localIP, net_Mask ipNet))"

definition vpn_net :: "Config \<Rightarrow> IPNet" where
  "vpn_net c =
     (case VPNLocalIPMask c of
        (localIP, netMask) \<Rightarrow> \<lparr>net_IP = ip_Mask localIP netMask, net_Mask = netMask\<rparr>)"

definition incrementIPAddr :: "ip \<Rightarrow> ip" where
  "incrementIPAddr a = be_bytes 4 (unat ((of_nat (be_val a) :: u32) + 1))"

text \<open>The loop over the known peers: the highest address of the subnet in use.\<close>

definition max_ip_step :: "IPNet \<Rightarrow> ip \<Rightarrow> KnownPeer \<Rightarrow> ip" where
  "max_ip_step net m known =
     (let a = ParseIP (kp_IPAddr known)
      in if a = [] then m
         else if IPNet_Contains net (To4 a) \<and> be_val m < be_val (To4 a) then To4 a else m)"

definition max_ip :: "Config \<Rightarrow> ip" where
  "max_ip c =
     foldl (max_ip_step (vpn_net c)) (fst (VPNLocalIPMask c)) (gm_vals (c_KnownPeers c))"

text \<open>The loop that skips excluded addresses.\<close>

partial_function (option) next_free :: "string list \<Rightarrow> ip \<Rightarrow> string option" where
  "next_free except maxIp =
     (let newIp = incrementIPAddr maxIp; newIpStr = ip4_String newIp
      in if newIpStr \<notin> set except then Some newIpStr else next_free except newIp)"

declare next_free.simps [code]

text \<open>A nil local address makes \<open>binary.BigEndian.Uint32\<close> panic: \<open>None\<close>.\<close>

definition GenerateNextIpAddrExcept :: "Config \<Rightarrow> string list \<Rightarrow> string option" where
  "GenerateNextIpAddrExcept c except =
     (if fst (VPNLocalIPMask c) = [] then None else next_free except (max_ip c))"

definition GenerateNextIpAddr :: "Config \<Rightarrow> string option" where
  "GenerateNextIpAddr c = GenerateNextIpAddrExcept c []"

datatype ip_error = InvalidIP | NotInSubnet | UsedByPeer string

datatype check_result = CheckOk | CheckErr ip_error | CheckPanic

fun first_user :: "string \<Rightarrow> string \<Rightarrow> KnownPeer list \<Rightarrow> check_result" where
  "first_user checkIP exceptPeerID [] = CheckOk"
| "first_user checkIP exceptPeerID (p # ps) =
     (if kp_IPAddr p \<noteq> checkIP then first_user checkIP exceptPeerID ps
      else if exceptPeerID \<noteq> [] \<and> kp_PeerID p = exceptPeerID then first_user checkIP exceptPeerID ps
      else CheckErr (UsedByPeer (kp_Alias p)))"

definition CheckIPUnique :: "Config \<Rightarrow> string \<Rightarrow> string \<Rightarrow> check_result" where
  "CheckIPUnique c checkIP exceptPeerID =
     (case ParseAddr checkIP of
        None \<Rightarrow> CheckErr InvalidIP
      | Some a \<Rightarrow>
          (case addr_As4 a of
             None \<Rightarrow> CheckPanic
           | Some a4 \<Rightarrow>
               if \<not> IPNet_Contains (vpn_net c) a4 then CheckErr NotInSubnet
               else first_user checkIP exceptPeerID (gm_vals (c_KnownPeers c))))"

section \<open>The skipping loop\<close>

lemma length_increment [simp]: "length (incrementIPAddr a) = 4"
  by (simp add: incrementIPAddr_def)

lemma be_val_increment: "be_val (incrementIPAddr a) = (be_val a + 1) mod 2 ^ 32"
proof -
  have "(of_nat (be_val a) :: u32) + 1 = of_nat (be_val a + 1)" by simp
  then have "unat ((of_nat (be_val a) :: u32) + 1) = (be_val a + 1) mod 2 ^ 32"
    by (simp only: unat_of_nat) simp
  then show ?thesis
    by (simp add: incrementIPAddr_def be_val_be_bytes)
qed

lemma increment_funpow:
  assumes "length a = 4"
  shows "length ((incrementIPAddr ^^ k) a) = 4 \<and>
         be_val ((incrementIPAddr ^^ k) a) = (be_val a + k) mod 2 ^ 32"
proof (induction k)
  case 0
  have "be_val a < 2 ^ 32" using be_val_less [of a] assms by simp
  with assms show ?case by simp
next
  case (Suc k)
  then show ?case by (simp add: be_val_increment mod_simps)
qed

lemma next_free_first:
  assumes "ip4_String ((incrementIPAddr ^^ Suc k) a) \<notin> set ex"
    and "\<forall>j < k. ip4_String ((incrementIPAddr ^^ Suc j) a) \<in> set ex"
  shows "next_free ex a = Some (ip4_String ((incrementIPAddr ^^ Suc k) a))"
  using assms
proof (induction k arbitrary: a)
  case 0
  then show ?case by (simp add: next_free.simps [of ex a])
next
  case (Suc k)
  have "ip4_String (incrementIPAddr a) \<in> set ex"
    using Suc.prems(2) by force
  moreover have "next_free ex (incrementIPAddr a) =
      Some (ip4_String ((incrementIPAddr ^^ Suc k) (incrementIPAddr a)))"
  proof (rule Suc.IH)
    show "ip4_String ((incrementIPAddr ^^ Suc k) (incrementIPAddr a)) \<notin> set ex"
      using Suc.prems(1) by (simp add: funpow_swap1)
    show "\<forall>j < k. ip4_String ((incrementIPAddr ^^ Suc j) (incrementIPAddr a)) \<in> set ex"
      using Suc.prems(2) by (auto simp: funpow_swap1)
  qed
  ultimately show ?case
    by (simp add: next_free.simps [of ex a] funpow_swap1)
qed

text \<open>
  Among the next \<open>length ex + 1\<close> addresses, all different, one is not excluded.
\<close>

lemma next_free_exists:
  assumes a: "length a = 4" and few: "length ex < 2 ^ 32"
  shows "\<exists>k \<le> length ex. next_free ex a = Some (ip4_String ((incrementIPAddr ^^ Suc k) a)) \<and>
    ip4_String ((incrementIPAddr ^^ Suc k) a) \<notin> set ex"
proof -
  let ?f = "\<lambda>k. ip4_String ((incrementIPAddr ^^ Suc k) a)"
  have inj: "inj_on ?f {..length ex}"
  proof (rule inj_onI)
    fix i j
    assume i: "i \<in> {..length ex}" and j: "j \<in> {..length ex}" and eq: "?f i = ?f j"
    have "(incrementIPAddr ^^ Suc i) a = (incrementIPAddr ^^ Suc j) a"
      using eq increment_funpow [OF a] by (blast intro: ip4_String_inj)
    then have "(be_val a + Suc i) mod 2 ^ 32 = (be_val a + Suc j) mod 2 ^ 32"
      using increment_funpow [OF a] by metis
    then have "unat (of_nat (be_val a + Suc i) :: u32) = unat (of_nat (be_val a + Suc j) :: u32)"
      by (simp only: unat_of_nat) simp
    then have "(of_nat (be_val a + Suc i) :: u32) = of_nat (be_val a + Suc j)"
      by (simp only: unsigned_word_eqI)
    then have "(of_nat i :: u32) = of_nat j" by simp
    then have "unat (of_nat i :: u32) = unat (of_nat j :: u32)" by simp
    then show "i = j" using i j few by (simp add: unat_of_nat)
  qed
  have "\<not> ?f ` {..length ex} \<subseteq> set ex"
  proof
    assume "?f ` {..length ex} \<subseteq> set ex"
    then have "card (?f ` {..length ex}) \<le> card (set ex)" by (intro card_mono) auto
    also have "\<dots> \<le> length ex" by (rule card_length)
    finally show False using card_image [OF inj] by simp
  qed
  then obtain i where i: "i \<le> length ex" "?f i \<notin> set ex" by auto
  define k where "k = (LEAST k. ?f k \<notin> set ex)"
  have free: "?f k \<notin> set ex" unfolding k_def by (rule LeastI [of _ i]) (use i in simp)
  have "k \<le> i" unfolding k_def by (rule Least_le) (use i in simp)
  moreover have "\<forall>j < k. ?f j \<in> set ex" unfolding k_def using not_less_Least by blast
  ultimately show ?thesis
    using free i(1) next_free_first [of k a ex] by (meson order_trans)
qed

section \<open>The highest address in use\<close>

lemma fold_max_ip:
  assumes "length m = 4"
  shows "length (foldl (max_ip_step net) m ps) = 4 \<and>
         be_val m \<le> be_val (foldl (max_ip_step net) m ps)"
  using assms
proof (induction ps arbitrary: m)
  case Nil
  then show ?case by simp
next
  case (Cons p ps)
  have "length (max_ip_step net m p) = 4 \<and> be_val m \<le> be_val (max_ip_step net m p)"
    using Cons.prems length_To4 by (force simp: max_ip_step_def Let_def)
  with Cons.IH [of "max_ip_step net m p"] show ?case by fastforce
qed

lemma fold_max_ip_bound:
  assumes "length m = 4" and "p \<in> set ps" and "To4 (ParseIP (kp_IPAddr p)) \<noteq> []"
    and "IPNet_Contains net (To4 (ParseIP (kp_IPAddr p)))"
  shows "be_val (To4 (ParseIP (kp_IPAddr p))) \<le> be_val (foldl (max_ip_step net) m ps)"
  using assms(1,2)
proof (induction ps arbitrary: m)
  case Nil
  then show ?case by simp
next
  case (Cons q ps)
  let ?m = "max_ip_step net m q"
  have m: "length ?m = 4"
    using Cons.prems(1) length_To4 by (force simp: max_ip_step_def Let_def)
  show ?case
  proof (cases "p = q")
    case True
    have "ParseIP (kp_IPAddr p) \<noteq> []" using assms(3) by (auto simp: To4_def)
    then have "be_val (To4 (ParseIP (kp_IPAddr p))) \<le> be_val ?m"
      using assms(4) True by (auto simp: max_ip_step_def Let_def)
    also have "\<dots> \<le> be_val (foldl (max_ip_step net) ?m ps)"
      using fold_max_ip [OF m] by simp
    finally show ?thesis by simp
  next
    case False
    with Cons.prems(2) have "p \<in> set ps" by simp
    with Cons.IH [OF m] show ?thesis by simp
  qed
qed

lemma length_local_ip: "fst (VPNLocalIPMask c) \<noteq> [] \<Longrightarrow> length (fst (VPNLocalIPMask c)) = 4"
  using length_To4 by (auto simp: VPNLocalIPMask_def split: option.splits prod.splits)

lemma max_ip_bounds:
  assumes "fst (VPNLocalIPMask c) \<noteq> []"
  shows "length (max_ip c) = 4" and "be_val (fst (VPNLocalIPMask c)) \<le> be_val (max_ip c)"
  using fold_max_ip [OF length_local_ip [OF assms]] by (simp_all add: max_ip_def)

definition in_vpn_net :: "Config \<Rightarrow> KnownPeer \<Rightarrow> bool" where
  "in_vpn_net c p \<longleftrightarrow>
     To4 (ParseIP (kp_IPAddr p)) \<noteq> [] \<and> IPNet_Contains (vpn_net c) (To4 (ParseIP (kp_IPAddr p)))"

lemma max_ip_known:
  assumes "fst (VPNLocalIPMask c) \<noteq> []" and "p \<in> set (gm_vals (c_KnownPeers c))" and "in_vpn_net c p"
  shows "be_val (To4 (ParseIP (kp_IPAddr p))) \<le> be_val (max_ip c)"
  unfolding max_ip_def
  by (rule fold_max_ip_bound)
    (use assms length_local_ip [OF assms(1)] in \<open>simp_all add: in_vpn_net_def\<close>)

section \<open>Allocation as an interface\<close>

text \<open>
  What the API handler that suggests addresses relies on: an allocated address is not one of
  the excluded ones. Asking again with every answer added to the exclusions then gives
  pairwise different answers.
\<close>

fun alloc_many :: "(string list \<Rightarrow> string option) \<Rightarrow> nat \<Rightarrow> string list \<Rightarrow> string list option" where
  "alloc_many gen 0 ex = Some []"
| "alloc_many gen (Suc n) ex =
     (case gen ex of
        None \<Rightarrow> None
      | Some a \<Rightarrow> map_option (\<lambda>as. a # as) (alloc_many gen n (ex @ [a])))"

locale addr_allocator =
  fixes gen :: "string list \<Rightarrow> string option" and limit :: nat
  assumes gen_fresh: "gen ex = Some a \<Longrightarrow> length ex < limit \<Longrightarrow> a \<notin> set ex"
    and gen_total: "length ex < limit \<Longrightarrow> \<exists>a. gen ex = Some a"
begin

lemma alloc_many_distinct:
  "length ex + n \<le> limit \<Longrightarrow>
     \<exists>as. alloc_many gen n ex = Some as \<and> length as = n \<and> distinct as \<and> set as \<inter> set ex = {}"
proof (induction n arbitrary: ex)
  case 0
  show ?case by simp
next
  case (Suc n)
  then have lt: "length ex < limit" by simp
  then obtain a where a: "gen ex = Some a" using gen_total by blast
  have "length (ex @ [a]) + n \<le> limit" using Suc.prems by simp
  from Suc.IH [OF this] obtain as where as: "alloc_many gen n (ex @ [a]) = Some as"
    "length as = n" "distinct as" "set as \<inter> set (ex @ [a]) = {}" by blast
  with a gen_fresh [OF a lt] show ?case by auto
qed

end

lemma Generate_fresh_total:
  assumes "fst (VPNLocalIPMask c) \<noteq> []" and "length ex < 2 ^ 32"
  shows "\<exists>k \<le> length ex. GenerateNextIpAddrExcept c ex =
      Some (ip4_String ((incrementIPAddr ^^ Suc k) (max_ip c))) \<and>
      ip4_String ((incrementIPAddr ^^ Suc k) (max_ip c)) \<notin> set ex"
  using next_free_exists [OF max_ip_bounds(1) [OF assms(1)] assms(2)] assms(1)
  by (simp add: GenerateNextIpAddrExcept_def)

text \<open>
  The allocator of a configuration; one without a valid IPv4 network allocates nothing, so
  its limit is 0.
\<close>

definition alloc_limit :: "Config \<Rightarrow> nat" where
  "alloc_limit c = (if fst (VPNLocalIPMask c) = [] then 0 else 2 ^ 32)"

interpretation vpn_alloc: addr_allocator "GenerateNextIpAddrExcept c" "alloc_limit c" for c
proof unfold_locales
  fix ex a
  assume "GenerateNextIpAddrExcept c ex = Some a" and "length ex < alloc_limit c"
  then show "a \<notin> set ex"
    using Generate_fresh_total [of c ex] by (auto simp: alloc_limit_def split: if_splits)
next
  fix ex :: "string list"
  assume "length ex < alloc_limit c"
  then show "\<exists>a. GenerateNextIpAddrExcept c ex = Some a"
    using Generate_fresh_total [of c ex] by (auto simp: alloc_limit_def split: if_splits)
qed

section \<open>Properties\<close>

text \<open>
  C33. For a configuration with a valid IPv4 network and exclusions that do not run past the
  end of the address space, \<open>GenerateNextIpAddrExcept\<close> returns (its loop ends) an address
  that is not excluded, is above the node's own, and is not the address of any known peer of
  the subnet.
\<close>

theorem GenerateNextIpAddrExcept_fresh:
  assumes valid: "fst (VPNLocalIPMask c) \<noteq> []"
    and room: "be_val (max_ip c) + length ex + 1 < 2 ^ 32"
  shows "\<exists>s. GenerateNextIpAddrExcept c ex = Some s \<and> s \<notin> set ex \<and>
    be_val (fst (VPNLocalIPMask c)) < be_val (To4 (ParseIP s)) \<and>
    (\<forall>p \<in> set (gm_vals (c_KnownPeers c)). in_vpn_net c p \<longrightarrow> kp_IPAddr p \<noteq> s)"
proof -
  have "length ex < 2 ^ 32" using room by simp
  then obtain k where k: "k \<le> length ex" and free: "ip4_String ((incrementIPAddr ^^ Suc k) (max_ip c)) \<notin> set ex"
    and gen: "GenerateNextIpAddrExcept c ex = Some (ip4_String ((incrementIPAddr ^^ Suc k) (max_ip c)))"
    using Generate_fresh_total [OF valid] by blast
  let ?a = "(incrementIPAddr ^^ Suc k) (max_ip c)"
  have len: "length ?a = 4" and val: "be_val ?a = be_val (max_ip c) + Suc k"
    using increment_funpow [OF max_ip_bounds(1) [OF valid], of "Suc k"] k room by simp_all
  have parsed: "be_val (To4 (ParseIP (ip4_String ?a))) = be_val (max_ip c) + Suc k"
    using len val by simp
  moreover have "\<forall>p \<in> set (gm_vals (c_KnownPeers c)). in_vpn_net c p \<longrightarrow> kp_IPAddr p \<noteq> ip4_String ?a"
    using parsed max_ip_known [OF valid] by fastforce
  ultimately show ?thesis
    using gen free max_ip_bounds(2) [OF valid] by (metis add_Suc_right le_imp_less_Suc trans_le_add1)
qed

definition demo_peer :: "string \<Rightarrow> string \<Rightarrow> KnownPeer" where
  "demo_peer pid addr = zero_KnownPeer\<lparr>kp_PeerID := pid, kp_Alias := pid, kp_IPAddr := addr\<rparr>"

definition demo_conf :: "string \<Rightarrow> (string \<times> string) list \<Rightarrow> Config" where
  "demo_conf net ps =
     zero_Config\<lparr>c_VPNConfig := (c_VPNConfig zero_Config)\<lparr>vc_IPNet := net\<rparr>,
       c_KnownPeers := map (\<lambda>(i, a). (i, demo_peer i a)) ps\<rparr>"

theorem GenerateNextIpAddrExcept_fresh_witness:
  "\<exists>s. GenerateNextIpAddrExcept (demo_conf DefaultVPNNetworkSubnet [(''a'', ''10.66.0.7'')]) [''10.66.0.8''] = Some s \<and>
     s \<notin> {''10.66.0.8'', ''10.66.0.7''}"
proof -
  let ?c = "demo_conf DefaultVPNNetworkSubnet [(''a'', ''10.66.0.7'')]"
  have v: "fst (VPNLocalIPMask ?c) \<noteq> []" by code_simp
  have r: "be_val (max_ip ?c) + length [''10.66.0.8''] + 1 < 2 ^ 32" by code_simp
  have p: "\<exists>p \<in> set (gm_vals (c_KnownPeers ?c)). in_vpn_net ?c p \<and> kp_IPAddr p = ''10.66.0.7''"
    by code_simp
  from GenerateNextIpAddrExcept_fresh [OF v r] p show ?thesis by auto
qed

text \<open>
  A full subnet is not detected: with the last address of \<open>10.66.0.1/24\<close> in use the next
  address lies outside the subnet, is not counted as in use, and is handed out again: the
  generated address is one that a known peer already has.
\<close>

theorem GenerateNextIpAddr_duplicate:
  "GenerateNextIpAddr (demo_conf ''10.66.0.1/24'' [(''a'', ''10.66.0.255'')]) = Some ''10.66.1.0'' \<and>
   GenerateNextIpAddr (demo_conf ''10.66.0.1/24'' [(''a'', ''10.66.0.255''), (''b'', ''10.66.1.0'')]) =
     Some ''10.66.1.0''"
  by code_simp

lemma first_user_ok:
  "first_user a ex ps = CheckOk \<longleftrightarrow>
     (\<forall>p \<in> set ps. kp_IPAddr p = a \<longrightarrow> ex \<noteq> [] \<and> kp_PeerID p = ex)"
  by (induction ps) auto

text \<open>
  \<open>CheckIPUnique\<close> accepts exactly the addresses that are well-formed, lie in the VPN's
  subnet and are used by no known peer other than the one being edited.
\<close>

theorem CheckIPUnique_ok_iff:
  "CheckIPUnique c a ex = CheckOk \<longleftrightarrow>
     (\<exists>ad a4. ParseAddr a = Some ad \<and> addr_As4 ad = Some a4 \<and> IPNet_Contains (vpn_net c) a4) \<and>
     (\<forall>p \<in> set (gm_vals (c_KnownPeers c)). kp_IPAddr p = a \<longrightarrow> ex \<noteq> [] \<and> kp_PeerID p = ex)"
  by (auto simp: CheckIPUnique_def first_user_ok split: option.splits)

theorem CheckIPUnique_ok_iff_witness:
  "CheckIPUnique (demo_conf ''10.66.0.1/24'' [(''a'', ''10.66.0.7'')]) ''10.66.0.7'' ''a'' = CheckOk \<and>
   CheckIPUnique (demo_conf ''10.66.0.1/24'' [(''a'', ''10.66.0.7'')]) ''10.66.0.7'' ''b'' \<noteq> CheckOk"
proof -
  let ?c = "demo_conf ''10.66.0.1/24'' [(''a'', ''10.66.0.7'')]"
  have "ParseAddr ''10.66.0.7'' = Some (A4 [10, 66, 0, 7])" by code_simp
  moreover have "IPNet_Contains (vpn_net ?c) [10, 66, 0, 7]" by code_simp
  ultimately show ?thesis
    using CheckIPUnique_ok_iff [of ?c "''10.66.0.7''" "''a''"]
      CheckIPUnique_ok_iff [of ?c "''10.66.0.7''" "''b''"]
    by (simp add: demo_conf_def demo_peer_def gm_vals_def)
qed

end
