(* ===== verification/Tunnel.thy ===== *)
theory Tunnel
  imports Vpn_Device Net_Addr
begin

text \<open>
  The tunnel of \<open>src/service/tunnel.go\<close>: the table of VPN peers, the handler of incoming
  streams, the distribution of packets read from the interface, and the two background loops
  of a peer. Each section the code runs under \<open>peersLock\<close> is one state change; channels
  are lists of packet objects. libp2p is outside: decoding and printing of peer IDs
  (\<open>pdec\<close>, \<open>pstr\<close>), connectedness and the outcome of opening and writing a stream are
  arguments. \<open>None\<close> is a panic, or a read that never returns.
\<close>

section \<open>State\<close>

definition packetHandlersChanCap :: nat where
  "packetHandlersChanCap = 2000"

record VpnPeer =
  vp_peerID :: string
  vp_localIP :: ip
  vp_inboundCh :: "nat list"
  vp_outboundCh :: "nat list"
  vp_closed :: bool
  vp_handlers :: int

text \<open>
  The two maps hold pointers to \<open>VpnPeer\<close> objects: indices of \<open>tn_heap\<close>, so that
  changing a peer's address is visible through both.
\<close>

record Tunnel =
  tn_isClosed :: bool
  tn_peerIDToPeer :: "(string, nat) gomap"
  tn_netIPToPeer :: "(ip, nat) gomap"
  tn_udpBroadcastAddr :: ip
  tn_heap :: "VpnPeer list"

definition NewVpnPeer :: "string \<Rightarrow> ip \<Rightarrow> VpnPeer" where
  "NewVpnPeer peerID localIP =
     \<lparr>vp_peerID = peerID, vp_localIP = localIP, vp_inboundCh = [], vp_outboundCh = [],
      vp_closed = False, vp_handlers = 0\<rparr>"

text \<open>\<open>Start\<close> spawns one inbound loop and the configured number of outbound loops.\<close>

definition VpnPeer_Start :: "Config \<Rightarrow> VpnPeer \<Rightarrow> VpnPeer" where
  "VpnPeer_Start c v = v\<lparr>vp_handlers := 1 + max 0 (pn_ParallelSendingStreamsCount (c_P2pNode c))\<rparr>"

text \<open>Closing twice panics; both channels are drained into the pool.\<close>

definition VpnPeer_Close :: "nat \<Rightarrow> Device \<Rightarrow> Tunnel \<Rightarrow> (Device \<times> Tunnel) option" where
  "VpnPeer_Close p d t =
     (let v = tn_heap t ! p
      in if vp_closed v then None
         else Some (fold PutTempPacket (vp_outboundCh v) (fold PutTempPacket (vp_inboundCh v) d),
                t\<lparr>tn_heap := (tn_heap t)[p := v\<lparr>vp_inboundCh := [], vp_outboundCh := [], vp_closed := True\<rparr>]\<rparr>))"

section \<open>Refreshing the peers\<close>

definition refresh_known :: "(string \<Rightarrow> string option) \<Rightarrow> Config \<Rightarrow> Tunnel \<Rightarrow> KnownPeer \<Rightarrow> Tunnel" where
  "refresh_known pdec c t knownPeer =
     (let peerID = PeerId pdec knownPeer;
          newLocalIP = To4 (ParseIP (kp_IPAddr knownPeer))
      in if newLocalIP = [] then t
         else case gm_get (tn_peerIDToPeer t) peerID of
           Some prevPeer \<Rightarrow>
             let oldLocalIP = vp_localIP (tn_heap t ! prevPeer)
             in if ip_Equal oldLocalIP newLocalIP then t
                else t\<lparr>tn_netIPToPeer :=
                         gm_set (gm_del (tn_netIPToPeer t) oldLocalIP) newLocalIP prevPeer,
                       tn_heap := (tn_heap t)[prevPeer := (tn_heap t ! prevPeer)\<lparr>vp_localIP := newLocalIP\<rparr>]\<rparr>
         | None \<Rightarrow>
             let vpnPeer = length (tn_heap t)
             in t\<lparr>tn_peerIDToPeer := gm_set (tn_peerIDToPeer t) peerID vpnPeer,
                  tn_netIPToPeer := gm_set (tn_netIPToPeer t) newLocalIP vpnPeer,
                  tn_heap := tn_heap t @ [VpnPeer_Start c (NewVpnPeer peerID newLocalIP)]\<rparr>)"

text \<open>Closing a peer and removing it from both maps, as the refresh and \<open>Close\<close> do.\<close>

definition drop_peer :: "nat \<Rightarrow> Device \<times> Tunnel \<Rightarrow> (Device \<times> Tunnel) option" where
  "drop_peer p dt =
     (let v = tn_heap (snd dt) ! p
      in map_option (\<lambda>(d, t). (d, t\<lparr>tn_peerIDToPeer := gm_del (tn_peerIDToPeer t) (vp_peerID v),
                                  tn_netIPToPeer := gm_del (tn_netIPToPeer t) (vp_localIP v)\<rparr>))
           (VpnPeer_Close p (fst dt) (snd dt)))"

fun drop_unknown :: "(string \<Rightarrow> string) \<Rightarrow> Config \<Rightarrow> nat list \<Rightarrow> Device \<times> Tunnel \<Rightarrow> (Device \<times> Tunnel) option" where
  "drop_unknown pstr c [] dt = Some dt"
| "drop_unknown pstr c (p # ps) dt =
     (if gm_get (c_KnownPeers c) (pstr (vp_peerID (tn_heap (snd dt) ! p))) \<noteq> None
      then drop_unknown pstr c ps dt
      else drop_peer p dt \<bind> drop_unknown pstr c ps)"

definition RefreshPeersList ::
    "(string \<Rightarrow> string option) \<Rightarrow> (string \<Rightarrow> string) \<Rightarrow> Config \<Rightarrow> Device \<Rightarrow> Tunnel \<Rightarrow> (Device \<times> Tunnel) option" where
  "RefreshPeersList pdec pstr c d t =
     (let t1 = foldl (refresh_known pdec c) t (gm_vals (c_KnownPeers c))
      in drop_unknown pstr c (gm_vals (tn_peerIDToPeer t1)) (d, t1))"

definition NewTunnel ::
    "(string \<Rightarrow> string option) \<Rightarrow> (string \<Rightarrow> string) \<Rightarrow> Config \<Rightarrow> Device \<Rightarrow> (Device \<times> Tunnel) option" where
  "NewTunnel pdec pstr c d = do {
     let (localIP, netMask) = VPNLocalIPMask c;
     udpBroadcastAddr \<leftarrow> GetIPv4BroadcastAddress \<lparr>net_IP = localIP, net_Mask = netMask\<rparr>;
     RefreshPeersList pdec pstr c d
       \<lparr>tn_isClosed = False, tn_peerIDToPeer = [], tn_netIPToPeer = [],
        tn_udpBroadcastAddr = udpBroadcastAddr, tn_heap = []\<rparr>
   }"

fun close_peers :: "nat list \<Rightarrow> Device \<times> Tunnel \<Rightarrow> (Device \<times> Tunnel) option" where
  "close_peers [] dt = Some dt"
| "close_peers (p # ps) dt = drop_peer p dt \<bind> close_peers ps"

definition Tunnel_Close :: "Device \<Rightarrow> Tunnel \<Rightarrow> (Device \<times> Tunnel) option" where
  "Tunnel_Close d t = close_peers (gm_vals (tn_peerIDToPeer t)) (d, t\<lparr>tn_isClosed := True\<rparr>)"

section \<open>Packets from the interface\<close>

text \<open>
  A send in a \<open>select\<close> with a default branch: \<open>None\<close> outside is the panic of a send on a
  closed channel, a \<open>False\<close> that the channel was full.
\<close>

definition send_outbound :: "nat \<Rightarrow> nat \<Rightarrow> Tunnel \<Rightarrow> (bool \<times> Tunnel) option" where
  "send_outbound p a t =
     (let v = tn_heap t ! p
      in if vp_closed v then None
         else if length (vp_outboundCh v) < packetHandlersChanCap
         then Some (True, t\<lparr>tn_heap := (tn_heap t)[p := v\<lparr>vp_outboundCh := vp_outboundCh v @ [a]\<rparr>]\<rparr>)
         else Some (False, t))"

definition send_inbound :: "nat \<Rightarrow> nat \<Rightarrow> Tunnel \<Rightarrow> (bool \<times> Tunnel) option" where
  "send_inbound p a t =
     (let v = tn_heap t ! p
      in if vp_closed v then None
         else if length (vp_inboundCh v) < packetHandlersChanCap
         then Some (True, t\<lparr>tn_heap := (tn_heap t)[p := v\<lparr>vp_inboundCh := vp_inboundCh v @ [a]\<rparr>]\<rparr>)
         else Some (False, t))"

text \<open>The broadcast branch: a copy for every connected peer of the address table.\<close>

fun broadcast :: "(string \<Rightarrow> bool) \<Rightarrow> nat \<Rightarrow> nat list \<Rightarrow> Device \<Rightarrow> Tunnel \<Rightarrow> (Device \<times> Tunnel) option" where
  "broadcast isConnected a [] d t = Some (d, t)"
| "broadcast isConnected a (p # ps) d t =
     (if \<not> isConnected (vp_peerID (tn_heap t ! p)) then broadcast isConnected a ps d t
      else do {
        let (copyPacket, d1) = GetTempPacket d;
        h \<leftarrow> CopyTo (dv_heap d1) a copyPacket;
        let d2 = d1\<lparr>dv_heap := h\<rparr>;
        (sent, t') \<leftarrow> send_outbound p copyPacket t;
        broadcast isConnected a ps (if sent then d2 else PutTempPacket copyPacket d2) t'
      })"

definition IPv4bcast :: ip where
  "IPv4bcast = v4InV6Prefix @ [255, 255, 255, 255]"

fun handle_packets :: "(string \<Rightarrow> bool) \<Rightarrow> nat option list \<Rightarrow> Device \<Rightarrow> Tunnel \<Rightarrow> (nat option list \<times> Device \<times> Tunnel) option" where
  "handle_packets isConnected [] d t = Some ([], d, t)"
| "handle_packets isConnected (None # ps) d t =
     map_option (\<lambda>(ps', dt). (None # ps', dt)) (handle_packets isConnected ps d t)"
| "handle_packets isConnected (Some a # ps) d t =
     (let dst = slc_bytes (dv_heap d) (pk_Dst (dv_heap d a))
      in if ip_Equal dst (tn_udpBroadcastAddr t) \<or> ip_Equal dst IPv4bcast then do {
           (d1, t1) \<leftarrow> broadcast isConnected a (gm_vals (tn_netIPToPeer t)) d t;
           map_option (\<lambda>(ps', dt). (Some a # ps', dt)) (handle_packets isConnected ps d1 t1)
         }
         else case gm_get (tn_netIPToPeer t) dst of
           None \<Rightarrow> map_option (\<lambda>(ps', dt). (Some a # ps', dt)) (handle_packets isConnected ps d t)
         | Some vpnPeer \<Rightarrow> do {
             (sent, t1) \<leftarrow> send_outbound vpnPeer a t;
             map_option (\<lambda>(ps', dt). ((if sent then None else Some a) # ps', dt))
               (handle_packets isConnected ps d t1)
           })"

definition HandleReadPackets :: "(string \<Rightarrow> bool) \<Rightarrow> Tunnel packets_handler" where
  "HandleReadPackets isConnected packets d t =
     (if tn_isClosed t then Some (packets, d, t) else handle_packets isConnected packets d t)"

section \<open>Streams from peers\<close>

text \<open>
  One round of the loop: read a size, read the packet, hand it to the peer's channel. The
  boolean says whether the loop goes on. The size is converted to a signed 64-bit integer.
\<close>

definition StreamHandler_round ::
    "string \<Rightarrow> Device \<Rightarrow> Tunnel \<Rightarrow> net_stream \<Rightarrow> (bool \<times> Device \<times> Tunnel \<times> net_stream) option" where
  "StreamHandler_round peerID d t s =
     (let (packet, d1) = GetTempPacket d
      in case ReadUint64 s of
           (Inl _, s1) \<Rightarrow> Some (False, PutTempPacket packet d1, t, s1)
         | (Inr packetSize, s1) \<Rightarrow> do {
             (_, err, h, l) \<leftarrow> ReadFrom (limited_Read net_Read) (dv_heap d1) packet
                                  \<lparr>lr_R = s1, lr_N = sint packetSize\<rparr>;
             let d2 = d1\<lparr>dv_heap := h\<rparr>;
             (if err \<noteq> None then Some (False, PutTempPacket packet d2, t, lr_R l)
              else case gm_get (tn_peerIDToPeer t) peerID of
                None \<Rightarrow> Some (False, PutTempPacket packet d2, t, lr_R l)
              | Some vpnPeer \<Rightarrow> do {
                  (sent, t1) \<leftarrow> send_inbound vpnPeer packet t;
                  Some (True, if sent then d2 else PutTempPacket packet d2, t1, lr_R l)
                })
           })"

partial_function (option) StreamHandler_loop ::
    "string \<Rightarrow> Device \<Rightarrow> Tunnel \<Rightarrow> net_stream \<Rightarrow> (Device \<times> Tunnel \<times> net_stream) option" where
  "StreamHandler_loop peerID d t s =
     Option.bind (StreamHandler_round peerID d t s) (\<lambda>(continues, d1, t1, s1).
       if continues then StreamHandler_loop peerID d1 t1 s1 else Some (d1, t1, s1))"

declare StreamHandler_loop.simps [code]

definition StreamHandler ::
    "string \<Rightarrow> Device \<Rightarrow> Tunnel \<Rightarrow> net_stream \<Rightarrow> (Device \<times> Tunnel \<times> net_stream) option" where
  "StreamHandler peerID d t s =
     (if gm_get (tn_peerIDToPeer t) peerID = None then Some (d, t, s)
      else StreamHandler_loop peerID d t s)"

section \<open>The inbound loop of a peer\<close>

text \<open>
  What the channel holds beyond the first packets moves to the buffer of length \<open>n\<close> until
  the buffer is full or the channel is empty: the batch and what stays in the channel.
\<close>

fun readBatchFromChan :: "nat list \<Rightarrow> nat list \<Rightarrow> nat \<Rightarrow> nat list \<times> nat list" where
  "readBatchFromChan [] buf n = (buf, [])"
| "readBatchFromChan (a # ch) buf n =
     (if length buf = n then (buf, a # ch) else readBatchFromChan ch (buf @ [a]) n)"

text \<open>
  The filtering loop works in place on \<open>packetsBatch\<close>: a packet that does not parse goes back
  to the pool and its slot becomes nil, one that does is stored at \<open>newLen\<close>. The first
  argument is the index, the third the part of the slice not yet visited.
\<close>

fun filter_batch :: "nat \<Rightarrow> nat \<Rightarrow> nat list \<Rightarrow> nat option list \<Rightarrow> Device \<Rightarrow> nat \<times> nat option list \<times> Device" where
  "filter_batch i newLen [] packetsBatch d = (newLen, packetsBatch, d)"
| "filter_batch i newLen (packet # rest) packetsBatch d =
     (let (ok, h) = Parse (dv_heap d) packet; d1 = d\<lparr>dv_heap := h\<rparr>
      in if ok then filter_batch (Suc i) (Suc newLen) rest (packetsBatch[newLen := Some packet]) d1
         else filter_batch (Suc i) newLen rest (packetsBatch[i := None]) (PutTempPacket packet d1))"

text \<open>
  One round on a batch: filter, write the filtered prefix, then return every packet that the
  slice still holds. The result has the error flag of the write and the interface.
\<close>

definition inbound_batch :: "bool \<Rightarrow> ip \<Rightarrow> nat list \<Rightarrow> Device \<Rightarrow> Device option" where
  "inbound_batch tunOk localIP batch d =
     (let (newLen, packetsBatch, d1) = filter_batch 0 0 batch (map Some batch) d;
          filteredPackets = somes (take newLen packetsBatch)
      in do {
        d2 \<leftarrow> (if length filteredPackets > 0
              then map_option snd (WritePacketsBatch d1 filteredPackets localIP tunOk)
              else Some d1);
        Some (fold PutTempPacket (somes packetsBatch) d2)
      })"

text \<open>
  The loop body for a peer: it waits while the channel is empty (and ends when it is closed);
  a batch size of 0 would panic at the first store into the buffer.
\<close>

definition backgroundInboundHandler_round :: "nat \<Rightarrow> bool \<Rightarrow> nat \<Rightarrow> Device \<Rightarrow> Tunnel \<Rightarrow> (Device \<times> Tunnel) option" where
  "backgroundInboundHandler_round batchSize tunOk p d t =
     (let v = tn_heap t ! p
      in case vp_inboundCh v of
           [] \<Rightarrow> Some (d, t)
         | firstPacket # ch \<Rightarrow>
             if batchSize = 0 then None
             else let (packetsBatch, ch') = readBatchFromChan ch [firstPacket] batchSize
                  in map_option (\<lambda>d'. (d', t\<lparr>tn_heap := (tn_heap t)[p := v\<lparr>vp_inboundCh := ch'\<rparr>]\<rparr>))
                       (inbound_batch tunOk (vp_localIP v) packetsBatch d))"

section \<open>The outbound loop of a peer\<close>

definition maxPacketsPerUnlimitedStream :: nat where
  "maxPacketsPerUnlimitedStream = 5 * 2 ^ 30 div InterfaceMTU"

definition maxPacketsPerLimitedStream :: nat where
  "maxPacketsPerLimitedStream = 20 * 2 ^ 20 div InterfaceMTU"

definition packetsBatchSize :: nat where
  "packetsBatchSize = 100"

text \<open>
  A stream the loop opened: whether it is limited, the packets it was asked to carry, and the
  bytes written. The loop's variables: whether a stream is open, the limit and the count for
  it; \<open>ob_streams\<close> lists the streams opened so far, the current one first.
\<close>

record out_stream =
  os_limited :: bool
  os_packets :: "byte list list"
  os_bytes :: "byte list"

record out_state =
  ob_open :: bool
  ob_maxPacketsPerStream :: nat
  ob_currentPacketsForStream :: nat
  ob_streams :: "out_stream list"

definition out_init :: out_state where
  "out_init = \<lparr>ob_open = False, ob_maxPacketsPerStream = 0, ob_currentPacketsForStream = 0, ob_streams = []\<rparr>"

text \<open>
  The answers of the network: the connection attempt, the new stream (\<open>None\<close> an error,
  otherwise whether it is limited) as a function of using a dedicated connection, and the
  write (\<open>None\<close> success, otherwise the bytes written before the error).
\<close>

record net_env =
  ne_isConnected :: bool
  ne_connectOk :: bool
  ne_newStream :: "bool \<Rightarrow> bool option"
  ne_write :: "nat option"

definition makeTunnelStream :: "Config \<Rightarrow> net_env \<Rightarrow> bool option" where
  "makeTunnelStream c e =
     (if \<not> ne_connectOk e then None
      else ne_newStream e (pn_UseDedicatedConnForEachStream (c_P2pNode c)))"

definition closeStream :: "out_state \<Rightarrow> out_state" where
  "closeStream st = st\<lparr>ob_open := False, ob_currentPacketsForStream := 0\<rparr>"

definition open_if_needed :: "Config \<Rightarrow> net_env \<Rightarrow> out_state \<Rightarrow> out_state option" where
  "open_if_needed c e st =
     (if ob_open st then Some st
      else case makeTunnelStream c e of
             None \<Rightarrow> None
           | Some limited \<Rightarrow>
               Some (st\<lparr>ob_open := True,
                  ob_maxPacketsPerStream :=
                    (if limited then maxPacketsPerLimitedStream else maxPacketsPerUnlimitedStream),
                  ob_streams := \<lparr>os_limited = limited, os_packets = [], os_bytes = []\<rparr> # ob_streams st\<rparr>))"

fun write_stream :: "byte list list \<Rightarrow> byte list \<Rightarrow> out_stream list \<Rightarrow> out_stream list" where
  "write_stream ps data [] = []"
| "write_stream ps data (s # ss) =
     s\<lparr>os_packets := os_packets s @ ps, os_bytes := os_bytes s @ data\<rparr> # ss"

definition sendPacket :: "Config \<Rightarrow> net_env \<Rightarrow> byte list list \<Rightarrow> out_state \<Rightarrow> bool \<times> out_state" where
  "sendPacket c e packets st =
     (case open_if_needed c e st of
        None \<Rightarrow> (False, st)
      | Some st1 \<Rightarrow>
          let data = fold (\<lambda>p b. AppendPacketToBuf b p) packets []
          in case ne_write e of
               None \<Rightarrow> (True, st1\<lparr>ob_streams := write_stream packets data (ob_streams st1)\<rparr>)
             | Some k \<Rightarrow> (False, st1\<lparr>ob_streams := write_stream packets (take k data) (ob_streams st1)\<rparr>))"

definition send_batch :: "Config \<Rightarrow> net_env \<Rightarrow> byte list list \<Rightarrow> out_state \<Rightarrow> out_state" where
  "send_batch c e packets st =
     (let st1 = (if ob_currentPacketsForStream st + length packets \<ge> ob_maxPacketsPerStream st
                 then closeStream st else st);
          st2 = st1\<lparr>ob_currentPacketsForStream := ob_currentPacketsForStream st1 + length packets\<rparr>;
          (ok, st3) = sendPacket c e packets st2
      in if ok then st3 else closeStream st3)"

text \<open>The two branches of the \<open>select\<close>: a packet in the channel, and the idle ticker.\<close>

definition backgroundOutboundHandler_round ::
    "Config \<Rightarrow> net_env \<Rightarrow> nat \<Rightarrow> Device \<Rightarrow> Tunnel \<Rightarrow> out_state \<Rightarrow> Device \<times> Tunnel \<times> out_state" where
  "backgroundOutboundHandler_round c e p d t st =
     (let v = tn_heap t ! p
      in case vp_outboundCh v of
           [] \<Rightarrow> (d, t, st)
         | packet # ch \<Rightarrow>
             let (batch, ch') = readBatchFromChan ch [packet] packetsBatchSize;
                 t' = t\<lparr>tn_heap := (tn_heap t)[p := v\<lparr>vp_outboundCh := ch'\<rparr>]\<rparr>;
                 d' = fold PutTempPacket batch d
             in if \<not> ne_isConnected e then (d', t', st)
                else (d', t', send_batch c e (map (packet_bytes (dv_heap d)) batch) st))"

definition backgroundOutboundHandler_idle :: "nat \<Rightarrow> Tunnel \<Rightarrow> out_state \<Rightarrow> out_state" where
  "backgroundOutboundHandler_idle p t st =
     (if vp_outboundCh (tn_heap t ! p) = [] then closeStream st else st)"

section \<open>Ownership across the tunnel\<close>

definition chan_held :: "VpnPeer \<Rightarrow> nat multiset" where
  "chan_held v = mset (vp_inboundCh v) + mset (vp_outboundCh v)"

text \<open>All packet objects in the channels of the tunnel's peers.\<close>

definition held :: "Tunnel \<Rightarrow> nat multiset" where
  "held t = sum_list (map chan_held (tn_heap t))"

lemma held_update:
  assumes "p < length vs"
  shows "sum_list (map chan_held (vs[p := v])) + chan_held (vs ! p) =
         sum_list (map chan_held vs) + chan_held v"
  using assms
proof (induction vs arbitrary: p)
  case (Cons w vs)
  show ?case
  proof (cases p)
    case (Suc q)
    with Cons have "sum_list (map chan_held (vs[q := v])) + chan_held (vs ! q) =
        sum_list (map chan_held vs) + chan_held v" by simp
    then have "chan_held w + (sum_list (map chan_held (vs[q := v])) + chan_held (vs ! q)) =
        chan_held w + (sum_list (map chan_held vs) + chan_held v)" by (simp only:)
    with Suc show ?thesis by (simp only: list_update.simps nth_Cons_Suc list.map sum_list.Cons ac_simps nat.case)
  qed (simp add: ac_simps)
qed simp

lemma owned_once_mono:
  assumes "owned_once used free n" and "used' \<subseteq># used"
  shows "owned_once used' free n"
proof -
  have "count (used' + free) a \<le> count (used + free) a" for a
    using mset_subset_eq_count [OF assms(2), of a] by simp
  moreover have "count (used + free) a \<le> (if a < n then 1 else 0)" for a
    using assms(1) unfolding owned_once_def by blast
  ultimately show ?thesis unfolding owned_once_def using le_trans by blast
qed

lemma send_outbound_held:
  assumes "send_outbound p a t = Some (sent, t')"
  shows "held t' \<subseteq># (if sent then add_mset a (held t) else held t)"
    and "\<not> sent \<Longrightarrow> t' = t"
proof -
  show "\<not> sent \<Longrightarrow> t' = t"
    using assms by (auto simp: send_outbound_def Let_def split: if_splits)
  show "held t' \<subseteq># (if sent then add_mset a (held t) else held t)"
  proof (cases "sent \<and> p < length (tn_heap t)")
    case True
    let ?v = "tn_heap t ! p"
    let ?v' = "?v\<lparr>vp_outboundCh := vp_outboundCh ?v @ [a]\<rparr>"
    have t': "t' = t\<lparr>tn_heap := (tn_heap t)[p := ?v']\<rparr>"
      using assms True by (auto simp: send_outbound_def Let_def split: if_splits)
    have "held t' + chan_held ?v = held t + chan_held ?v'"
      using held_update [of p "tn_heap t" ?v'] True by (simp add: held_def t')
    also have "\<dots> = add_mset a (held t) + chan_held ?v" by (simp add: chan_held_def ac_simps)
    finally show ?thesis using True by simp
  next
    case False
    then have "held t' = held t"
      using assms by (auto simp: send_outbound_def Let_def held_def not_less list_update_beyond split: if_splits)
    then show ?thesis by (simp add: subset_mset.order_refl)
  qed
qed

lemma put_owned_add: "dev_owned (add_mset a used) d \<Longrightarrow> dev_owned used (PutTempPacket a d)"
  by (rule pool.put_owned)

lemma pool_free_heap [simp]: "pool_free (d\<lparr>dv_heap := h\<rparr>) = pool_free d"
  by (simp add: pool_free_def)

lemma broadcast_owned:
  assumes "dev_owned (rest + held t) d" and "broadcast isConnected a ps d t = Some (d', t')"
  shows "dev_owned (rest + held t') d'"
  using assms
proof (induction isConnected a ps d t rule: broadcast.induct)
  case (2 isConnected a p ps d t)
  show ?case
  proof (cases "isConnected (vp_peerID (tn_heap t ! p))")
    case False
    with 2 show ?thesis by simp
  next
    case True
    obtain c d1 where g: "GetTempPacket d = (c, d1)" by fastforce
    from "2.prems"(2) True g obtain h sent t1 where
      cp: "CopyTo (dv_heap d1) a c = Some h"
      and send: "send_outbound p c t = Some (sent, t1)"
      and rec: "broadcast isConnected a ps (if sent then d1\<lparr>dv_heap := h\<rparr> else PutTempPacket c (d1\<lparr>dv_heap := h\<rparr>)) t1 = Some (d', t')"
      by (auto simp: bind_eq_Some_conv Let_def)
    have "dev_owned (add_mset c (rest + held t)) d1"
      using pool.get_owned [OF "2.prems"(1) g] .
    then have own: "dev_owned (add_mset c (rest + held t)) (d1\<lparr>dv_heap := h\<rparr>)" by simp
    have "dev_owned (rest + held t1) (if sent then d1\<lparr>dv_heap := h\<rparr> else PutTempPacket c (d1\<lparr>dv_heap := h\<rparr>))"
    proof (cases sent)
      case True
      have "rest + held t1 \<subseteq># add_mset c (rest + held t)"
        using send_outbound_held(1) [OF send] True by (simp add: subset_mset.add_left_mono flip: union_mset_add_mset_right)
      with own True show ?thesis by (simp add: owned_once_mono)
    next
      case False
      with own put_owned_add send_outbound_held(2) [OF send False] show ?thesis by simp
    qed
    from "2.IH"(2) [OF _ refl g [symmetric] cp refl send refl this rec] True show ?thesis by simp
  qed
qed simp

lemma handle_packets_owned:
  assumes "dev_owned (mset (somes ps) + rest + held t) d"
    and "handle_packets isConnected ps d t = Some (ps', d', t')"
  shows "dev_owned (mset (somes ps') + rest + held t') d' \<and> length ps' = length ps"
  using assms
proof (induction isConnected ps d t arbitrary: rest ps' d' t' rule: handle_packets.induct)
  case (2 isConnected ps d t)
  then show ?case by fastforce
next
  case (3 isConnected a ps d t)
  let ?dst = "slc_bytes (dv_heap d) (pk_Dst (dv_heap d a))"
  have own: "dev_owned (mset (somes ps) + add_mset a rest + held t) d" using "3.prems"(1) by simp
  consider (bcast) "ip_Equal ?dst (tn_udpBroadcastAddr t) \<or> ip_Equal ?dst IPv4bcast"
    | (none) "\<not> (ip_Equal ?dst (tn_udpBroadcastAddr t) \<or> ip_Equal ?dst IPv4bcast)"
        "gm_get (tn_netIPToPeer t) ?dst = None"
    | (peer) p where "\<not> (ip_Equal ?dst (tn_udpBroadcastAddr t) \<or> ip_Equal ?dst IPv4bcast)"
        "gm_get (tn_netIPToPeer t) ?dst = Some p"
    by blast
  then show ?case
  proof cases
    case bcast
    with "3.prems"(2) obtain d1 t1 qs where
      b: "broadcast isConnected a (gm_vals (tn_netIPToPeer t)) d t = Some (d1, t1)"
      and h: "handle_packets isConnected ps d1 t1 = Some (qs, d', t')" and q: "ps' = Some a # qs"
      by (auto simp: bind_eq_Some_conv Let_def)
    have "dev_owned (mset (somes ps) + add_mset a rest + held t1) d1"
      using broadcast_owned [OF own b] .
    from "3.IH"(1) [OF refl bcast b refl this h] q show ?thesis by simp
  next
    case none
    with "3.prems"(2) obtain qs where h: "handle_packets isConnected ps d t = Some (qs, d', t')"
      and q: "ps' = Some a # qs" by (auto simp: Let_def)
    from "3.IH"(2) [OF refl none own h] q show ?thesis by simp
  next
    case (peer p)
    with "3.prems"(2) obtain sent t1 qs where s: "send_outbound p a t = Some (sent, t1)"
      and h: "handle_packets isConnected ps d t1 = Some (qs, d', t')"
      and q: "ps' = (if sent then None else Some a) # qs"
      by (auto simp: bind_eq_Some_conv Let_def)
    let ?rest = "if sent then rest else add_mset a rest"
    have "mset (somes ps) + ?rest + held t1 \<subseteq># mset (somes ps) + add_mset a rest + held t"
    proof (cases sent)
      case True
      then show ?thesis using send_outbound_held(1) [OF s]
        by (simp add: subset_mset.add_left_mono flip: union_mset_add_mset_right)
    qed (use send_outbound_held(2) [OF s] in simp)
    with own have "dev_owned (mset (somes ps) + ?rest + held t1) d" by (rule owned_once_mono)
    from "3.IH"(3) [OF refl peer s refl this h] q show ?thesis by (auto split: if_splits)
  qed
qed simp

text \<open>The tunnel is a well-behaved consumer for the device's reading loop.\<close>

interpretation tun_consumer: packets_consumer "HandleReadPackets isConnected" held
  for isConnected
proof
  fix ps rest t d ps' d' t'
  assume "dev_owned (mset (somes ps) + rest + held t) d"
    and "HandleReadPackets isConnected ps d t = Some (ps', d', t')"
  then show "dev_owned (mset (somes ps') + rest + held t') d' \<and> length ps' = length ps"
    using handle_packets_owned [of ps rest t d isConnected ps' d' t']
    by (auto simp: HandleReadPackets_def split: if_splits)
qed

lemma fold_put_owned:
  "dev_owned (mset as + used) d \<Longrightarrow> dev_owned used (fold PutTempPacket as d)"
proof (induction as arbitrary: d)
  case (Cons a as)
  have "dev_owned (mset as + used) (PutTempPacket a d)"
    using Cons.prems by (intro put_owned_add) simp
  with Cons.IH show ?case by simp
qed simp

lemma fold_put_pool: "dv_pool (fold PutTempPacket as d) = rev as @ dv_pool d"
  by (induction as arbitrary: d) (simp_all add: PutTempPacket_def)

lemma readBatchFromChan_split: "readBatchFromChan ch buf n = (batch, ch') \<Longrightarrow> batch @ ch' = buf @ ch"
  by (induction ch buf n rule: readBatchFromChan.induct) (auto split: if_splits)

lemma readBatchFromChan_length:
  "readBatchFromChan ch buf n = (batch, ch') \<Longrightarrow> length buf \<le> n \<Longrightarrow>
     length batch = min n (length buf + length ch)"
  by (induction ch buf n rule: readBatchFromChan.induct) (auto split: if_splits)

text \<open>Whether a packet parses depends on its own slice and the bytes under it only.\<close>

lemma Parse_stable:
  assumes "Parse h a = (ok, h')"
  shows "fst (Parse h' b) = fst (Parse h b)"
proof -
  have eq: "pk_Buffer (h' c) = pk_Buffer (h c)" "pk_Packet (h' c) = pk_Packet (h c)" for c
    using Parse_frame [OF assms] by (cases "c = a"; auto)+
  then have "slc_bytes h' s = slc_bytes h s" for s by (cases s) simp_all
  then show ?thesis by (simp add: Parse_def Let_def eq split: option.splits)
qed

lemma filter_batch_all_ok:
  assumes "\<forall>a \<in> set rest. fst (Parse (dv_heap d) a)" and "arr = map Some (pre @ rest)"
  shows "\<exists>d'. filter_batch (length pre) (length pre) rest arr d = (length (pre @ rest), arr, d') \<and>
     dv_pool d' = dv_pool d \<and> dv_next d' = dv_next d"
  using assms
proof (induction rest arbitrary: pre d)
  case (Cons a rest)
  obtain h where h: "Parse (dv_heap d) a = (True, h)"
    using Cons.prems(1) by (metis list.set_intros(1) prod.collapse)
  have ok: "\<forall>c \<in> set rest. fst (Parse (dv_heap (d\<lparr>dv_heap := h\<rparr>)) c)"
    using Cons.prems(1) by (simp add: Parse_stable [OF h])
  have arr: "(map Some pre @ Some a # map Some rest)[length pre := Some a] =
      map Some pre @ Some a # map Some rest" by (simp add: list_update_append)
  show ?case
    using Cons.IH [OF ok, of "pre @ [a]"] Cons.prems(2) by (auto simp: h Let_def arr)
qed simp

lemma WritePacketsBatch_pool:
  "WritePacketsBatch d ps a ok = Some (r, d') \<Longrightarrow> dv_pool d' = dv_pool d \<and> dv_next d' = dv_next d"
  by (auto simp: WritePacketsBatch_def bind_eq_Some_conv)

lemma inbound_batch_all_ok:
  assumes "\<forall>a \<in> set batch. fst (Parse (dv_heap d) a)" and "inbound_batch tunOk a batch d = Some d'"
  shows "dv_pool d' = rev batch @ dv_pool d \<and> dv_next d' = dv_next d"
proof -
  obtain d1 where f: "filter_batch 0 0 batch (map Some batch) d = (length batch, map Some batch, d1)"
    "dv_pool d1 = dv_pool d" "dv_next d1 = dv_next d"
    using filter_batch_all_ok [of batch d "map Some batch" "[]"] assms(1) by auto
  then obtain d2 where d2: "(if length batch > 0 then map_option snd (WritePacketsBatch d1 batch a tunOk) else Some d1) = Some d2"
    "d' = fold PutTempPacket batch d2"
    using assms(2) by (auto simp: inbound_batch_def bind_eq_Some_conv)
  have "dv_pool d2 = dv_pool d" "dv_next d2 = dv_next d"
    using d2(1) f WritePacketsBatch_pool [of d1 batch a tunOk] by (auto split: if_splits)
  moreover have "dv_next (fold PutTempPacket as d) = dv_next d" for as d
    by (induction as arbitrary: d) (simp_all add: PutTempPacket_def)
  ultimately show ?thesis by (simp add: d2(2) fold_put_pool)
qed

lemma inbound_batch_owned:
  assumes "dev_owned (mset batch + used) d" and "\<forall>a \<in> set batch. fst (Parse (dv_heap d) a)"
    and "inbound_batch tunOk a batch d = Some d'"
  shows "dev_owned used d'"
  using assms(1) inbound_batch_all_ok [OF assms(2,3)] by (simp add: owned_once_def pool_free_def ac_simps)

text \<open>A packet that fails behind the compacted prefix leaves the next one in two slots.\<close>

lemma inbound_batch_bad_good:
  assumes "Parse (dv_heap d) b = (False, h1)" and "fst (Parse (clear h1 b) g)"
    and "inbound_batch tunOk a [b, g] d = Some d'"
  shows "dv_pool d' = g # g # b # dv_pool d"
proof -
  obtain h2 where h2: "Parse (clear h1 b) g = (True, h2)" using assms(2) by (metis prod.collapse)
  define d0 where "d0 = PutTempPacket b (d\<lparr>dv_heap := h1\<rparr>)"
  have d0: "dv_heap d0 = clear h1 b" "dv_pool d0 = b # dv_pool d" by (simp_all add: d0_def PutTempPacket_def)
  let ?d1 = "d0\<lparr>dv_heap := h2\<rparr>"
  have f: "filter_batch 0 0 [b, g] (map Some [b, g]) d = (Suc 0, [Some g, Some g], ?d1)"
    by (simp add: assms(1) d0_def [symmetric] d0 h2)
  have run: "inbound_batch tunOk a [b, g] d =
      Option.bind (map_option snd (WritePacketsBatch ?d1 [g] a tunOk)) (\<lambda>d2. Some (fold PutTempPacket [g, g] d2))"
    unfolding inbound_batch_def f by simp
  obtain d2 where d2: "map_option snd (WritePacketsBatch ?d1 [g] a tunOk) = Some d2"
    "Some (fold PutTempPacket [g, g] d2) = Some d'"
    using assms(3) unfolding run bind_eq_Some_conv by blast
  have "dv_pool d2 = b # dv_pool d"
    using d2(1) WritePacketsBatch_pool [of ?d1 "[g]" a tunOk] d0(2) by auto
  moreover have "d' = fold PutTempPacket [g, g] d2" using d2(2) by simp
  ultimately show ?thesis by (simp only: fold_put_pool) simp
qed

lemma send_inbound_held:
  assumes "send_inbound p a t = Some (sent, t')"
  shows "held t' \<subseteq># (if sent then add_mset a (held t) else held t)"
    and "\<not> sent \<Longrightarrow> t' = t"
proof -
  show "\<not> sent \<Longrightarrow> t' = t"
    using assms by (auto simp: send_inbound_def Let_def split: if_splits)
  show "held t' \<subseteq># (if sent then add_mset a (held t) else held t)"
  proof (cases "sent \<and> p < length (tn_heap t)")
    case True
    let ?v = "tn_heap t ! p"
    let ?v' = "?v\<lparr>vp_inboundCh := vp_inboundCh ?v @ [a]\<rparr>"
    have t': "t' = t\<lparr>tn_heap := (tn_heap t)[p := ?v']\<rparr>"
      using assms True by (auto simp: send_inbound_def Let_def split: if_splits)
    have "held t' + chan_held ?v = held t + chan_held ?v'"
      using held_update [of p "tn_heap t" ?v'] True by (simp add: held_def t')
    also have "\<dots> = add_mset a (held t) + chan_held ?v" by (simp add: chan_held_def ac_simps)
    finally show ?thesis using True by simp
  next
    case False
    then have "held t' = held t"
      using assms by (auto simp: send_inbound_def Let_def held_def not_less list_update_beyond split: if_splits)
    then show ?thesis by (simp add: subset_mset.order_refl)
  qed
qed

lemma StreamHandler_round_owned:
  assumes "dev_owned (used + held t) d" and "StreamHandler_round peerID d t s = Some (c, d', t', s')"
  shows "dev_owned (used + held t') d'"
proof -
  obtain a d1 where g: "GetTempPacket d = (a, d1)" by fastforce
  have own: "dev_owned (add_mset a (used + held t)) (d1\<lparr>dv_heap := h\<rparr>)" for h
    using pool.get_owned [OF assms(1) g] by simp
  have put_back: "dev_owned (used + held t) (PutTempPacket a (d1\<lparr>dv_heap := h\<rparr>))" for h
    using own by (rule put_owned_add)
  obtain r s1 where u: "ReadUint64 s = (r, s1)" by fastforce
  show ?thesis
  proof (cases r)
    case (Inl e)
    with assms(2) g u put_back [of "dv_heap d1"] show ?thesis by (auto simp: StreamHandler_round_def)
  next
    case (Inr packetSize)
    from assms(2) g u Inr obtain n err h l where
      rf: "ReadFrom (limited_Read net_Read) (dv_heap d1) a \<lparr>lr_R = s1, lr_N = sint packetSize\<rparr> = Some (n, err, h, l)"
      by (auto simp: StreamHandler_round_def bind_eq_Some_conv)
    let ?d2 = "d1\<lparr>dv_heap := h\<rparr>"
    consider (drop) "d' = PutTempPacket a ?d2" "t' = t"
      | (send) p sent where "send_inbound p a t = Some (sent, t')" "d' = (if sent then ?d2 else PutTempPacket a ?d2)"
      using assms(2) g u Inr rf
      by (auto simp: StreamHandler_round_def bind_eq_Some_conv Let_def split: if_splits option.splits)
    then show ?thesis
    proof cases
      case drop
      with put_back show ?thesis by simp
    next
      case (send p sent)
      show ?thesis
      proof (cases sent)
        case True
        then have "used + held t' \<subseteq># add_mset a (used + held t)" using send_inbound_held(1) [OF send(1)]
          by (simp add: subset_mset.add_left_mono flip: union_mset_add_mset_right)
        with own [of h] True send(2) show ?thesis using owned_once_mono by simp
      qed (use put_back send send_inbound_held(2) [OF send(1)] in simp)
    qed
  qed
qed

text \<open>Replacing a peer's channels by shorter ones releases what is no longer in them.\<close>

lemma held_release:
  assumes "p < length (tn_heap t)" and "chan_held (tn_heap t ! p) = taken + chan_held v"
  shows "held t = taken + held (t\<lparr>tn_heap := (tn_heap t)[p := v]\<rparr>)"
proof -
  have "held (t\<lparr>tn_heap := (tn_heap t)[p := v]\<rparr>) + (taken + chan_held v) = held t + chan_held v"
    using held_update [OF assms(1), of v] assms(2) by (simp add: held_def)
  then show ?thesis by (simp add: ac_simps)
qed

lemma outbound_round_owned:
  assumes "dev_owned (used + held t) d" and "p < length (tn_heap t)"
    and "backgroundOutboundHandler_round c e p d t st = (d', t', st')"
  shows "dev_owned (used + held t') d'"
proof (cases "vp_outboundCh (tn_heap t ! p)")
  case Nil
  with assms show ?thesis by (simp add: backgroundOutboundHandler_round_def)
next
  case (Cons packet ch)
  obtain batch ch' where b: "readBatchFromChan ch [packet] packetsBatchSize = (batch, ch')" by fastforce
  let ?v = "(tn_heap t ! p)\<lparr>vp_outboundCh := ch'\<rparr>"
  have "vp_outboundCh (tn_heap t ! p) = batch @ ch'" using readBatchFromChan_split [OF b] Cons by simp
  then have "chan_held (tn_heap t ! p) = mset batch + chan_held ?v" by (simp add: chan_held_def ac_simps)
  from held_release [OF assms(2) this] have rel: "held t = mset batch + held (t\<lparr>tn_heap := (tn_heap t)[p := ?v]\<rparr>)" .
  have eq: "d' = fold PutTempPacket batch d" "t' = t\<lparr>tn_heap := (tn_heap t)[p := ?v]\<rparr>"
    using assms(3) Cons b by (auto simp: backgroundOutboundHandler_round_def Let_def split: if_splits)
  have "dev_owned (mset batch + (used + held t')) d" using assms(1) by (simp add: rel eq ac_simps)
  from fold_put_owned [OF this] eq show ?thesis by simp
qed

lemma inbound_round_owned:
  assumes "dev_owned (used + held t) d" and "p < length (tn_heap t)"
    and "\<forall>a \<in> set (vp_inboundCh (tn_heap t ! p)). fst (Parse (dv_heap d) a)"
    and "backgroundInboundHandler_round n tunOk p d t = Some (d', t')"
  shows "dev_owned (used + held t') d'"
proof (cases "vp_inboundCh (tn_heap t ! p)")
  case Nil
  with assms show ?thesis by (simp add: backgroundInboundHandler_round_def)
next
  case (Cons packet ch)
  obtain batch ch' where b: "readBatchFromChan ch [packet] n = (batch, ch')" by fastforce
  let ?v = "(tn_heap t ! p)\<lparr>vp_inboundCh := ch'\<rparr>"
  have split: "vp_inboundCh (tn_heap t ! p) = batch @ ch'" using readBatchFromChan_split [OF b] Cons by simp
  then have "chan_held (tn_heap t ! p) = mset batch + chan_held ?v" by (simp add: chan_held_def ac_simps)
  from held_release [OF assms(2) this] have rel: "held t = mset batch + held (t\<lparr>tn_heap := (tn_heap t)[p := ?v]\<rparr>)" .
  have eq: "inbound_batch tunOk (vp_localIP (tn_heap t ! p)) batch d = Some d'"
    "t' = t\<lparr>tn_heap := (tn_heap t)[p := ?v]\<rparr>"
    using assms(4) Cons b by (auto simp: backgroundInboundHandler_round_def Let_def split: if_splits)
  have "dev_owned (mset batch + (used + held t')) d" using assms(1) by (simp add: rel eq ac_simps)
  from inbound_batch_owned [OF this _ eq(1)] assms(3) split show ?thesis by simp
qed

lemma VpnPeer_Close_owned:
  assumes "dev_owned (used + held t) d" and "p < length (tn_heap t)" and "VpnPeer_Close p d t = Some (d', t')"
  shows "dev_owned (used + held t') d'"
proof -
  let ?v = "tn_heap t ! p"
  let ?v' = "?v\<lparr>vp_inboundCh := [], vp_outboundCh := [], vp_closed := True\<rparr>"
  have eq: "d' = fold PutTempPacket (vp_outboundCh ?v) (fold PutTempPacket (vp_inboundCh ?v) d)"
    "t' = t\<lparr>tn_heap := (tn_heap t)[p := ?v']\<rparr>"
    using assms(3) by (auto simp: VpnPeer_Close_def Let_def split: if_splits)
  have "chan_held ?v = chan_held ?v + chan_held ?v'" by (simp add: chan_held_def)
  from held_release [OF assms(2) this] have rel: "held t = chan_held ?v + held t'" by (simp add: eq)
  have "dev_owned (mset (vp_inboundCh ?v) + (mset (vp_outboundCh ?v) + (used + held t'))) d"
    using assms(1) by (simp add: rel chan_held_def ac_simps)
  from fold_put_owned [OF fold_put_owned [OF this]] show ?thesis by (simp add: eq)
qed

definition ptrs_ok :: "Tunnel \<Rightarrow> bool" where
  "ptrs_ok t \<longleftrightarrow> (\<forall>p \<in> set (gm_vals (tn_peerIDToPeer t)). p < length (tn_heap t))"

lemma gm_vals_set_subset: "set (gm_vals (gm_set m k v)) \<subseteq> insert v (set (gm_vals m))"
  by (induction m) (auto simp: gm_vals_def gm_set_def)

lemma gm_vals_del_subset: "set (gm_vals (gm_del m k)) \<subseteq> set (gm_vals m)"
  by (auto simp: gm_vals_def set_gm_del)

lemma refresh_known_held: "held (refresh_known pdec c t k) = held t"
proof -
  have upd: "held (t\<lparr>tn_netIPToPeer := m, tn_heap := (tn_heap t)[p := (tn_heap t ! p)\<lparr>vp_localIP := a\<rparr>]\<rparr>) = held t" for m p a
  proof (cases "p < length (tn_heap t)")
    case True
    then show ?thesis
      using held_update [OF True, of "(tn_heap t ! p)\<lparr>vp_localIP := a\<rparr>"] by (simp add: held_def chan_held_def)
  qed (simp add: held_def list_update_beyond)
  show ?thesis
    by (simp add: refresh_known_def Let_def upd split: option.split)
      (simp add: held_def chan_held_def VpnPeer_Start_def NewVpnPeer_def)
qed

lemma refresh_known_ptrs: "ptrs_ok t \<Longrightarrow> ptrs_ok (refresh_known pdec c t k)"
  using gm_vals_set_subset [of "tn_peerIDToPeer t"]
  by (fastforce simp: ptrs_ok_def refresh_known_def Let_def split: option.split)

lemma refresh_loop_inv:
  "ptrs_ok t \<Longrightarrow> ptrs_ok (foldl (refresh_known pdec c) t ks) \<and> held (foldl (refresh_known pdec c) t ks) = held t"
  by (induction ks arbitrary: t) (simp_all add: refresh_known_ptrs refresh_known_held)

lemma drop_peer_owned:
  assumes "dev_owned (used + held t) d" and "p < length (tn_heap t)" and "drop_peer p (d, t) = Some (d', t')"
  shows "dev_owned (used + held t') d' \<and> length (tn_heap t') = length (tn_heap t)"
proof -
  obtain t1 where c: "VpnPeer_Close p d t = Some (d', t1)" and t': "tn_heap t' = tn_heap t1"
    using assms(3) by (auto simp: drop_peer_def Let_def)
  have "held t' = held t1" by (simp add: held_def t')
  with VpnPeer_Close_owned [OF assms(1,2) c] c t' show ?thesis
    by (auto simp: VpnPeer_Close_def Let_def split: if_splits)
qed

lemma drop_peer_maps:
  "drop_peer p (d, t) = Some (d', t') \<Longrightarrow>
     tn_peerIDToPeer t' = gm_del (tn_peerIDToPeer t) (vp_peerID (tn_heap t ! p)) \<and>
     tn_netIPToPeer t' = gm_del (tn_netIPToPeer t) (vp_localIP (tn_heap t ! p))"
  by (auto simp: drop_peer_def VpnPeer_Close_def Let_def split: if_splits)

lemma drop_unknown_owned:
  assumes "dev_owned (used + held t) d" and "\<forall>p \<in> set ps. p < length (tn_heap t)" and "ptrs_ok t"
    and "drop_unknown pstr c ps (d, t) = Some (d', t')"
  shows "dev_owned (used + held t') d' \<and> ptrs_ok t'"
  using assms
proof (induction ps arbitrary: d t)
  case (Cons p ps)
  show ?case
  proof (cases "gm_get (c_KnownPeers c) (pstr (vp_peerID (tn_heap t ! p))) = None")
    case False
    with Cons show ?thesis by simp
  next
    case True
    with Cons.prems(4) obtain d1 t1 where dp: "drop_peer p (d, t) = Some (d1, t1)"
      and r: "drop_unknown pstr c ps (d1, t1) = Some (d', t')"
      by (auto simp: bind_eq_Some_conv)
    have o: "dev_owned (used + held t1) d1" "length (tn_heap t1) = length (tn_heap t)"
      using drop_peer_owned [OF Cons.prems(1) _ dp] Cons.prems(2) by simp_all
    have "ptrs_ok t1"
      using Cons.prems(3) o(2) drop_peer_maps [OF dp] gm_vals_del_subset [of "tn_peerIDToPeer t"]
      by (auto simp: ptrs_ok_def)
    with Cons.IH [OF o(1) _ _ r] Cons.prems(2) o(2) show ?thesis by simp
  qed
qed simp

lemma RefreshPeersList_owned:
  assumes "dev_owned (used + held t) d" and "ptrs_ok t" and "RefreshPeersList pdec pstr c d t = Some (d', t')"
  shows "dev_owned (used + held t') d' \<and> ptrs_ok t'"
  using drop_unknown_owned [of used "foldl (refresh_known pdec c) t (gm_vals (c_KnownPeers c))" d]
    refresh_loop_inv [OF assms(2), of pdec c "gm_vals (c_KnownPeers c)"] assms
  by (auto simp: RefreshPeersList_def Let_def ptrs_ok_def)

lemma close_peers_owned:
  assumes "dev_owned (used + held t) d" and "\<forall>p \<in> set ps. p < length (tn_heap t)" and "ptrs_ok t"
    and "close_peers ps (d, t) = Some (d', t')"
  shows "dev_owned (used + held t') d' \<and> ptrs_ok t'"
  using assms
proof (induction ps arbitrary: d t)
  case (Cons p ps)
  then obtain d1 t1 where dp: "drop_peer p (d, t) = Some (d1, t1)" and r: "close_peers ps (d1, t1) = Some (d', t')"
    by (auto simp: bind_eq_Some_conv)
  have o: "dev_owned (used + held t1) d1" "length (tn_heap t1) = length (tn_heap t)"
    using drop_peer_owned [OF Cons.prems(1) _ dp] Cons.prems(2) by simp_all
  have "ptrs_ok t1"
    using Cons.prems(3) o(2) drop_peer_maps [OF dp] gm_vals_del_subset [of "tn_peerIDToPeer t"]
    by (auto simp: ptrs_ok_def)
  with Cons.IH [OF o(1) _ _ r] Cons.prems(2) o(2) show ?case by simp
qed simp

section \<open>The tunnel as a state machine\<close>

text \<open>The packet handlers do not touch the two maps.\<close>

definition same_table :: "Tunnel \<Rightarrow> Tunnel \<Rightarrow> bool" where
  "same_table t t' \<longleftrightarrow> tn_peerIDToPeer t' = tn_peerIDToPeer t \<and> tn_netIPToPeer t' = tn_netIPToPeer t \<and>
     length (tn_heap t') = length (tn_heap t)"

lemma same_table_trans: "same_table t u \<Longrightarrow> same_table u v \<Longrightarrow> same_table t v"
  by (simp add: same_table_def)

lemma same_table_refl [simp]: "same_table t t"
  by (simp add: same_table_def)

lemma same_table_ptrs: "same_table t t' \<Longrightarrow> ptrs_ok t \<Longrightarrow> ptrs_ok t'"
  by (simp add: same_table_def ptrs_ok_def)

lemma send_same: "send_outbound p a t = Some (s, t') \<Longrightarrow> same_table t t'"
  "send_inbound p a t = Some (s, t') \<Longrightarrow> same_table t t'"
  by (auto simp: send_outbound_def send_inbound_def same_table_def Let_def split: if_splits)

lemma broadcast_same: "broadcast con a ps d t = Some (d', t') \<Longrightarrow> same_table t t'"
proof (induction con a ps d t rule: broadcast.induct)
  case (2 con a p ps d t)
  show ?case
  proof (cases "con (vp_peerID (tn_heap t ! p))")
    case False
    with 2 show ?thesis by simp
  next
    case True
    obtain c d1 where g: "GetTempPacket d = (c, d1)" by fastforce
    from "2.prems" True g obtain h sent t1 where
      cp: "CopyTo (dv_heap d1) a c = Some h" and send: "send_outbound p c t = Some (sent, t1)"
      and rec: "broadcast con a ps (if sent then d1\<lparr>dv_heap := h\<rparr> else PutTempPacket c (d1\<lparr>dv_heap := h\<rparr>)) t1 = Some (d', t')"
      by (auto simp: bind_eq_Some_conv Let_def)
    from "2.IH"(2) [OF _ refl g [symmetric] cp refl send refl rec] True send_same(1) [OF send]
    show ?thesis using same_table_trans by blast
  qed
qed simp

lemma handle_packets_same: "handle_packets con ps d t = Some (ps', d', t') \<Longrightarrow> same_table t t'"
proof (induction con ps d t arbitrary: ps' d' t' rule: handle_packets.induct)
  case (3 con a ps d t)
  let ?dst = "slc_bytes (dv_heap d) (pk_Dst (dv_heap d a))"
  show ?case
  proof (cases "ip_Equal ?dst (tn_udpBroadcastAddr t) \<or> ip_Equal ?dst IPv4bcast")
    case True
    with "3.prems" obtain d1 t1 qs where
      b: "broadcast con a (gm_vals (tn_netIPToPeer t)) d t = Some (d1, t1)"
      and h: "handle_packets con ps d1 t1 = Some (qs, d', t')"
      by (auto simp: bind_eq_Some_conv Let_def)
    from broadcast_same [OF b] "3.IH"(1) [OF refl True b refl h] show ?thesis by (rule same_table_trans)
  next
    case False
    show ?thesis
    proof (cases "gm_get (tn_netIPToPeer t) ?dst")
      case None
      with False "3.prems" "3.IH"(2) [OF refl False None] show ?thesis by (auto simp: Let_def)
    next
      case (Some p)
      with False "3.prems" obtain sent t1 qs where s: "send_outbound p a t = Some (sent, t1)"
        and h: "handle_packets con ps d t1 = Some (qs, d', t')"
        by (auto simp: bind_eq_Some_conv Let_def)
      from send_same(1) [OF s] "3.IH"(3) [OF refl False Some s refl h] show ?thesis by (rule same_table_trans)
    qed
  qed
qed auto

lemma read_round_same:
  "ReadTUNPackets_round (HandleReadPackets con) slots r d t = Some (c, slots', d', t') \<Longrightarrow> same_table t t'"
  using handle_packets_same
  by (auto simp: ReadTUNPackets_round_def HandleReadPackets_def Let_def bind_eq_Some_conv
      split: prod.splits if_splits)

lemma stream_round_same: "StreamHandler_round i d t s = Some (c, d', t', s') \<Longrightarrow> same_table t t'"
  using send_same(2)
  by (auto simp: StreamHandler_round_def Let_def bind_eq_Some_conv
      split: prod.splits sum.splits if_splits option.splits)

text \<open>
  A state: the device, the tunnel and the slots of the reading loop. The steps are the rounds
  of the concurrent loops, each on a peer that exists, the refresh and the closing; the inbound
  round is taken on channels whose packets all parse.
\<close>

type_synonym tun_state = "Device \<times> Tunnel \<times> nat option list"

inductive tun_step :: "tun_state \<Rightarrow> tun_state \<Rightarrow> bool" where
  read: "length (tr_sizes r) \<le> length slots \<Longrightarrow>
     ReadTUNPackets_round (HandleReadPackets con) slots r d t = Some (c, slots', d', t') \<Longrightarrow>
     tun_step (d, t, slots) (d', t', slots')"
| stream: "StreamHandler_round i d t s = Some (c, d', t', s') \<Longrightarrow>
     tun_step (d, t, slots) (d', t', slots)"
| outbound: "p < length (tn_heap t) \<Longrightarrow>
     backgroundOutboundHandler_round cf e p d t st = (d', t', st') \<Longrightarrow>
     tun_step (d, t, slots) (d', t', slots)"
| inbound: "p < length (tn_heap t) \<Longrightarrow>
     \<forall>a \<in> set (vp_inboundCh (tn_heap t ! p)). fst (Parse (dv_heap d) a) \<Longrightarrow>
     backgroundInboundHandler_round n tunOk p d t = Some (d', t') \<Longrightarrow>
     tun_step (d, t, slots) (d', t', slots)"
| refresh: "RefreshPeersList pdec pstr cf d t = Some (d', t') \<Longrightarrow>
     tun_step (d, t, slots) (d', t', slots)"
| close: "Tunnel_Close d t = Some (d', t') \<Longrightarrow> tun_step (d, t, slots) (d', t', slots)"
| events: "tun_step (d, t, slots) (tunEventsReader_step d ev, t, slots)"

definition tun_init :: "tun_state \<Rightarrow> bool" where
  "tun_init s \<longleftrightarrow> (\<exists>m lip c a n. s = (zero_Device m lip, \<lparr>tn_isClosed = c, tn_peerIDToPeer = [],
     tn_netIPToPeer = [], tn_udpBroadcastAddr = a, tn_heap = []\<rparr>, replicate n None))"

definition tun_inv :: "tun_state \<Rightarrow> bool" where
  "tun_inv s = (case s of (d, t, slots) \<Rightarrow> dev_owned (mset (somes slots) + held t) d \<and> ptrs_ok t)"

lemma tun_step_inv: "tun_step s s' \<Longrightarrow> tun_inv s \<Longrightarrow> tun_inv s'"
proof (induction rule: tun_step.induct)
  case (read r slots con d t c slots' d' t')
  then show ?case
    using tun_consumer.round_owned [of slots t d r con c slots' d' t'] same_table_ptrs [OF read_round_same]
    by (simp add: tun_inv_def)
next
  case (stream i d t s c d' t' s' slots)
  then show ?case
    using StreamHandler_round_owned [OF _ stream(1), of "mset (somes slots)"]
      same_table_ptrs [OF stream_round_same [OF stream(1)]] by (simp add: tun_inv_def)
next
  case (outbound p t cf e d st d' t' st' slots)
  have "ptrs_ok t \<Longrightarrow> ptrs_ok t'"
    using outbound(2)
    by (auto simp: backgroundOutboundHandler_round_def ptrs_ok_def Let_def split: list.splits prod.splits if_splits)
  with outbound outbound_round_owned [OF _ outbound(1,2), of "mset (somes slots)"]
  show ?case by (simp add: tun_inv_def)
next
  case (inbound p t d n tunOk d' t' slots)
  have "ptrs_ok t \<Longrightarrow> ptrs_ok t'"
    using inbound(3)
    by (auto simp: backgroundInboundHandler_round_def ptrs_ok_def Let_def split: list.splits prod.splits if_splits)
  with inbound inbound_round_owned [OF _ inbound(1,2,3), of "mset (somes slots)"]
  show ?case by (simp add: tun_inv_def)
next
  case (refresh pdec pstr cf d t d' t' slots)
  with RefreshPeersList_owned [OF _ _ refresh(1), of "mset (somes slots)"]
  show ?case by (simp add: tun_inv_def)
next
  case (close d t d' t' slots)
  have h: "held (t\<lparr>tn_isClosed := True\<rparr>) = held t" "ptrs_ok (t\<lparr>tn_isClosed := True\<rparr>) = ptrs_ok t"
    by (simp_all add: held_def ptrs_ok_def)
  from close h
    close_peers_owned [of "mset (somes slots)" "t\<lparr>tn_isClosed := True\<rparr>" d "gm_vals (tn_peerIDToPeer t)" d' t']
  show ?case by (auto simp: tun_inv_def Tunnel_Close_def ptrs_ok_def)
next
  case (events d t slots ev)
  then show ?case by (simp add: tun_inv_def tunEventsReader_step_def pool_free_def split: option.split)
qed

interpretation tun_machine: inductive_invariant tun_init tun_step tun_inv
proof
  have "somes (replicate n None) = ([] :: nat list)" for n by (induction n) simp_all
  then show "tun_inv s" if "tun_init s" for s
    using that
    by (auto simp: tun_init_def tun_inv_def zero_Device_def owned_once_def pool_free_def held_def ptrs_ok_def
        gm_vals_def)
  show "tun_inv t" if "tun_inv s" "tun_step s t" for s t
    using that tun_step_inv by blast
qed

section \<open>Properties of ownership\<close>


definition empty_tunnel :: Tunnel where
  "empty_tunnel = \<lparr>tn_isClosed = False, tn_peerIDToPeer = [], tn_netIPToPeer = [],
     tn_udpBroadcastAddr = [10, 66, 0, 255], tn_heap = []\<rparr>"

lemma sample_stream_round:
  "StreamHandler_round ''p'' (zero_Device 1500 [10, 66, 0, 1]) empty_tunnel
     \<lparr>st_bytes = [], st_end = EOF, ns_chunks = []\<rparr> =
   Some (False, (zero_Device 1500 [10, 66, 0, 1])\<lparr>dv_heap := clear (\<lambda>_. zero_Packet) 0, dv_next := 1, dv_pool := [0]\<rparr>,
     empty_tunnel, \<lparr>st_bytes = [], st_end = EOF, ns_chunks = []\<rparr>)"
  by (simp add: StreamHandler_round_def GetTempPacket_def zero_Device_def ReadUint64_def ReadFull_def
      PutTempPacket_def fun_upd_idem)



lemma clear_sample: "clear (sample_heap bs) (Suc 0) = sample_heap bs"
  by (rule ext) (simp add: clear_def sample_heap_def zero_Packet_def)


end
