(* ===== verification/Tunnel_Delivery.thy ===== *)
theory Tunnel_Delivery
  imports Tunnel
begin

text \<open>
  From the outbound loop of one node to the inbound channel of another: the streams the loop
  opens stay under their packet limits and carry the packets as frames, and the stream handler
  of the receiver turns the frames back into the same packets, in order, for every way the
  network cuts the bytes.
\<close>

section \<open>The outbound streams\<close>

datatype out_event = Batch net_env "byte list list" | IdleTick

fun out_step :: "Config \<Rightarrow> out_state \<Rightarrow> out_event \<Rightarrow> out_state" where
  "out_step c st (Batch e packets) = send_batch c e packets st"
| "out_step c st IdleTick = closeStream st"

definition stream_limit :: "out_stream \<Rightarrow> nat" where
  "stream_limit s = (if os_limited s then maxPacketsPerLimitedStream else maxPacketsPerUnlimitedStream)"

definition frames :: "byte list list \<Rightarrow> byte list" where
  "frames ps = concat (map (AppendPacketToBuf []) ps)"

lemma frames_simps [simp]: "frames [] = []" "frames (p # ps) = AppendPacketToBuf [] p @ frames ps"
  "frames (ps @ qs) = frames ps @ frames qs"
  by (simp_all add: frames_def)

definition out_inv :: "out_state \<Rightarrow> bool" where
  "out_inv st \<longleftrightarrow>
     (\<forall>s \<in> set (ob_streams st). length (os_packets s) < stream_limit s \<and>
        (\<exists>rest. os_bytes s @ rest = frames (os_packets s))) \<and>
     (if ob_open st
      then \<exists>s ss. ob_streams st = s # ss \<and> ob_maxPacketsPerStream st = stream_limit s \<and>
             length (os_packets s) \<le> ob_currentPacketsForStream st \<and>
             ob_currentPacketsForStream st < stream_limit s \<and> os_bytes s = frames (os_packets s)
      else ob_currentPacketsForStream st = 0)"

lemma stream_limit_100: "100 < stream_limit s"
  by (simp add: stream_limit_def maxPacketsPerLimitedStream_def maxPacketsPerUnlimitedStream_def InterfaceMTU_def)

lemma out_inv_close: "out_inv st \<Longrightarrow> out_inv (closeStream st)"
  by (simp add: out_inv_def closeStream_def)

text \<open>What holds when the batch is counted and a stream is about to be used.\<close>

definition out_ready :: "nat \<Rightarrow> out_state \<Rightarrow> bool" where
  "out_ready n st \<longleftrightarrow>
     (\<forall>s \<in> set (ob_streams st). length (os_packets s) < stream_limit s \<and>
        (\<exists>rest. os_bytes s @ rest = frames (os_packets s))) \<and>
     (if ob_open st
      then \<exists>s ss. ob_streams st = s # ss \<and> ob_maxPacketsPerStream st = stream_limit s \<and>
             length (os_packets s) + n \<le> ob_currentPacketsForStream st \<and>
             ob_currentPacketsForStream st < stream_limit s \<and> os_bytes s = frames (os_packets s)
      else ob_currentPacketsForStream st = n)"

lemma open_if_needed_ready:
  assumes "out_ready n st" and "n \<le> 100" and "open_if_needed c e st = Some st1"
  shows "out_ready n st1 \<and> ob_open st1"
  using assms stream_limit_100
  by (auto simp: out_ready_def open_if_needed_def stream_limit_def split: if_splits option.splits)
    (fastforce simp: maxPacketsPerLimitedStream_def maxPacketsPerUnlimitedStream_def InterfaceMTU_def)+

lemma sendPacket_inv:
  assumes ready: "out_ready (length packets) st" and n: "length packets \<le> 100"
    and run: "sendPacket c e packets st = (ok, st')"
  shows "out_inv (if ok then st' else closeStream st')"
proof (cases "open_if_needed c e st")
  case None
  with assms show ?thesis by (auto simp: sendPacket_def out_inv_def out_ready_def closeStream_def)
next
  case (Some st1)
  obtain s ss where s: "ob_streams st1 = s # ss" "ob_maxPacketsPerStream st1 = stream_limit s"
      "length (os_packets s) + length packets \<le> ob_currentPacketsForStream st1"
      "ob_currentPacketsForStream st1 < stream_limit s" "os_bytes s = frames (os_packets s)"
    and all: "\<forall>s \<in> set (ob_streams st1). length (os_packets s) < stream_limit s \<and>
        (\<exists>rest. os_bytes s @ rest = frames (os_packets s))"
    and op: "ob_open st1"
    using open_if_needed_ready [OF ready n Some] by (auto simp: out_ready_def)
  let ?data = "fold (\<lambda>p b. AppendPacketToBuf b p) packets []"
  have data: "?data = frames packets" by (simp add: fold_AppendPacketToBuf frames_def)
  have lim: "stream_limit (s\<lparr>os_packets := x, os_bytes := y\<rparr>) = stream_limit s" for x y
    by (simp add: stream_limit_def)
  show ?thesis
  proof (cases "ne_write e")
    case None
    with run Some s all op show ?thesis
      by (auto simp: sendPacket_def data out_inv_def lim Let_def)
  next
    case (Some k)
    have "\<exists>rest. os_bytes s @ take k ?data @ rest = frames (os_packets s @ packets)"
      using s(5) by (intro exI [of _ "drop k ?data"]) (simp add: data)
    with run Some \<open>open_if_needed c e st = Some st1\<close> s all show ?thesis
      by (auto simp: sendPacket_def out_inv_def closeStream_def lim Let_def) blast
  qed
qed

lemma send_batch_inv:
  assumes "out_inv st" and "length packets \<le> 100"
  shows "out_inv (send_batch c e packets st)"
proof -
  let ?st1 = "if ob_currentPacketsForStream st + length packets \<ge> ob_maxPacketsPerStream st
              then closeStream st else st"
  let ?st2 = "?st1\<lparr>ob_currentPacketsForStream := ob_currentPacketsForStream ?st1 + length packets\<rparr>"
  have "out_ready (length packets) ?st2"
    using assms(1) by (auto simp: out_inv_def out_ready_def closeStream_def not_le)
  then show ?thesis
    using sendPacket_inv [OF _ assms(2)] by (auto simp: send_batch_def Let_def split: prod.split)
qed

lemma out_run_inv:
  "out_inv st \<Longrightarrow> \<forall>e ps. Batch e ps \<in> set evs \<longrightarrow> length ps \<le> packetsBatchSize \<Longrightarrow>
     out_inv (foldl (out_step c) st evs)"
proof (induction evs arbitrary: st)
  case (Cons ev evs)
  have "out_inv (out_step c st ev)"
    using Cons.prems by (cases ev) (auto simp: send_batch_inv out_inv_close packetsBatchSize_def)
  with Cons show ?case by simp
qed simp

lemma out_init_inv: "out_inv out_init"
  by (simp add: out_inv_def out_init_def)

section \<open>The stream handler\<close>

definition heap_ok :: "Device \<Rightarrow> bool" where
  "heap_ok d \<longleftrightarrow> (\<forall>a. length (pk_Buffer (dv_heap d a)) = maxContentSize)"

lemma GetTempPacket_heap:
  assumes "GetTempPacket d = (a, d1)" and "heap_ok d"
  shows "heap_ok d1" and "b \<noteq> a \<Longrightarrow> dv_heap d1 b = dv_heap d b"
  using assms
  by (auto simp: GetTempPacket_def heap_ok_def zero_Packet_def Let_def split: option.splits if_splits list.splits)

lemma sint_of_nat_u64: "n < 2 ^ 63 \<Longrightarrow> sint (of_nat n :: u64) = int n"
  by (simp add: signed_of_nat signed_take_bit_int_eq_self)

definition chan_push :: "nat \<Rightarrow> nat \<Rightarrow> Tunnel \<Rightarrow> Tunnel" where
  "chan_push p a t = t\<lparr>tn_heap := (tn_heap t)[p := (tn_heap t ! p)
     \<lparr>vp_inboundCh := vp_inboundCh (tn_heap t ! p) @ [a]\<rparr>]\<rparr>"

lemma stream_round_frame:
  assumes "heap_ok d" and own: "dev_owned (used + held t) d"
    and "gm_get (tn_peerIDToPeer t) i = Some p"
    and "\<not> vp_closed (tn_heap t ! p)" and "length (vp_inboundCh (tn_heap t ! p)) < packetHandlersChanCap"
    and s: "st_bytes s = AppendPacketToBuf [] pk @ rest" and len: "length pk \<le> 3586"
  shows "\<exists>a d' s'. StreamHandler_round i d t s = Some (True, d', chan_push p a t, s') \<and>
     st_bytes s' = rest \<and> st_end s' = st_end s \<and> heap_ok d' \<and> a \<notin># used + held t \<and>
     packet_ok (dv_heap d') a (length pk) \<and> packet_bytes (dv_heap d') a = pk \<and>
     (\<forall>b. b \<noteq> a \<longrightarrow> dv_heap d' b = dv_heap d b)"
proof -
  obtain a d1 where g: "GetTempPacket d = (a, d1)" by fastforce
  have fresh: "a \<notin># used + held t" using pool.get_fresh [OF own g] by blast
  note gh = GetTempPacket_heap [OF g assms(1)]
  let ?s1 = "s\<lparr>st_bytes := pk @ rest\<rparr>"
  have eq: "s\<lparr>st_bytes := be_bytes 8 (length pk) @ pk @ rest\<rparr> = s"
    using s by (cases s) (simp add: AppendPacketToBuf_def)
  have u: "ReadUint64 s = (Inr (of_nat (length pk)), ?s1)"
    using ReadUint64_header [where n = "length pk" and s = s and rest = "pk @ rest"] len by (simp add: eq)
  have n: "sint (of_nat (length pk) :: u64) = int (length pk)"
    using len by (intro sint_of_nat_u64) simp
  obtain s' where r: "ReadFrom (limited_Read net_Read) (dv_heap d1) a \<lparr>lr_R = ?s1, lr_N = int (length pk)\<rparr> =
      Some (length pk, None, received (dv_heap d1) a pk, \<lparr>lr_R = s', lr_N = 0\<rparr>)"
    "st_bytes s' = rest" "st_end s' = st_end s"
    using ReadFrom_exact [of "dv_heap d1" a "length pk" ?s1] gh(1) len by (auto simp: heap_ok_def)
  let ?d' = "d1\<lparr>dv_heap := received (dv_heap d1) a pk\<rparr>"
  have "StreamHandler_round i d t s = Some (True, ?d', chan_push p a t, s')"
    using g u n r assms(3-5) by (simp add: StreamHandler_round_def send_inbound_def chan_push_def Let_def)
  moreover have "heap_ok ?d'" using gh(1) by (simp add: heap_ok_def received_def packet_consts)
  moreover have "packet_ok (dv_heap ?d') a (length pk)" "packet_bytes (dv_heap ?d') a = pk"
    using received_ok [of "dv_heap d1" a pk] gh(1) len by (simp_all add: heap_ok_def packet_bytes_def)
  moreover have "dv_heap ?d' b = dv_heap d b" if "b \<noteq> a" for b
    using that gh(2) by (simp add: received_def)
  ultimately show ?thesis using r(2,3) fresh by blast
qed

lemma chan_push_held:
  "p < length (tn_heap t) \<Longrightarrow> held (chan_push p a t) = add_mset a (held t)"
  using held_update [of p "tn_heap t" "(tn_heap t ! p)\<lparr>vp_inboundCh := vp_inboundCh (tn_heap t ! p) @ [a]\<rparr>"]
  by (simp add: held_def chan_push_def chan_held_def ac_simps)

lemma packet_bytes_own: "packet_ok h a n \<Longrightarrow> h' a = h a \<Longrightarrow> packet_bytes h' a = packet_bytes h a"
  by (simp add: packet_bytes_def packet_ok_def)

text \<open>The whole loop on a stream that holds complete frames and then ends.\<close>

lemma stream_loop_frames:
  assumes "heap_ok d" and "dev_owned (used + held t) d"
    and "gm_get (tn_peerIDToPeer t) i = Some p" and "p < length (tn_heap t)"
    and "\<not> vp_closed (tn_heap t ! p)"
    and "length (vp_inboundCh (tn_heap t ! p)) + length pks \<le> packetHandlersChanCap"
    and "st_bytes s = frames pks" and "\<forall>pk \<in> set pks. length pk \<le> 3586"
  shows "\<exists>d' t' s' as. StreamHandler_loop i d t s = Some (d', t', s') \<and>
     vp_inboundCh (tn_heap t' ! p) = vp_inboundCh (tn_heap t ! p) @ as \<and>
     map (packet_bytes (dv_heap d')) as = pks \<and>
     (\<forall>b. b \<in># held t \<longrightarrow> dv_heap d' b = dv_heap d b)"
  using assms
proof (induction pks arbitrary: d t s)
  case Nil
  obtain a d1 where g: "GetTempPacket d = (a, d1)" by fastforce
  have fresh: "a \<notin># used + held t" using pool.get_fresh [OF Nil.prems(2) g] by blast
  obtain e where u: "ReadUint64 s = (Inl e, s\<lparr>st_bytes := []\<rparr>)"
    using ReadUint64_short [of s] Nil.prems(7) by auto
  have "StreamHandler_loop i d t s = Some (PutTempPacket a d1, t, s\<lparr>st_bytes := []\<rparr>)"
    by (subst StreamHandler_loop.simps) (simp add: StreamHandler_round_def g u)
  moreover have "dv_heap (PutTempPacket a d1) b = dv_heap d b" if "b \<in># held t" for b
  proof -
    have "b \<noteq> a" using that fresh by auto
    with GetTempPacket_heap(2) [OF g Nil.prems(1)] show ?thesis by (simp add: PutTempPacket_def clear_def)
  qed
  ultimately show ?case by (intro exI [of _ "PutTempPacket a d1"] exI [of _ t]) auto
next
  case (Cons pk pks)
  from Cons.prems have pre: "length (vp_inboundCh (tn_heap t ! p)) < packetHandlersChanCap"
    "st_bytes s = AppendPacketToBuf [] pk @ frames pks" "length pk \<le> 3586" by simp_all
  obtain a d1 s1 where r: "StreamHandler_round i d t s = Some (True, d1, chan_push p a t, s1)"
    "st_bytes s1 = frames pks" "heap_ok d1" "a \<notin># used + held t"
    "packet_ok (dv_heap d1) a (length pk)" "packet_bytes (dv_heap d1) a = pk"
    "\<forall>b. b \<noteq> a \<longrightarrow> dv_heap d1 b = dv_heap d b"
    using stream_round_frame [OF Cons.prems(1-3,5) pre] by blast
  let ?t1 = "chan_push p a t"
  have v: "tn_heap ?t1 ! p = (tn_heap t ! p)\<lparr>vp_inboundCh := vp_inboundCh (tn_heap t ! p) @ [a]\<rparr>"
    "tn_peerIDToPeer ?t1 = tn_peerIDToPeer t" "length (tn_heap ?t1) = length (tn_heap t)"
    using Cons.prems(4) by (simp_all add: chan_push_def)
  have own: "dev_owned (used + held ?t1) d1" using StreamHandler_round_owned [OF Cons.prems(2) r(1)] .
  obtain d' t' s' as where ih: "StreamHandler_loop i d1 ?t1 s1 = Some (d', t', s')"
    "vp_inboundCh (tn_heap t' ! p) = vp_inboundCh (tn_heap ?t1 ! p) @ as"
    "map (packet_bytes (dv_heap d')) as = pks" "\<forall>b. b \<in># held ?t1 \<longrightarrow> dv_heap d' b = dv_heap d1 b"
    using Cons.IH [OF r(3) own _ _ _ _ r(2)] Cons.prems v by auto
  have held1: "held ?t1 = add_mset a (held t)" using Cons.prems(4) by (rule chan_push_held)
  have "packet_bytes (dv_heap d') a = pk"
    using packet_bytes_own [OF r(5), of "dv_heap d'"] ih(4) r(6) held1 by simp
  moreover have "dv_heap d' b = dv_heap d b" if "b \<in># held t" for b
  proof -
    have "b \<noteq> a" using that r(4) by auto
    then show ?thesis using that ih(4) r(7) held1 by simp
  qed
  moreover have "StreamHandler_loop i d t s = Some (d', t', s')"
    using r(1) ih(1) by (subst StreamHandler_loop.simps) simp
  ultimately show ?case using ih(2,3) v(1) by (intro exI [of _ d'] exI [of _ t'] exI [of _ s'] exI [of _ "a # as"]) simp
qed

section \<open>Properties\<close>

text \<open>
  C35. Whatever batches, failures and idle ticks the outbound loop sees, no stream it opens is
  asked to carry as many packets as the limit for its kind, and what was written to a stream
  is a prefix of the frames of its packets, all of them while the stream is open.
\<close>

theorem outbound_streams_limited:
  assumes "\<forall>e ps. Batch e ps \<in> set evs \<longrightarrow> length ps \<le> packetsBatchSize"
  shows "\<forall>s \<in> set (ob_streams (foldl (out_step c) out_init evs)).
     length (os_packets s) < (if os_limited s then maxPacketsPerLimitedStream else maxPacketsPerUnlimitedStream) \<and>
     (\<exists>rest. os_bytes s @ rest = frames (os_packets s))"
  using out_run_inv [OF out_init_inv assms, of c] by (simp add: out_inv_def stream_limit_def)

definition good_env :: net_env where
  "good_env = \<lparr>ne_isConnected = True, ne_connectOk = True, ne_newStream = (\<lambda>_. Some True), ne_write = None\<rparr>"

lemma good_run:
  "foldl (out_step zero_Config) out_init [Batch good_env [[1, 2], [3]]] =
     \<lparr>ob_open = True, ob_maxPacketsPerStream = maxPacketsPerLimitedStream, ob_currentPacketsForStream = 2,
      ob_streams = [\<lparr>os_limited = True, os_packets = [[1, 2], [3]], os_bytes = frames [[1, 2], [3]]\<rparr>]\<rparr>"
  by (simp add: out_init_def send_batch_def sendPacket_def open_if_needed_def makeTunnelStream_def good_env_def
      closeStream_def Let_def AppendPacketToBuf_def)

theorem outbound_streams_limited_witness:
  "length (os_packets (hd (ob_streams (foldl (out_step zero_Config) out_init [Batch good_env [[1, 2], [3]]]))))
     < maxPacketsPerLimitedStream"
  using outbound_streams_limited [of "[Batch good_env [[1, 2], [3]]]" zero_Config]
  by (simp add: packetsBatchSize_def good_run del: foldl_Cons)

text \<open>
  C1. End to end: when the sender's outbound loop has an open stream, the receiver's stream
  handler, given that stream's bytes in any pieces, returns, and the sender's packets have been
  appended to the peer's inbound channel, in order and byte for byte, while the packets already
  in the tunnel's channels are untouched.
\<close>

theorem tunnel_delivers:
  assumes "st = foldl (out_step c) out_init evs"
    and "\<forall>e ps. Batch e ps \<in> set evs \<longrightarrow> length ps \<le> packetsBatchSize"
    and "ob_open st"
    and "\<forall>pk \<in> set (os_packets (hd (ob_streams st))). length pk \<le> maxContentSize - tunPacketOffset"
    and "heap_ok d" and "dev_owned (held t) d"
    and "gm_get (tn_peerIDToPeer t) i = Some p" and "p < length (tn_heap t)"
    and "\<not> vp_closed (tn_heap t ! p)"
    and "length (vp_inboundCh (tn_heap t ! p)) + length (os_packets (hd (ob_streams st))) \<le> packetHandlersChanCap"
  shows "\<exists>d' t' s' as.
     StreamHandler i d t \<lparr>st_bytes = os_bytes (hd (ob_streams st)), st_end = EOF, ns_chunks = chunks\<rparr> = Some (d', t', s') \<and>
     vp_inboundCh (tn_heap t' ! p) = vp_inboundCh (tn_heap t ! p) @ as \<and>
     map (packet_bytes (dv_heap d')) as = os_packets (hd (ob_streams st)) \<and>
     (\<forall>b. b \<in># held t \<longrightarrow> dv_heap d' b = dv_heap d b)"
proof -
  have "out_inv st" unfolding assms(1) by (rule out_run_inv [OF out_init_inv assms(2)])
  with assms(3) have bytes: "os_bytes (hd (ob_streams st)) = frames (os_packets (hd (ob_streams st)))"
    by (auto simp: out_inv_def)
  have own: "dev_owned ({#} + held t) d" using assms(6) by simp
  have small: "\<forall>pk \<in> set (os_packets (hd (ob_streams st))). length pk \<le> 3586"
    using assms(4) by (simp add: packet_consts)
  from stream_loop_frames [OF assms(5) own assms(7-10) _ small,
      of "\<lparr>st_bytes = os_bytes (hd (ob_streams st)), st_end = EOF, ns_chunks = chunks\<rparr>"]
  show ?thesis using bytes assms(7) by (simp add: StreamHandler_def)
qed

definition one_peer :: Tunnel where
  "one_peer = empty_tunnel\<lparr>tn_peerIDToPeer := [(''q'', 0)], tn_netIPToPeer := [([10, 66, 0, 2], 0)],
     tn_heap := [NewVpnPeer ''q'' [10, 66, 0, 2]]\<rparr>"

theorem tunnel_delivers_witness:
  "\<exists>d' t' s' as.
     StreamHandler ''q'' (zero_Device 1500 [10, 66, 0, 1]) one_peer
       \<lparr>st_bytes = frames [[1, 2], [3]], st_end = EOF, ns_chunks = [3, 1, 1]\<rparr> = Some (d', t', s') \<and>
     vp_inboundCh (tn_heap t' ! 0) = as \<and> map (packet_bytes (dv_heap d')) as = [[1, 2], [3]]"
proof -
  let ?d = "zero_Device 1500 [10, 66, 0, 1]"
  have t: "heap_ok ?d" "dev_owned (held one_peer) ?d" "gm_get (tn_peerIDToPeer one_peer) ''q'' = Some 0"
    "0 < length (tn_heap one_peer)" "\<not> vp_closed (tn_heap one_peer ! 0)" "vp_inboundCh (tn_heap one_peer ! 0) = []"
    by (simp_all add: heap_ok_def zero_Device_def zero_Packet_def owned_once_def pool_free_def held_def
        chan_held_def one_peer_def NewVpnPeer_def gm_get_def)
  show ?thesis
    using tunnel_delivers [OF good_run [symmetric] _ _ _ t(1-5), of "[3, 1, 1]"] t(6)
    by (simp add: packetsBatchSize_def packet_consts packetHandlersChanCap_def del: frames_simps)
      (elim exE conjE, intro exI conjI, assumption, assumption)
qed

end
