(* ===== verification/Go_Utf8.thy ===== *)
theory Go_Utf8
  imports Go_Strings
begin

text \<open>
  Encoding and decoding of code points are inverse to each other: \<open>encode_rune\<close> followed by
  \<open>DecodeRune\<close> gives the code point, and the bytes of a valid sequence are the encoding of the
  code point read from them.
\<close>

section \<open>Decoding an encoded code point\<close>

definition scalar :: "nat \<Rightarrow> nat" where
  "scalar r = (if 0x10FFFF < r \<or> (0xD800 \<le> r \<and> r \<le> 0xDFFF) then RuneError else r)"

lemma scalar_range: "scalar r \<le> 0x10FFFF \<and> \<not> (0xD800 \<le> scalar r \<and> scalar r \<le> 0xDFFF)"
  by (auto simp: scalar_def RuneError_def)

lemma scalar_scalar [simp]: "scalar (scalar r) = scalar r"
  by (auto simp: scalar_def RuneError_def)

definition utf8 :: "nat \<Rightarrow> nat list" where
  "utf8 r = (if r < 0x80 then [r]
         else if r < 0x800 then [0xC0 + r div 64, 0x80 + r mod 64]
         else if r < 0x10000 then [0xE0 + r div 4096, 0x80 + r div 64 mod 64, 0x80 + r mod 64]
         else [0xF0 + r div 262144, 0x80 + r div 4096 mod 64, 0x80 + r div 64 mod 64, 0x80 + r mod 64])"

lemma encode_rune_utf8: "encode_rune r = map char_of (utf8 (scalar r))"
  by (simp add: encode_rune_def utf8_def scalar_def Let_def)

lemma utf8_less: "r \<le> 0x10FFFF \<Longrightarrow> \<forall>b \<in> set (utf8 r). b < 256"
proof -
  assume r: "r \<le> 0x10FFFF"
  have "r div 64 < 32" if "r < 2048" using that by simp
  moreover have "r div 4096 < 16" if "r < 65536" using that by simp
  moreover have "r div 262144 < 5" using r by simp
  ultimately show ?thesis by (auto simp: utf8_def)
qed

lemma cont_tail [simp]: "cont (0x80 + n mod 64)"
proof -
  have "n mod 64 < 64" by simp
  then have "n mod 64 \<le> 63" by linarith
  then show ?thesis by (simp add: cont_def)
qed

lemma split64: "(r :: nat) div 4096 * 64 + r div 64 mod 64 = r div 64"
  "(r :: nat) div 262144 * 64 + r div 4096 mod 64 = r div 4096" "(r :: nat) div 64 * 64 + r mod 64 = r"
proof -
  have "r div 4096 = r div 64 div 64" by (simp add: div_mult2_eq [of r 64 64, simplified])
  then show "r div 4096 * 64 + r div 64 mod 64 = r div 64" by simp
  have "r div 262144 = r div 4096 div 64" by (simp add: div_mult2_eq [of r 4096 64, simplified])
  then show "r div 262144 * 64 + r div 4096 mod 64 = r div 4096" by simp
  show "r div 64 * 64 + r mod 64 = r" by simp
qed

lemma decode_utf8:
  assumes "r \<le> 0x10FFFF" and "\<not> (0xD800 \<le> r \<and> r \<le> 0xDFFF)"
  shows "decode_valid (utf8 r @ s) = Some (r, length (utf8 r))"
proof -
  consider "r < 0x80" | "0x80 \<le> r" "r < 0x800" | "0x800 \<le> r" "r < 0x10000" | "0x10000 \<le> r" by linarith
  then show ?thesis
  proof cases
    case 1
    then show ?thesis by (simp add: utf8_def)
  next
    case 2
    define q where "q = r div 64"
    have q: "2 \<le> q" "q \<le> 31" "q * 64 + r mod 64 = r" using 2 by (simp_all add: q_def div_le_dividend)
    show ?thesis using 2 q by (simp add: utf8_def q_def [symmetric])
  next
    case 3
    let ?a = "r div 4096" and ?b = "r div 64 mod 64"
    have a: "?a < 16" using 3 by simp
    have b: "?b < 64" by simp
    have ab: "?a * 64 + ?b = r div 64" by (rule split64(1))
    have q: "32 \<le> r div 64" using 3 by (simp add: less_eq_div_iff_mult_less_eq)
    have lo: "?a = 0 \<longrightarrow> 0xA0 \<le> 0x80 + ?b" using ab q by auto
    have hi: "?a = 13 \<longrightarrow> 0x80 + ?b \<le> 0x9F"
    proof
      assume "?a = 13"
      then have "r < 0xE000" by simp
      then have "r < 0xD800" using assms(2) by linarith
      then have "r div 64 < 864" by (simp add: div_less_iff_less_mult)
      with ab \<open>?a = 13\<close> show "0x80 + ?b \<le> 0x9F" by linarith
    qed
    show ?thesis using 3 a lo hi ab split64(3) [of r] by (simp add: utf8_def)
  next
    case 4
    let ?a = "r div 262144" and ?b = "r div 4096 mod 64"
    have ab: "?a * 64 + ?b = r div 4096" by (rule split64(2))
    have lim: "r div 4096 < 272" "16 \<le> r div 4096" using assms(1) 4
      by (simp_all add: less_eq_div_iff_mult_less_eq div_less_iff_less_mult)
    have a: "?a < 5" using assms(1) by simp
    have lo: "?a = 0 \<longrightarrow> 0x90 \<le> 0x80 + ?b" using ab lim by auto
    have hi: "?a = 4 \<longrightarrow> 0x80 + ?b \<le> 0x8F" using ab lim by auto
    show ?thesis using 4 a lo hi ab split64 [of r] by (simp add: utf8_def)
  qed
qed

lemma DecodeRune_encode: "DecodeRune (encode_rune r @ s) = (scalar r, length (encode_rune r))"
proof -
  have "map (of_char \<circ> char_of) (utf8 (scalar r)) = utf8 (scalar r)"
    using utf8_less [of "scalar r"] scalar_range [of r] by (intro map_idI) simp
  then show ?thesis
    using decode_utf8 [of "scalar r"] scalar_range [of r]
    by (simp add: DecodeRune_def encode_rune_utf8)
qed

lemma runes_encode: "runes (concat (map encode_rune rs)) = map (\<lambda>r. (scalar r, encode_rune r)) rs"
proof (induction rs)
  case (Cons r rs)
  have "encode_rune r \<noteq> []" by (simp add: encode_rune_utf8 utf8_def)
  then show ?case using Cons
    by (subst runes.simps(2)) (simp_all add: DecodeRune_encode)
qed simp

lemma map_runes_alt: "map_runes f s = concat (map encode_rune (map (f \<circ> fst) (runes s)))"
  by (simp add: map_runes_def comp_def)

lemma encode_scalar [simp]: "encode_rune (scalar r) = encode_rune r"
  by (simp add: encode_rune_utf8)

lemma map_runes_encoded:
  "map_runes f (concat (map encode_rune rs)) = concat (map encode_rune (map (f \<circ> scalar) rs))"
  by (simp add: map_runes_alt runes_encode comp_def)

section \<open>Encoding a decoded code point\<close>

lemma div_mod_64: "b < 64 \<Longrightarrow> (a * 64 + b) div 64 = a" "b < 64 \<Longrightarrow> (a * 64 + b) mod 64 = b" for a b :: nat
  by simp_all

lemma decode_valid_utf8:
  assumes "decode_valid bs = Some (r, w)" and "\<forall>b \<in> set bs. b < 256"
  shows "utf8 r = take w bs \<and> scalar r = r"
proof -
  obtain a s where bs: "bs = a # s" using assms(1) by (cases bs) simp_all
  consider "a < 0x80" | "0xC2 \<le> a" "a \<le> 0xDF" | "0xE0 \<le> a" "a \<le> 0xEF" | "0xF0 \<le> a" "a \<le> 0xF4"
    using assms(1) bs by (auto split: if_splits)
  then show ?thesis
  proof cases
    case 1
    then show ?thesis using assms(1) bs by (auto simp: utf8_def scalar_def)
  next
    case 2
    then obtain b s' where s: "s = b # s'" "cont b" "r = (a - 0xC0) * 64 + (b - 0x80)" "w = 2"
      using assms(1) bs by (auto split: if_splits list.splits)
    define x y where "x = a - 0xC0" and "y = b - 0x80"
    have xy: "2 \<le> x" "x < 32" "y < 64" "a = 0xC0 + x" "b = 0x80 + y" using 2 s(2) by (auto simp: x_def y_def cont_def)
    have r: "r = x * 64 + y" using s(3) by (simp add: x_def y_def)
    have "0x80 \<le> r" "r < 0x800" using r xy by auto
    then show ?thesis using r xy bs s div_mod_64 [of y x] by (simp add: utf8_def scalar_def)
  next
    case 3
    then obtain b c s' where s: "s = b # c # s'" "cont b" "cont c" "a = 0xE0 \<longrightarrow> 0xA0 \<le> b" "a = 0xED \<longrightarrow> b \<le> 0x9F"
      "r = ((a - 0xE0) * 64 + (b - 0x80)) * 64 + (c - 0x80)" "w = 3"
      using assms(1) bs by (auto split: if_splits list.splits)
    define x y z where "x = a - 0xE0" and "y = b - 0x80" and "z = c - 0x80"
    have xyz: "x < 16" "y < 64" "z < 64" "a = 0xE0 + x" "b = 0x80 + y" "c = 0x80 + z"
      using 3 s(2,3) by (auto simp: x_def y_def z_def cont_def)
    have lim: "x = 0 \<longrightarrow> 32 \<le> y" "x = 13 \<longrightarrow> y < 32" using s(4,5) xyz by auto
    define q where "q = x * 64 + y"
    have r: "r = q * 64 + z" using s(6) by (simp add: x_def y_def z_def q_def)
    have q: "32 \<le> q" "q < 1024" using lim(1) xyz(1,2) by (auto simp: q_def)
    have "q < 864 \<or> 896 \<le> q"
    proof (cases "x \<le> 12 \<or> x = 13")
      case True
      then show ?thesis using lim(2) xyz(2) by (auto simp: q_def)
    next
      case False
      then show ?thesis by (simp add: q_def)
    qed
    note q = q this
    have rr: "0x800 \<le> r" "r < 0x10000" "r < 0xD800 \<or> 0xDFFF < r" using r q xyz(3) by auto
    have dm: "r div 64 = q" "r mod 64 = z" "q div 64 = x" "q mod 64 = y"
      using div_mod_64 [OF xyz(3), of q] div_mod_64 [OF xyz(2), of x] by (simp_all add: r q_def)
    have "r div 4096 = x" using dm(1,3) by (simp add: div_mult2_eq [of r 64 64, simplified])
    with rr dm show ?thesis using bs s(1,7) xyz(4-6) by (auto simp: utf8_def scalar_def)
  next
    case 4
    then obtain b c d s' where s: "s = b # c # d # s'" "cont b" "cont c" "cont d" "a = 0xF0 \<longrightarrow> 0x90 \<le> b"
      "a = 0xF4 \<longrightarrow> b \<le> 0x8F" "r = (((a - 0xF0) * 64 + (b - 0x80)) * 64 + (c - 0x80)) * 64 + (d - 0x80)" "w = 4"
      using assms(1) bs by (auto split: if_splits list.splits)
    define x y z v where "x = a - 0xF0" and "y = b - 0x80" and "z = c - 0x80" and "v = d - 0x80"
    have xyz: "x < 5" "y < 64" "z < 64" "v < 64" "a = 0xF0 + x" "b = 0x80 + y" "c = 0x80 + z" "d = 0x80 + v"
      using 4 s(2-4) by (auto simp: x_def y_def z_def v_def cont_def)
    have lim: "x = 0 \<longrightarrow> 16 \<le> y" "x = 4 \<longrightarrow> y < 16" using s(5,6) xyz by auto
    define p where "p = x * 64 + y"
    define q where "q = p * 64 + z"
    have r: "r = q * 64 + v" using s(7) by (simp add: x_def y_def z_def v_def p_def q_def)
    have p: "16 \<le> p" "p < 272" using lim xyz(1,2) by (auto simp: p_def)
    have rr: "0x10000 \<le> r" "r \<le> 0x10FFFF" using r p xyz(3,4) by (auto simp: q_def)
    have dm: "r div 64 = q" "r mod 64 = v" "q div 64 = p" "q mod 64 = z" "p div 64 = x" "p mod 64 = y"
      using div_mod_64 [OF xyz(4), of q] div_mod_64 [OF xyz(3), of p] div_mod_64 [OF xyz(2), of x]
      by (simp_all add: r q_def p_def)
    have "r div 4096 = p" using dm(1,3) by (simp add: div_mult2_eq [of r 64 64, simplified])
    moreover from this have "r div 262144 = x" using dm(5) by (simp add: div_mult2_eq [of r 4096 64, simplified])
    ultimately show ?thesis using rr dm bs s(1,8) xyz(5-8) by (auto simp: utf8_def scalar_def)
  qed
qed

lemma encode_decoded:
  assumes "s \<noteq> []" and "DecodeRune s = (r, w)" and "\<not> (r = RuneError \<and> w = 1)"
  shows "encode_rune r = take w s"
proof -
  have d: "decode_valid (map of_char s) = Some (r, w)" using assms by (auto simp: DecodeRune_def split: option.splits)
  have "utf8 r = take w (map of_char s) \<and> scalar r = r" by (rule decode_valid_utf8 [OF d]) auto
  then show ?thesis by (simp add: encode_rune_utf8 take_map)
qed

text \<open>Every segment of a string is the encoding of its code point, or one byte that is no UTF-8.\<close>

lemma runes_segments:
  "(r, b) \<in> set (runes s) \<Longrightarrow> encode_rune r = b \<or> r = RuneError \<and> length b = 1"
proof (induction s rule: runes.induct)
  case (2 s)
  obtain r' w where d: "DecodeRune s = (r', w)" by fastforce
  show ?case
  proof (cases "(r, b) = (r', take w s)")
    case True
    then show ?thesis
      using encode_decoded [OF 2(1) d] 2(1) by (cases "r' = RuneError \<and> w = 1"; cases s) (auto simp: take_Cons')
  next
    case False
    then show ?thesis using 2 d by auto
  qed
qed simp

definition valid_utf8 :: "string \<Rightarrow> bool" where
  "valid_utf8 s \<longleftrightarrow> list_all (\<lambda>(r, b). \<not> (r = RuneError \<and> length b = 1)) (runes s)"

text \<open>The text with every byte that is no UTF-8 replaced by U+FFFD.\<close>

definition to_valid :: "string \<Rightarrow> string" where
  "to_valid s = map_runes id s"

lemma to_valid_id: "valid_utf8 s \<Longrightarrow> to_valid s = s"
proof -
  assume v: "valid_utf8 s"
  have "map (\<lambda>x. encode_rune (fst x)) (runes s) = map snd (runes s)"
    using v runes_segments by (fastforce simp: valid_utf8_def list_all_iff intro!: map_cong)
  then have "concat (map (\<lambda>x. encode_rune (fst x)) (runes s)) = concat (map snd (runes s))" by (rule arg_cong)
  then show ?thesis by (simp add: to_valid_def map_runes_def)
qed

end
