(* ===== verification/Awl_Dns.thy ===== *)
theory Awl_Dns
  imports Go_Net Go_Utf8
begin

text \<open>
  The resolver of \<open>src/awldns/awldns.go\<close>: the name tables built from the configuration and
  the three query handlers. The DNS library (miekg/dns) is outside: canonical names, the test
  for a domain name, the exchange with the upstream server and the truncation of a message are
  arguments. A message is the part of it this code decides.
\<close>

section \<open>Constants\<close>

definition defaultTTLSeconds :: nat where
  "defaultTTLSeconds = 60"

definition ptrV4Suffix :: string where
  "ptrV4Suffix = ''.in-addr.arpa.''"

definition LocalDomain :: string where
  "LocalDomain = ''awl''"

definition DefaultDNSAddress :: string where
  "DefaultDNSAddress = ''127.0.0.66:53''"

definition DefaultUpstreamDNSAddress :: string where
  "DefaultUpstreamDNSAddress = ''1.1.1.1:53''"

section \<open>Domain names\<close>

definition TrimDomainName :: "(nat \<Rightarrow> nat) \<Rightarrow> string \<Rightarrow> string" where
  "TrimDomainName ulower domain =
     ToLower ulower (map_runes (\<lambda>r. if IsSpace r then 95 else r) (TrimSpace domain))"

definition IsValidDomainName :: "(string \<Rightarrow> bool) \<Rightarrow> (nat \<Rightarrow> nat) \<Rightarrow> string \<Rightarrow> bool" where
  "IsValidDomainName isDomainName ulower domain \<longleftrightarrow>
     isDomainName (domain @ ''.'' @ LocalDomain) \<and> domain = TrimDomainName ulower domain"

definition ptrV4NameToIP :: "string \<Rightarrow> ip" where
  "ptrV4NameToIP name =
     (let revIp = To4 (ParseIP (TrimSuffix name ptrV4Suffix))
      in if revIp = [] then [] else [revIp ! 3, revIp ! 2, revIp ! 1, revIp ! 0])"

section \<open>The tables\<close>

record dns_config =
  dn_upstreamDNS :: string
  dn_directMapping :: "(string, string) gomap"
  dn_reverseMapping :: "(string, string) gomap"

definition receive_step :: "(string \<Rightarrow> string) \<Rightarrow> dns_config \<Rightarrow> string \<times> string \<Rightarrow> dns_config" where
  "receive_step canonicalName cfg entry =
     (case entry of (key, ip) \<Rightarrow>
        let name = canonicalName (key @ ''.'' @ LocalDomain);
            direct = gm_set (dn_directMapping cfg) name ip;
            reverse = (case gm_get (dn_reverseMapping cfg) ip of
                         None \<Rightarrow> gm_set (dn_reverseMapping cfg) ip name
                       | Some existed \<Rightarrow>
                           if length name < length existed then gm_set (dn_reverseMapping cfg) ip name
                           else dn_reverseMapping cfg)
        in cfg\<lparr>dn_directMapping := direct, dn_reverseMapping := reverse\<rparr>)"

definition ReceiveConfiguration :: "(string \<Rightarrow> string) \<Rightarrow> string \<Rightarrow> (string, string) gomap \<Rightarrow> dns_config" where
  "ReceiveConfiguration canonicalName upstreamDNS namesMapping =
     foldl (receive_step canonicalName)
       \<lparr>dn_upstreamDNS = upstreamDNS, dn_directMapping = [], dn_reverseMapping = []\<rparr> namesMapping"

text \<open>The resolver's servers and what \<open>DNSAddress\<close> says of them.\<close>

record Resolver =
  rv_cfg :: dns_config
  rv_udpServerWorking :: bool
  rv_tcpServerWorking :: bool
  rv_dnsAddress :: string

definition NewResolver :: "string \<Rightarrow> Resolver" where
  "NewResolver dnsAddress =
     \<lparr>rv_cfg = \<lparr>dn_upstreamDNS = [], dn_directMapping = [], dn_reverseMapping = []\<rparr>,
      rv_udpServerWorking = False, rv_tcpServerWorking = False, rv_dnsAddress = dnsAddress\<rparr>"

definition DNSAddress :: "Resolver \<Rightarrow> string" where
  "DNSAddress r =
     (if \<not> rv_tcpServerWorking r \<or> \<not> rv_udpServerWorking r then [] else rv_dnsAddress r)"

section \<open>The handlers\<close>

datatype qtype = TypeA | TypeAAAA | TypeANY | TypePTR | TypeOther nat

record question =
  qu_Name :: string
  qu_Qtype :: qtype

text \<open>Resource records with their name; the address of an A record may be nil.\<close>

datatype rr = ARec string ip | PTRRec string string

datatype rcode = RcodeSuccess | RcodeNameError | RcodeServerFailure

record dns_msg =
  ms_Answer :: "rr list"
  ms_Rcode :: rcode
  ms_Authoritative :: bool
  ms_RecursionAvailable :: bool

definition reply :: dns_msg where
  "reply = \<lparr>ms_Answer = [], ms_Rcode = RcodeSuccess, ms_Authoritative = False, ms_RecursionAvailable = False\<rparr>"

text \<open>
  The size limit for an own answer: the network of the local address and the size the client
  announced by EDNS are arguments.
\<close>

definition max_size :: "bool \<Rightarrow> nat option \<Rightarrow> nat" where
  "max_size tcp udpsize =
     (if tcp then 65535 else case udpsize of None \<Rightarrow> 512 | Some n \<Rightarrow> if n > 512 then n else 512)"

definition processOwnResponse ::
    "(nat \<Rightarrow> dns_msg \<Rightarrow> dns_msg) \<Rightarrow> bool \<Rightarrow> nat option \<Rightarrow> dns_msg \<Rightarrow> dns_msg" where
  "processOwnResponse trunc tcp udpsize m =
     (trunc (max_size tcp udpsize) m)\<lparr>ms_Authoritative := True, ms_RecursionAvailable := True\<rparr>"

text \<open>The body of the loop over the questions.\<close>

definition local_question :: "(nat \<Rightarrow> nat) \<Rightarrow> dns_config \<Rightarrow> dns_msg \<Rightarrow> question \<Rightarrow> dns_msg" where
  "local_question ulower cfg m q =
     (if qu_Qtype q \<in> {TypeA, TypeAAAA, TypeANY} then
        (case gm_get (dn_directMapping cfg) (ToLower ulower (qu_Name q)) of
           Some mappedIP \<Rightarrow> m\<lparr>ms_Answer := ms_Answer m @ [ARec (qu_Name q) (To4 (ParseIP mappedIP))]\<rparr>
         | None \<Rightarrow> m\<lparr>ms_Rcode := RcodeNameError, ms_Answer := ms_Answer m @ [ARec (qu_Name q) []]\<rparr>)
      else m)"

text \<open>\<open>None\<close>: no answer is written.\<close>

definition dnsLocalDomainHandler ::
    "(nat \<Rightarrow> nat) \<Rightarrow> (nat \<Rightarrow> dns_msg \<Rightarrow> dns_msg) \<Rightarrow> bool \<Rightarrow> nat option \<Rightarrow> dns_config \<Rightarrow> question list \<Rightarrow> dns_msg option" where
  "dnsLocalDomainHandler ulower trunc tcp udpsize cfg questions =
     (if questions = [] then None
      else Some (processOwnResponse trunc tcp udpsize (foldl (local_question ulower cfg) reply questions)))"

text \<open>The proxy: the upstream's answer to the request, or a server failure.\<close>

definition dnsProxyHandler :: "(string \<Rightarrow> bool \<Rightarrow> question list \<Rightarrow> dns_msg option) \<Rightarrow> bool \<Rightarrow> dns_config \<Rightarrow> question list \<Rightarrow> dns_msg" where
  "dnsProxyHandler exchange tcp cfg questions =
     (case exchange (dn_upstreamDNS cfg) tcp questions of
        None \<Rightarrow> reply\<lparr>ms_Rcode := RcodeServerFailure\<rparr>
      | Some m \<Rightarrow> m)"

definition ptrv4Handler ::
    "(string \<Rightarrow> bool \<Rightarrow> question list \<Rightarrow> dns_msg option) \<Rightarrow> (nat \<Rightarrow> dns_msg \<Rightarrow> dns_msg) \<Rightarrow> bool \<Rightarrow> nat option \<Rightarrow>
     dns_config \<Rightarrow> question list \<Rightarrow> dns_msg" where
  "ptrv4Handler exchange trunc tcp udpsize cfg questions =
     (case questions of
        [] \<Rightarrow> dnsProxyHandler exchange tcp cfg questions
      | q # _ \<Rightarrow>
          if qu_Qtype q \<noteq> TypePTR then dnsProxyHandler exchange tcp cfg questions
          else let a = ptrV4NameToIP (qu_Name q)
               in if a = [] then dnsProxyHandler exchange tcp cfg questions
                  else case gm_get (dn_reverseMapping cfg) (ip4_String a) of
                         None \<Rightarrow> dnsProxyHandler exchange tcp cfg questions
                       | Some mappedName \<Rightarrow>
                           processOwnResponse trunc tcp udpsize
                             (reply\<lparr>ms_Answer := [PTRRec (qu_Name q) mappedName]\<rparr>))"

section \<open>Trimmed names\<close>

lemma dropWhile_none: "\<forall>x \<in> set xs. \<not> P x \<Longrightarrow> dropWhile P xs = xs"
  by (cases xs) auto

lemma trim_runes_no_space: "\<forall>x \<in> set rs. \<not> IsSpace (fst x) \<Longrightarrow> trim_runes rs = rs"
  by (simp add: trim_runes_def dropWhile_none)

text \<open>
  What is used of \<open>unicode.ToLower\<close>: lower-casing twice is lower-casing once, and no space
  comes out of it.
\<close>

definition lower_ok :: "(nat \<Rightarrow> nat) \<Rightarrow> bool" where
  "lower_ok ulower \<longleftrightarrow>
     (\<forall>r. lower_rune ulower (scalar (lower_rune ulower r)) = lower_rune ulower r) \<and>
     (\<forall>r. \<not> IsSpace r \<longrightarrow> \<not> IsSpace (scalar (lower_rune ulower r)))"

definition domain_rune :: "(nat \<Rightarrow> nat) \<Rightarrow> nat \<Rightarrow> nat" where
  "domain_rune ulower r = lower_rune ulower (scalar (if IsSpace r then 95 else r))"

lemma TrimDomainName_runes:
  "TrimDomainName ulower s = concat (map encode_rune (map (domain_rune ulower \<circ> fst) (trim_runes (runes s))))"
  unfolding TrimDomainName_def ToLower_def map_runes_alt [of "\<lambda>r. if IsSpace r then 95 else r"]
    map_runes_encoded runes_TrimSpace
  by (simp add: comp_def domain_rune_def)

lemma IsSpace_scalar: "IsSpace (scalar r) \<Longrightarrow> IsSpace r"
  by (auto simp: scalar_def RuneError_def IsSpace_def split: if_splits)

lemma TrimDomainName_idem:
  assumes "lower_ok ulower"
  shows "TrimDomainName ulower (TrimDomainName ulower s) = TrimDomainName ulower s"
proof -
  let ?L = "map (domain_rune ulower \<circ> fst) (trim_runes (runes s))"
  have nosp: "\<not> IsSpace (scalar (domain_rune ulower r))" for r
  proof (cases "IsSpace r")
    case True
    then have "scalar (domain_rune ulower r) = 95" by (simp add: domain_rune_def scalar_def lower_rune_def)
    then show ?thesis by (simp add: IsSpace_def)
  next
    case False
    then have "\<not> IsSpace (scalar r)" using IsSpace_scalar by blast
    with False assms show ?thesis by (simp add: domain_rune_def lower_ok_def)
  qed
  have low: "domain_rune ulower (scalar (domain_rune ulower r)) = domain_rune ulower r" for r
    using assms nosp [of r] by (simp add: domain_rune_def [of ulower "scalar (domain_rune ulower r)"])
      (simp add: domain_rune_def lower_ok_def)
  have r: "runes (concat (map encode_rune ?L)) = map (\<lambda>r. (scalar r, encode_rune r)) ?L"
    by (rule runes_encode)
  have t: "trim_runes (runes (concat (map encode_rune ?L))) = map (\<lambda>r. (scalar r, encode_rune r)) ?L"
    unfolding r using nosp by (intro trim_runes_no_space) auto
  show ?thesis
    unfolding TrimDomainName_runes [of ulower "TrimDomainName ulower s"]
    unfolding TrimDomainName_runes [of ulower s] t by (simp add: comp_def low)
qed

section \<open>The tables\<close>

lemma receive_step_maps:
  "gm_get (dn_directMapping (receive_step can cfg (k, a))) n =
     (if n = can (k @ ''.'' @ LocalDomain) then Some a else gm_get (dn_directMapping cfg) n)"
  "dn_upstreamDNS (receive_step can cfg e) = dn_upstreamDNS cfg"
  by (simp_all add: receive_step_def Let_def gm.get_put split: prod.split)

lemma receive_fold_direct:
  assumes "inj_on (\<lambda>k. can (k @ ''.'' @ LocalDomain)) (fst ` set es)" and "distinct (map fst es)" and "(k, a) \<in> set es"
  shows "gm_get (dn_directMapping (foldl (receive_step can) cfg es)) (can (k @ ''.'' @ LocalDomain)) = Some a"
  using assms
proof (induction es rule: rev_induct)
  case (snoc e es)
  obtain j b where e: "e = (j, b)" by fastforce
  show ?case
  proof (cases "k = j")
    case True
    then have "a = b" using snoc.prems(2,3) e by force
    then show ?thesis by (simp add: e True receive_step_maps)
  next
    case False
    then have ka: "(k, a) \<in> set es" using snoc.prems(3) e by auto
    have "k \<in> fst ` set (es @ [e])" "j \<in> fst ` set (es @ [e])" using ka e by force+
    then have "can (k @ ''.'' @ LocalDomain) \<noteq> can (j @ ''.'' @ LocalDomain)"
      using inj_onD [OF snoc.prems(1)] False by blast
    moreover have "inj_on (\<lambda>k. can (k @ ''.'' @ LocalDomain)) (fst ` set es)"
      using snoc.prems(1) by (rule inj_on_subset) auto
    ultimately show ?thesis using snoc.IH ka snoc.prems(2) e by (simp add: receive_step_maps)
  qed
qed simp

text \<open>The reverse table holds, for every address, a shortest of its names.\<close>

definition reverse_ok :: "(string \<Rightarrow> string) \<Rightarrow> (string \<times> string) list \<Rightarrow> dns_config \<Rightarrow> bool" where
  "reverse_ok can es cfg \<longleftrightarrow>
     (\<forall>a. case gm_get (dn_reverseMapping cfg) a of
            None \<Rightarrow> a \<notin> snd ` set es
          | Some n \<Rightarrow> (\<exists>k. (k, a) \<in> set es \<and> n = can (k @ ''.'' @ LocalDomain)) \<and>
                      (\<forall>k. (k, a) \<in> set es \<longrightarrow> length n \<le> length (can (k @ ''.'' @ LocalDomain))))"

lemma receive_fold_reverse:
  "reverse_ok can es (foldl (receive_step can)
     \<lparr>dn_upstreamDNS = u, dn_directMapping = [], dn_reverseMapping = []\<rparr> es)"
proof (induction es rule: rev_induct)
  case Nil
  show ?case by (simp add: reverse_ok_def)
next
  case (snoc e es)
  obtain k a where e: "e = (k, a)" by fastforce
  let ?cfg = "foldl (receive_step can) \<lparr>dn_upstreamDNS = u, dn_directMapping = [], dn_reverseMapping = []\<rparr> es"
  let ?n = "can (k @ ''.'' @ LocalDomain)"
  have get: "gm_get (dn_reverseMapping (receive_step can ?cfg e)) b =
      (if b = a \<and> (case gm_get (dn_reverseMapping ?cfg) a of None \<Rightarrow> True | Some m \<Rightarrow> length ?n < length m)
       then Some ?n else gm_get (dn_reverseMapping ?cfg) b)" for b
    by (auto simp: receive_step_def e Let_def gm.get_put split: option.split)
  show ?case
    unfolding reverse_ok_def foldl_append foldl_Cons foldl_Nil
  proof
    fix b
    have ih: "case gm_get (dn_reverseMapping ?cfg) b of
            None \<Rightarrow> b \<notin> snd ` set es
          | Some n \<Rightarrow> (\<exists>k. (k, b) \<in> set es \<and> n = can (k @ ''.'' @ LocalDomain)) \<and>
                      (\<forall>k. (k, b) \<in> set es \<longrightarrow> length n \<le> length (can (k @ ''.'' @ LocalDomain)))"
      using snoc by (simp add: reverse_ok_def)
    show "case gm_get (dn_reverseMapping (receive_step can ?cfg e)) b of
            None \<Rightarrow> b \<notin> snd ` set (es @ [e])
          | Some n \<Rightarrow> (\<exists>k. (k, b) \<in> set (es @ [e]) \<and> n = can (k @ ''.'' @ LocalDomain)) \<and>
                      (\<forall>k. (k, b) \<in> set (es @ [e]) \<longrightarrow> length n \<le> length (can (k @ ''.'' @ LocalDomain)))"
      unfolding get using ih by (cases "gm_get (dn_reverseMapping ?cfg) b") (force simp: e)+
  qed
qed

lemma ptrV4NameToIP_String:
  assumes "length a = 4"
  shows "ptrV4NameToIP (ip4_String (rev a) @ ptrV4Suffix) = a"
proof -
  obtain w x y z where a: "a = [w, x, y, z]" using length4_exhaust [OF assms] by blast
  have "To4 (ParseIP (ip4_String (rev a))) = rev a" using assms by simp
  then show ?thesis by (simp add: ptrV4NameToIP_def a)
qed

lemma reverse_okD:
  assumes "reverse_ok can es cfg" and "(k, a) \<in> set es"
  shows "\<exists>n j. gm_get (dn_reverseMapping cfg) a = Some n \<and> (j, a) \<in> set es \<and>
     n = can (j @ ''.'' @ LocalDomain) \<and> length n \<le> length (can (k @ ''.'' @ LocalDomain))"
proof -
  have "case gm_get (dn_reverseMapping cfg) a of
            None \<Rightarrow> a \<notin> snd ` set es
          | Some n \<Rightarrow> (\<exists>k. (k, a) \<in> set es \<and> n = can (k @ ''.'' @ LocalDomain)) \<and>
                      (\<forall>k. (k, a) \<in> set es \<longrightarrow> length n \<le> length (can (k @ ''.'' @ LocalDomain)))"
    using assms(1) unfolding reverse_ok_def by blast
  then show ?thesis using assms(2) by (cases "gm_get (dn_reverseMapping cfg) a") force+
qed

text \<open>
  The mappings the resolver represents faithfully: distinct names that stay distinct as
  canonical names; and what a configured resolver finds for a name.
\<close>

definition names_ok :: "(string \<Rightarrow> string) \<Rightarrow> (string, string) gomap \<Rightarrow> bool" where
  "names_ok can names \<longleftrightarrow> gm_wf names \<and> inj_on (\<lambda>k. can (k @ ''.'' @ LocalDomain)) (fst ` set names)"

definition lookup :: "(string \<Rightarrow> string) \<Rightarrow> dns_config \<Rightarrow> string \<Rightarrow> string option" where
  "lookup can cfg k = gm_get (dn_directMapping cfg) (can (k @ ''.'' @ LocalDomain))"

lemma names_okI:
  "gm_wf names \<Longrightarrow> inj_on (\<lambda>k. can (k @ ''.'' @ LocalDomain)) (fst ` set names) \<Longrightarrow> names_ok can names"
  by (simp add: names_ok_def)

lemma lookup_name:
  assumes "names_ok can names" and "gm_get names key = Some addr"
  shows "gm_get (dn_directMapping (ReceiveConfiguration can upstream names)) (can (key @ ''.'' @ LocalDomain)) = Some addr"
proof -
  have "(key, addr) \<in> set names" using assms(2) by (rule gm_get_Some_in)
  then show ?thesis
    unfolding ReceiveConfiguration_def
    using assms(1) by (intro receive_fold_direct) (auto simp: gm_wf_def names_ok_def)
qed

text \<open>
  The contract of a name service: what is configured is found. Its client configures it with
  a mapping built from entries; a name all of whose entries agree is then resolved to their
  address.
\<close>

definition put_all :: "(string \<times> string) list \<Rightarrow> (string, string) gomap" where
  "put_all es = foldl (\<lambda>m (k, a). gm_set m k a) [] es"

lemma foldl_put:
  assumes "\<And>b. (k, b) \<in> set es \<Longrightarrow> b = a"
  shows "gm_get (foldl (\<lambda>m (k, a). gm_set m k a) m es) k = (if k \<in> fst ` set es then Some a else gm_get m k)"
  using assms
proof (induction es arbitrary: m)
  case (Cons e es)
  obtain j b where e: "e = (j, b)" by fastforce
  have "gm_get (foldl (\<lambda>m (k, a). gm_set m k a) (gm_set m j b) es) k =
      (if k \<in> fst ` set es then Some a else gm_get (gm_set m j b) k)"
    by (rule Cons.IH) (use Cons.prems in auto)
  moreover have "j = k \<Longrightarrow> b = a" using Cons.prems [of b] e by simp
  ultimately show ?case using e by (auto simp: gm.get_put)
qed simp

lemma put_all_wf: "gm_wf (put_all es)"
proof -
  have "gm_wf m \<Longrightarrow> gm_wf (foldl (\<lambda>m (k, a). gm_set m k a) m es)" for m
    by (induction es arbitrary: m) (auto simp: gm.wf_put)
  then show ?thesis by (simp add: put_all_def)
qed

locale name_service =
  fixes configure :: "(string, string) gomap \<Rightarrow> 'cfg"
    and find_name :: "'cfg \<Rightarrow> string \<Rightarrow> string option"
    and ok :: "(string, string) gomap \<Rightarrow> bool"
  assumes found: "ok m \<Longrightarrow> gm_get m k = Some a \<Longrightarrow> find_name (configure m) k = Some a"
begin

lemma entry_found:
  assumes "ok (put_all es)" and "(k, a) \<in> set es" and "\<And>b. (k, b) \<in> set es \<Longrightarrow> b = a"
  shows "find_name (configure (put_all es)) k = Some a"
proof (rule found [OF assms(1)])
  have "k \<in> fst ` set es" using assms(2) by force
  with foldl_put [of k es a "[]"] assms(3) show "gm_get (put_all es) k = Some a" by (simp add: put_all_def)
qed

end

interpretation awl_names: name_service "ReceiveConfiguration can upstream" "lookup can" "names_ok can"
  for can upstream
  by unfold_locales (unfold lookup_def, rule lookup_name)

section \<open>Properties\<close>

text \<open>
  A name made by \<open>TrimDomainName\<close> is stable under it, so the name the program gives a new
  peer passes \<open>IsValidDomainName\<close> exactly when the DNS library takes it for a domain name.
\<close>

theorem trimmed_name_valid:
  assumes "lower_ok ulower"
  shows "IsValidDomainName isDomainName ulower (TrimDomainName ulower s) \<longleftrightarrow>
     isDomainName (TrimDomainName ulower s @ ''.'' @ LocalDomain)"
  using TrimDomainName_idem [OF assms, of s] by (simp add: IsValidDomainName_def)

text \<open>Lower-casing ASCII and folding what is no scalar value: an instance for the witness.\<close>

lemma lower_ok_scalar: "lower_ok scalar"
proof -
  have "lower_rune scalar (scalar (lower_rune scalar r)) = lower_rune scalar r" for r
    by (auto simp: lower_rune_def scalar_def RuneError_def)
  moreover have "\<not> IsSpace (scalar (lower_rune scalar r))" if "\<not> IsSpace r" for r
    using that IsSpace_scalar [of r] by (auto simp: lower_rune_def) (auto simp: IsSpace_def scalar_def)
  ultimately show ?thesis by (simp add: lower_ok_def)
qed

theorem trimmed_name_valid_witness:
  "TrimDomainName scalar '' My Phone '' = ''my_phone'' \<and>
   IsValidDomainName (\<lambda>s. length s < 64) scalar (TrimDomainName scalar '' My Phone '')"
proof -
  have "TrimDomainName scalar '' My Phone '' = ''my_phone''" by code_simp
  then show ?thesis
    using trimmed_name_valid [OF lower_ok_scalar, of "\<lambda>s. length s < 64" "'' My Phone ''"]
    by (simp add: LocalDomain_def)
qed

text \<open>
  A question of type A, AAAA or ANY for a known name, in any case, is answered with one A
  record: the name as asked and the IPv4 address of that name's mapping.
\<close>

theorem local_domain_answers:
  assumes "gm_wf names" and "gm_get names key = Some addr"
    and "inj_on (\<lambda>k. canonicalName (k @ ''.'' @ LocalDomain)) (fst ` set names)"
    and "ToLower ulower hostname = canonicalName (key @ ''.'' @ LocalDomain)"
    and "qt \<in> {TypeA, TypeAAAA, TypeANY}"
  shows "dnsLocalDomainHandler ulower trunc tcp udpsize (ReceiveConfiguration canonicalName upstream names)
       [\<lparr>qu_Name = hostname, qu_Qtype = qt\<rparr>] =
     Some (processOwnResponse trunc tcp udpsize
       \<lparr>ms_Answer = [ARec hostname (To4 (ParseIP addr))], ms_Rcode = RcodeSuccess,
        ms_Authoritative = False, ms_RecursionAvailable = False\<rparr>)"
  using lookup_name [OF names_okI [OF assms(1,3)] assms(2), of upstream] assms(4,5)
  by (simp add: dnsLocalDomainHandler_def local_question_def reply_def)

definition sample_names :: "(string, string) gomap" where
  "sample_names = [(''Laptop'', ''10.66.0.2''), (''QmPeer'', ''10.66.0.2'')]"

definition sample_canonical :: "string \<Rightarrow> string" where
  "sample_canonical s = ToLower id s @ ''.''"

theorem local_domain_answers_witness:
  "dnsLocalDomainHandler id (\<lambda>n m. m) False None (ReceiveConfiguration sample_canonical ''u'' sample_names)
       [\<lparr>qu_Name = ''LAPTOP.awl.'', qu_Qtype = TypeA\<rparr>] =
     Some (processOwnResponse (\<lambda>n m. m) False None
       \<lparr>ms_Answer = [ARec ''LAPTOP.awl.'' [10, 66, 0, 2]], ms_Rcode = RcodeSuccess,
        ms_Authoritative = False, ms_RecursionAvailable = False\<rparr>)"
proof -
  have ip: "To4 (ParseIP ''10.66.0.2'') = [10, 66, 0, 2]" by code_simp
  have can: "sample_canonical ''Laptop.awl'' \<noteq> sample_canonical ''QmPeer.awl''"
    "ToLower id ''LAPTOP.awl.'' = sample_canonical ''Laptop.awl''" by code_simp+
  show ?thesis
    using local_domain_answers [of sample_names "''Laptop''" "''10.66.0.2''" sample_canonical id
        "''LAPTOP.awl.''" TypeA "\<lambda>n m. m" False None "''u''"] ip can
    by (simp add: sample_names_def gm_wf_def gm_get_def LocalDomain_def inj_on_def)
qed

text \<open>
  A reverse query for the address of a known name is answered with one of the names of that
  address, and none of its names is shorter.
\<close>

theorem ptr_answers_shortest:
  assumes "length a = 4" and "(key, ip4_String a) \<in> set names"
  shows "\<exists>k. (k, ip4_String a) \<in> set names \<and>
     ptrv4Handler exchange trunc tcp udpsize (ReceiveConfiguration canonicalName upstream names)
       [\<lparr>qu_Name = ip4_String (rev a) @ ptrV4Suffix, qu_Qtype = TypePTR\<rparr>] =
     processOwnResponse trunc tcp udpsize
       (reply\<lparr>ms_Answer := [PTRRec (ip4_String (rev a) @ ptrV4Suffix) (canonicalName (k @ ''.'' @ LocalDomain))]\<rparr>) \<and>
     length (canonicalName (k @ ''.'' @ LocalDomain)) \<le> length (canonicalName (key @ ''.'' @ LocalDomain))"
proof -
  let ?cfg = "ReceiveConfiguration canonicalName upstream names"
  have ok: "reverse_ok canonicalName names ?cfg"
    unfolding ReceiveConfiguration_def by (rule receive_fold_reverse)
  obtain n k where n: "gm_get (dn_reverseMapping ?cfg) (ip4_String a) = Some n"
    and k: "(k, ip4_String a) \<in> set names" "n = canonicalName (k @ ''.'' @ LocalDomain)"
      "length n \<le> length (canonicalName (key @ ''.'' @ LocalDomain))"
    using reverse_okD [OF ok assms(2)] by blast
  have "a \<noteq> []" using assms(1) by auto
  with n k assms show ?thesis by (auto simp: ptrv4Handler_def ptrV4NameToIP_String Let_def)
qed

theorem ptr_answers_shortest_witness:
  "\<exists>k. (k, ''10.66.0.2'') \<in> set sample_names \<and>
     ptrv4Handler (\<lambda>_ _ _. None) (\<lambda>n m. m) False None (ReceiveConfiguration sample_canonical ''u'' sample_names)
       [\<lparr>qu_Name = ip4_String (rev [10, 66, 0, 2]) @ ptrV4Suffix, qu_Qtype = TypePTR\<rparr>] =
     processOwnResponse (\<lambda>n m. m) False None
       (reply\<lparr>ms_Answer := [PTRRec (ip4_String (rev [10, 66, 0, 2]) @ ptrV4Suffix) (sample_canonical (k @ ''.'' @ LocalDomain))]\<rparr>)"
proof -
  have s: "ip4_String [10, 66, 0, 2] = ''10.66.0.2''" by code_simp
  have "(''Laptop'', ip4_String [10, 66, 0, 2]) \<in> set sample_names" unfolding s by (simp add: sample_names_def)
  from ptr_answers_shortest [OF _ this, of "\<lambda>_ _ _. None" "\<lambda>n m. m" False None sample_canonical "''u''"] show ?thesis
    unfolding s by (simp del: rev.simps) blast
qed

text \<open>
  The answer for an unknown name is a name error that still carries an A record, with no
  address in it.
\<close>

theorem unknown_name_has_empty_record:
  "dnsLocalDomainHandler ulower trunc tcp udpsize (ReceiveConfiguration canonicalName upstream [])
       [\<lparr>qu_Name = hostname, qu_Qtype = TypeA\<rparr>] =
     Some (processOwnResponse trunc tcp udpsize
       \<lparr>ms_Answer = [ARec hostname []], ms_Rcode = RcodeNameError,
        ms_Authoritative = False, ms_RecursionAvailable = False\<rparr>)"
  by (simp add: dnsLocalDomainHandler_def local_question_def reply_def ReceiveConfiguration_def)

end
