(* ===== verification/Auth_Status.thy ===== *)
theory Auth_Status
  imports Net_Addr Awl_Dns
begin

text \<open>
  The auth and status exchanges of \<open>src/service/auth_status.go\<close>. A handler reads the
  configuration, talks to the remote peer and writes the configuration back; what the network
  answers is an argument, and so is \<open>mid\<close>, what other goroutines do to the state while the
  handler waits for the network. A goroutine the code spawns is a task in the result.
\<close>

section \<open>State\<close>

text \<open>
  Peer IDs are libp2p's: printing and decoding them, and \<open>unicode.ToLower\<close> outside ASCII, are
  the fields of \<open>externals\<close>.
\<close>

record externals =
  x_String :: "string \<Rightarrow> string"
  x_Decode :: "string \<Rightarrow> string option"
  x_ulower :: "nat \<Rightarrow> nat"

record AuthStatus =
  as_ingoingAuths :: "(string, AuthPeer) gomap"
  as_outgoingAuths :: "(string, AuthPeer) gomap"
  as_conf :: conf_state

abbreviation as_c :: "AuthStatus \<Rightarrow> Config" where
  "as_c s \<equiv> cs_conf (as_conf s)"

datatype task =
  TaskExchange string KnownPeer
| TaskAfterAdd string bool
| TaskConnected string "AuthPeer option" "KnownPeer option"

definition zero_PeerStatusInfo :: PeerStatusInfo where
  "zero_PeerStatusInfo =
     \<lparr>psi_Name = [], psi_Declined = False, psi_AllowUsingAsExitNode = False, psi_UsingPeerID = []\<rparr>"

definition restoreOutgoingAuths :: "externals \<Rightarrow> AuthStatus \<Rightarrow> AuthStatus" where
  "restoreOutgoingAuths x s =
     s\<lparr>as_outgoingAuths :=
        foldl (\<lambda>m p. if \<not> kp_Confirmed p \<and> \<not> kp_Declined p
                     then gm_set m (PeerId (x_Decode x) p) \<lparr>ap_Name = pn_Name (c_P2pNode (as_c s))\<rparr> else m)
          [] (gm_vals (c_KnownPeers (as_c s)))\<rparr>"

definition NewAuthStatus :: "externals \<Rightarrow> conf_state \<Rightarrow> AuthStatus" where
  "NewAuthStatus x cs =
     restoreOutgoingAuths x \<lparr>as_ingoingAuths = [], as_outgoingAuths = [], as_conf = cs\<rparr>"

section \<open>Status exchange\<close>

definition createPeerInfo :: "Config \<Rightarrow> KnownPeer \<Rightarrow> string \<Rightarrow> bool \<Rightarrow> PeerStatusInfo" where
  "createPeerInfo c peer myPeerName declined =
     (if declined then zero_PeerStatusInfo\<lparr>psi_Declined := True\<rparr>
      else \<lparr>psi_Name = myPeerName, psi_Declined = False,
            psi_AllowUsingAsExitNode = kp_WeAllowUsingAsExitNode peer,
            psi_UsingPeerID = sc_UsingPeerID (c_SOCKS5 c)\<rparr>)"

definition set_using :: "string \<Rightarrow> conf_state \<Rightarrow> conf_state" where
  "set_using i cs = cs\<lparr>cs_conf := (cs_conf cs)\<lparr>c_SOCKS5 := (c_SOCKS5 (cs_conf cs))\<lparr>sc_UsingPeerID := i\<rparr>\<rparr>\<rparr>"

definition using_of :: "conf_state \<Rightarrow> string" where
  "using_of cs = sc_UsingPeerID (c_SOCKS5 (cs_conf cs))"

text \<open>The peer as it is stored for an answer that is not a refusal.\<close>

definition confirmed_peer :: "externals \<Rightarrow> nat \<Rightarrow> Config \<Rightarrow> KnownPeer \<Rightarrow> PeerStatusInfo \<Rightarrow> KnownPeer" where
  "confirmed_peer x now c peer info =
     (let p1 = peer\<lparr>kp_LastSeen := now, kp_Name := psi_Name info, kp_Confirmed := True, kp_Declined := False\<rparr>;
          p2 = (if kp_DomainName p1 = [] then p1\<lparr>kp_DomainName := TrimDomainName (x_ulower x) (DisplayName p1)\<rparr> else p1);
          p3 = (if kp_Alias p2 = [] then p2\<lparr>kp_Alias := GenUniqPeerAlias c (kp_Name p2) (kp_Alias p2)\<rparr> else p2)
      in p3\<lparr>kp_AllowedUsingAsExitNode := psi_AllowUsingAsExitNode info,
            kp_ReportedUsingPeerID := psi_UsingPeerID info\<rparr>)"

definition processPeerStatusInfo ::
    "externals \<Rightarrow> nat \<Rightarrow> KnownPeer \<Rightarrow> PeerStatusInfo \<Rightarrow> conf_state \<Rightarrow> conf_state" where
  "processPeerStatusInfo x now peer info cs =
     (if psi_Declined info then
        let p = peer\<lparr>kp_LastSeen := now, kp_Declined := True\<rparr>;
            cs1 = UpsertPeer p cs
        in if using_of cs1 = kp_PeerID p then set_using [] cs1 else cs1
      else
        let p = confirmed_peer x now (cs_conf cs) peer info;
            cs1 = UpsertPeer p cs;
            cs2 = (if kp_AllowedUsingAsExitNode p \<and> using_of cs1 = [] then set_using (kp_PeerID p) cs1 else cs1)
        in if \<not> kp_AllowedUsingAsExitNode p \<and> using_of cs2 = kp_PeerID p then set_using [] cs2 else cs2)"

definition del_outgoing :: "string \<Rightarrow> AuthStatus \<Rightarrow> AuthStatus" where
  "del_outgoing i s = s\<lparr>as_outgoingAuths := gm_del (as_outgoingAuths s) i\<rparr>"

definition del_ingoing :: "string \<Rightarrow> AuthStatus \<Rightarrow> AuthStatus" where
  "del_ingoing i s = s\<lparr>as_ingoingAuths := gm_del (as_ingoingAuths s) i\<rparr>"

text \<open>Reload the peer (the zero value when it is gone) and store what it reported.\<close>

definition reload_and_process :: "externals \<Rightarrow> nat \<Rightarrow> string \<Rightarrow> PeerStatusInfo \<Rightarrow> AuthStatus \<Rightarrow> AuthStatus" where
  "reload_and_process x now peerID info s =
     s\<lparr>as_conf := processPeerStatusInfo x now
         (case GetPeer (as_c s) peerID of None \<Rightarrow> zero_KnownPeer | Some p \<Rightarrow> p) info (as_conf s)\<rparr>"

text \<open>
  The handler: \<open>received\<close> is what arrives (\<open>None\<close> an error); the result has the answer
  sent, if the handler gets that far. A failed send of the answer is only logged.
\<close>

definition StatusStreamHandler ::
    "externals \<Rightarrow> nat \<Rightarrow> (AuthStatus \<Rightarrow> AuthStatus) \<Rightarrow> PeerStatusInfo option \<Rightarrow> string \<Rightarrow> AuthStatus \<Rightarrow>
     PeerStatusInfo option \<times> AuthStatus" where
  "StatusStreamHandler x now mid received remotePeer s =
     (let peerID = x_String x remotePeer;
          known = GetPeer (as_c s) peerID;
          isBlocked = (GetBlockedPeer (as_c s) peerID \<noteq> None)
      in if known = None \<and> \<not> isBlocked then (None, s)
         else case received of
           None \<Rightarrow> (None, mid s)
         | Some oppositePeerInfo \<Rightarrow>
             let s1 = del_outgoing remotePeer (mid s);
                 myPeerInfo = createPeerInfo (as_c s1) (case known of None \<Rightarrow> zero_KnownPeer | Some p \<Rightarrow> p)
                                (pn_Name (c_P2pNode (as_c s1))) isBlocked
             in if isBlocked then (Some myPeerInfo, s1)
                else (Some myPeerInfo, reload_and_process x now peerID oppositePeerInfo s1))"

datatype exch_error = ConnectFailed | NewStreamFailed | SendFailed | ReceiveFailed

record exch_env =
  xe_connectOk :: bool
  xe_streamOk :: bool
  xe_sendOk :: bool
  xe_received :: "PeerStatusInfo option"

definition ExchangeNewStatusInfo ::
    "externals \<Rightarrow> nat \<Rightarrow> exch_env \<Rightarrow> (AuthStatus \<Rightarrow> AuthStatus) \<Rightarrow> (AuthStatus \<Rightarrow> AuthStatus) \<Rightarrow> string \<Rightarrow> KnownPeer \<Rightarrow>
     AuthStatus \<Rightarrow> exch_error option \<times> PeerStatusInfo option \<times> AuthStatus" where
  "ExchangeNewStatusInfo x now e mid1 mid2 remotePeerID knownPeer s =
     (let s2 = mid1 (del_ingoing remotePeerID s)
      in if \<not> xe_connectOk e then (Some ConnectFailed, None, s2)
         else if \<not> xe_streamOk e then (Some NewStreamFailed, None, s2)
         else
           let peerID = x_String x remotePeerID;
               isBlocked = (GetBlockedPeer (as_c s2) peerID \<noteq> None);
               myPeerInfo = createPeerInfo (as_c s2) knownPeer (pn_Name (c_P2pNode (as_c s2))) isBlocked
           in if \<not> xe_sendOk e then (Some SendFailed, None, s2)
              else case xe_received e of
                None \<Rightarrow> (Some ReceiveFailed, Some myPeerInfo, mid2 s2)
              | Some oppositePeerInfo \<Rightarrow>
                  let s3 = mid2 s2
                  in if isBlocked then (None, Some myPeerInfo, s3)
                     else (None, Some myPeerInfo, reload_and_process x now peerID oppositePeerInfo s3))"

definition BlockPeer :: "externals \<Rightarrow> nat \<Rightarrow> string \<Rightarrow> string \<Rightarrow> AuthStatus \<Rightarrow> task list \<times> AuthStatus" where
  "BlockPeer x now peerID name s =
     ([TaskExchange peerID zero_KnownPeer],
      s\<lparr>as_conf := UpsertBlockedPeer now (x_String x peerID) name (as_conf s)\<rparr>)"

section \<open>Adding a peer\<close>

datatype add_error = AlreadyAdded | AliasNotUnique | BadIP ip_error

text \<open>\<open>None\<close> is a panic of the address functions.\<close>

definition AddPeer ::
    "externals \<Rightarrow> nat \<Rightarrow> string \<Rightarrow> string \<Rightarrow> string \<Rightarrow> bool \<Rightarrow> string \<Rightarrow> AuthStatus \<Rightarrow>
     ((add_error + task list) \<times> AuthStatus) option" where
  "AddPeer x now peerID name alias0 confirmed ipAddr s =
     (let peerIDStr = x_String x peerID; c = as_c s
      in if GetPeer c peerIDStr \<noteq> None then Some (Inl AlreadyAdded, s)
         else let al = TrimSpace alias0
         in if \<not> IsUniqPeerAlias c [] al then Some (Inl AliasNotUnique, s)
            else
              let addr = (if ipAddr \<noteq> []
                          then (case CheckIPUnique c ipAddr peerIDStr of
                                  CheckPanic \<Rightarrow> None
                                | CheckErr e \<Rightarrow> Some (Inl e)
                                | CheckOk \<Rightarrow> Some (Inr ipAddr))
                          else map_option Inr (GenerateNextIpAddr c))
              in case addr of
                   None \<Rightarrow> None
                 | Some (Inl e) \<Rightarrow> Some (Inl (BadIP e), s)
                 | Some (Inr a) \<Rightarrow>
                     let p = zero_KnownPeer\<lparr>kp_PeerID := peerIDStr, kp_Name := name, kp_Alias := al, kp_IPAddr := a,
                               kp_Confirmed := confirmed, kp_CreatedAt := now\<rparr>;
                         p' = p\<lparr>kp_DomainName := TrimDomainName (x_ulower x) (DisplayName p)\<rparr>
                     in Some (Inr [TaskAfterAdd peerID confirmed],
                          s\<lparr>as_conf := UpsertPeer p' (RemoveBlockedPeer peerIDStr (as_conf s))\<rparr>))"

section \<open>Auth requests\<close>

text \<open>
  The handler of an auth request: the answer, if it could be sent, and the outcome of the
  automatic acceptance, which runs after the answer whether that was sent or not.
\<close>

definition AuthStreamHandler ::
    "externals \<Rightarrow> nat \<Rightarrow> AuthPeer option \<Rightarrow> string \<Rightarrow> AuthStatus \<Rightarrow>
     (AuthPeerResponse option \<times> task list \<times> AuthStatus) option" where
  "AuthStreamHandler x now received remotePeer s =
     (case received of
        None \<Rightarrow> Some (None, [], s)
      | Some authPeer \<Rightarrow>
          let peerID = x_String x remotePeer;
              isBlocked = (GetBlockedPeer (as_c s) peerID \<noteq> None);
              confirmed = (GetPeer (as_c s) peerID \<noteq> None);
              autoAccept = pn_AutoAcceptAuthRequests (c_P2pNode (as_c s));
              resp = \<lparr>apr_Confirmed = confirmed, apr_Declined = isBlocked\<rparr>
          in if \<not> confirmed \<and> \<not> isBlocked \<and> \<not> autoAccept
             then Some (Some resp, [],
                    s\<lparr>as_ingoingAuths := gm_set (as_ingoingAuths s) remotePeer authPeer,
                      as_conf := emit (ReceivedAuthRequest authPeer peerID) (as_conf s)\<rparr>)
             else if \<not> confirmed \<and> \<not> isBlocked \<and> autoAccept
             then map_option (\<lambda>(r, s'). (Some resp, (case r of Inl _ \<Rightarrow> [] | Inr ts \<Rightarrow> ts), s'))
                    (AddPeer x now remotePeer (ap_Name authPeer)
                       (GenUniqPeerAlias (as_c s) (ap_Name authPeer) []) True [] s)
             else Some (Some resp, [], s))"

record auth_env =
  ae_connectOk :: bool
  ae_streamOk :: bool
  ae_sendOk :: bool
  ae_received :: "AuthPeerResponse option"

definition SendAuthRequest ::
    "externals \<Rightarrow> auth_env \<Rightarrow> (AuthStatus \<Rightarrow> AuthStatus) \<Rightarrow> string \<Rightarrow> AuthPeer \<Rightarrow> AuthStatus \<Rightarrow>
     exch_error option \<times> AuthStatus" where
  "SendAuthRequest x e mid peerID req s =
     (let s2 = mid (s\<lparr>as_outgoingAuths := gm_set (as_outgoingAuths s) peerID req\<rparr>)
      in if \<not> ae_connectOk e then (Some ConnectFailed, s2)
         else if \<not> ae_streamOk e then (Some NewStreamFailed, s2)
         else if \<not> ae_sendOk e then (Some SendFailed, s2)
         else case ae_received e of
           None \<Rightarrow> (Some ReceiveFailed, s2)
         | Some resp \<Rightarrow>
             let s3 = (if apr_Confirmed resp \<or> apr_Declined resp then del_outgoing peerID s2 else s2)
             in if apr_Declined resp
                then (case GetPeer (as_c s3) (x_String x peerID) of
                        None \<Rightarrow> (None, s3)
                      | Some p \<Rightarrow> (None, s3\<lparr>as_conf := UpsertPeer (p\<lparr>kp_Declined := True\<rparr>) (as_conf s3)\<rparr>))
                else (None, s3))"

section \<open>Background work and events\<close>

text \<open>One round with every known peer; \<open>env\<close> gives the network's answers for a peer.\<close>

fun exchange_all :: "externals \<Rightarrow> nat \<Rightarrow> (string \<Rightarrow> exch_env) \<Rightarrow> string list \<Rightarrow> AuthStatus \<Rightarrow> AuthStatus" where
  "exchange_all x now env [] s = s"
| "exchange_all x now env (peerID # rest) s =
     (case GetPeer (as_c s) peerID of
        None \<Rightarrow> exchange_all x now env rest s
      | Some knownPeer \<Rightarrow>
          exchange_all x now env rest
            (snd (snd (ExchangeNewStatusInfo x now (env peerID) id id (PeerId (x_Decode x) knownPeer) knownPeer s))))"

definition ExchangeStatusInfoWithAllKnownPeers ::
    "externals \<Rightarrow> nat \<Rightarrow> (string \<Rightarrow> exch_env) \<Rightarrow> AuthStatus \<Rightarrow> AuthStatus" where
  "ExchangeStatusInfoWithAllKnownPeers x now env s = exchange_all x now env (map fst (c_KnownPeers (as_c s))) s"

definition retry_auth_requests :: "externals \<Rightarrow> (string \<Rightarrow> auth_env) \<Rightarrow> AuthStatus \<Rightarrow> AuthStatus" where
  "retry_auth_requests x env s =
     foldl (\<lambda>s (peerID, auth). snd (SendAuthRequest x (env peerID) id peerID auth s)) s (as_outgoingAuths s)"

definition GetIngoingAuthRequests :: "externals \<Rightarrow> AuthStatus \<Rightarrow> (string, AuthPeer) gomap" where
  "GetIngoingAuthRequests x s =
     foldl (\<lambda>m (i, a). gm_set m (x_String x i) a) [] (as_ingoingAuths s)"

definition GetAuthRequestCounts :: "AuthStatus \<Rightarrow> nat \<times> nat" where
  "GetAuthRequestCounts s = (length (as_ingoingAuths s), length (as_outgoingAuths s))"

definition onPeerConnected :: "externals \<Rightarrow> nat \<Rightarrow> string \<Rightarrow> AuthStatus \<Rightarrow> task list \<times> AuthStatus" where
  "onPeerConnected x now peerID s =
     (let auth = gm_get (as_outgoingAuths s) peerID;
          known = GetPeer (as_c s) (x_String x peerID)
      in if known = None \<and> auth = None then ([], s)
         else ([TaskConnected peerID auth known],
               s\<lparr>as_conf := UpdatePeerLastSeen now (x_String x peerID) (as_conf s)\<rparr>))"

definition onPeerDisconnected :: "externals \<Rightarrow> nat \<Rightarrow> string \<Rightarrow> AuthStatus \<Rightarrow> AuthStatus" where
  "onPeerDisconnected x now peerID s =
     (if GetPeer (as_c s) (x_String x peerID) = None then s
      else s\<lparr>as_conf := UpdatePeerLastSeen now (x_String x peerID) (as_conf s)\<rparr>)"

text \<open>The bodies of the spawned goroutines.\<close>

definition run_task :: "externals \<Rightarrow> nat \<Rightarrow> auth_env \<Rightarrow> exch_env \<Rightarrow> task \<Rightarrow> AuthStatus \<Rightarrow> AuthStatus" where
  "run_task x now ae xe t s =
     (case t of
        TaskExchange peerID p \<Rightarrow> snd (snd (ExchangeNewStatusInfo x now xe id id peerID p s))
      | TaskAfterAdd peerID confirmed \<Rightarrow>
          let s1 = (if confirmed then s
                    else snd (SendAuthRequest x ae id peerID \<lparr>ap_Name = pn_Name (c_P2pNode (as_c s))\<rparr> s));
              p = (case GetPeer (as_c s1) (x_String x peerID) of None \<Rightarrow> zero_KnownPeer | Some p \<Rightarrow> p)
          in snd (snd (ExchangeNewStatusInfo x now xe id id peerID p s1))
      | TaskConnected peerID auth known \<Rightarrow>
          let s1 = (case auth of None \<Rightarrow> s | Some a \<Rightarrow> snd (SendAuthRequest x ae id peerID a s))
          in case known of
               None \<Rightarrow> s1
             | Some p \<Rightarrow> snd (snd (ExchangeNewStatusInfo x now xe id id peerID p s1)))"

section \<open>What an exchange stores\<close>

definition stored_peer :: "externals \<Rightarrow> nat \<Rightarrow> Config \<Rightarrow> KnownPeer \<Rightarrow> PeerStatusInfo \<Rightarrow> KnownPeer" where
  "stored_peer x now c peer info =
     (if psi_Declined info then peer\<lparr>kp_LastSeen := now, kp_Declined := True\<rparr>
      else confirmed_peer x now c peer info)"

definition new_using :: "KnownPeer \<Rightarrow> bool \<Rightarrow> string \<Rightarrow> string" where
  "new_using p declined u =
     (if declined then (if u = kp_PeerID p then [] else u)
      else if kp_AllowedUsingAsExitNode p then (if u = [] then kp_PeerID p else u)
      else if u = kp_PeerID p then [] else u)"

lemma confirmed_peer_fields [simp]:
  "kp_PeerID (confirmed_peer x now c p info) = kp_PeerID p"
  "kp_IPAddr (confirmed_peer x now c p info) = kp_IPAddr p"
  "kp_WeAllowUsingAsExitNode (confirmed_peer x now c p info) = kp_WeAllowUsingAsExitNode p"
  "kp_Name (confirmed_peer x now c p info) = psi_Name info"
  "kp_Confirmed (confirmed_peer x now c p info)" "\<not> kp_Declined (confirmed_peer x now c p info)"
  "kp_AllowedUsingAsExitNode (confirmed_peer x now c p info) = psi_AllowUsingAsExitNode info"
  "kp_ReportedUsingPeerID (confirmed_peer x now c p info) = psi_UsingPeerID info"
  "kp_Alias p \<noteq> [] \<Longrightarrow> kp_Alias (confirmed_peer x now c p info) = kp_Alias p"
  "kp_Alias p = [] \<Longrightarrow> kp_Alias (confirmed_peer x now c p info) = GenUniqPeerAlias c (psi_Name info) []"
  by (simp_all add: confirmed_peer_def Let_def)

lemma stored_peer_ID [simp]: "kp_PeerID (stored_peer x now c p info) = kp_PeerID p"
  by (simp add: stored_peer_def)

lemma conf_set_using [simp]:
  "cs_conf (set_using i cs) = (cs_conf cs)\<lparr>c_SOCKS5 := (c_SOCKS5 (cs_conf cs))\<lparr>sc_UsingPeerID := i\<rparr>\<rparr>"
  by (simp add: set_using_def)

lemma process_conf:
  "cs_conf (processPeerStatusInfo x now peer info cs) =
     (let c = cs_conf cs; p = stored_peer x now c peer info
      in c\<lparr>c_KnownPeers := gm_set (c_KnownPeers c) (kp_PeerID peer) p,
           c_SOCKS5 := (c_SOCKS5 c)\<lparr>sc_UsingPeerID := new_using p (psi_Declined info) (sc_UsingPeerID (c_SOCKS5 c))\<rparr>\<rparr>)"
  by (simp add: processPeerStatusInfo_def stored_peer_def new_using_def using_of_def Let_def)

section \<open>The invariant of the configuration\<close>

text \<open>The exit node in use is a known peer that allows it.\<close>

definition using_ok :: "Config \<Rightarrow> bool" where
  "using_ok c \<longleftrightarrow> sc_UsingPeerID (c_SOCKS5 c) = [] \<or>
     (case GetPeer c (sc_UsingPeerID (c_SOCKS5 c)) of None \<Rightarrow> False | Some p \<Rightarrow> kp_AllowedUsingAsExitNode p)"

definition no_phantom :: "Config \<Rightarrow> bool" where
  "no_phantom c \<longleftrightarrow> GetPeer c [] = None"

definition auth_inv :: "AuthStatus \<Rightarrow> bool" where
  "auth_inv s \<longleftrightarrow> conf_wf (as_c s) \<and> no_phantom (as_c s) \<and> using_ok (as_c s)"

lemma conf_wf_SOCKS5 [simp]: "conf_wf (c\<lparr>c_SOCKS5 := y\<rparr>) = conf_wf c"
  by (simp add: conf_wf_def peers_wf_def alias_wf_def)

lemma GetPeer_SOCKS5 [simp]: "GetPeer (c\<lparr>c_SOCKS5 := y\<rparr>) = GetPeer c"
  by (simp add: GetPeer_def fun_eq_iff)

lemma GetPeer_set:
  "GetPeer (c\<lparr>c_KnownPeers := gm_set (c_KnownPeers c) k p\<rparr>) j = (if j = k then Some p else GetPeer c j)"
  by (simp add: GetPeer_def gm.get_put)

lemma conf_wf_set:
  assumes "conf_wf c" and "\<And>k q. (k, q) \<in> set (c_KnownPeers c) \<Longrightarrow> k \<noteq> kp_PeerID p \<Longrightarrow> kp_Alias q \<noteq> kp_Alias p"
  shows "conf_wf (c\<lparr>c_KnownPeers := gm_set (c_KnownPeers c) (kp_PeerID p) p\<rparr>)"
  using assms peers_wf_known_set [of c p] alias_wf_set [of c p] by (auto simp: conf_wf_def peers_wf_def)

lemma GenUniqPeerAlias_other:
  "(k, q) \<in> set (c_KnownPeers c) \<Longrightarrow> kp_Alias q \<noteq> GenUniqPeerAlias c n al"
  using GenUniqPeerAlias_fresh [of c n al] by (force simp: gm_vals_def)

text \<open>Storing a peer under its own key with its own alias.\<close>

lemma same_alias_other:
  assumes "conf_wf c" and "GetPeer c i = Some p" and "(k, q) \<in> set (c_KnownPeers c)" and "k \<noteq> i"
  shows "kp_Alias q \<noteq> kp_Alias p"
  using assms by (fastforce simp: conf_wf_def alias_wf_def GetPeer_def dest: gm_get_Some_in)

lemma stored_peer_alias:
  assumes "conf_wf c" and "GetPeer c i = Some p" and "(k, q) \<in> set (c_KnownPeers c)" and "k \<noteq> i"
  shows "kp_Alias q \<noteq> kp_Alias (stored_peer x now c p info)"
  using same_alias_other [OF assms] GenUniqPeerAlias_other [OF assms(3)]
  by (cases "kp_Alias p = []") (auto simp: stored_peer_def)

lemma using_ok_update:
  assumes "using_ok c" and "kp_PeerID p = i" and "u = sc_UsingPeerID (c_SOCKS5 c)"
    and "u = i \<Longrightarrow> u' = [] \<or> (u' = u \<and> kp_AllowedUsingAsExitNode p)"
    and "u \<noteq> i \<Longrightarrow> u' = u \<or> (u' = i \<and> kp_AllowedUsingAsExitNode p)"
  shows "using_ok (c\<lparr>c_KnownPeers := gm_set (c_KnownPeers c) i p, c_SOCKS5 := (c_SOCKS5 c)\<lparr>sc_UsingPeerID := u'\<rparr>\<rparr>)"
  using assms by (cases "u = i") (auto simp: using_ok_def GetPeer_set)

lemma process_inv:
  assumes "conf_wf (cs_conf cs)" and "no_phantom (cs_conf cs)" and "using_ok (cs_conf cs)"
    and "GetPeer (cs_conf cs) i = Some p"
  shows "conf_wf (cs_conf (processPeerStatusInfo x now p info cs)) \<and>
     no_phantom (cs_conf (processPeerStatusInfo x now p info cs)) \<and>
     using_ok (cs_conf (processPeerStatusInfo x now p info cs))"
proof -
  let ?c = "cs_conf cs"
  let ?p = "stored_peer x now ?c p info"
  have i: "kp_PeerID p = i" using assms(1,4) GetPeer_PeerID by (auto simp: conf_wf_def)
  have ne: "i \<noteq> []" using assms(2,4) by (auto simp: no_phantom_def)
  have "kp_Alias q \<noteq> kp_Alias ?p" if "(k, q) \<in> set (c_KnownPeers ?c)" "k \<noteq> kp_PeerID ?p" for k q
    using stored_peer_alias [OF assms(1,4)] that i by simp
  from conf_wf_set [OF assms(1) this] have "conf_wf (?c\<lparr>c_KnownPeers := gm_set (c_KnownPeers ?c) i ?p\<rparr>)"
    by (simp add: i)
  moreover have "no_phantom (?c\<lparr>c_KnownPeers := gm_set (c_KnownPeers ?c) i ?p\<rparr>)"
    using assms(2) ne by (simp add: no_phantom_def GetPeer_set)
  moreover have "using_ok (?c\<lparr>c_KnownPeers := gm_set (c_KnownPeers ?c) i ?p,
      c_SOCKS5 := (c_SOCKS5 ?c)\<lparr>sc_UsingPeerID := new_using ?p (psi_Declined info) (sc_UsingPeerID (c_SOCKS5 ?c))\<rparr>\<rparr>)"
    using i ne by (intro using_ok_update [OF assms(3) _ refl])
      (auto simp: new_using_def stored_peer_def)
  ultimately show ?thesis by (simp add: process_conf Let_def i no_phantom_def)
qed

lemma reload_inv:
  assumes "auth_inv s" and "GetPeer (as_c s) i \<noteq> None"
  shows "auth_inv (reload_and_process x now i info s)"
  using assms process_inv [of "as_conf s" i] by (auto simp: auth_inv_def reload_and_process_def)

lemma auth_inv_maps [simp]:
  "auth_inv (s\<lparr>as_outgoingAuths := m\<rparr>) = auth_inv s" "auth_inv (s\<lparr>as_ingoingAuths := m\<rparr>) = auth_inv s"
  "auth_inv (del_outgoing i s) = auth_inv s" "auth_inv (del_ingoing i s) = auth_inv s"
  by (simp_all add: auth_inv_def del_outgoing_def del_ingoing_def)

lemma as_c_del [simp]: "as_c (del_outgoing i s) = as_c s" "as_c (del_ingoing i s) = as_c s"
  by (simp_all add: del_outgoing_def del_ingoing_def)

lemma StatusStreamHandler_inv:
  assumes "auth_inv s"
  shows "auth_inv (snd (StatusStreamHandler x now id received i s))"
proof (cases "GetBlockedPeer (as_c s) (x_String x i) \<noteq> None \<or> GetPeer (as_c s) (x_String x i) = None \<or> received = None")
  case True
  with assms show ?thesis by (auto simp: StatusStreamHandler_def Let_def split: option.split)
next
  case False
  then obtain info where "received = Some info" "GetPeer (as_c s) (x_String x i) \<noteq> None" by auto
  with False assms reload_inv [of "del_outgoing i s" "x_String x i" x now info] show ?thesis
    by (simp add: StatusStreamHandler_def Let_def)
qed

lemma ExchangeNewStatusInfo_inv:
  assumes "auth_inv s"
    and "GetPeer (as_c s) (x_String x i) \<noteq> None \<or> GetBlockedPeer (as_c s) (x_String x i) \<noteq> None"
  shows "auth_inv (snd (snd (ExchangeNewStatusInfo x now e id id i p s)))"
  using assms reload_inv [of "del_ingoing i s" "x_String x i" x now]
  by (auto simp: ExchangeNewStatusInfo_def Let_def split: option.split)

lemma using_ok_cong:
  assumes "using_ok c" and "GetPeer c k = Some p" and "kp_AllowedUsingAsExitNode q = kp_AllowedUsingAsExitNode p"
  shows "using_ok (c\<lparr>c_KnownPeers := gm_set (c_KnownPeers c) k q\<rparr>)"
  using assms by (auto simp: using_ok_def GetPeer_set split: option.splits if_splits)

text \<open>Storing a known peer with only other flags changed.\<close>

lemma restore_inv:
  assumes "conf_wf c" and "no_phantom c" and "using_ok c" and "GetPeer c k = Some p"
    and "kp_PeerID q = kp_PeerID p" and "kp_Alias q = kp_Alias p"
    and "kp_AllowedUsingAsExitNode q = kp_AllowedUsingAsExitNode p"
  shows "conf_wf (c\<lparr>c_KnownPeers := gm_set (c_KnownPeers c) k q\<rparr>) \<and>
     no_phantom (c\<lparr>c_KnownPeers := gm_set (c_KnownPeers c) k q\<rparr>) \<and>
     using_ok (c\<lparr>c_KnownPeers := gm_set (c_KnownPeers c) k q\<rparr>)"
proof -
  have k: "kp_PeerID p = k" using assms(1,4) GetPeer_PeerID by (auto simp: conf_wf_def)
  have "kp_Alias r \<noteq> kp_Alias q" if "(j, r) \<in> set (c_KnownPeers c)" "j \<noteq> kp_PeerID q" for j r
    using same_alias_other [OF assms(1,4)] that k assms(5,6) by simp
  from conf_wf_set [OF assms(1) this] have "conf_wf (c\<lparr>c_KnownPeers := gm_set (c_KnownPeers c) k q\<rparr>)"
    using k assms(5) by simp
  moreover have "no_phantom (c\<lparr>c_KnownPeers := gm_set (c_KnownPeers c) k q\<rparr>)"
    using assms(2,4) by (auto simp: no_phantom_def GetPeer_set)
  ultimately show ?thesis using using_ok_cong [OF assms(3,4,7)] by blast
qed

lemma SendAuthRequest_inv:
  assumes "auth_inv s"
  shows "auth_inv (snd (SendAuthRequest x e id i req s))"
proof -
  let ?s1 = "s\<lparr>as_outgoingAuths := gm_set (as_outgoingAuths s) i req\<rparr>"
  have s3: "auth_inv (if b then del_outgoing i ?s1 else ?s1)" "as_c (if b then del_outgoing i ?s1 else ?s1) = as_c s" for b
    using assms by (simp_all add: del_outgoing_def auth_inv_def)
  have upd: "auth_inv (t\<lparr>as_conf := UpsertPeer (p\<lparr>kp_Declined := True\<rparr>) (as_conf t)\<rparr>)"
    if t: "auth_inv t" and p: "GetPeer (as_c t) k = Some p" for t k p
  proof -
    have "kp_PeerID p = k" using t p GetPeer_PeerID by (auto simp: auth_inv_def conf_wf_def)
    with restore_inv [of "as_c t" k p "p\<lparr>kp_Declined := True\<rparr>"] t p show ?thesis by (simp add: auth_inv_def)
  qed
  show ?thesis
    using assms s3 upd
    by (auto simp: SendAuthRequest_def Let_def split: option.split)
qed

lemma UpdatePeerLastSeen_inv:
  assumes "auth_inv s"
  shows "auth_inv (s\<lparr>as_conf := UpdatePeerLastSeen now k (as_conf s)\<rparr>)"
proof (cases "GetPeer (as_c s) k")
  case None
  with assms show ?thesis by (simp add: UpdatePeerLastSeen_def GetPeer_def)
next
  case (Some p)
  with restore_inv [of "as_c s" k p "p\<lparr>kp_LastSeen := now\<rparr>"] assms show ?thesis
    by (simp add: auth_inv_def UpdatePeerLastSeen_def GetPeer_def)
qed

lemma blocked_inv:
  assumes "auth_inv s" and "bs = gm_del (c_BlockedPeers (as_c s)) k \<or>
    (\<exists>b. bp_PeerID b = k \<and> bs = gm_set (c_BlockedPeers (as_c s)) k b)"
  shows "conf_wf ((as_c s)\<lparr>c_BlockedPeers := bs\<rparr>)"
  using assms peers_wf_blocked_del [of "as_c s" k] peers_wf_blocked_set [of "as_c s"]
  by (auto simp: auth_inv_def conf_wf_def alias_wf_def)

lemma blocked_other [simp]:
  "no_phantom (c\<lparr>c_BlockedPeers := bs\<rparr>) = no_phantom c" "using_ok (c\<lparr>c_BlockedPeers := bs\<rparr>) = using_ok c"
  by (simp_all add: no_phantom_def using_ok_def GetPeer_def)

lemma BlockPeer_inv:
  assumes "auth_inv s"
  shows "auth_inv (snd (BlockPeer x now i n s))"
proof -
  have "conf_wf ((as_c s)\<lparr>c_BlockedPeers := gm_set (c_BlockedPeers (as_c s)) k (b\<lparr>bp_PeerID := k, bp_DisplayName := n\<rparr>)\<rparr>)" for k b
    using assms by (intro blocked_inv [where k = k] disjI2 exI [of _ "b\<lparr>bp_PeerID := k, bp_DisplayName := n\<rparr>"]) simp_all
  with assms show ?thesis by (simp add: BlockPeer_def UpsertBlockedPeer_def auth_inv_def Let_def)
qed

text \<open>What \<open>AddPeer\<close> stores when it succeeds.\<close>

definition added_peer :: "externals \<Rightarrow> nat \<Rightarrow> string \<Rightarrow> string \<Rightarrow> string \<Rightarrow> bool \<Rightarrow> string \<Rightarrow> KnownPeer" where
  "added_peer x now peerIDStr name al confirmed a =
     (let p = zero_KnownPeer\<lparr>kp_PeerID := peerIDStr, kp_Name := name, kp_Alias := TrimSpace al, kp_IPAddr := a,
                kp_Confirmed := confirmed, kp_CreatedAt := now\<rparr>
      in p\<lparr>kp_DomainName := TrimDomainName (x_ulower x) (DisplayName p)\<rparr>)"

lemma added_peer_fields [simp]:
  "kp_PeerID (added_peer x now i n al cf a) = i" "kp_Alias (added_peer x now i n al cf a) = TrimSpace al"
  "kp_IPAddr (added_peer x now i n al cf a) = a" "kp_Confirmed (added_peer x now i n al cf a) = cf"
  "kp_Name (added_peer x now i n al cf a) = n" "kp_AllowedUsingAsExitNode (added_peer x now i n al cf a) = False"
  by (simp_all add: added_peer_def Let_def zero_KnownPeer_def)

lemma AddPeer_Inr:
  assumes "AddPeer x now i n al cf ip s = Some (Inr ts, s')"
  shows "\<exists>a. GetPeer (as_c s) (x_String x i) = None \<and> IsUniqPeerAlias (as_c s) [] (TrimSpace al) \<and>
     (if ip \<noteq> [] then CheckIPUnique (as_c s) ip (x_String x i) = CheckOk \<and> a = ip
      else GenerateNextIpAddr (as_c s) = Some a) \<and>
     s' = s\<lparr>as_conf := UpsertPeer (added_peer x now (x_String x i) n al cf a)
            (RemoveBlockedPeer (x_String x i) (as_conf s))\<rparr> \<and> ts = [TaskAfterAdd i cf]"
  using assms
  by (auto simp: AddPeer_def Let_def added_peer_def split: if_splits option.splits sum.splits check_result.splits)

lemma AddPeer_Inl: "AddPeer x now i n al cf ip s = Some (Inl e, s') \<Longrightarrow> s' = s"
  by (auto simp: AddPeer_def Let_def split: if_splits option.splits sum.splits check_result.splits)

lemma AddPeer_Inl_cause:
  "AddPeer x now i n al cf ip s = Some (Inl e, s') \<Longrightarrow>
     GetPeer (as_c s) (x_String x i) \<noteq> None \<or> \<not> IsUniqPeerAlias (as_c s) [] (TrimSpace al) \<or>
     ip \<noteq> [] \<and> CheckIPUnique (as_c s) ip (x_String x i) \<noteq> CheckOk"
  by (auto simp: AddPeer_def Let_def split: if_splits option.splits sum.splits check_result.splits)

lemma RemoveBlockedPeer_conf:
  "cs_conf (RemoveBlockedPeer k cs) = (cs_conf cs)\<lparr>c_BlockedPeers := gm_del (c_BlockedPeers (cs_conf cs)) k\<rparr>"
proof (cases "gm_get (c_BlockedPeers (cs_conf cs)) k")
  case None
  then have "gm_del (c_BlockedPeers (cs_conf cs)) k = c_BlockedPeers (cs_conf cs)"
    by (simp add: gm_del_def gm_get_None_iff delete_id)
  with None show ?thesis by (simp add: RemoveBlockedPeer_def)
qed (simp add: RemoveBlockedPeer_def)

lemma AddPeer_inv:
  assumes inv: "auth_inv s" and id: "x_String x i \<noteq> []" and run: "AddPeer x now i n al cf ip s = Some (r, s')"
  shows "auth_inv s'"
proof (cases r)
  case (Inl e)
  with run inv AddPeer_Inl show ?thesis by blast
next
  case (Inr ts)
  let ?c = "as_c s" and ?k = "x_String x i"
  obtain a where a: "GetPeer ?c ?k = None" "IsUniqPeerAlias ?c [] (TrimSpace al)"
    "s' = s\<lparr>as_conf := UpsertPeer (added_peer x now ?k n al cf a) (RemoveBlockedPeer ?k (as_conf s))\<rparr>"
    using AddPeer_Inr [of x now i n al cf ip s ts s'] run Inr by blast
  let ?p = "added_peer x now ?k n al cf a"
  let ?c1 = "?c\<lparr>c_BlockedPeers := gm_del (c_BlockedPeers ?c) ?k\<rparr>"
  have c': "as_c s' = ?c1\<lparr>c_KnownPeers := gm_set (c_KnownPeers ?c1) ?k ?p\<rparr>"
    by (simp add: a(3) RemoveBlockedPeer_conf)
  have wf1: "conf_wf ?c1" using blocked_inv [OF inv, of "gm_del (c_BlockedPeers ?c) ?k" ?k] by simp
  have "kp_Alias q \<noteq> kp_Alias ?p" if "(k, q) \<in> set (c_KnownPeers ?c1)" for k q
  proof -
    have "GetPeer ?c k = Some q" using that inv by (simp add: GetPeer_def gm_get_iff auth_inv_def conf_wf_def peers_wf_def)
    then have "k \<noteq> []" using inv by (auto simp: auth_inv_def no_phantom_def)
    with a(2) that inv show ?thesis by (auto simp: IsUniqPeerAlias_iff auth_inv_def conf_wf_def)
  qed
  then have "conf_wf (?c1\<lparr>c_KnownPeers := gm_set (c_KnownPeers ?c1) (kp_PeerID ?p) ?p\<rparr>)"
    by (intro conf_wf_set [OF wf1])
  moreover have "no_phantom (as_c s')" using inv id by (simp add: c' no_phantom_def GetPeer_def gm.get_put auth_inv_def)
  moreover have "using_ok (as_c s')"
    using inv a(1) by (auto simp: c' using_ok_def GetPeer_def gm.get_put auth_inv_def split: option.splits)
  ultimately show ?thesis by (simp add: auth_inv_def c')
qed

lemma AuthStreamHandler_inv:
  assumes "auth_inv s" and "x_String x i \<noteq> []" and "AuthStreamHandler x now rec i s = Some (resp, ts, s')"
  shows "auth_inv s'"
proof -
  have add: "auth_inv t" if "AddPeer x now i n al True [] s = Some (r, t)" for r t n al
    using AddPeer_inv [OF assms(1,2) that] .
  have "auth_inv (s\<lparr>as_ingoingAuths := m, as_conf := emit e (as_conf s)\<rparr>)" for m e
    using assms(1) by (simp add: auth_inv_def)
  with assms(1,3) add show ?thesis
    by (auto simp: AuthStreamHandler_def Let_def split: option.splits if_splits)
qed

lemma retry_inv: "auth_inv s \<Longrightarrow> auth_inv (retry_auth_requests x env s)"
proof -
  have "auth_inv t \<Longrightarrow> auth_inv (foldl (\<lambda>s (peerID, auth). snd (SendAuthRequest x (env peerID) id peerID auth s)) t es)" for t es
    by (induction es arbitrary: t) (auto simp: SendAuthRequest_inv)
  then show "auth_inv s \<Longrightarrow> ?thesis" by (simp add: retry_auth_requests_def)
qed

section \<open>The exchanges as a state machine\<close>

text \<open>
  One step is one handler run without interference. A status exchange is taken for a peer that
  is known or blocked, which the callers have checked before.
\<close>

inductive auth_step :: "externals \<Rightarrow> AuthStatus \<Rightarrow> AuthStatus \<Rightarrow> bool" for x :: externals where
  status: "auth_step x s (snd (StatusStreamHandler x now id received i s))"
| exchange: "GetPeer (as_c s) (x_String x i) \<noteq> None \<or> GetBlockedPeer (as_c s) (x_String x i) \<noteq> None \<Longrightarrow>
     auth_step x s (snd (snd (ExchangeNewStatusInfo x now e id id i p s)))"
| block: "auth_step x s (snd (BlockPeer x now i name s))"
| auth: "AuthStreamHandler x now req i s = Some (resp, ts, s') \<Longrightarrow> auth_step x s s'"
| send: "auth_step x s (snd (SendAuthRequest x ae id i rq s))"
| add: "AddPeer x now i name al cf ip s = Some (r, s') \<Longrightarrow> auth_step x s s'"
| connected: "auth_step x s (snd (onPeerConnected x now i s))"
| disconnected: "auth_step x s (onPeerDisconnected x now i s)"
| retry: "auth_step x s (retry_auth_requests x env s)"

definition ids_nonempty :: "externals \<Rightarrow> bool" where
  "ids_nonempty x \<longleftrightarrow> (\<forall>i. x_String x i \<noteq> [])"

lemma auth_step_inv: "auth_step x s s' \<Longrightarrow> ids_nonempty x \<Longrightarrow> auth_inv s \<Longrightarrow> auth_inv s'"
proof (induction rule: auth_step.induct)
  case (connected s now i)
  then show ?case by (simp add: onPeerConnected_def Let_def UpdatePeerLastSeen_inv)
next
  case (disconnected s now i)
  then show ?case by (simp add: onPeerDisconnected_def UpdatePeerLastSeen_inv)
next
  case (auth now req i s resp ts s')
  then show ?case using AuthStreamHandler_inv [of s x i now req resp ts s'] by (simp add: ids_nonempty_def)
next
  case (add now i name al cf ip s r s')
  then show ?case using AddPeer_inv [of s x i now name al cf ip r s'] by (simp add: ids_nonempty_def)
qed (simp_all add: StatusStreamHandler_inv ExchangeNewStatusInfo_inv BlockPeer_inv SendAuthRequest_inv retry_inv)

interpretation auth_machine: inductive_invariant auth_inv "\<lambda>s s'. ids_nonempty x \<and> auth_step x s s'" auth_inv
  for x
  using auth_step_inv by unfold_locales blast+

section \<open>Properties\<close>

text \<open>
  However the handlers of the exchanges, the requests, blockings and connection events
  follow each other, the configuration stays well-formed: entries are stored under their own
  IDs, no two known peers share an alias, and the exit node in use is always a known peer that
  allows it.
\<close>

theorem exchanges_keep_configuration:
  assumes "reachable auth_inv (\<lambda>s s'. ids_nonempty x \<and> auth_step x s s') s"
  shows "peers_wf (as_c s) \<and> alias_wf (as_c s) \<and> using_ok (as_c s)"
  using auth_machine.inv_reachable [OF assms] by (simp add: auth_inv_def conf_wf_def)

definition sample_auth :: "Config \<Rightarrow> AuthStatus" where
  "sample_auth c = \<lparr>as_ingoingAuths = [], as_outgoingAuths = [],
     as_conf = \<lparr>cs_conf = c, cs_disk = None, cs_diskOK = True, cs_events = []\<rparr>\<rparr>"

definition sample_ext :: externals where
  "sample_ext = \<lparr>x_String = (\<lambda>i. CHR ''Q'' # i), x_Decode = (\<lambda>s. Some (tl s)), x_ulower = id\<rparr>"

theorem exchanges_keep_configuration_witness:
  "peers_wf (as_c (snd (BlockPeer sample_ext 1 ''m'' ''bob'' (sample_auth zero_Config)))) \<and>
   using_ok (as_c (snd (BlockPeer sample_ext 1 ''m'' ''bob'' (sample_auth zero_Config))))"
proof -
  have "auth_inv (sample_auth zero_Config)"
    by (simp add: auth_inv_def sample_auth_def zero_Config_def conf_wf_def peers_wf_def alias_wf_def
        no_phantom_def using_ok_def zero_SOCKS5Config_def GetPeer_def)
  then have r: "reachable auth_inv (\<lambda>s s'. ids_nonempty sample_ext \<and> auth_step sample_ext s s') (sample_auth zero_Config)"
    by (rule reach_init)
  have "ids_nonempty sample_ext" by (simp add: ids_nonempty_def sample_ext_def)
  then have "ids_nonempty sample_ext \<and>
      auth_step sample_ext (sample_auth zero_Config) (snd (BlockPeer sample_ext 1 ''m'' ''bob'' (sample_auth zero_Config)))"
    using auth_step.block by (rule conjI)
  with r have "reachable auth_inv (\<lambda>s s'. ids_nonempty sample_ext \<and> auth_step sample_ext s s')
      (snd (BlockPeer sample_ext 1 ''m'' ''bob'' (sample_auth zero_Config)))"
    by (rule reach_step)
  from exchanges_keep_configuration [OF this] show ?thesis by simp
qed



section \<open>What a status message does\<close>


definition sample_peer :: KnownPeer where
  "sample_peer = zero_KnownPeer\<lparr>kp_PeerID := ''Qm'', kp_Name := ''bob'', kp_Alias := ''bob'', kp_IPAddr := ''10.66.0.7''\<rparr>"

definition sample_info :: PeerStatusInfo where
  "sample_info = \<lparr>psi_Name = ''bob'', psi_Declined = False, psi_AllowUsingAsExitNode = True, psi_UsingPeerID = []\<rparr>"




text \<open>
  A peer that is removed while its status is being exchanged comes back as a phantom: the
  reload gives the zero value, which is stored as a confirmed peer with the empty ID.
\<close>

theorem removed_peer_leaves_phantom:
  "\<exists>s s'. auth_inv s \<and>
     (let s2 = snd (StatusStreamHandler sample_ext 9 (\<lambda>_. s') (Some sample_info) ''m'' s)
      in auth_inv s' \<and> c_KnownPeers (as_c s') = [] \<and>
         (\<exists>p. GetPeer (as_c s2) [] = Some p \<and> kp_Confirmed p \<and> kp_PeerID p = [] \<and> kp_IPAddr p = []))"
proof -
  let ?s = "sample_auth (zero_Config\<lparr>c_KnownPeers := [(''Qm'', sample_peer)]\<rparr>)"
  let ?s' = "sample_auth zero_Config"
  let ?s2 = "snd (StatusStreamHandler sample_ext 9 (\<lambda>_. ?s') (Some sample_info) ''m'' ?s)"
  note defs = auth_inv_def sample_auth_def zero_Config_def conf_wf_def peers_wf_def alias_wf_def
    no_phantom_def using_ok_def zero_SOCKS5Config_def GetPeer_def gm_get_def sample_peer_def gm_wf_def
  have known: "GetPeer (as_c ?s) (x_String sample_ext ''m'') = Some sample_peer"
    "GetBlockedPeer (as_c ?s) (x_String sample_ext ''m'') = None"
    by (simp_all add: sample_auth_def sample_ext_def zero_Config_def GetPeer_def GetBlockedPeer_def gm_get_def)
  have gone: "GetPeer (as_c ?s') k = None" for k
    by (simp add: sample_auth_def zero_Config_def GetPeer_def gm_get_def)
  have s2: "?s2 = reload_and_process sample_ext 9 (x_String sample_ext ''m'') sample_info (del_outgoing ''m'' ?s')"
    using known by (simp add: StatusStreamHandler_def Let_def)
  have "GetPeer (as_c ?s2) [] = Some (stored_peer sample_ext 9 (as_c ?s') zero_KnownPeer sample_info)"
    unfolding s2 using gone
    by (simp add: reload_and_process_def del_outgoing_def process_conf Let_def GetPeer_set zero_KnownPeer_def)
  moreover have "auth_inv ?s" "auth_inv ?s'" by (simp_all add: defs)
  moreover have "c_KnownPeers (as_c ?s') = []" by (simp add: sample_auth_def zero_Config_def)
  ultimately show ?thesis
    unfolding Let_def
    by (intro exI [of _ ?s] exI [of _ ?s'] conjI exI [of _ "stored_peer sample_ext 9 (as_c ?s') zero_KnownPeer sample_info"])
      (simp_all add: stored_peer_def sample_info_def zero_KnownPeer_def)
qed

text \<open>
  A change of the exit node by a status exchange is not saved: the configuration on disk is
  the one written before the change, so after a restart the old exit node is back.
\<close>

theorem exit_node_change_not_saved:
  assumes "cs_diskOK cs" and "cs' = processPeerStatusInfo x now p info cs"
    and "using_of cs' \<noteq> using_of cs"
  shows "\<exists>d. cs_disk cs' = Some d \<and> sc_UsingPeerID (c_SOCKS5 d) = using_of cs \<and> d \<noteq> cs_conf cs'"
proof -
  let ?q = "stored_peer x now (cs_conf cs) p info"
  have "cs_disk cs' = Some (cs_conf (UpsertPeer ?q cs))"
    using assms(1,2) by (auto simp: processPeerStatusInfo_def stored_peer_def Let_def UpsertPeer_def emit_def c_save_def
        set_known_def set_using_def)
  moreover have old: "sc_UsingPeerID (c_SOCKS5 (cs_conf (UpsertPeer ?q cs))) = using_of cs"
    by (simp add: using_of_def)
  moreover have "cs_conf (UpsertPeer ?q cs) \<noteq> cs_conf cs'"
    using assms(3) old unfolding using_of_def by metis
  ultimately show ?thesis by (intro exI conjI)
qed

theorem exit_node_change_not_saved_witness:
  "\<exists>d. cs_disk (processPeerStatusInfo sample_ext 9 sample_peer sample_info (as_conf (sample_auth zero_Config))) = Some d \<and>
     sc_UsingPeerID (c_SOCKS5 d) = []"
proof -
  let ?cs = "as_conf (sample_auth zero_Config)"
  have "cs_diskOK ?cs" by (simp add: sample_auth_def)
  moreover have "using_of (processPeerStatusInfo sample_ext 9 sample_peer sample_info ?cs) \<noteq> using_of ?cs"
    by (simp add: using_of_def process_conf Let_def new_using_def stored_peer_def sample_info_def sample_peer_def
        sample_auth_def zero_Config_def zero_SOCKS5Config_def)
  moreover have "using_of ?cs = []" by (simp add: using_of_def sample_auth_def zero_Config_def zero_SOCKS5Config_def)
  ultimately show ?thesis
    using exit_node_change_not_saved [OF _ refl, of ?cs sample_ext 9 sample_peer sample_info] by auto
qed

end
