(* ===== verification/Socks5_Proxy.thy ===== *)
theory Socks5_Proxy
  imports Auth_Status "HOL-Library.List_Lexorder" "HOL-Library.Char_ord"
begin

text \<open>
  The SOCKS5 proxy: the protocol pieces of \<open>src/socks5/server.go\<close> and \<open>src/socks5/client.go\<close>
  (failure replies, destination rules, local greeting) and the service of
  \<open>src/service/socks5.go\<close> (who may use us as exit node, whom we use). Serving a request and
  copying between two connections are the SOCKS5 library's, and are arguments.
\<close>

section \<open>Connections\<close>

record conn = stream +
  cn_out :: "byte list"
  cn_writeOk :: bool

definition conn_Write :: "byte list \<Rightarrow> conn \<Rightarrow> bool \<times> conn" where
  "conn_Write b c = (if cn_writeOk c then (True, c\<lparr>cn_out := cn_out c @ b\<rparr>) else (False, c))"

section \<open>Protocol\<close>

text \<open>The numbers of RFC 1928.\<close>

definition socks5Version :: byte where "socks5Version = 5"

definition AuthMethodNoAuth :: byte where "AuthMethodNoAuth = 0"

definition AuthMethodNoAcceptable :: byte where "AuthMethodNoAcceptable = 255"

definition ReplyServerFailure :: byte where "ReplyServerFailure = 1"

definition AddressIPv4 :: byte where "AddressIPv4 = 1"

definition AddressDomainName :: byte where "AddressDomainName = 3"

definition AddressIPv6 :: byte where "AddressIPv6 = 4"

record AddrSpec =
  as_FQDN :: string
  as_IP :: ip
  as_Port :: int

definition string_bytes :: "string \<Rightarrow> byte list" where
  "string_bytes s = map of_char s"

definition reply_addr :: "AddrSpec option \<Rightarrow> (byte \<times> byte list \<times> u16) option" where
  "reply_addr addr =
     (case addr of
        None \<Rightarrow> Some (AddressIPv4, [0, 0, 0, 0], 0)
      | Some a \<Rightarrow>
          if as_FQDN a \<noteq> [] then
            Some (AddressDomainName, of_nat (length (as_FQDN a)) # string_bytes (as_FQDN a), word_of_int (as_Port a))
          else if To4 (as_IP a) \<noteq> [] then Some (AddressIPv4, To4 (as_IP a), word_of_int (as_Port a))
          else if length (as_IP a) = 16 then Some (AddressIPv6, as_IP a, word_of_int (as_Port a))
          else None)"

definition reply_msg :: "byte \<Rightarrow> byte \<times> byte list \<times> u16 \<Rightarrow> byte list" where
  "reply_msg resp f =
     (case f of (addrType, addrBody, addrPort) \<Rightarrow>
        [socks5Version, resp, 0, addrType] @ addrBody @
          [ucast (drop_bit 8 addrPort), ucast (addrPort AND 0xff)])"

definition sendReply :: "byte \<Rightarrow> AddrSpec option \<Rightarrow> conn \<Rightarrow> bool \<times> conn" where
  "sendReply resp addr w =
     (case reply_addr addr of None \<Rightarrow> (False, w) | Some f \<Rightarrow> conn_Write (reply_msg resp f) w)"

text \<open>\<open>newRequest\<close> is the library's reader of a proxy request.\<close>

definition SendServerFailureReply :: "(conn \<Rightarrow> bool \<times> conn) \<Rightarrow> conn \<Rightarrow> bool \<times> conn" where
  "SendServerFailureReply newRequest c =
     (case ReadFull 2 c of
        (Inl _, c1) \<Rightarrow> (False, c1)
      | (Inr buf, c1) \<Rightarrow>
          (case ReadFull (unat (buf ! 1)) c1 of
             (Inl _, c2) \<Rightarrow> (False, c2)
           | (Inr _, c2) \<Rightarrow>
               (case conn_Write [socks5Version, AuthMethodNoAuth] c2 of
                  (False, c3) \<Rightarrow> (False, c3)
                | (True, c3) \<Rightarrow>
                    (case newRequest c3 of
                       (False, c4) \<Rightarrow> (False, c4)
                     | (True, c4) \<Rightarrow> sendReply ReplyServerFailure None c4))))"

datatype rule = RulePermitAll | RuleDenyLocalhost IPNet

text \<open>\<open>None\<close> is the panic of a prefix that does not parse.\<close>

definition NewRuleDenyLocalhost :: "rule option" where
  "NewRuleDenyLocalhost = map_option (\<lambda>(_, ipNet). RuleDenyLocalhost ipNet) (ParseCIDR ''127.0.0.1/8'')"

definition Allow :: "rule \<Rightarrow> AddrSpec option \<Rightarrow> bool" where
  "Allow r addr =
     (case r of
        RulePermitAll \<Rightarrow> True
      | RuleDenyLocalhost ipNet \<Rightarrow>
          (case addr of None \<Rightarrow> True | Some a \<Rightarrow> \<not> IPNet_Contains ipNet (as_IP a)))"

record Server =
  sv_rule :: rule

definition NewServer :: "Server option" where
  "NewServer = map_option (\<lambda>r. \<lparr>sv_rule = r\<rparr>) NewRuleDenyLocalhost"

definition SetRules :: "rule \<Rightarrow> Server \<Rightarrow> Server" where
  "SetRules r s = s\<lparr>sv_rule := r\<rparr>"

section \<open>Client\<close>

datatype socks_error =
  NoProxyPeer | PeerNotAllowed | PeerConnectFailed | PeerStreamFailed
| VersionUnread | UnsupportedVersion byte | MethodsUnread | NoAuthUnsupported | ReplyFailed

text \<open>\<open>readMethods\<close> is the library's reader of the offered methods.\<close>

definition HandleLocalAuth :: "(conn \<Rightarrow> byte list option \<times> conn) \<Rightarrow> conn \<Rightarrow> socks_error option \<times> conn" where
  "HandleLocalAuth readMethods c =
     (case ReadFull 1 c of
        (Inl _, c1) \<Rightarrow> (Some VersionUnread, c1)
      | (Inr version, c1) \<Rightarrow>
          if version ! 0 \<noteq> 5 then (Some (UnsupportedVersion (version ! 0)), c1)
          else case readMethods c1 of
            (None, c2) \<Rightarrow> (Some MethodsUnread, c2)
          | (Some methods, c2) \<Rightarrow>
              if AuthMethodNoAuth \<notin> set methods
              then (Some NoAuthUnsupported, snd (conn_Write [5, AuthMethodNoAcceptable] c2))
              else case conn_Write [5, AuthMethodNoAuth] c2 of
                (ok, c3) \<Rightarrow> (if ok then None else Some ReplyFailed, c3))"

text \<open>
  The accept loop: a connection is handed on when the channel takes it within a second and is
  closed otherwise; the first failed accept ends the loop, and only a closed listener is no
  error. The channel is closed when the loop ends.
\<close>

datatype accept_event = Accepted nat bool | AcceptFailed bool

record Client =
  cl_delivered :: "nat list"
  cl_dropped :: "nat list"
  cl_chanClosed :: bool

fun client_serve :: "accept_event list \<Rightarrow> Client \<Rightarrow> bool \<times> Client" where
  "client_serve [] c = (True, c)"
| "client_serve (AcceptFailed closed # es) c = (closed, c\<lparr>cl_chanClosed := True\<rparr>)"
| "client_serve (Accepted i taken # es) c =
     client_serve es (if taken then c\<lparr>cl_delivered := cl_delivered c @ [i]\<rparr> else c\<lparr>cl_dropped := cl_dropped c @ [i]\<rparr>)"

section \<open>Service\<close>

record AvailableProxy =
  av_PeerID :: string
  av_PeerName :: string

definition ListAvailableProxies :: "externals \<Rightarrow> (string \<Rightarrow> bool) \<Rightarrow> Config \<Rightarrow> AvailableProxy list" where
  "ListAvailableProxies x isConnected c =
     sort_key av_PeerName
       (map (\<lambda>p. \<lparr>av_PeerID = kp_PeerID p, av_PeerName = DisplayName p\<rparr>)
         (filter (\<lambda>p. kp_AllowedUsingAsExitNode p \<and> isConnected (PeerId (x_Decode x) p)) (gm_vals (c_KnownPeers c))))"

definition SetProxyPeerID :: "string \<Rightarrow> conf_state \<Rightarrow> conf_state" where
  "SetProxyPeerID peerID cs = c_save (set_using peerID cs)"

definition GetProxyPeerID :: "conf_state \<Rightarrow> string" where
  "GetProxyPeerID cs = using_of cs"

text \<open>What the exit node does with a stream: drop it, answer with a failure, or serve it.\<close>

datatype proxy_action = DropStream | FailureReply | ServeStreamConn | ServeStreamConnNoAuth

definition ProxyStreamHandler :: "externals \<Rightarrow> Config \<Rightarrow> string \<Rightarrow> string \<Rightarrow> proxy_action" where
  "ProxyStreamHandler x c remotePeer proto =
     (case GetPeer c (x_String x remotePeer) of
        None \<Rightarrow> DropStream
      | Some knownPeer \<Rightarrow>
          if \<not> kp_WeAllowUsingAsExitNode knownPeer then DropStream
          else if \<not> sc_ProxyingEnabled (c_SOCKS5 c)
          then (if proto \<noteq> Socks5NoAuthMethod then FailureReply else DropStream)
          else if proto = Socks5NoAuthMethod then ServeStreamConnNoAuth else ServeStreamConn)"

text \<open>
  What the network does for \<open>proxyConn\<close>: whether the peer can be reached, the protocol of the
  stream it opens, and how the two copies between connection and stream change the connection.
\<close>

record proxy_env =
  px_connectOk :: "string \<Rightarrow> bool"
  px_stream :: "string \<Rightarrow> string option"
  px_copy :: "conn \<Rightarrow> conn"
  px_readMethods :: "conn \<Rightarrow> byte list option \<times> conn"
  px_newRequest :: "conn \<Rightarrow> bool \<times> conn"

text \<open>The result names the peer whose stream carried the connection.\<close>

definition proxyConn :: "externals \<Rightarrow> proxy_env \<Rightarrow> Config \<Rightarrow> conn \<Rightarrow> (socks_error + string) \<times> conn" where
  "proxyConn x e c cn =
     (let usePeerID = sc_UsingPeerID (c_SOCKS5 c)
      in if usePeerID = [] then (Inl NoProxyPeer, cn)
         else case GetPeer c usePeerID of
           None \<Rightarrow> (Inl PeerNotAllowed, cn)
         | Some peer \<Rightarrow>
             if \<not> kp_AllowedUsingAsExitNode peer then (Inl PeerNotAllowed, cn)
             else
               let remotePeerID = PeerId (x_Decode x) peer
               in if \<not> px_connectOk e remotePeerID then (Inl PeerConnectFailed, cn)
                  else case px_stream e remotePeerID of
                    None \<Rightarrow> (Inl PeerStreamFailed, cn)
                  | Some proto \<Rightarrow>
                      if proto = Socks5NoAuthMethod
                      then (case HandleLocalAuth (px_readMethods e) cn of
                              (Some err, cn1) \<Rightarrow> (Inl err, cn1)
                            | (None, cn1) \<Rightarrow> (Inr remotePeerID, px_copy e cn1))
                      else (Inr remotePeerID, px_copy e cn))"

text \<open>One connection taken from the client's channel.\<close>

definition serve_conn :: "externals \<Rightarrow> proxy_env \<Rightarrow> Config \<Rightarrow> conn \<Rightarrow> conn" where
  "serve_conn x e c cn =
     (case proxyConn x e c cn of
        (Inl _, cn1) \<Rightarrow> snd (SendServerFailureReply (px_newRequest e) cn1)
      | (Inr _, cn1) \<Rightarrow> cn1)"

definition NewSOCKS5 :: "(string \<Rightarrow> bool) \<Rightarrow> Config \<Rightarrow> (unit + Client option \<times> Server) option" where
  \<comment> \<open>which addresses can be bound; \<open>Inl\<close> is the error of the listener, \<open>None\<close> a panic\<close>
  "NewSOCKS5 canListen c =
     (let client = (if sc_ListenerEnabled (c_SOCKS5 c)
                    then (if canListen (sc_ListenAddress (c_SOCKS5 c))
                          then Some (Some \<lparr>cl_delivered = [], cl_dropped = [], cl_chanClosed = False\<rparr>) else None)
                    else Some None)
      in case client of
           None \<Rightarrow> Some (Inl ())
         | Some cl \<Rightarrow> map_option (\<lambda>sv. Inr (cl, sv)) NewServer)"

section \<open>Greetings and replies\<close>

lemma failure_reply_msg: "reply_msg ReplyServerFailure (AddressIPv4, [0, 0, 0, 0], 0) = [5, 1, 0, 1, 0, 0, 0, 0, 0, 0]"
  by (simp add: reply_msg_def socks5Version_def ReplyServerFailure_def AddressIPv4_def)

lemma sendReply_failure:
  "cn_writeOk c \<Longrightarrow> sendReply ReplyServerFailure None c = (True, c\<lparr>cn_out := cn_out c @ [5, 1, 0, 1, 0, 0, 0, 0, 0, 0]\<rparr>)"
  by (simp add: sendReply_def reply_addr_def conn_Write_def failure_reply_msg)

lemma ReadFull_append: "ReadFull (length b) (s\<lparr>st_bytes := b @ rest\<rparr>) = (Inr b, s\<lparr>st_bytes := rest\<rparr>)"
  by (simp add: ReadFull_def)

text \<open>A reader of replies written after RFC 1928: code, address type, address and port.\<close>

fun parse_reply :: "byte list \<Rightarrow> (byte \<times> byte \<times> byte list \<times> nat) option" where
  "parse_reply (v # resp # z # t # rest) =
     (if v \<noteq> 5 \<or> z \<noteq> 0 then None
      else
        let n = (if t = 1 then 4 else if t = 4 then 16 else if t = 3 \<and> rest \<noteq> [] then Suc (unat (hd rest)) else 0)
        in if n = 0 \<or> length rest \<noteq> n + 2 then None
           else Some (resp, t, (if t = 3 then tl (take n rest) else take n rest), be_val (drop n rest)))"
| "parse_reply _ = None"

lemma port_bytes: "be_val [ucast (drop_bit 8 (p :: u16)) :: byte, ucast (p AND 0xff)] = unat p"
proof -
  have "unat (ucast (drop_bit 8 p) :: byte) = unat p div 256"
  proof -
    have "unat p < 65536" using unsigned_less [of p] by simp
    then have "unat p div 256 < 256" by simp
    then show ?thesis by (simp add: unsigned_ucast_eq unsigned_take_bit_eq unsigned_drop_bit_eq take_bit_eq_mod drop_bit_eq_div unat_div_distrib)
  qed
  moreover have "unat (ucast (p AND 0xff) :: byte) = unat p mod 256"
  proof -
    have m: "p AND 0xff = take_bit 8 p" by (simp add: take_bit_eq_mask mask_eq_exp_minus_1)
    show ?thesis unfolding m by (simp add: unsigned_ucast_eq unsigned_take_bit_eq take_bit_eq_mod unat_mod_distrib)
  qed
  ultimately show ?thesis by simp
qed

text \<open>The address of a reply, as its reader sees it: the kind and the bytes.\<close>

definition reply_kind :: "AddrSpec \<Rightarrow> byte \<times> byte list" where
  "reply_kind a =
     (if as_FQDN a \<noteq> [] then (3, string_bytes (as_FQDN a))
      else if To4 (as_IP a) \<noteq> [] then (1, To4 (as_IP a)) else (4, as_IP a))"

lemma parse_reply_msg:
  assumes "t = 1 \<and> length body = 4 \<or> t = 4 \<and> length body = 16 \<or> t = 3 \<and> body \<noteq> [] \<and> length body = Suc (unat (hd body))"
  shows "parse_reply (reply_msg resp (t, body, p)) = Some (resp, t, (if t = 3 then tl body else body), unat p)"
  using assms port_bytes [of p]
  by (auto simp: reply_msg_def socks5Version_def Let_def hd_append simp del: be_val.simps)

section \<open>Properties\<close>

text \<open>
  A reply for an address that can be formatted is what RFC 1928 asks for: read back it
  gives the reply code, the kind and the bytes of the address, and the port modulo \<open>2 ^ 16\<close>.
\<close>

theorem reply_roundtrip:
  assumes "if as_FQDN a \<noteq> [] then length (as_FQDN a) < 256 else length (as_IP a) = 4 \<or> length (as_IP a) = 16"
  shows "\<exists>f. reply_addr (Some a) = Some f \<and>
     parse_reply (reply_msg resp f) =
       Some (resp, fst (reply_kind a), snd (reply_kind a), nat (as_Port a mod 65536))"
proof -
  have port: "unat (word_of_int (as_Port a) :: u16) = nat (as_Port a mod 65536)"
    by (simp add: unat_eq_nat_uint uint_word_of_int)
  have len4: "To4 (as_IP a) \<noteq> [] \<Longrightarrow> length (To4 (as_IP a)) = 4" by (auto simp: To4_def split: if_splits)
  have len16: "To4 (as_IP a) = [] \<Longrightarrow> as_FQDN a = [] \<Longrightarrow> length (as_IP a) = 16"
    using assms by (auto simp: To4_def split: if_splits)
  have small: "as_FQDN a \<noteq> [] \<Longrightarrow> unat (of_nat (length (as_FQDN a)) :: byte) = length (as_FQDN a)"
    using assms by (simp add: unat_of_nat)
  show ?thesis
  proof (cases "as_FQDN a = []")
    case True
    then show ?thesis using len4 len16 port
      by (cases "To4 (as_IP a) = []")
        (simp_all add: reply_addr_def reply_kind_def AddressIPv4_def AddressIPv6_def parse_reply_msg)
  next
    case False
    then show ?thesis using small port
      by (simp add: reply_addr_def reply_kind_def AddressDomainName_def parse_reply_msg string_bytes_def)
  qed
qed

theorem reply_roundtrip_witness:
  "\<exists>f. reply_addr (Some \<lparr>as_FQDN = ''a.awl'', as_IP = [], as_Port = 80\<rparr>) = Some f \<and>
     parse_reply (reply_msg 0 f) = Some (0, 3, string_bytes ''a.awl'', 80)"
  using reply_roundtrip [of "\<lparr>as_FQDN = ''a.awl'', as_IP = [], as_Port = 80\<rparr>" 0] by (simp add: reply_kind_def)

text \<open>
  The rule of the exit node refuses exactly the IPv4 loopback addresses, also in their
  IPv6-mapped form; the IPv6 loopback address and \<open>0.0.0.0\<close> pass.
\<close>

theorem deny_localhost_rule:
  "\<exists>r. NewRuleDenyLocalhost = Some r \<and>
     (\<forall>a. Allow r (Some a) \<longleftrightarrow> take 1 (To4 (as_IP a)) \<noteq> [127]) \<and>
     (\<forall>n p. Allow r (Some \<lparr>as_FQDN = n, as_IP = ParseIP ''::1'', as_Port = p\<rparr>)) \<and>
     (\<forall>n p. Allow r (Some \<lparr>as_FQDN = n, as_IP = ParseIP ''0.0.0.0'', as_Port = p\<rparr>))"
proof -
  let ?n = "\<lparr>net_IP = [127, 0, 0, 0], net_Mask = [255, 0, 0, 0]\<rparr>"
  have r: "NewRuleDenyLocalhost = Some (RuleDenyLocalhost ?n)"
  proof -
    have "map_option snd (ParseCIDR ''127.0.0.1/8'') = Some ?n" by code_simp
    then show ?thesis by (auto simp: NewRuleDenyLocalhost_def)
  qed
  have nn: "networkNumberAndMask ?n = ([127, 0, 0, 0], [255, 0, 0, 0])"
    by (simp add: networkNumberAndMask_def To4_def Let_def)
  have ff: "w AND 255 = w" for w :: byte
  proof -
    have "w AND 255 = take_bit 8 w" by (simp add: take_bit_eq_mask mask_eq_exp_minus_1)
    also have "\<dots> = w" by (rule take_bit_word_eq_self) simp
    finally show ?thesis .
  qed
  have "IPNet_Contains ?n a \<longleftrightarrow> To4 a \<noteq> [] \<and> hd (To4 a) = 127" for a
  proof (cases "To4 a = []")
    case True
    then have "length a \<noteq> 4" by (auto simp: To4_def)
    with True nn show ?thesis by (simp add: IPNet_Contains_def)
  next
    case False
    then have "length (To4 a) = 4" by (auto simp: To4_def split: if_splits)
    then obtain w x y z where "To4 a = [w, x, y, z]" using length4_exhaust by blast
    with nn ff show ?thesis by (auto simp: IPNet_Contains_def and_bytes_def)
  qed
  then have *: "Allow (RuleDenyLocalhost ?n) (Some a) \<longleftrightarrow> take 1 (To4 (as_IP a)) \<noteq> [127]" for a
    by (cases "To4 (as_IP a)") (simp_all add: Allow_def)
  moreover have "To4 (ParseIP ''::1'') = []" "To4 (ParseIP ''0.0.0.0'') = [0, 0, 0, 0]" by code_simp+
  ultimately show ?thesis using r by (intro exI [of _ "RuleDenyLocalhost ?n"]) simp
qed

text \<open>
  C28. The exit node serves a stream exactly when its peer is known, we allow it and proxying is
  enabled; and the client sends a connection only to the configured peer, known and allowing it.
\<close>

theorem proxy_access:
  "(ProxyStreamHandler x c remote proto \<in> {ServeStreamConn, ServeStreamConnNoAuth} \<longleftrightarrow>
      (\<exists>p. GetPeer c (x_String x remote) = Some p \<and> kp_WeAllowUsingAsExitNode p) \<and> sc_ProxyingEnabled (c_SOCKS5 c)) \<and>
   (fst (proxyConn x e c cn) = Inr i \<longrightarrow>
      (\<exists>p. GetPeer c (sc_UsingPeerID (c_SOCKS5 c)) = Some p \<and> kp_AllowedUsingAsExitNode p \<and>
         i = PeerId (x_Decode x) p \<and> px_connectOk e i \<and> px_stream e i \<noteq> None))"
proof
  show "ProxyStreamHandler x c remote proto \<in> {ServeStreamConn, ServeStreamConnNoAuth} \<longleftrightarrow>
      (\<exists>p. GetPeer c (x_String x remote) = Some p \<and> kp_WeAllowUsingAsExitNode p) \<and> sc_ProxyingEnabled (c_SOCKS5 c)"
    by (auto simp: ProxyStreamHandler_def split: option.splits)
  show "fst (proxyConn x e c cn) = Inr i \<longrightarrow>
      (\<exists>p. GetPeer c (sc_UsingPeerID (c_SOCKS5 c)) = Some p \<and> kp_AllowedUsingAsExitNode p \<and>
         i = PeerId (x_Decode x) p \<and> px_connectOk e i \<and> px_stream e i \<noteq> None)"
    by (auto simp: proxyConn_def Let_def split: option.splits if_splits prod.splits)
qed

definition sample_conn :: conn where
  "sample_conn = \<lparr>st_bytes = [5, 1, 0, 5, 1, 0, 1, 9, 9, 9, 9, 0, 80], st_end = EOF, cn_out = [], cn_writeOk = True\<rparr>"

text \<open>The library's readers on a greeting and on a request with an IPv4 address.\<close>

definition sample_env :: "string \<Rightarrow> proxy_env" where
  "sample_env proto =
     \<lparr>px_connectOk = (\<lambda>_. True), px_stream = (\<lambda>_. Some proto), px_copy = id,
      px_readMethods = (\<lambda>c. case ReadFull 2 c of (Inl _, c1) \<Rightarrow> (None, c1) | (Inr b, c1) \<Rightarrow> (Some [b ! 1], c1)),
      px_newRequest = (\<lambda>c. case ReadFull 10 c of (Inl _, c1) \<Rightarrow> (False, c1) | (Inr _, c1) \<Rightarrow> (True, c1))\<rparr>"

theorem proxy_access_witness:
  "\<exists>p. GetPeer (zero_Config\<lparr>c_KnownPeers := [(''Qm'', sample_peer\<lparr>kp_AllowedUsingAsExitNode := True\<rparr>)],
       c_SOCKS5 := zero_SOCKS5Config\<lparr>sc_UsingPeerID := ''Qm''\<rparr>\<rparr>) ''Qm'' = Some p \<and> kp_AllowedUsingAsExitNode p \<and>
     ''m'' = PeerId (x_Decode sample_ext) p"
proof -
  let ?c = "zero_Config\<lparr>c_KnownPeers := [(''Qm'', sample_peer\<lparr>kp_AllowedUsingAsExitNode := True\<rparr>)],
       c_SOCKS5 := zero_SOCKS5Config\<lparr>sc_UsingPeerID := ''Qm''\<rparr>\<rparr>"
  have "fst (proxyConn sample_ext (sample_env Socks5NoAuthMethod) ?c sample_conn) = Inr ''m''" by code_simp
  from proxy_access [THEN conjunct2, rule_format, OF this] show ?thesis by auto
qed

text \<open>
  A local client that cannot be proxied (no exit node chosen, not allowed, unreachable) and
  speaks SOCKS5 gets a complete dialogue: the method without authentication, then the reply
  for a general server failure, and nothing else.
\<close>

theorem refused_client_dialogue:
  assumes "proxyConn x e c cn = (Inl err, cn)"
    and "cn_writeOk cn" and "st_bytes cn = [5, of_nat (length methods)] @ methods @ request"
    and "length methods < 256"
    and "\<And>d. st_bytes d = request \<Longrightarrow> px_newRequest e d = (True, d\<lparr>st_bytes := []\<rparr>)"
  shows "serve_conn x e c cn = cn\<lparr>st_bytes := [], cn_out := cn_out cn @ [5, 0] @ [5, 1, 0, 1, 0, 0, 0, 0, 0, 0]\<rparr>"
proof -
  have "unat (of_nat (length methods) :: byte) = length methods" using assms(4) by (simp add: unat_of_nat)
  moreover have "px_newRequest e (cn\<lparr>st_bytes := request, cn_out := out\<rparr>) = (True, cn\<lparr>st_bytes := [], cn_out := out\<rparr>)" for out
    using assms(5) [of "cn\<lparr>st_bytes := request, cn_out := out\<rparr>"] by simp
  ultimately show ?thesis
    using assms(1-3)
    by (simp add: serve_conn_def SendServerFailureReply_def ReadFull_def conn_Write_def socks5Version_def
        AuthMethodNoAuth_def sendReply_failure)
qed

theorem refused_client_dialogue_witness:
  "cn_out (serve_conn sample_ext (sample_env Socks5PacketMethod\<lparr>px_newRequest := (\<lambda>c. (True, c\<lparr>st_bytes := []\<rparr>))\<rparr>)
     zero_Config sample_conn) = [5, 0, 5, 1, 0, 1, 0, 0, 0, 0, 0, 0]"
proof -
  let ?e = "sample_env Socks5PacketMethod\<lparr>px_newRequest := (\<lambda>c. (True, c\<lparr>st_bytes := []\<rparr>))\<rparr>"
  have "proxyConn sample_ext ?e zero_Config sample_conn = (Inl NoProxyPeer, sample_conn)"
    by (simp add: proxyConn_def zero_Config_def zero_SOCKS5Config_def)
  from refused_client_dialogue [OF this, of "[0]" "[5, 1, 0, 1, 9, 9, 9, 9, 0, 80]"] show ?thesis
    by (simp add: sample_conn_def)
qed

text \<open>
  Every accepted connection is handed on or closed, in the order of the accepts.
\<close>

lemma client_serve_accounts:
  assumes "client_serve es c = (ok, c')"
  shows "\<exists>d x. cl_delivered c' = cl_delivered c @ d \<and> cl_dropped c' = cl_dropped c @ x \<and>
     d = List.map_filter (\<lambda>ev. case ev of Accepted i True \<Rightarrow> Some i | _ \<Rightarrow> None) (takeWhile (\<lambda>ev. \<exists>i t. ev = Accepted i t) es) \<and>
     x = List.map_filter (\<lambda>ev. case ev of Accepted i False \<Rightarrow> Some i | _ \<Rightarrow> None) (takeWhile (\<lambda>ev. \<exists>i t. ev = Accepted i t) es)"
  using assms
proof (induction es c arbitrary: c' rule: client_serve.induct)
  case (3 i taken es c)
  then show ?case by (cases taken) (fastforce simp: map_filter_simps)+
qed (auto simp: map_filter_simps)

end
