(* ===== verification/Config_Defaults.thy ===== *)
theory Config_Defaults
  imports Net_Addr Awl_Dns
begin

text \<open>
  Where the configuration comes from: \<open>src/config/other.go\<close> (data directory, defaults, loading
  and importing), \<open>src/config/version.go\<close> and the remaining getters of
  \<open>src/config/config.go\<close>. The operating system is a record of its answers; the text of a
  configuration file is represented by the result of parsing it (\<open>Config_Json\<close> has the text). File paths are those of Unix.
\<close>

section \<open>Paths\<close>

text \<open>What the code uses of \<open>path/filepath\<close>: \<open>Clean\<close>, \<open>Join\<close> of two elements and \<open>Dir\<close>.\<close>

fun split_slash :: "string \<Rightarrow> string list" where
  "split_slash [] = [[]]"
| "split_slash (ch # s) =
     (if ch = CHR ''/'' then [] # split_slash s
      else case split_slash s of [] \<Rightarrow> [[ch]] | e # es \<Rightarrow> (ch # e) # es)"

fun clean_elems :: "bool \<Rightarrow> string list \<Rightarrow> string list \<Rightarrow> string list" where
  "clean_elems rooted out [] = rev out"
| "clean_elems rooted out (e # es) =
     (if e = [] \<or> e = ''.'' then clean_elems rooted out es
      else if e = ''..'' then
        (if out \<noteq> [] \<and> hd out \<noteq> ''..'' then clean_elems rooted (tl out) es
         else if rooted then clean_elems rooted out es
         else clean_elems rooted (e # out) es)
      else clean_elems rooted (e # out) es)"

fun join_slash :: "string list \<Rightarrow> string" where
  "join_slash [] = []"
| "join_slash [e] = e"
| "join_slash (e # es) = e @ CHR ''/'' # join_slash es"

definition path_Clean :: "string \<Rightarrow> string" where
  "path_Clean p =
     (if p = [] then ''.''
      else let rooted = (hd p = CHR ''/''); body = join_slash (clean_elems rooted [] (split_slash p))
      in if rooted then CHR ''/'' # body else if body = [] then ''.'' else body)"

definition path_Join :: "string \<Rightarrow> string \<Rightarrow> string" where
  "path_Join a b =
     (if a \<noteq> [] then path_Clean (a @ ''/'' @ b) else if b \<noteq> [] then path_Clean b else [])"

definition path_Dir :: "string \<Rightarrow> string" where
  "path_Dir p = path_Clean (rev (dropWhile (\<lambda>c. c \<noteq> CHR ''/'') (rev p)))"

section \<open>Data directory\<close>

definition AppConfigFilename :: string where
  "AppConfigFilename = ''config_awl.json''"

definition AppDataDirectory :: string where
  "AppDataDirectory = ''anywherelan''"

definition DhtPeerstoreDataDirectory :: string where
  "DhtPeerstoreDataDirectory = ''peerstore''"

text \<open>
  What the system answers: the variable \<open>AWL_DATA_DIR\<close>, the path of the executable, which
  files exist, the user's configuration directory and which directories can be created.
\<close>

record os_env =
  oe_dataDirEnv :: string
  oe_executable :: "string option"
  oe_exists :: "string \<Rightarrow> bool"
  oe_userConfigDir :: "string option"
  oe_mkdirOk :: "string \<Rightarrow> bool"

definition CalcAppDataDir :: "os_env \<Rightarrow> string" where
  "CalcAppDataDir e =
     (if oe_dataDirEnv e \<noteq> [] then oe_dataDirEnv e
      else
        let executableDir = (case oe_executable e of None \<Rightarrow> [] | Some ex \<Rightarrow> path_Dir ex)
        in if executableDir \<noteq> [] \<and> oe_exists e (path_Join executableDir AppConfigFilename) then executableDir
           else case oe_userConfigDir e of
             None \<Rightarrow> []
           | Some userConfigDir \<Rightarrow>
               let userDataDir = path_Join userConfigDir AppDataDirectory
               in if oe_mkdirOk e userDataDir then userDataDir else [])"

section \<open>Defaults\<close>

record def_env =
  de_os :: os_env
  de_GOOS :: string
  de_Version :: string
  de_ulower :: "nat \<Rightarrow> nat"

text \<open>The loop over the known peers; \<open>uniqAliases\<close> are the aliases given so far, \<open>None\<close> a panic.\<close>

fun default_peers :: "(nat \<Rightarrow> nat) \<Rightarrow> string list \<Rightarrow> string list \<Rightarrow> Config \<Rightarrow> Config option" where
  "default_peers ulower uniqAliases [] conf = Some conf"
| "default_peers ulower uniqAliases (peerID # ids) conf =
     (let peer = (case gm_get (c_KnownPeers conf) peerID of None \<Rightarrow> zero_KnownPeer | Some p \<Rightarrow> p);
          (newAlias, uniqAliases') = genUniqPeerAlias conf (kp_Name peer) (kp_Alias peer) (Some uniqAliases);
          p1 = (if newAlias \<noteq> kp_Alias peer then peer\<lparr>kp_Alias := newAlias\<rparr> else peer)
      in case (if kp_IPAddr p1 = [] then map_option (\<lambda>a. p1\<lparr>kp_IPAddr := a\<rparr>) (GenerateNextIpAddr conf) else Some p1) of
           None \<Rightarrow> None
         | Some p2 \<Rightarrow>
             let p3 = (if kp_DomainName p2 = [] then p2\<lparr>kp_DomainName := TrimDomainName ulower (DisplayName p2)\<rparr> else p2)
             in default_peers ulower uniqAliases' ids (conf\<lparr>c_KnownPeers := gm_set (c_KnownPeers conf) peerID p3\<rparr>))"

definition default_p2p :: "P2pNodeConfig \<Rightarrow> P2pNodeConfig" where
  "default_p2p n =
     n\<lparr>pn_ReconnectionIntervalSec := (if pn_ReconnectionIntervalSec n = 0 then 20 else pn_ReconnectionIntervalSec n),
       pn_ParallelSendingStreamsCount :=
         (if pn_ParallelSendingStreamsCount n = 0 then 1 else pn_ParallelSendingStreamsCount n)\<rparr>"

definition default_vpn :: "string \<Rightarrow> Config \<Rightarrow> Config" where
  "default_vpn goos c =
     (let net = (\<lambda>n c. c\<lparr>c_VPNConfig := (c_VPNConfig c)\<lparr>vc_IPNet := n\<rparr>\<rparr>);
          c1 = (if vc_IPNet (c_VPNConfig c) = [] then net DefaultVPNNetworkSubnet c else c);
          c2 = (if fst (VPNLocalIPMask c1) = [] then net DefaultVPNNetworkSubnet c1 else c1)
      in if vc_InterfaceName (c_VPNConfig c2) = []
         then c2\<lparr>c_VPNConfig := (c_VPNConfig c2)
                \<lparr>vc_InterfaceName := (if goos = ''darwin'' then ''utun'' else DefaultVPNInterfaceName)\<rparr>\<rparr>
         else c2)"

definition default_socks5 :: "SOCKS5Config \<Rightarrow> SOCKS5Config" where
  "default_socks5 s =
     (let s1 = (if s = zero_SOCKS5Config then s\<lparr>sc_ListenerEnabled := True, sc_ProxyingEnabled := True\<rparr> else s)
      in if sc_ListenAddress s1 = [] then s1\<lparr>sc_ListenAddress := defaultSOCKS5ListenAddress\<rparr> else s1)"

definition default_update :: "UpdateConfig \<Rightarrow> UpdateConfig" where
  "default_update u =
     (let u1 = (if uc_UpdateServerURL u = [] \<or> uc_UpdateServerURL u = ''http://example/example.json''
                then u\<lparr>uc_UpdateServerURL := ''https://build.anywherelan.com/repository/releases.json''\<rparr> else u);
          u2 = (if \<not> uc_TrayAutoCheckEnabled u1 \<and> uc_TrayAutoCheckInterval u1 = []
                then u1\<lparr>uc_TrayAutoCheckEnabled := True\<rparr> else u1)
      in if uc_TrayAutoCheckInterval u2 = [] \<or> uc_TrayAutoCheckInterval u2 = ''24h''
         then u2\<lparr>uc_TrayAutoCheckInterval := ''8h''\<rparr> else u2)"

definition default_head :: "def_env \<Rightarrow> Config \<Rightarrow> Config" where
  "default_head e conf =
     (let isEmptyConfig = (c_Version conf = []);
          c1 = conf\<lparr>c_Version := de_Version e, c_P2pNode := default_p2p (c_P2pNode conf),
            c_LoggerLevel := (if c_LoggerLevel conf = [] then ''info'' else c_LoggerLevel conf),
            c_HttpListenAddress := (if c_HttpListenAddress conf = [] then ''127.0.0.1:'' @ itoa DefaultHTTPPort
                                    else c_HttpListenAddress conf),
            c_HttpListenOnAdminHost := (isEmptyConfig \<or> c_HttpListenOnAdminHost conf)\<rparr>;
          c2 = default_vpn (de_GOOS e) c1
      in c2\<lparr>c_SOCKS5 := default_socks5 (c_SOCKS5 c2),
            c_DNS := (if dc_ListenAddress (c_DNS c2) = [] then (c_DNS c2)\<lparr>dc_ListenAddress := DefaultDNSAddress\<rparr>
                      else c_DNS c2)\<rparr>)"

definition default_tail :: "def_env \<Rightarrow> Config \<Rightarrow> Config" where
  "default_tail e c =
     c\<lparr>c_dataDir := (if c_dataDir c = [] then CalcAppDataDir (de_os e) else c_dataDir c),
       c_Update := default_update (c_Update c)\<rparr>"

text \<open>The keys are those of the map when the loop starts, in the map's order.\<close>

definition setDefaults :: "def_env \<Rightarrow> Config \<Rightarrow> Config option" where
  "setDefaults e conf =
     (let c1 = default_head e conf
      in map_option (default_tail e) (default_peers (de_ulower e) [] (map fst (c_KnownPeers c1)) c1))"

definition NewConfig :: "def_env \<Rightarrow> Config option" where
  "NewConfig e = setDefaults e zero_Config"

text \<open>
  Loading and importing. A file is what parsing it gives: \<open>Inl\<close> for text that is not a
  configuration. \<open>None\<close> is a panic.
\<close>

datatype load_error = ReadFailed | BadFormat | WriteFailed

type_synonym conf_file = "unit + Config"

definition LoadConfig :: "def_env \<Rightarrow> (string \<Rightarrow> conf_file option) \<Rightarrow> (load_error + Config) option" where
  "LoadConfig e files =
     (let dataDir = CalcAppDataDir (de_os e)
      in case files (path_Join dataDir AppConfigFilename) of
           None \<Rightarrow> Some (Inl ReadFailed)
         | Some (Inl _) \<Rightarrow> Some (Inl BadFormat)
         | Some (Inr conf) \<Rightarrow> map_option Inr (setDefaults e (conf\<lparr>c_dataDir := dataDir\<rparr>)))"

definition ImportConfig ::
    "(string \<Rightarrow> bool) \<Rightarrow> conf_file \<Rightarrow> string \<Rightarrow> (string \<Rightarrow> conf_file option) \<Rightarrow>
     load_error option \<times> (string \<Rightarrow> conf_file option)" where
  "ImportConfig writable data directory files =
     (case data of
        Inl _ \<Rightarrow> (Some BadFormat, files)
      | Inr _ \<Rightarrow>
          let path = path_Join directory AppConfigFilename
          in if writable path then (None, files(path \<mapsto> data)) else (Some WriteFailed, files))"

section \<open>Getters\<close>

definition config_path :: "Config \<Rightarrow> string" where
  "config_path c = path_Join (c_dataDir c) AppConfigFilename"

definition PeerstoreDir :: "Config \<Rightarrow> string" where
  "PeerstoreDir c = path_Join (c_dataDir c) DhtPeerstoreDataDirectory"

text \<open>\<open>None\<close> is the nil slice.\<close>

definition PrivKey :: "(string \<Rightarrow> byte list option) \<Rightarrow> Config \<Rightarrow> byte list option" where
  "PrivKey base58Decode c =
     (if pn_Identity (c_P2pNode c) = [] then None
      else case base58Decode (pn_Identity (c_P2pNode c)) of None \<Rightarrow> None | Some b \<Rightarrow> Some b)"

definition default_bootstrap_strings :: "string list" where
  "default_bootstrap_strings =
     [''/dnsaddr/rus-2.bootstrap.anywherelan.com/p2p/12D3KooWGRjpNYgFssihdgTDnr5rdhdh9ruMTbeT41h1fXfGmatZ'',
      ''/dnsaddr/ita-1.bootstrap.anywherelan.com/p2p/12D3KooWRXyTH7ZxerZRu6UtYQx62uCmYeZ244SsLQZbjuxX7RrL'',
      ''/dnsaddr/cze-1.bootstrap.anywherelan.com/p2p/12D3KooWJDDYCWbLYyCLTH16TFBZoxyDYD1Ypth2rtyznXYpnpza'',
      ''/dnsaddr/can-1.bootstrap.anywherelan.com/p2p/12D3KooWQeAvoyVnRm6T5XzWpKD8AzM1buzBL6o95iCodCZVQAsV'',
      ''/ip4/80.211.201.49/tcp/6150/p2p/12D3KooWJDDYCWbLYyCLTH16TFBZoxyDYD1Ypth2rtyznXYpnpza'',
      ''/ip4/80.211.201.49/udp/6150/quic-v1/p2p/12D3KooWJDDYCWbLYyCLTH16TFBZoxyDYD1Ypth2rtyznXYpnpza'',
      ''/ip4/167.114.152.120/tcp/6150/p2p/12D3KooWQeAvoyVnRm6T5XzWpKD8AzM1buzBL6o95iCodCZVQAsV'',
      ''/ip4/167.114.152.120/udp/6150/quic-v1/p2p/12D3KooWQeAvoyVnRm6T5XzWpKD8AzM1buzBL6o95iCodCZVQAsV'',
      ''/ip6/2607:5300:201:3100::6b5f/tcp/7250/p2p/12D3KooWQeAvoyVnRm6T5XzWpKD8AzM1buzBL6o95iCodCZVQAsV'',
      ''/ip6/2607:5300:201:3100::6b5f/udp/7250/quic-v1/p2p/12D3KooWQeAvoyVnRm6T5XzWpKD8AzM1buzBL6o95iCodCZVQAsV'',
      ''/ip4/45.67.230.223/tcp/6150/p2p/12D3KooWGRjpNYgFssihdgTDnr5rdhdh9ruMTbeT41h1fXfGmatZ'',
      ''/ip4/45.67.230.223/udp/6150/quic-v1/p2p/12D3KooWGRjpNYgFssihdgTDnr5rdhdh9ruMTbeT41h1fXfGmatZ'',
      ''/ip4/222.255.117.203/tcp/6150/p2p/12D3KooWRMFSvGstJEEZYuYq6jgZdByqwT5zpvFRZebZZbfp9XY1'',
      ''/ip4/222.255.117.203/udp/6150/quic-v1/p2p/12D3KooWRMFSvGstJEEZYuYq6jgZdByqwT5zpvFRZebZZbfp9XY1'']"

text \<open>
  Multiaddresses and their conversion to peer addresses are libp2p's: \<open>parse\<close> and \<open>infos\<close>.
\<close>

definition DefaultBootstrapPeers :: "(string \<Rightarrow> 'm option) \<Rightarrow> 'm list" where
  "DefaultBootstrapPeers parse = List.map_filter parse default_bootstrap_strings"

definition GetBootstrapPeers :: "(string \<Rightarrow> 'm option) \<Rightarrow> ('m list \<Rightarrow> 'i option) \<Rightarrow> Config \<Rightarrow> 'i option" where
  "GetBootstrapPeers parse infos c =
     (let own = List.map_filter parse (pn_BootstrapPeers (c_P2pNode c));
          ignoreDefault = (pn_IgnoreDefaultBootstrapPeers (c_P2pNode c) = Some True);
          allAddrs = (if ignoreDefault then own else own @ DefaultBootstrapPeers parse)
      in case infos allAddrs of
           Some i \<Rightarrow> Some i
         | None \<Rightarrow> infos (DefaultBootstrapPeers parse))"

definition GetListenAddresses :: "(string \<Rightarrow> 'm option) \<Rightarrow> Config \<Rightarrow> 'm list" where
  "GetListenAddresses parse c = List.map_filter parse (pn_ListenAddresses (c_P2pNode c))"

definition LogLevel :: "(string \<Rightarrow> 'l option) \<Rightarrow> 'l \<Rightarrow> Config \<Rightarrow> 'l" where
  \<comment> \<open>the level names are zap's: what \<open>Set\<close> makes of a name, and the info level it starts with\<close>
  "LogLevel set_level info c =
     (let level = (if c_LoggerLevel c = ''dev'' then ''debug'' else c_LoggerLevel c)
      in case set_level level of None \<Rightarrow> info | Some l \<Rightarrow> l)"

section \<open>Version\<close>

definition UserAgentPrefix :: string where
  "UserAgentPrefix = ''awl/''"

definition SystemInfo :: "string \<Rightarrow> string \<Rightarrow> string" where
  "SystemInfo goos goarch = goos @ ''-'' @ goarch"

definition UserAgent :: "string \<Rightarrow> string \<Rightarrow> string \<Rightarrow> string" where
  "UserAgent goos goarch version = UserAgentPrefix @ SystemInfo goos goarch @ ''/'' @ version"

definition IsDevVersion :: "string \<Rightarrow> bool" where
  "IsDevVersion version \<longleftrightarrow> version = ''dev''"

definition VersionFromUserAgent :: "string \<Rightarrow> string" where
  "VersionFromUserAgent userAgent =
     (case after_last (CHR ''/'') userAgent of None \<Rightarrow> [] | Some v \<Rightarrow> v)"

definition SystemInfoFromUserAgent :: "string \<Rightarrow> string \<times> string" where
  "SystemInfoFromUserAgent userAgent =
     (case Cut (TrimPrefix userAgent UserAgentPrefix) (CHR ''/'') of
        (systemInfo, _, ok) \<Rightarrow>
          if \<not> ok then ([], [])
          else case Cut systemInfo (CHR ''-'') of (goos, goarch, _) \<Rightarrow> (goos, goarch))"

section \<open>The loop over the known peers\<close>

text \<open>What the loop leaves of a peer, and when there is nothing left to do.\<close>

definition settled_peer :: "(nat \<Rightarrow> nat) \<Rightarrow> KnownPeer \<Rightarrow> bool" where
  "settled_peer ul p \<longleftrightarrow> kp_Alias p \<noteq> [] \<and> kp_IPAddr p \<noteq> [] \<and>
     (kp_DomainName p = [] \<longrightarrow> TrimDomainName ul (DisplayName p) = [])"

definition settled :: "(nat \<Rightarrow> nat) \<Rightarrow> Config \<Rightarrow> bool" where
  "settled ul c \<longleftrightarrow> (\<forall>(k, p) \<in> set (c_KnownPeers c). settled_peer ul p) \<and> alias_wf c"

lemma gm_set_same: "gm_get m k = Some v \<Longrightarrow> gm_set m k v = m"
  by (simp add: gm_get_def gm_set_def update_triv)

lemma gm_set_keys: "gm_get m k \<noteq> None \<Longrightarrow> map fst (gm_set m k v) = map fst m"
  by (auto simp: gm_get_def gm_set_def update_keys map_of_eq_None_iff image_iff dest: map_of_SomeD)

text \<open>A second run changes nothing.\<close>

lemma default_peers_settled:
  assumes "gm_wf (c_KnownPeers c)" and "settled ul c"
    and "distinct ks" and "set ks \<subseteq> fst ` set (c_KnownPeers c)"
    and "\<And>k p. k \<in> set ks \<Longrightarrow> (k, p) \<in> set (c_KnownPeers c) \<Longrightarrow> kp_Alias p \<notin> set taken"
  shows "default_peers ul taken ks c = Some c"
  using assms(3-)
proof (induction ks arbitrary: taken)
  case Nil
  then show ?case by simp
next
  case (Cons k ks)
  then obtain p where p: "(k, p) \<in> set (c_KnownPeers c)" by auto
  then have get: "gm_get (c_KnownPeers c) k = Some p" using assms(1) by (simp add: gm_get_iff)
  have s: "settled_peer ul p" using assms(2) p by (auto simp: settled_def)
  have fresh: "kp_Alias p \<notin> set taken" using Cons.prems(3) [OF _ p] by simp
  have gen: "genUniqPeerAlias c (kp_Name p) (kp_Alias p) (Some taken) = (kp_Alias p, kp_Alias p # taken)"
    using fresh s by (simp add: genUniqPeerAlias_def settled_peer_def Let_def)
  have same: "c\<lparr>c_KnownPeers := gm_set (c_KnownPeers c) k p\<rparr> = c" using get by (simp add: gm_set_same)
  have dom: "p\<lparr>kp_DomainName := []\<rparr> = p" if "kp_DomainName p = []" using that by (cases p) simp
  have "kp_Alias q \<noteq> kp_Alias p" if "j \<in> set ks" "(j, q) \<in> set (c_KnownPeers c)" for j q
    using that p assms(2) Cons.prems(1) by (fastforce simp: settled_def alias_wf_def)
  with Cons.prems have "default_peers ul (kp_Alias p # taken) ks c = Some c"
    by (intro Cons.IH) auto
  then show ?case using get gen s same
    by (cases "kp_DomainName p = []") (simp_all add: settled_peer_def Let_def dom)
qed

text \<open>One round of the loop for a stored peer.\<close>

definition kept_fields :: "KnownPeer \<Rightarrow> KnownPeer \<Rightarrow> bool" where
  "kept_fields p q \<longleftrightarrow> q = p\<lparr>kp_Alias := kp_Alias q, kp_IPAddr := kp_IPAddr q, kp_DomainName := kp_DomainName q\<rparr> \<and>
     (kp_IPAddr p \<noteq> [] \<longrightarrow> kp_IPAddr q = kp_IPAddr p) \<and> (kp_DomainName p \<noteq> [] \<longrightarrow> kp_DomainName q = kp_DomainName p)"

lemma Generate_not_Nil: "GenerateNextIpAddr c = Some a \<Longrightarrow> a \<noteq> []"
  using Generate_fresh_total [of c "[]"]
  by (auto simp: GenerateNextIpAddr_def GenerateNextIpAddrExcept_def ip4_String_def split: if_splits)

lemma default_peers_Cons:
  assumes "fst (VPNLocalIPMask c) \<noteq> []" and "gm_get (c_KnownPeers c) k = Some p"
  shows "\<exists>q. settled_peer ul q \<and> kept_fields p q \<and> kp_Alias q \<notin> set taken \<and>
     default_peers ul taken (k # ks) c =
       default_peers ul (kp_Alias q # taken) ks (c\<lparr>c_KnownPeers := gm_set (c_KnownPeers c) k q\<rparr>)"
proof -
  obtain a taken' where gen: "genUniqPeerAlias c (kp_Name p) (kp_Alias p) (Some taken) = (a, taken')" by fastforce
  have a: "a \<notin> set taken" "taken' = a # taken" "a \<noteq> []" using genUniqPeerAlias_fresh [OF gen] by auto
  let ?p1 = "if a \<noteq> kp_Alias p then p\<lparr>kp_Alias := a\<rparr> else p"
  have p1: "?p1 = p\<lparr>kp_Alias := a\<rparr>" by simp
  obtain ip where ip: "GenerateNextIpAddr c = Some ip" "ip \<noteq> []"
    using Generate_fresh_total [of c "[]"] assms(1) Generate_not_Nil [of c] by (auto simp: GenerateNextIpAddr_def)
  let ?p2 = "p\<lparr>kp_Alias := a, kp_IPAddr := (if kp_IPAddr p = [] then ip else kp_IPAddr p)\<rparr>"
  have p2: "(if kp_IPAddr ?p1 = [] then map_option (\<lambda>a. ?p1\<lparr>kp_IPAddr := a\<rparr>) (GenerateNextIpAddr c) else Some ?p1) = Some ?p2"
    by (simp add: ip)
  let ?q = "if kp_DomainName ?p2 = [] then ?p2\<lparr>kp_DomainName := TrimDomainName ul (DisplayName ?p2)\<rparr> else ?p2"
  have "settled_peer ul ?q" using a ip by (simp add: settled_peer_def DisplayName_def)
  moreover have "kept_fields p ?q" by (simp add: kept_fields_def)
  moreover have "kp_Alias ?q = a" by simp
  ultimately show ?thesis using a gen p2 assms(2)
    by (intro exI [of _ ?q]) (simp add: Let_def del: if_split)
qed

definition loop_result :: "(nat \<Rightarrow> nat) \<Rightarrow> string list \<Rightarrow> string list \<Rightarrow>
    (string, KnownPeer) gomap \<Rightarrow> (string, KnownPeer) gomap \<Rightarrow> bool" where
  "loop_result ul taken ks m m' \<longleftrightarrow>
     map fst m' = map fst m \<and>
     (\<forall>k. if k \<in> set ks then \<exists>p q. gm_get m k = Some p \<and> gm_get m' k = Some q \<and> settled_peer ul q \<and>
             kept_fields p q \<and> kp_Alias q \<notin> set taken
           else gm_get m' k = gm_get m k) \<and>
     (\<forall>k \<in> set ks. \<forall>k' \<in> set ks. \<forall>q q'. gm_get m' k = Some q \<and> gm_get m' k' = Some q' \<and>
        kp_Alias q = kp_Alias q' \<longrightarrow> k = k')"

lemma loop_result_Cons:
  assumes "gm_get m k = Some p" and "settled_peer ul q" and "kept_fields p q" and "kp_Alias q \<notin> set taken"
    and "k \<notin> set ks" and "loop_result ul (kp_Alias q # taken) ks (gm_set m k q) m'"
  shows "loop_result ul taken (k # ks) m m'"
proof -
  have keys: "map fst m' = map fst m" using assms(1,6) by (simp add: loop_result_def gm_set_keys)
  have k: "gm_get m' k = Some q" using assms(5,6) by (simp add: loop_result_def gm.get_put)
  have other: "if j \<in> set ks then \<exists>p q'. gm_get m j = Some p \<and> gm_get m' j = Some q' \<and> settled_peer ul q' \<and>
      kept_fields p q' \<and> kp_Alias q' \<notin> set (kp_Alias q # taken) else gm_get m' j = gm_get (gm_set m k q) j" for j
    using assms(5,6) by (auto simp: loop_result_def gm.get_put split: if_splits)
  have "if j \<in> set (k # ks) then \<exists>p q. gm_get m j = Some p \<and> gm_get m' j = Some q \<and> settled_peer ul q \<and>
      kept_fields p q \<and> kp_Alias q \<notin> set taken else gm_get m' j = gm_get m j" for j
    using other [of j] k assms(1-5) by (auto simp: gm.get_put split: if_splits)
  moreover have "j = j'" if "j \<in> set (k # ks)" "j' \<in> set (k # ks)" "gm_get m' j = Some r" "gm_get m' j' = Some r'"
    "kp_Alias r = kp_Alias r'" for j j' r r'
    using that other [of j] other [of j'] k assms(5,6) by (fastforce simp: loop_result_def split: if_splits)
  ultimately show ?thesis using keys unfolding loop_result_def by blast
qed

lemma default_peers_result:
  assumes "gm_wf (c_KnownPeers c)" and "fst (VPNLocalIPMask c) \<noteq> []"
    and "distinct ks" and "set ks \<subseteq> fst ` set (c_KnownPeers c)"
  shows "\<exists>m'. default_peers ul taken ks c = Some (c\<lparr>c_KnownPeers := m'\<rparr>) \<and>
     loop_result ul taken ks (c_KnownPeers c) m'"
  using assms
proof (induction ks arbitrary: taken c)
  case Nil
  have "c = c\<lparr>c_KnownPeers := c_KnownPeers c\<rparr>" by simp
  then show ?case by (intro exI [of _ "c_KnownPeers c"]) (simp add: loop_result_def)
next
  case (Cons k ks)
  then obtain p where "(k, p) \<in> set (c_KnownPeers c)" by auto
  then have get: "gm_get (c_KnownPeers c) k = Some p" using Cons.prems(1) by (simp add: gm_get_iff)
  obtain q where q: "settled_peer ul q" "kept_fields p q" "kp_Alias q \<notin> set taken"
    and step: "default_peers ul taken (k # ks) c =
       default_peers ul (kp_Alias q # taken) ks (c\<lparr>c_KnownPeers := gm_set (c_KnownPeers c) k q\<rparr>)"
    using default_peers_Cons [OF Cons.prems(2) get, of ul taken ks] by blast
  let ?c = "c\<lparr>c_KnownPeers := gm_set (c_KnownPeers c) k q\<rparr>"
  have "gm_wf (c_KnownPeers ?c)" using Cons.prems(1) by (simp add: gm.wf_put)
  moreover have "fst (VPNLocalIPMask ?c) \<noteq> []" using Cons.prems(2) by (simp add: VPNLocalIPMask_def)
  moreover have "distinct ks" using Cons.prems(3) by simp
  moreover have "set ks \<subseteq> fst ` set (c_KnownPeers ?c)"
    using Cons.prems(4) arg_cong [OF gm_set_keys [of "c_KnownPeers c" k q], of set] get by simp
  ultimately obtain m' where m': "default_peers ul (kp_Alias q # taken) ks ?c = Some (?c\<lparr>c_KnownPeers := m'\<rparr>)"
    "loop_result ul (kp_Alias q # taken) ks (c_KnownPeers ?c) m'"
    using Cons.IH [of ?c "kp_Alias q # taken"] by blast
  have "loop_result ul taken (k # ks) (c_KnownPeers c) m'"
    using loop_result_Cons [OF get q] m'(2) Cons.prems(3) by simp
  with m'(1) step show ?case by (intro exI [of _ m']) simp
qed

section \<open>Defaults are settled\<close>

lemma default_vpn_local: "fst (VPNLocalIPMask (default_vpn goos c)) \<noteq> []"
proof -
  have "ParseCIDR DefaultVPNNetworkSubnet = Some ([0,0,0,0,0,0,0,0,0,0,255,255,10,66,0,1],
      \<lparr>net_IP = [10,66,0,0], net_Mask = [255,255,255,0]\<rparr>)" by code_simp
  moreover have "To4 [0,0,0,0,0,0,0,0,0,0,255,255,10,66,0,1] = [10,66,0,1]" by code_simp
  ultimately show ?thesis by (simp add: default_vpn_def Let_def VPNLocalIPMask_def split: option.split)
qed

lemma default_vpn_idem: "default_vpn goos (default_vpn goos c) = default_vpn goos c"
proof -
  have "vc_IPNet (c_VPNConfig (default_vpn goos c)) \<noteq> []"
    by (simp add: default_vpn_def Let_def DefaultVPNNetworkSubnet_def)
  moreover have "vc_InterfaceName (c_VPNConfig (default_vpn goos c)) \<noteq> []"
    by (simp add: default_vpn_def Let_def DefaultVPNInterfaceName_def)
  ultimately show ?thesis
    using default_vpn_local [of goos c] by (subst default_vpn_def) (simp add: Let_def)
qed

lemma default_small_idem [simp]:
  "default_p2p (default_p2p n) = default_p2p n" "default_socks5 (default_socks5 s) = default_socks5 s"
  "default_update (default_update u) = default_update u"
proof -
  show "default_p2p (default_p2p n) = default_p2p n" by (simp add: default_p2p_def)
  have "sc_ListenAddress (default_socks5 s) \<noteq> []"
    by (simp add: default_socks5_def Let_def defaultSOCKS5ListenAddress_def)
  then show "default_socks5 (default_socks5 s) = default_socks5 s"
    by (subst default_socks5_def) (auto simp: Let_def zero_SOCKS5Config_def)
  have "uc_UpdateServerURL (default_update u) \<noteq> []" "uc_UpdateServerURL (default_update u) \<noteq> ''http://example/example.json''"
    "uc_TrayAutoCheckInterval (default_update u) \<noteq> []" "uc_TrayAutoCheckInterval (default_update u) \<noteq> ''24h''"
    by (simp_all add: default_update_def Let_def)
  then show "default_update (default_update u) = default_update u"
    by (subst default_update_def) (simp add: Let_def)
qed

lemma default_vpn_other [simp]:
  "c_KnownPeers (default_vpn g c) = c_KnownPeers c" "c_BlockedPeers (default_vpn g c) = c_BlockedPeers c"
  "c_P2pNode (default_vpn g c) = c_P2pNode c" "c_SOCKS5 (default_vpn g c) = c_SOCKS5 c" "c_DNS (default_vpn g c) = c_DNS c"
  "c_Version (default_vpn g c) = c_Version c" "c_LoggerLevel (default_vpn g c) = c_LoggerLevel c"
  "c_HttpListenAddress (default_vpn g c) = c_HttpListenAddress c" "c_dataDir (default_vpn g c) = c_dataDir c"
  "c_HttpListenOnAdminHost (default_vpn g c) = c_HttpListenOnAdminHost c" "c_Update (default_vpn g c) = c_Update c"
  by (simp_all add: default_vpn_def Let_def)

text \<open>What \<open>setDefaults\<close> does to the whole configuration, given the new known peers.\<close>

definition defaulted :: "def_env \<Rightarrow> Config \<Rightarrow> (string, KnownPeer) gomap \<Rightarrow> Config" where
  "defaulted e c m = default_tail e ((default_head e c)\<lparr>c_KnownPeers := m\<rparr>)"

lemma default_head_known [simp]: "c_KnownPeers (default_head e c) = c_KnownPeers c"
  "c_BlockedPeers (default_head e c) = c_BlockedPeers c"
  by (simp_all add: default_head_def Let_def)

lemma VPNLocalIPMask_cong: "c_VPNConfig c = c_VPNConfig d \<Longrightarrow> VPNLocalIPMask c = VPNLocalIPMask d"
  by (simp add: VPNLocalIPMask_def)

lemma default_head_local: "fst (VPNLocalIPMask (default_head e c)) \<noteq> []"
  unfolding default_head_def Let_def
  by (subst VPNLocalIPMask_cong [of _ "default_vpn (de_GOOS e) _"]) (simp, rule default_vpn_local)

lemma setDefaults_result:
  assumes "gm_wf (c_KnownPeers c)"
  shows "\<exists>m'. setDefaults e c = Some (defaulted e c m') \<and>
     loop_result (de_ulower e) [] (map fst (c_KnownPeers c)) (c_KnownPeers c) m'"
  using default_peers_result [of "default_head e c" "map fst (c_KnownPeers c)" "de_ulower e" "[]"] assms default_head_local
  by (auto simp: setDefaults_def Let_def defaulted_def gm_wf_def)

lemma loop_result_settled:
  assumes "gm_wf m" and "loop_result ul taken (map fst m) m m'"
  shows "gm_wf m' \<and> settled ul (c\<lparr>c_KnownPeers := m'\<rparr>)"
proof -
  have wf: "gm_wf m'" using assms by (simp add: gm_wf_def loop_result_def)
  have in_keys: "k \<in> set (map fst m)" if "(k, q) \<in> set m'" for k q
  proof -
    have "k \<in> set (map fst m')" using that by force
    then show ?thesis using assms(2) by (simp add: loop_result_def del: set_map)
  qed
  have "settled_peer ul q" if "(k, q) \<in> set m'" for k q
    using in_keys [OF that] assms(2) that unfolding loop_result_def gm_get_iff [OF wf, symmetric] by (metis option.inject)
  moreover have "k = k'" if "(k, q) \<in> set m'" "(k', q') \<in> set m'" "kp_Alias q = kp_Alias q'" for k q k' q'
    using in_keys [OF that(1)] in_keys [OF that(2)] assms(2) that wf unfolding loop_result_def gm_get_iff [OF wf, symmetric]
    by blast
  ultimately show ?thesis using wf by (auto simp: settled_def alias_wf_def)
qed

lemma default_head_idem:
  assumes "de_Version e \<noteq> []"
  shows "default_head e (defaulted e c m) = defaulted e c m"
proof -
  let ?c1 = "c\<lparr>c_Version := de_Version e, c_P2pNode := default_p2p (c_P2pNode c),
            c_LoggerLevel := (if c_LoggerLevel c = [] then ''info'' else c_LoggerLevel c),
            c_HttpListenAddress := (if c_HttpListenAddress c = [] then ''127.0.0.1:'' @ itoa DefaultHTTPPort
                                    else c_HttpListenAddress c),
            c_HttpListenOnAdminHost := (c_Version c = [] \<or> c_HttpListenOnAdminHost c)\<rparr>"
  let ?d = "defaulted e c m"
  have vpn: "default_vpn (de_GOOS e) ?d = ?d"
  proof -
    have v: "c_VPNConfig ?d = c_VPNConfig (default_vpn (de_GOOS e) ?c1)"
      by (simp add: defaulted_def default_head_def default_tail_def Let_def)
    then have "fst (VPNLocalIPMask ?d) \<noteq> []"
      using default_vpn_local [of "de_GOOS e" ?c1] VPNLocalIPMask_cong [OF v] by simp
    moreover have "vc_IPNet (c_VPNConfig ?d) \<noteq> []" "vc_InterfaceName (c_VPNConfig ?d) \<noteq> []"
      unfolding v by (simp_all add: default_vpn_def Let_def DefaultVPNNetworkSubnet_def DefaultVPNInterfaceName_def)
    ultimately show ?thesis by (simp add: default_vpn_def Let_def)
  qed
  have fields: "c_Version ?d = de_Version e" "default_p2p (c_P2pNode ?d) = c_P2pNode ?d" "c_LoggerLevel ?d \<noteq> []"
    "c_HttpListenAddress ?d \<noteq> []" "default_socks5 (c_SOCKS5 ?d) = c_SOCKS5 ?d" "dc_ListenAddress (c_DNS ?d) \<noteq> []"
    by (simp_all add: defaulted_def default_head_def default_tail_def Let_def DefaultDNSAddress_def)
  then have "?d\<lparr>c_Version := de_Version e, c_P2pNode := default_p2p (c_P2pNode ?d),
            c_LoggerLevel := (if c_LoggerLevel ?d = [] then ''info'' else c_LoggerLevel ?d),
            c_HttpListenAddress := (if c_HttpListenAddress ?d = [] then ''127.0.0.1:'' @ itoa DefaultHTTPPort
                                    else c_HttpListenAddress ?d),
            c_HttpListenOnAdminHost := (c_Version ?d = [] \<or> c_HttpListenOnAdminHost ?d)\<rparr> = ?d"
    using assms by simp
  then show ?thesis using fields vpn by (subst default_head_def) (simp add: Let_def)
qed

lemma default_tail_idem: "default_tail e (default_tail e c) = default_tail e c"
  by (simp add: default_tail_def)

lemma settled_defaulted: "settled ul (defaulted e c m) = settled ul (c\<lparr>c_KnownPeers := m\<rparr>)"
  by (simp add: settled_def defaulted_def default_tail_def alias_wf_def)

lemma setDefaults_settled:
  assumes "de_Version e \<noteq> []" and "gm_wf m" and "settled (de_ulower e) (defaulted e c m)"
  shows "setDefaults e (defaulted e c m) = Some (defaulted e c m)"
proof -
  let ?d = "defaulted e c m"
  have "c_KnownPeers ?d = m" by (simp add: defaulted_def default_tail_def)
  then have "default_peers (de_ulower e) [] (map fst (c_KnownPeers ?d)) ?d = Some ?d"
    using assms(2,3) by (intro default_peers_settled) (auto simp: gm_wf_def)
  moreover have "default_tail e ?d = ?d" by (simp add: defaulted_def default_tail_idem)
  ultimately show ?thesis using default_head_idem [OF assms(1)] by (simp add: setDefaults_def Let_def)
qed

lemma setDefaults_defaulted:
  assumes "gm_wf (c_KnownPeers c)" and "setDefaults e c = Some c'"
  obtains m where "c' = defaulted e c m" "gm_wf m" "settled (de_ulower e) c'"
  using setDefaults_result [OF assms(1), of e] assms loop_result_settled [OF assms(1), of "de_ulower e" "[]"]
  by (auto simp: settled_defaulted)

lemma setDefaults_idem:
  assumes "de_Version e \<noteq> []" and "gm_wf (c_KnownPeers c)" and "setDefaults e c = Some c'"
  shows "setDefaults e c' = Some c'"
  using setDefaults_defaulted [OF assms(2,3)] setDefaults_settled [OF assms(1)] by metis

section \<open>Properties\<close>

text \<open>
  C13. \<open>setDefaults\<close> never panics, whatever the file held: afterwards the VPN has a valid IPv4
  address, every known peer still is there with an alias of its own, an address, and otherwise
  what it had, blocked peers are untouched, and a second run changes nothing.
\<close>

theorem setDefaults_settles:
  assumes "gm_wf (c_KnownPeers c)" and "de_Version e \<noteq> []"
  shows "\<exists>c'. setDefaults e c = Some c' \<and> fst (VPNLocalIPMask c') \<noteq> [] \<and> alias_wf c' \<and>
     map fst (c_KnownPeers c') = map fst (c_KnownPeers c) \<and> c_BlockedPeers c' = c_BlockedPeers c \<and>
     (\<forall>k p. GetPeer c k = Some p \<longrightarrow>
        (\<exists>q. GetPeer c' k = Some q \<and> kp_Alias q \<noteq> [] \<and> kp_IPAddr q \<noteq> [] \<and> kept_fields p q)) \<and>
     setDefaults e c' = Some c'"
proof -
  obtain m' where m': "setDefaults e c = Some (defaulted e c m')"
    "loop_result (de_ulower e) [] (map fst (c_KnownPeers c)) (c_KnownPeers c) m'"
    using setDefaults_result [OF assms(1), of e] by auto
  let ?d = "defaulted e c m'"
  have d: "c_KnownPeers ?d = m'" "c_BlockedPeers ?d = c_BlockedPeers c" "c_VPNConfig ?d = c_VPNConfig (default_head e c)"
    by (simp_all add: defaulted_def default_tail_def)
  have "fst (VPNLocalIPMask ?d) \<noteq> []" using VPNLocalIPMask_cong [OF d(3)] default_head_local by simp
  moreover have "alias_wf ?d"
    using loop_result_settled [OF assms(1) m'(2), of ?d] d(1) by (simp add: settled_def alias_wf_def)
  moreover have "\<exists>q. GetPeer ?d k = Some q \<and> kp_Alias q \<noteq> [] \<and> kp_IPAddr q \<noteq> [] \<and> kept_fields p q" if "GetPeer c k = Some p" for k p
  proof -
    have "k \<in> set (map fst (c_KnownPeers c))" using that gm_get_Some_in [of "c_KnownPeers c" k p] by (force simp: GetPeer_def)
    then obtain p' q where "gm_get (c_KnownPeers c) k = Some p'" "gm_get m' k = Some q" "settled_peer (de_ulower e) q"
      "kept_fields p' q" using m'(2) unfolding loop_result_def by (metis (no_types))
    with that show ?thesis by (simp add: GetPeer_def d(1) settled_peer_def)
  qed
  ultimately show ?thesis
    using m' d setDefaults_idem [OF assms(2,1) m'(1)] by (intro exI [of _ ?d]) (simp add: loop_result_def)
qed

definition sample_os :: os_env where
  "sample_os = \<lparr>oe_dataDirEnv = [], oe_executable = Some ''/usr/bin/awl'', oe_exists = (\<lambda>_. False),
     oe_userConfigDir = Some ''/home/u/.config/'', oe_mkdirOk = (\<lambda>_. True)\<rparr>"

definition sample_def_env :: def_env where
  "sample_def_env = \<lparr>de_os = sample_os, de_GOOS = ''linux'', de_Version = ''dev'', de_ulower = id\<rparr>"

theorem setDefaults_settles_witness:
  "\<exists>c'. setDefaults sample_def_env (zero_Config\<lparr>c_KnownPeers := [(''a'', zero_KnownPeer), (''b'', zero_KnownPeer)]\<rparr>) = Some c' \<and>
     alias_wf c' \<and> setDefaults sample_def_env c' = Some c'"
proof -
  have "gm_wf (c_KnownPeers (zero_Config\<lparr>c_KnownPeers := [(''a'', zero_KnownPeer), (''b'', zero_KnownPeer)]\<rparr>))"
    "de_Version sample_def_env \<noteq> []" by (simp_all add: gm_wf_def sample_def_env_def)
  from setDefaults_settles [OF this] show ?thesis by blast
qed

text \<open>
  The version and the system of a user agent built by the program are read back from it.
\<close>

theorem user_agent_roundtrip:
  assumes "CHR ''/'' \<notin> set goos \<union> set goarch \<union> set version" and "CHR ''-'' \<notin> set goos"
  shows "VersionFromUserAgent (UserAgent goos goarch version) = version \<and>
     SystemInfoFromUserAgent (UserAgent goos goarch version) = (goos, goarch)"
proof -
  have "UserAgent goos goarch version = (''awl/'' @ goos @ ''-'' @ goarch) @ CHR ''/'' # version"
    by (simp add: UserAgent_def UserAgentPrefix_def SystemInfo_def)
  then have "VersionFromUserAgent (UserAgent goos goarch version) = version"
    using assms after_last_append [of "CHR ''/''" version "''awl/'' @ goos @ ''-'' @ goarch"]
    by (simp add: VersionFromUserAgent_def)
  moreover have "Cut (TrimPrefix (UserAgent goos goarch version) UserAgentPrefix) (CHR ''/'') = (goos @ CHR ''-'' # goarch, version, True)"
    using assms Cut_found [of "CHR ''/''" "goos @ CHR ''-'' # goarch" version]
    by (simp add: UserAgent_def SystemInfo_def)
  ultimately show ?thesis
    using assms Cut_found [of "CHR ''-''" goos goarch] by (simp add: SystemInfoFromUserAgent_def)
qed

theorem user_agent_roundtrip_witness:
  "VersionFromUserAgent (UserAgent ''linux'' ''amd64'' ''v0.12'') = ''v0.12'' \<and>
   SystemInfoFromUserAgent (UserAgent ''linux'' ''amd64'' ''v0.12'') = (''linux'', ''amd64'')"
  by (rule user_agent_roundtrip) simp_all

end
