(* ===== verification/Awl_Api.thy ===== *)
theory Awl_Api
  imports Socks5_Proxy Config_Defaults
begin

text \<open>
  The HTTP handlers of \<open>src/api/peers.go\<close> and \<open>src/api/settings.go\<close> with their messages from
  \<open>src/entity/api.go\<close>. A handler is a function of the decoded request (\<open>None\<close> when it cannot be
  decoded) and of the service's state; it returns the response and the goroutines it starts.
  Echo, the validator's own rules and what libp2p knows of a peer are arguments.
\<close>

section \<open>Messages\<close>

record FriendRequest =
  fr_PeerID :: string
  fr_Alias :: string
  fr_IPAddr :: string

record FriendRequestReply = FriendRequest +
  fr_Decline :: bool

record UpdatePeerSettingsRequest =
  up_PeerID :: string
  up_Alias :: string
  up_DomainName :: string
  up_IPAddr :: string
  up_AllowUsingAsExitNode :: bool

record KnownPeersResponse =
  kr_PeerID :: string
  kr_Name :: string
  kr_DisplayName :: string
  kr_Alias :: string
  kr_Version :: string
  kr_IpAddr :: string
  kr_DomainName :: string
  kr_Connected :: bool
  kr_Confirmed :: bool
  kr_Declined :: bool
  kr_WeAllowUsingAsExitNode :: bool
  kr_AllowedUsingAsExitNode :: bool
  kr_ReportedUsingPeerID :: string
  kr_ReportedUsingPeerName :: string
  kr_LastSeen :: nat

record AuthRequest =
  ar_PeerID :: string
  ar_AuthPeer :: AuthPeer
  ar_SuggestedIP :: string

record VPNInfo =
  vi_VPNInterfaceEnabled :: bool
  vi_InterfaceName :: string
  vi_IPNet :: string

record SOCKS5Info =
  si_ListenAddress :: string
  si_ProxyingEnabled :: bool
  si_ListenerEnabled :: bool
  si_UsingPeerID :: string
  si_UsingPeerName :: string

text \<open>What the peer's own information takes from libp2p and the DNS service.\<close>

record node_stats =
  ns_Uptime :: int
  ns_TotalBootstrapPeers :: int
  ns_ConnectedBootstrapPeers :: int
  ns_Reachability :: string
  ns_AwlDNSAddress :: string
  ns_IsAwlDNSSetAsSystem :: bool

record PeerInfo = node_stats +
  pi_PeerID :: string
  pi_Name :: string
  pi_ServerVersion :: string
  pi_VPN :: VPNInfo
  pi_SOCKS5 :: SOCKS5Info

datatype api_error =
  BindFailed | Invalid | InvalidDomainName | PeerNotFound | ErrorPeerAliasIsNotUniq | IPRefused ip_error
| InvalidPeerID | CannotAddYourself | NoFriendRequest | AddFailed add_error | NotAnExitNode

datatype 'a response = Resp200 'a | Resp400 api_error | Resp404 api_error

datatype api_task = ServiceTask task | ExchangeWithAll

section \<open>Validation\<close>

text \<open>The validator's rules for \<open>required\<close> and \<open>ipv4\<close>.\<close>

record validator =
  vd_required :: "string \<Rightarrow> bool"
  vd_ipv4 :: "string \<Rightarrow> bool"

definition validateTrimmedStringNotEmpty :: "string \<Rightarrow> bool" where
  "validateTrimmedStringNotEmpty str \<longleftrightarrow> 0 < length (TrimSpace str)"

definition valid_friend :: "validator \<Rightarrow> 'a FriendRequest_scheme \<Rightarrow> bool" where
  "valid_friend v r \<longleftrightarrow>
     vd_required v (fr_PeerID r) \<and> vd_required v (fr_Alias r) \<and> validateTrimmedStringNotEmpty (fr_Alias r) \<and>
     (fr_IPAddr r = [] \<or> vd_ipv4 v (fr_IPAddr r))"

definition valid_update :: "validator \<Rightarrow> UpdatePeerSettingsRequest \<Rightarrow> bool" where
  "valid_update v r \<longleftrightarrow>
     vd_required v (up_PeerID r) \<and> vd_required v (up_Alias r) \<and> validateTrimmedStringNotEmpty (up_Alias r) \<and>
     vd_required v (up_DomainName r) \<and> validateTrimmedStringNotEmpty (up_DomainName r) \<and>
     vd_required v (up_IPAddr r) \<and> vd_ipv4 v (up_IPAddr r)"

section \<open>Peers\<close>

text \<open>What libp2p knows of a peer.\<close>

record p2p_view =
  pv_UserAgent :: "string \<Rightarrow> string"
  pv_IsConnected :: "string \<Rightarrow> bool"

definition peer_response :: "externals \<Rightarrow> p2p_view \<Rightarrow> Config \<Rightarrow> string \<Rightarrow> KnownPeersResponse" where
  "peer_response x v c peerID =
     (let knownPeer = (case GetPeer c peerID of None \<Rightarrow> zero_KnownPeer | Some p \<Rightarrow> p);
          i = PeerId (x_Decode x) knownPeer;
          reported = kp_ReportedUsingPeerID knownPeer
      in \<lparr>kr_PeerID = peerID, kr_Name = DisplayName knownPeer, kr_DisplayName = DisplayName knownPeer,
          kr_Alias = kp_Alias knownPeer, kr_Version = VersionFromUserAgent (pv_UserAgent v i),
          kr_IpAddr = kp_IPAddr knownPeer, kr_DomainName = kp_DomainName knownPeer,
          kr_Connected = pv_IsConnected v i, kr_Confirmed = kp_Confirmed knownPeer, kr_Declined = kp_Declined knownPeer,
          kr_WeAllowUsingAsExitNode = kp_WeAllowUsingAsExitNode knownPeer,
          kr_AllowedUsingAsExitNode = kp_AllowedUsingAsExitNode knownPeer,
          kr_ReportedUsingPeerID = reported,
          kr_ReportedUsingPeerName =
            (if reported \<noteq> [] then (case GetPeer c reported of None \<Rightarrow> [] | Some p \<Rightarrow> DisplayName p) else []),
          kr_LastSeen = kp_LastSeen knownPeer\<rparr>)"

definition getKnownPeers :: "externals \<Rightarrow> p2p_view \<Rightarrow> Config \<Rightarrow> KnownPeersResponse list" where
  "getKnownPeers x v c =
     (let peers = sort (map fst (c_KnownPeers c))
      in sort_key (\<lambda>r. \<not> kr_Connected r) (map (peer_response x v c) peers))"

definition GetKnownPeerSettings :: "validator \<Rightarrow> string option \<Rightarrow> Config \<Rightarrow> KnownPeer response" where
  "GetKnownPeerSettings vd req c =
     (case req of
        None \<Rightarrow> Resp400 BindFailed
      | Some peerID \<Rightarrow>
          if \<not> vd_required vd peerID then Resp400 Invalid
          else case GetPeer c peerID of None \<Rightarrow> Resp404 PeerNotFound | Some p \<Rightarrow> Resp200 p)"

text \<open>
  \<open>mid\<close> is what other goroutines do between the reads and the handler's lock; a panic of the
  address check is \<open>None\<close>.
\<close>

definition UpdatePeerSettings ::
    "validator \<Rightarrow> (string \<Rightarrow> bool) \<Rightarrow> externals \<Rightarrow> (AuthStatus \<Rightarrow> AuthStatus) \<Rightarrow> UpdatePeerSettingsRequest option \<Rightarrow>
     AuthStatus \<Rightarrow> (unit response \<times> api_task list \<times> AuthStatus) option" where
  "UpdatePeerSettings vd isDomainName x mid req s =
     (case req of
        None \<Rightarrow> Some (Resp400 BindFailed, [], s)
      | Some r \<Rightarrow>
          if \<not> valid_update vd r then Some (Resp400 Invalid, [], s)
          else if \<not> IsValidDomainName isDomainName (x_ulower x) (up_DomainName r) then Some (Resp400 InvalidDomainName, [], s)
          else case GetPeer (as_c s) (up_PeerID r) of
            None \<Rightarrow> Some (Resp404 PeerNotFound, [], s)
          | Some knownPeer \<Rightarrow>
              let peerID = PeerId (x_Decode x) knownPeer; al = TrimSpace (up_Alias r)
              in if \<not> IsUniqPeerAlias (as_c s) (up_PeerID r) al then Some (Resp400 ErrorPeerAliasIsNotUniq, [], s)
                 else
                   let s1 = mid s
                   in case CheckIPUnique (as_c s1) (up_IPAddr r) (kp_PeerID knownPeer) of
                        CheckPanic \<Rightarrow> None
                      | CheckErr e \<Rightarrow> Some (Resp400 (IPRefused e), [], s1)
                      | CheckOk \<Rightarrow>
                          let p = knownPeer\<lparr>kp_Alias := al, kp_DomainName := up_DomainName r,
                                    kp_WeAllowUsingAsExitNode := up_AllowUsingAsExitNode r, kp_IPAddr := up_IPAddr r\<rparr>
                          in Some (Resp200 (), [ServiceTask (TaskExchange peerID p)],
                                   s1\<lparr>as_conf := UpsertPeer p (as_conf s1)\<rparr>))"

definition add_response :: "((add_error + task list) \<times> AuthStatus) \<Rightarrow> unit response \<times> api_task list \<times> AuthStatus" where
  "add_response r =
     (case r of
        (Inl e, s) \<Rightarrow> (Resp400 (AddFailed e), [], s)
      | (Inr ts, s) \<Rightarrow> (Resp200 (), map ServiceTask ts, s))"

definition SendFriendRequest ::
    "validator \<Rightarrow> externals \<Rightarrow> nat \<Rightarrow> FriendRequest option \<Rightarrow> AuthStatus \<Rightarrow>
     (unit response \<times> api_task list \<times> AuthStatus) option" where
  "SendFriendRequest vd x now req s =
     (case req of
        None \<Rightarrow> Some (Resp400 BindFailed, [], s)
      | Some r \<Rightarrow>
          if \<not> valid_friend vd r then Some (Resp400 Invalid, [], s)
          else case x_Decode x (fr_PeerID r) of
            None \<Rightarrow> Some (Resp400 InvalidPeerID, [], s)
          | Some peerId \<Rightarrow>
              if fr_PeerID r = pn_PeerID (c_P2pNode (as_c s)) then Some (Resp400 CannotAddYourself, [], s)
              else map_option add_response (AddPeer x now peerId [] (fr_Alias r) False (fr_IPAddr r) s))"

definition AcceptFriend ::
    "validator \<Rightarrow> externals \<Rightarrow> nat \<Rightarrow> FriendRequestReply option \<Rightarrow> AuthStatus \<Rightarrow>
     (unit response \<times> api_task list \<times> AuthStatus) option" where
  "AcceptFriend vd x now req s =
     (case req of
        None \<Rightarrow> Some (Resp400 BindFailed, [], s)
      | Some r \<Rightarrow>
          if \<not> valid_friend vd r then Some (Resp400 Invalid, [], s)
          else case x_Decode x (fr_PeerID r) of
            None \<Rightarrow> Some (Resp400 InvalidPeerID, [], s)
          | Some peerId \<Rightarrow>
              if fr_PeerID r = pn_PeerID (c_P2pNode (as_c s)) then Some (Resp400 CannotAddYourself, [], s)
              else case gm_get (GetIngoingAuthRequests x s) (fr_PeerID r) of
                None \<Rightarrow> Some (Resp400 NoFriendRequest, [], s)
              | Some auth \<Rightarrow>
                  if fr_Decline r
                  then (case BlockPeer x now peerId (ap_Name auth) s of
                          (ts, s1) \<Rightarrow> Some (Resp200 (), map ServiceTask ts, s1))
                  else map_option add_response (AddPeer x now peerId (ap_Name auth) (fr_Alias r) True (fr_IPAddr r) s))"

fun suggest_ips :: "Config \<Rightarrow> (string, AuthPeer) gomap \<Rightarrow> string list \<Rightarrow> string list \<Rightarrow> AuthRequest list option" where
  "suggest_ips c requests [] generatedIPs = Some []"
| "suggest_ips c requests (peerID # ids) generatedIPs =
     (case GenerateNextIpAddrExcept c generatedIPs of
        None \<Rightarrow> None
      | Some suggestedIP \<Rightarrow>
          map_option (\<lambda>rs. \<lparr>ar_PeerID = peerID,
              ar_AuthPeer = (case gm_get requests peerID of None \<Rightarrow> \<lparr>ap_Name = []\<rparr> | Some a \<Rightarrow> a),
              ar_SuggestedIP = suggestedIP\<rparr> # rs)
            (suggest_ips c requests ids (generatedIPs @ [suggestedIP])))"

definition GetAuthRequests :: "externals \<Rightarrow> AuthStatus \<Rightarrow> AuthRequest list option" where
  "GetAuthRequests x s =
     (let requests = GetIngoingAuthRequests x s
      in suggest_ips (as_c s) requests (sort (map fst requests)) [])"

definition api_RemovePeer ::
    "validator \<Rightarrow> externals \<Rightarrow> nat \<Rightarrow> string option \<Rightarrow> AuthStatus \<Rightarrow> unit response \<times> api_task list \<times> AuthStatus" where
  "api_RemovePeer vd x now req s =
     (case req of
        None \<Rightarrow> (Resp400 BindFailed, [], s)
      | Some peerID \<Rightarrow>
          if \<not> vd_required vd peerID then (Resp400 Invalid, [], s)
          else case x_Decode x peerID of
            None \<Rightarrow> (Resp400 InvalidPeerID, [], s)
          | Some peerId \<Rightarrow>
              (case RemovePeer peerID (as_conf s) of
                 (None, cs) \<Rightarrow> (Resp404 PeerNotFound, [], s\<lparr>as_conf := cs\<rparr>)
               | (Some knownPeer, cs) \<Rightarrow>
                   (case BlockPeer x now peerId (DisplayName knownPeer) (s\<lparr>as_conf := cs\<rparr>) of
                      (ts, s1) \<Rightarrow> (Resp200 (), map ServiceTask ts, s1))))"

text \<open>Latest first; equal times keep the map's order.\<close>

definition GetBlockedPeers :: "Config \<Rightarrow> BlockedPeer list" where
  "GetBlockedPeers c = sort_key (\<lambda>b. - int (bp_CreatedAt b)) (gm_vals (c_BlockedPeers c))"

section \<open>Settings\<close>

definition GetMyPeerInfo :: "node_stats \<Rightarrow> string \<Rightarrow> bool \<Rightarrow> Config \<Rightarrow> PeerInfo" where
  "GetMyPeerInfo ns version tunnelPresent c =
     node_stats.extend ns
       \<lparr>pi_PeerID = pn_PeerID (c_P2pNode c), pi_Name = pn_Name (c_P2pNode c), pi_ServerVersion = version,
        pi_VPN = \<lparr>vi_VPNInterfaceEnabled = tunnelPresent, vi_InterfaceName = vc_InterfaceName (c_VPNConfig c),
                  vi_IPNet = vc_IPNet (c_VPNConfig c)\<rparr>,
        pi_SOCKS5 = \<lparr>si_ListenAddress = sc_ListenAddress (c_SOCKS5 c), si_ProxyingEnabled = sc_ProxyingEnabled (c_SOCKS5 c),
                     si_ListenerEnabled = sc_ListenerEnabled (c_SOCKS5 c), si_UsingPeerID = sc_UsingPeerID (c_SOCKS5 c),
                     si_UsingPeerName = (case GetPeer c (sc_UsingPeerID (c_SOCKS5 c)) of
                                           None \<Rightarrow> DisplayName zero_KnownPeer | Some p \<Rightarrow> DisplayName p)\<rparr>\<rparr>"

definition UpdateMySettings :: "string option \<Rightarrow> AuthStatus \<Rightarrow> unit response \<times> api_task list \<times> AuthStatus" where
  "UpdateMySettings req s =
     (case req of
        None \<Rightarrow> (Resp400 BindFailed, [], s)
      | Some name \<Rightarrow>
          let cs = as_conf s;
              cs1 = cs\<lparr>cs_conf := (cs_conf cs)\<lparr>c_P2pNode := (c_P2pNode (cs_conf cs))\<lparr>pn_Name := name\<rparr>\<rparr>\<rparr>
          in (Resp200 (), [ExchangeWithAll], s\<lparr>as_conf := c_save cs1\<rparr>))"

definition UpdateProxySettings :: "string option \<Rightarrow> AuthStatus \<Rightarrow> unit response \<times> AuthStatus" where
  "UpdateProxySettings req s =
     (case req of
        None \<Rightarrow> (Resp400 BindFailed, s)
      | Some usingPeerID \<Rightarrow>
          let set = (Resp200 (), s\<lparr>as_conf := SetProxyPeerID usingPeerID (as_conf s)\<rparr>)
          in if usingPeerID = [] then set
             else case GetPeer (as_c s) usingPeerID of
               None \<Rightarrow> (Resp404 PeerNotFound, s)
             | Some peer \<Rightarrow> if \<not> kp_AllowedUsingAsExitNode peer then (Resp400 NotAnExitNode, s) else set)"

section \<open>Listings\<close>

lemma insort_key_bool:
  "insort_key f x (filter (\<lambda>y. \<not> f y) ys @ filter f ys) =
     filter (\<lambda>y. \<not> f y) (x # ys) @ filter f (x # ys)" for f :: "'a \<Rightarrow> bool"
proof (cases "f x")
  case True
  have "insort_key f x (filter (\<lambda>y. \<not> f y) zs @ filter f ys) = filter (\<lambda>y. \<not> f y) zs @ x # filter f ys" for zs
  proof (induction zs)
    case Nil
    show ?case using True by (cases "filter f ys") (auto dest: filter_eq_ConsD)
  qed (use True in auto)
  with True show ?thesis by simp
next
  case False
  then show ?thesis by (cases "filter (\<lambda>y. \<not> f y) ys @ filter f ys") auto
qed

text \<open>Sorting by a flag puts the elements without it first and keeps the order otherwise.\<close>

lemma sort_key_bool: "sort_key f xs = filter (\<lambda>y. \<not> f y) xs @ filter f xs" for f :: "'a \<Rightarrow> bool"
proof (induction xs)
  case (Cons x xs)
  then show ?case using insort_key_bool [of f x xs] by simp
qed simp

lemma suggest_ips_alloc:
  "suggest_ips c reqs ids ex =
     map_option (\<lambda>as. map (\<lambda>(i, a). \<lparr>ar_PeerID = i,
         ar_AuthPeer = (case gm_get reqs i of None \<Rightarrow> \<lparr>ap_Name = []\<rparr> | Some r \<Rightarrow> r), ar_SuggestedIP = a\<rparr>) (zip ids as))
       (alloc_many (GenerateNextIpAddrExcept c) (length ids) ex)"
proof (induction ids arbitrary: ex)
  case (Cons i ids)
  then show ?case by (auto simp: option.map_comp o_def split: option.split)
qed simp

section \<open>The configuration under requests\<close>

lemma update_peer_inv:
  assumes "auth_inv s" and "GetPeer (as_c s) k = Some p" and "IsUniqPeerAlias (as_c s) k (kp_Alias q)"
    and "kp_PeerID q = kp_PeerID p" and "kp_AllowedUsingAsExitNode q = kp_AllowedUsingAsExitNode p"
  shows "auth_inv (s\<lparr>as_conf := UpsertPeer q (as_conf s)\<rparr>)"
proof -
  have wf: "conf_wf (as_c s)" "no_phantom (as_c s)" "using_ok (as_c s)" using assms(1) by (auto simp: auth_inv_def)
  have k: "kp_PeerID q = k" using wf(1) assms(2,4) GetPeer_PeerID by (auto simp: conf_wf_def)
  have "kp_Alias r \<noteq> kp_Alias q" if "(j, r) \<in> set (c_KnownPeers (as_c s))" "j \<noteq> kp_PeerID q" for j r
    using assms(3) that wf(1) k by (auto simp: IsUniqPeerAlias_iff conf_wf_def)
  from conf_wf_set [OF wf(1) this] using_ok_cong [OF wf(3) assms(2,5)] wf(2) assms(2) k show ?thesis
    by (auto simp: auth_inv_def no_phantom_def GetPeer_set)
qed

definition updated_peer :: "UpdatePeerSettingsRequest \<Rightarrow> KnownPeer \<Rightarrow> KnownPeer" where
  "updated_peer r p = p\<lparr>kp_Alias := TrimSpace (up_Alias r), kp_DomainName := up_DomainName r,
     kp_WeAllowUsingAsExitNode := up_AllowUsingAsExitNode r, kp_IPAddr := up_IPAddr r\<rparr>"

lemma UpdatePeerSettings_cases:
  assumes "UpdatePeerSettings vd isdn x mid req s = Some (r, ts, s')"
  shows "r \<noteq> Resp200 () \<and> ts = [] \<and> (s' = s \<or> s' = mid s) \<or>
     (\<exists>rq p. req = Some rq \<and> r = Resp200 () \<and> GetPeer (as_c s) (up_PeerID rq) = Some p \<and>
        IsUniqPeerAlias (as_c s) (up_PeerID rq) (TrimSpace (up_Alias rq)) \<and>
        CheckIPUnique (as_c (mid s)) (up_IPAddr rq) (kp_PeerID p) = CheckOk \<and>
        ts = [ServiceTask (TaskExchange (PeerId (x_Decode x) p) (updated_peer rq p))] \<and>
        s' = (mid s)\<lparr>as_conf := UpsertPeer (updated_peer rq p) (as_conf (mid s))\<rparr>)"
proof (cases "r = Resp200 ()")
  case True
  with assms show ?thesis
    by (simp add: UpdatePeerSettings_def Let_def updated_peer_def split: option.splits if_splits check_result.splits)
next
  case False
  with assms show ?thesis
    by (auto simp: UpdatePeerSettings_def Let_def split: option.splits if_splits check_result.splits)
qed

lemma UpdatePeerSettings_inv:
  assumes "auth_inv s" and "UpdatePeerSettings vd isdn x id req s = Some (r, ts, s')"
  shows "auth_inv s'"
  using UpdatePeerSettings_cases [OF assms(2)]
proof (elim disjE exE conjE)
  fix rq p
  assume "GetPeer (as_c s) (up_PeerID rq) = Some p"
    and "IsUniqPeerAlias (as_c s) (up_PeerID rq) (TrimSpace (up_Alias rq))"
    and s': "s' = (id s)\<lparr>as_conf := UpsertPeer (updated_peer rq p) (as_conf (id s))\<rparr>"
  then have "auth_inv (s\<lparr>as_conf := UpsertPeer (updated_peer rq p) (as_conf s)\<rparr>)"
    by (intro update_peer_inv [OF assms(1)]) (simp_all add: updated_peer_def)
  with s' show ?thesis by simp
qed (use assms(1) in simp_all)

lemma add_response_inv:
  assumes "auth_inv s" and "x_String x i \<noteq> []" and "AddPeer x now i n al cf ip s = Some r0"
    and "add_response r0 = (r, ts, s')"
  shows "auth_inv s'"
  using AddPeer_inv [OF assms(1,2), of now n al cf ip "fst r0" "snd r0"] assms(3,4)
  by (auto simp: add_response_def split: prod.splits sum.splits)

lemma SendFriendRequest_inv:
  assumes "auth_inv s" and "ids_nonempty x" and "SendFriendRequest vd x now req s = Some (r, ts, s')"
  shows "auth_inv s'"
  using assms
  by (auto simp: SendFriendRequest_def ids_nonempty_def intro: add_response_inv [OF assms(1)]
      split: option.splits if_splits)

lemma AcceptFriend_inv:
  assumes "auth_inv s" and "ids_nonempty x" and "AcceptFriend vd x now req s = Some (r, ts, s')"
  shows "auth_inv s'"
proof -
  have "auth_inv s1" if "BlockPeer x now i n s = (t, s1)" for i n t s1
    using BlockPeer_inv [OF assms(1), of x now i n] that by simp
  with assms show ?thesis
    by (auto simp: AcceptFriend_def ids_nonempty_def intro: add_response_inv [OF assms(1)]
        split: option.splits if_splits prod.splits)
qed

lemma UpdateMySettings_inv: "auth_inv s \<Longrightarrow> auth_inv (snd (snd (UpdateMySettings req s)))"
  by (cases req) (auto simp: UpdateMySettings_def Let_def auth_inv_def c_save_def conf_wf_def peers_wf_def alias_wf_def
      no_phantom_def using_ok_def GetPeer_def split: option.splits)

lemma SetProxyPeerID_conf:
  "cs_conf (SetProxyPeerID i cs) = (cs_conf cs)\<lparr>c_SOCKS5 := (c_SOCKS5 (cs_conf cs))\<lparr>sc_UsingPeerID := i\<rparr>\<rparr>"
  by (simp add: SetProxyPeerID_def c_save_def)

lemma UpdateProxySettings_inv: "auth_inv s \<Longrightarrow> auth_inv (snd (UpdateProxySettings req s))"
  by (auto simp: UpdateProxySettings_def Let_def auth_inv_def SetProxyPeerID_conf no_phantom_def using_ok_def
      split: option.splits)

text \<open>Removing a peer: what is left, and when the invariant is kept.\<close>

lemma RemovePeer_conf:
  "GetPeer (cs_conf cs) k = Some p \<Longrightarrow>
     \<exists>cs'. RemovePeer k cs = (Some p, cs') \<and>
       cs_conf cs' = (cs_conf cs)\<lparr>c_KnownPeers := gm_del (c_KnownPeers (cs_conf cs)) k\<rparr> \<and> cs_diskOK cs' = cs_diskOK cs"
  by (simp add: RemovePeer_def GetPeer_def emit_def c_save_def set_known_def)

lemma remove_known_inv:
  assumes "auth_inv s" and "sc_UsingPeerID (c_SOCKS5 (as_c s)) \<noteq> k"
    and "cs_conf cs = (as_c s)\<lparr>c_KnownPeers := gm_del (c_KnownPeers (as_c s)) k\<rparr>"
  shows "auth_inv (s\<lparr>as_conf := cs\<rparr>)"
  using assms peers_wf_known_del [of "as_c s" k] alias_wf_del [of "as_c s" k]
  by (auto simp: auth_inv_def conf_wf_def no_phantom_def using_ok_def GetPeer_def gm.get_del)

lemma api_RemovePeer_inv:
  assumes "auth_inv s" and "req \<noteq> Some (sc_UsingPeerID (c_SOCKS5 (as_c s)))"
  shows "auth_inv (snd (snd (api_RemovePeer vd x now req s)))"
proof (cases req)
  case (Some k)
  show ?thesis
  proof (cases "GetPeer (as_c s) k")
    case None
    then have "RemovePeer k (as_conf s) = (None, as_conf s)" by (simp add: RemovePeer_def GetPeer_def)
    with assms(1) Some show ?thesis by (simp add: api_RemovePeer_def split: option.split)
  next
    case (Some p)
    obtain cs where cs: "RemovePeer k (as_conf s) = (Some p, cs)"
      "cs_conf cs = (as_c s)\<lparr>c_KnownPeers := gm_del (c_KnownPeers (as_c s)) k\<rparr>"
      using RemovePeer_conf [OF Some] by blast
    have "auth_inv (s\<lparr>as_conf := cs\<rparr>)" using remove_known_inv [OF assms(1) _ cs(2)] assms(2) \<open>req = Some k\<close> by auto
    from BlockPeer_inv [OF this] \<open>req = Some k\<close> cs(1) assms(1) show ?thesis
      by (auto simp: api_RemovePeer_def split: option.split prod.split) (metis snd_conv)
  qed
qed (use assms in \<open>simp add: api_RemovePeer_def\<close>)


section \<open>Requests and exchanges together\<close>

text \<open>
  The service with its API: a step is a handler of the exchanges or a request. A peer that is
  in use as exit node is not removed here; what its removal does is stated apart.
\<close>

inductive api_step :: "externals \<Rightarrow> AuthStatus \<Rightarrow> AuthStatus \<Rightarrow> bool" for x :: externals where
  service: "auth_step x s s' \<Longrightarrow> api_step x s s'"
| update: "UpdatePeerSettings vd isdn x id req s = Some (r, ts, s') \<Longrightarrow> api_step x s s'"
| invite: "SendFriendRequest vd x now freq s = Some (r, ts, s') \<Longrightarrow> api_step x s s'"
| accept: "AcceptFriend vd x now areq s = Some (r, ts, s') \<Longrightarrow> api_step x s s'"
| remove: "rreq \<noteq> Some (sc_UsingPeerID (c_SOCKS5 (as_c s))) \<Longrightarrow> api_step x s (snd (snd (api_RemovePeer vd x now rreq s)))"
| rename: "api_step x s (snd (snd (UpdateMySettings nreq s)))"
| set_proxy: "api_step x s (snd (UpdateProxySettings preq s))"

lemma api_step_inv: "api_step x s s' \<Longrightarrow> ids_nonempty x \<Longrightarrow> auth_inv s \<Longrightarrow> auth_inv s'"
proof (induction rule: api_step.induct)
  case (service s s')
  then show ?case by (rule auth_step_inv)
next
  case (update vd isdn req s r ts s')
  then show ?case using UpdatePeerSettings_inv by blast
next
  case (invite vd now freq s r ts s')
  then show ?case using SendFriendRequest_inv by blast
next
  case (accept vd now areq s r ts s')
  then show ?case using AcceptFriend_inv by blast
qed (simp_all add: api_RemovePeer_inv UpdateMySettings_inv UpdateProxySettings_inv)

interpretation api_machine: inductive_invariant auth_inv "\<lambda>s s'. ids_nonempty x \<and> api_step x s s'" auth_inv
  for x
  using api_step_inv by unfold_locales blast+

section \<open>Properties\<close>


definition sample_validator :: validator where
  "sample_validator = \<lparr>vd_required = (\<lambda>s. s \<noteq> []), vd_ipv4 = (\<lambda>s. To4 (ParseIP s) \<noteq> [])\<rparr>"

definition sample_invite :: FriendRequest where
  "sample_invite = \<lparr>fr_PeerID = ''Qm'', fr_Alias = '' bob '', fr_IPAddr = ''10.66.0.9''\<rparr>"


text \<open>
  C37. The list of known peers has every known peer once: first the connected ones, then the
  others, each group in the order of the peer IDs.
\<close>

theorem known_peers_listing:
  assumes "gm_wf (c_KnownPeers c)"
  shows "\<exists>ids. sorted ids \<and> distinct ids \<and> set ids = fst ` set (c_KnownPeers c) \<and>
     getKnownPeers x v c =
       map (peer_response x v c) (filter (\<lambda>i. kr_Connected (peer_response x v c i)) ids @
         filter (\<lambda>i. \<not> kr_Connected (peer_response x v c i)) ids)"
proof -
  let ?ids = "sort (map fst (c_KnownPeers c))"
  have "sorted ?ids \<and> distinct ?ids \<and> set ?ids = fst ` set (c_KnownPeers c)"
    using assms by (simp add: gm_wf_def)
  then show ?thesis
    by (intro exI [of _ ?ids]) (simp add: getKnownPeers_def Let_def sort_key_bool filter_map o_def)
qed

theorem known_peers_listing_witness:
  "map kr_PeerID (getKnownPeers sample_ext \<lparr>pv_UserAgent = (\<lambda>_. []), pv_IsConnected = (\<lambda>i. i = ''z'')\<rparr>
     (demo_conf ''10.66.0.1/24'' [(''Qz'', ''10.66.0.2''), (''Qa'', ''10.66.0.3'')])) = [''Qz'', ''Qa'']"
proof -
  let ?c = "demo_conf ''10.66.0.1/24'' [(''Qz'', ''10.66.0.2''), (''Qa'', ''10.66.0.3'')]"
  let ?v = "\<lparr>pv_UserAgent = (\<lambda>_. []), pv_IsConnected = (\<lambda>i. i = ''z'')\<rparr>"
  have keys: "map fst (c_KnownPeers ?c) = [''Qz'', ''Qa'']" by code_simp
  have wf: "gm_wf (c_KnownPeers ?c)" by (simp add: gm_wf_def keys)
  obtain ids where ids: "sorted ids" "distinct ids" "set ids = fst ` set (c_KnownPeers ?c)"
    "getKnownPeers sample_ext ?v ?c = map (peer_response sample_ext ?v ?c)
       (filter (\<lambda>i. kr_Connected (peer_response sample_ext ?v ?c i)) ids @
         filter (\<lambda>i. \<not> kr_Connected (peer_response sample_ext ?v ?c i)) ids)"
    using known_peers_listing [OF wf] by blast
  have "set ids = set [''Qa'', ''Qz'']" using ids(3) arg_cong [OF keys, of set] by auto
  moreover have "sorted [''Qa'', ''Qz''] \<and> distinct [''Qa'', ''Qz'']" by code_simp
  ultimately have "ids = [''Qa'', ''Qz'']" using ids(1,2) sorted_distinct_set_unique by blast
  moreover have "\<not> kr_Connected (peer_response sample_ext ?v ?c ''Qa'')" "kr_Connected (peer_response sample_ext ?v ?c ''Qz'')"
    "kr_PeerID (peer_response sample_ext ?v ?c ''Qa'') = ''Qa''" "kr_PeerID (peer_response sample_ext ?v ?c ''Qz'') = ''Qz''"
    by code_simp+
  ultimately show ?thesis using ids(4) by simp
qed

text \<open>
  With a valid VPN address the pending friend requests are all listed, in the order of the
  peer IDs, and the addresses suggested for them differ from one another.
\<close>

theorem auth_requests_suggestions:
  assumes "fst (VPNLocalIPMask (as_c s)) \<noteq> []" and "length (GetIngoingAuthRequests x s) \<le> 2 ^ 32"
  shows "\<exists>rs. GetAuthRequests x s = Some rs \<and> map ar_PeerID rs = sort (map fst (GetIngoingAuthRequests x s)) \<and>
     distinct (map ar_SuggestedIP rs)"
proof -
  let ?ids = "sort (map fst (GetIngoingAuthRequests x s))"
  have "length [] + length ?ids \<le> alloc_limit (as_c s)" using assms by (simp add: alloc_limit_def)
  from vpn_alloc.alloc_many_distinct [OF this] obtain as where
    "alloc_many (GenerateNextIpAddrExcept (as_c s)) (length ?ids) [] = Some as" "length as = length ?ids" "distinct as"
    by blast
  then show ?thesis
    by (simp add: GetAuthRequests_def Let_def suggest_ips_alloc o_def case_prod_unfold map_snd_zip map_fst_zip)
qed

theorem auth_requests_suggestions_witness:
  "\<exists>rs. GetAuthRequests sample_ext ((sample_auth (demo_conf ''10.66.0.1/24'' []))
       \<lparr>as_ingoingAuths := [(''m'', \<lparr>ap_Name = ''bob''\<rparr>), (''k'', \<lparr>ap_Name = ''eve''\<rparr>)]\<rparr>) = Some rs \<and>
     distinct (map ar_SuggestedIP rs)"
proof -
  let ?s = "(sample_auth (demo_conf ''10.66.0.1/24'' []))
       \<lparr>as_ingoingAuths := [(''m'', \<lparr>ap_Name = ''bob''\<rparr>), (''k'', \<lparr>ap_Name = ''eve''\<rparr>)]\<rparr>"
  have "fst (VPNLocalIPMask (as_c ?s)) \<noteq> []" by code_simp
  moreover have "length (GetIngoingAuthRequests sample_ext ?s) \<le> 2 ^ 32"
    by (simp add: GetIngoingAuthRequests_def gm_set_def)
  ultimately show ?thesis using auth_requests_suggestions [of ?s sample_ext] by blast
qed

text \<open>
  C36. Removing a known peer: it is no longer known but blocked under its display name, the
  other peers are as before, the peer is told, and the new configuration is on disk. The choice
  of the exit node is not touched: when the removed peer was the exit node, every connection of
  a local client is refused from then on.
\<close>

theorem remove_peer_effect:
  assumes "GetPeer (as_c s) k = Some p" and "vd_required vd k" and "x_Decode x k = Some i" and "x_String x i = k"
    and "api_RemovePeer vd x now (Some k) s = (r, ts, s')"
  shows "r = Resp200 () \<and> ts = [ServiceTask (TaskExchange i zero_KnownPeer)] \<and>
     (\<forall>j. GetPeer (as_c s') j = (if j = k then None else GetPeer (as_c s) j)) \<and>
     (\<exists>b. GetBlockedPeer (as_c s') k = Some b \<and> bp_DisplayName b = DisplayName p) \<and>
     (cs_diskOK (as_conf s) \<longrightarrow> cs_disk (as_conf s') = Some (as_c s')) \<and>
     sc_UsingPeerID (c_SOCKS5 (as_c s')) = sc_UsingPeerID (c_SOCKS5 (as_c s)) \<and>
     (k \<noteq> [] \<and> sc_UsingPeerID (c_SOCKS5 (as_c s)) = k \<longrightarrow> proxyConn x e (as_c s') cn = (Inl PeerNotAllowed, cn))"
proof -
  obtain cs where cs: "RemovePeer k (as_conf s) = (Some p, cs)" "cs_diskOK cs = cs_diskOK (as_conf s)"
    "cs_conf cs = (as_c s)\<lparr>c_KnownPeers := gm_del (c_KnownPeers (as_c s)) k\<rparr>"
    using RemovePeer_conf [OF assms(1)] by blast
  have run: "r = Resp200 ()" "ts = [ServiceTask (TaskExchange i zero_KnownPeer)]"
    "s' = s\<lparr>as_conf := UpsertBlockedPeer now k (DisplayName p) cs\<rparr>"
    using assms(2-5) cs(1) by (auto simp: api_RemovePeer_def BlockPeer_def)
  have get: "GetPeer (as_c s') j = (if j = k then None else GetPeer (as_c s) j)" for j
    by (simp add: run(3) UpsertBlockedPeer_def Let_def cs(3) GetPeer_def gm.get_del)
  have "\<exists>b. GetBlockedPeer (as_c s') k = Some b \<and> bp_DisplayName b = DisplayName p"
    by (simp add: run(3) UpsertBlockedPeer_def Let_def GetBlockedPeer_def gm.get_put)
  moreover have "cs_diskOK (as_conf s) \<longrightarrow> cs_disk (as_conf s') = Some (as_c s')"
    using cs(2) by (simp add: run(3) UpsertBlockedPeer_def Let_def c_save_def set_blocked_def)
  moreover have u: "sc_UsingPeerID (c_SOCKS5 (as_c s')) = sc_UsingPeerID (c_SOCKS5 (as_c s))"
    by (simp add: run(3) UpsertBlockedPeer_def Let_def cs(3))
  moreover have "proxyConn x e (as_c s') cn = (Inl PeerNotAllowed, cn)" if "k \<noteq> []" "sc_UsingPeerID (c_SOCKS5 (as_c s)) = k"
    using that get [of k] u by (simp add: proxyConn_def Let_def)
  ultimately show ?thesis using run get by blast
qed

theorem remove_peer_effect_witness:
  "proxyConn sample_ext (sample_env Socks5NoAuthMethod) (as_c (snd (snd (api_RemovePeer sample_validator sample_ext 3 (Some ''Qm'')
     (sample_auth (zero_Config\<lparr>c_KnownPeers := [(''Qm'', sample_peer)], c_SOCKS5 := zero_SOCKS5Config\<lparr>sc_UsingPeerID := ''Qm''\<rparr>\<rparr>))))))
     sample_conn = (Inl PeerNotAllowed, sample_conn)"
proof -
  let ?s = "sample_auth (zero_Config\<lparr>c_KnownPeers := [(''Qm'', sample_peer)], c_SOCKS5 := zero_SOCKS5Config\<lparr>sc_UsingPeerID := ''Qm''\<rparr>\<rparr>)"
  have "GetPeer (as_c ?s) ''Qm'' = Some sample_peer" by (simp add: sample_auth_def GetPeer_def gm_get_def)
  moreover have "vd_required sample_validator ''Qm''" by (simp add: sample_validator_def)
  moreover have "x_Decode sample_ext ''Qm'' = Some ''m''" "x_String sample_ext ''m'' = ''Qm''" by (simp_all add: sample_ext_def)
  moreover have "sc_UsingPeerID (c_SOCKS5 (as_c ?s)) = ''Qm''" by (simp add: sample_auth_def)
  moreover obtain r ts s' where run: "api_RemovePeer sample_validator sample_ext 3 (Some ''Qm'') ?s = (r, ts, s')"
    by (cases "api_RemovePeer sample_validator sample_ext 3 (Some ''Qm'') ?s") auto
  ultimately show ?thesis
    using remove_peer_effect [of ?s "''Qm''" sample_peer sample_validator sample_ext "''m''" 3 r ts s'
        "sample_env Socks5NoAuthMethod" sample_conn] by simp
qed

text \<open>
  A settings update writes back the peer as it was read before the lock: whatever another
  goroutine stored for that peer in between is lost, for instance that the peer has confirmed.
\<close>

theorem settings_update_loses_changes:
  assumes "UpdatePeerSettings vd isdn x mid (Some rq) s = Some (Resp200 (), ts, s')"
    and "GetPeer (as_c s) (up_PeerID rq) = Some p" and "peers_wf (as_c s)"
  shows "GetPeer (as_c s') (up_PeerID rq) = Some (updated_peer rq p) \<and>
     kp_Confirmed (updated_peer rq p) = kp_Confirmed p"
proof -
  have "kp_PeerID p = up_PeerID rq" using assms(2,3) GetPeer_PeerID by auto
  with UpdatePeerSettings_cases [OF assms(1)] assms(2) show ?thesis
    by (auto simp: GetPeer_def gm.get_put updated_peer_def)
qed

definition sample_update :: UpdatePeerSettingsRequest where
  "sample_update = \<lparr>up_PeerID = ''Qm'', up_Alias = ''rob'', up_DomainName = ''rob'', up_IPAddr = ''10.66.0.7'',
     up_AllowUsingAsExitNode = True\<rparr>"

definition sample_service :: AuthStatus where
  "sample_service = sample_auth ((demo_conf ''10.66.0.1/24'' [])\<lparr>c_KnownPeers := [(''Qm'', sample_peer)]\<rparr>)"

text \<open>The peer confirms by a status message while its settings are being changed.\<close>

definition sample_mid :: "AuthStatus \<Rightarrow> AuthStatus" where
  "sample_mid s = snd (StatusStreamHandler sample_ext 9 id (Some sample_info) ''m'' s)"

theorem settings_update_loses_changes_witness:
  "(case GetPeer (as_c (sample_mid sample_service)) ''Qm'' of Some p \<Rightarrow> kp_Confirmed p | None \<Rightarrow> False) \<and>
   (\<exists>ts s'. UpdatePeerSettings sample_validator (\<lambda>_. True) sample_ext sample_mid (Some sample_update) sample_service =
       Some (Resp200 (), ts, s') \<and>
     (case GetPeer (as_c s') ''Qm'' of Some p \<Rightarrow> \<not> kp_Confirmed p | None \<Rightarrow> False))"
proof -
  have mid: "case GetPeer (as_c (sample_mid sample_service)) ''Qm'' of Some p \<Rightarrow> kp_Confirmed p | None \<Rightarrow> False"
    by code_simp
  let ?r = "UpdatePeerSettings sample_validator (\<lambda>_. True) sample_ext sample_mid (Some sample_update) sample_service"
  have "map_option fst ?r = Some (Resp200 ())" by code_simp
  then obtain ts s' where r: "?r = Some (Resp200 (), ts, s')" by auto
  have p: "GetPeer (as_c sample_service) (up_PeerID sample_update) = Some sample_peer" "peers_wf (as_c sample_service)"
    by (simp_all add: sample_service_def sample_update_def sample_auth_def GetPeer_def gm_get_def peers_wf_def gm_wf_def
        demo_conf_def zero_Config_def sample_peer_def)
  from settings_update_loses_changes [OF r p] have "GetPeer (as_c s') ''Qm'' = Some (updated_peer sample_update sample_peer)"
    "\<not> kp_Confirmed (updated_peer sample_update sample_peer)"
    by (simp_all add: sample_update_def sample_peer_def zero_KnownPeer_def)
  with mid r show ?thesis by auto
qed

end
