(* ===== verification/Cli_Peers.thy ===== *)
theory Cli_Peers
  imports Awl_Api
begin

text \<open>
  The commands of \<open>src/cli/peers.go\<close> and \<open>src/cli/me.go\<close> that read or change peers through the
  API. Here a command is a composition of the handlers, and its result is the text it prints or an
  error; \<open>Awl_Cli\<close> has the commands over the HTTP client and shows that they refine these. The tables and the QR code are
  drawn by libraries and are not modelled.
\<close>

section \<open>Commands\<close>

datatype cli_error = NameIsEmpty | NoPeerWithName string | ApiError api_error

type_synonym cli_out = "cli_error + string"

definition line :: "string \<Rightarrow> string" where
  "line s = s @ [char_of (10 :: nat)]"

text \<open>A response without content, as the client reports it.\<close>

fun done_or_error :: "string \<Rightarrow> unit response \<Rightarrow> cli_out" where
  "done_or_error msg (Resp200 _) = Inr (line msg)"
| "done_or_error msg (Resp400 e) = Inl (ApiError e)"
| "done_or_error msg (Resp404 e) = Inl (ApiError e)"

definition printFriendRequests :: "externals \<Rightarrow> AuthStatus \<Rightarrow> cli_out option" where
  "printFriendRequests x s =
     map_option (\<lambda>authRequests.
       if authRequests = [] then Inr (line ''you have no incoming requests'')
       else Inr (concat (map (\<lambda>r. line (''Name: '' @ [char_of (39 :: nat)] @ ap_Name (ar_AuthPeer r) @ [char_of (39 :: nat)] @ '' peerID: '' @ ar_PeerID r @
              '' suggestedIP: '' @ ar_SuggestedIP r)) authRequests)))
       (GetAuthRequests x s)"

definition getPeerIdByAlias :: "externals \<Rightarrow> p2p_view \<Rightarrow> Config \<Rightarrow> string \<Rightarrow> cli_error + string" where
  "getPeerIdByAlias x v c al =
     (if al = [] then Inl NameIsEmpty
      else case find (\<lambda>p. kr_Alias p = al) (getKnownPeers x v c) of
        None \<Rightarrow> Inl (NoPeerWithName al)
      | Some p \<Rightarrow> Inr (kr_PeerID p))"

definition cli_addPeer ::
    "validator \<Rightarrow> externals \<Rightarrow> nat \<Rightarrow> string \<Rightarrow> string \<Rightarrow> string \<Rightarrow> AuthStatus \<Rightarrow>
     (cli_out \<times> api_task list \<times> AuthStatus) option" where
  "cli_addPeer vd x now peerID al ipAddr s =
     (case GetAuthRequests x s of
        None \<Rightarrow> None
      | Some authRequests \<Rightarrow>
          if list_ex (\<lambda>r. ar_PeerID r = peerID) authRequests
          then map_option (\<lambda>(r, ts, s'). (done_or_error ''user added to friends list successfully'' r, ts, s'))
                 (AcceptFriend vd x now
                   (Some \<lparr>fr_PeerID = peerID, fr_Alias = al, fr_IPAddr = ipAddr, fr_Decline = False\<rparr>) s)
          else map_option (\<lambda>(r, ts, s'). (done_or_error ''friend request sent successfully'' r, ts, s'))
                 (SendFriendRequest vd x now (Some \<lparr>fr_PeerID = peerID, fr_Alias = al, fr_IPAddr = ipAddr\<rparr>) s))"

definition cli_removePeer ::
    "validator \<Rightarrow> externals \<Rightarrow> nat \<Rightarrow> string \<Rightarrow> AuthStatus \<Rightarrow> cli_out \<times> api_task list \<times> AuthStatus" where
  "cli_removePeer vd x now peerID s =
     (case api_RemovePeer vd x now (Some peerID) s of
        (r, ts, s') \<Rightarrow> (done_or_error ''peer removed successfully'' r, ts, s'))"

text \<open>
  The four commands that change one setting: read the peer, send all its settings back with one
  changed. \<open>mid\<close> is what the service does between the two requests.
\<close>

definition settings_of :: "string \<Rightarrow> KnownPeer \<Rightarrow> UpdatePeerSettingsRequest" where
  "settings_of peerID pcfg =
     \<lparr>up_PeerID = peerID, up_Alias = kp_Alias pcfg, up_DomainName = kp_DomainName pcfg, up_IPAddr = kp_IPAddr pcfg,
      up_AllowUsingAsExitNode = kp_WeAllowUsingAsExitNode pcfg\<rparr>"

definition change_setting ::
    "validator \<Rightarrow> (string \<Rightarrow> bool) \<Rightarrow> externals \<Rightarrow> (AuthStatus \<Rightarrow> AuthStatus) \<Rightarrow>
     (UpdatePeerSettingsRequest \<Rightarrow> UpdatePeerSettingsRequest) \<Rightarrow> string \<Rightarrow> string \<Rightarrow> AuthStatus \<Rightarrow>
     (cli_out \<times> api_task list \<times> AuthStatus) option" where
  "change_setting vd isdn x mid f msg peerID s =
     (case GetKnownPeerSettings vd (Some peerID) (as_c s) of
        Resp400 e \<Rightarrow> Some (Inl (ApiError e), [], s)
      | Resp404 e \<Rightarrow> Some (Inl (ApiError e), [], s)
      | Resp200 pcfg \<Rightarrow>
          map_option (\<lambda>(r, ts, s'). (done_or_error msg r, ts, s'))
            (UpdatePeerSettings vd isdn x id (Some (f (settings_of peerID pcfg))) (mid s)))"

definition changePeerAlias where
  "changePeerAlias vd isdn x mid peerID newAlias =
     change_setting vd isdn x mid (\<lambda>r. r\<lparr>up_Alias := newAlias\<rparr>) ''peer name updated successfully'' peerID"

definition changePeerDomain where
  "changePeerDomain vd isdn x mid peerID newDomain =
     change_setting vd isdn x mid (\<lambda>r. r\<lparr>up_DomainName := newDomain\<rparr>) ''peer domain name updated successfully'' peerID"

definition changePeerIP where
  "changePeerIP vd isdn x mid peerID newIP =
     change_setting vd isdn x mid (\<lambda>r. r\<lparr>up_IPAddr := newIP\<rparr>) ''peer IP address updated successfully'' peerID"

definition setAllowUsingAsExitNode where
  "setAllowUsingAsExitNode vd isdn x mid peerID allow =
     change_setting vd isdn x mid (\<lambda>r. r\<lparr>up_AllowUsingAsExitNode := allow\<rparr>)
       ''AllowUsingAsExitNode config updated successfully'' peerID"

definition formatWorkingStatus :: "bool \<Rightarrow> string" where
  "formatWorkingStatus working = (if working then ''working'' else ''not working'')"

definition renameMe :: "string \<Rightarrow> AuthStatus \<Rightarrow> cli_out \<times> api_task list \<times> AuthStatus" where
  "renameMe newName s =
     (case UpdateMySettings (Some newName) s of
        (r, ts, s') \<Rightarrow> (done_or_error ''my peer name updated successfully'' r, ts, s'))"

definition listProxies :: "externals \<Rightarrow> (string \<Rightarrow> bool) \<Rightarrow> Config \<Rightarrow> cli_out" where
  "listProxies x isConnected c =
     (let proxies = ListAvailableProxies x isConnected c
      in if proxies = [] then Inr (line ''no available proxies'')
         else Inr (line ''Proxies:'' @
           concat (map (\<lambda>p. line (''- peer name: '' @ av_PeerName p @ '' | peer id: '' @ av_PeerID p)) proxies)))"

definition setProxy :: "string \<Rightarrow> AuthStatus \<Rightarrow> cli_out \<times> AuthStatus" where
  "setProxy peerID s =
     (case UpdateProxySettings (Some peerID) s of
        (r, s') \<Rightarrow> (done_or_error ''proxy settings updated successfully'' r, s'))"

section \<open>Finding a peer\<close>

lemma getKnownPeers_mem:
  "r \<in> set (getKnownPeers x v c) \<longleftrightarrow> (\<exists>i \<in> fst ` set (c_KnownPeers c). r = peer_response x v c i)"
  by (auto simp: getKnownPeers_def Let_def)

lemma peer_response_known:
  "GetPeer c i = Some p \<Longrightarrow> kr_Alias (peer_response x v c i) = kp_Alias p"
  "kr_PeerID (peer_response x v c i) = i"
  by (simp_all add: peer_response_def Let_def)

lemma known_key: "k \<in> fst ` set (c_KnownPeers c) \<longleftrightarrow> GetPeer c k \<noteq> None"
  by (simp add: GetPeer_def gm_get_None_iff)

section \<open>Properties\<close>

text \<open>
  Looking up a name finds a peer exactly when one is known under that alias, and then it is
  the only one: the ID it returns is the ID of the peer with that alias.
\<close>

theorem alias_lookup:
  assumes "conf_wf c" and "al \<noteq> []"
  shows "getPeerIdByAlias x v c al = Inr i \<longleftrightarrow> (\<exists>p. GetPeer c i = Some p \<and> kp_Alias p = al)"
proof -
  let ?ps = "getKnownPeers x v c"
  have alias_of: "\<exists>p. GetPeer c j = Some p \<and> kr_Alias (peer_response x v c j) = kp_Alias p"
    if "j \<in> fst ` set (c_KnownPeers c)" for j
    using that by (auto simp: known_key peer_response_known)
  have unique: "j = k" if "GetPeer c j = Some p" "GetPeer c k = Some q" "kp_Alias p = kp_Alias q" for j k p q
    using assms(1) that by (fastforce simp: conf_wf_def alias_wf_def GetPeer_def dest: gm_get_Some_in)
  show ?thesis
  proof
    assume "getPeerIdByAlias x v c al = Inr i"
    then obtain r where "find (\<lambda>p. kr_Alias p = al) ?ps = Some r" "kr_PeerID r = i"
      using assms(2) by (auto simp: getPeerIdByAlias_def split: option.splits)
    then have "r \<in> set ?ps" "kr_Alias r = al" "kr_PeerID r = i" by (auto simp: find_Some_iff)
    then obtain j where j: "j \<in> fst ` set (c_KnownPeers c)" "r = peer_response x v c j" by (auto simp: getKnownPeers_mem)
    with \<open>kr_PeerID r = i\<close> \<open>kr_Alias r = al\<close> alias_of [OF j(1)] show "\<exists>p. GetPeer c i = Some p \<and> kp_Alias p = al"
      by (auto simp: peer_response_known(2))
  next
    assume "\<exists>p. GetPeer c i = Some p \<and> kp_Alias p = al"
    then obtain p where p: "GetPeer c i = Some p" "kp_Alias p = al" by blast
    then have "i \<in> fst ` set (c_KnownPeers c)" by (simp add: known_key)
    then have "peer_response x v c i \<in> set ?ps" unfolding getKnownPeers_mem by blast
    moreover have "kr_Alias (peer_response x v c i) = al" using p by (simp add: peer_response_known)
    ultimately have "find (\<lambda>p. kr_Alias p = al) ?ps \<noteq> None" by (auto simp: find_None_iff)
    then obtain r where r: "find (\<lambda>p. kr_Alias p = al) ?ps = Some r" by blast
    then have "r \<in> set ?ps" "kr_Alias r = al" by (auto simp: find_Some_iff)
    then obtain j where j: "j \<in> fst ` set (c_KnownPeers c)" "r = peer_response x v c j" by (auto simp: getKnownPeers_mem)
    from alias_of [OF j(1)] obtain q where q: "GetPeer c j = Some q" "kr_Alias r = kp_Alias q" using j(2) by blast
    have "j = i" using unique [OF q(1) p(1)] q(2) p(2) \<open>kr_Alias r = al\<close> by simp
    with r j(2) assms(2) show "getPeerIdByAlias x v c al = Inr i"
      by (simp add: getPeerIdByAlias_def peer_response_known(2))
  qed
qed

theorem alias_lookup_witness:
  "getPeerIdByAlias sample_ext \<lparr>pv_UserAgent = (\<lambda>_. []), pv_IsConnected = (\<lambda>_. False)\<rparr>
     (zero_Config\<lparr>c_KnownPeers := [(''Qm'', sample_peer)]\<rparr>) ''bob'' = Inr ''Qm''"
proof -
  let ?c = "zero_Config\<lparr>c_KnownPeers := [(''Qm'', sample_peer)]\<rparr>"
  have "conf_wf ?c" by (simp add: conf_wf_def peers_wf_def alias_wf_def gm_wf_def zero_Config_def sample_peer_def)
  moreover have "GetPeer ?c ''Qm'' = Some sample_peer \<and> kp_Alias sample_peer = ''bob''"
    by (simp add: GetPeer_def gm_get_def sample_peer_def)
  ultimately show ?thesis
    using alias_lookup [of ?c "''bob''" sample_ext "\<lparr>pv_UserAgent = (\<lambda>_. []), pv_IsConnected = (\<lambda>_. False)\<rparr>" "''Qm''"] by auto
qed

text \<open>
  Renaming a peer from the command line changes its alias and nothing else of it, and no
  other peer, when it reports success; otherwise it changes nothing.
\<close>

theorem rename_changes_alias_only:
  assumes "conf_wf (as_c s)" and "GetPeer (as_c s) k = Some p"
    and "changePeerAlias vd isdn x id k newAlias s = Some (out, ts, s')"
  shows "(case out of
            Inl e \<Rightarrow> s' = s
          | Inr _ \<Rightarrow> (\<forall>j. GetPeer (as_c s') j = (if j = k then Some (p\<lparr>kp_Alias := TrimSpace newAlias\<rparr>) else GetPeer (as_c s) j)) \<and>
              (\<forall>j q. GetPeer (as_c s) j = Some q \<and> j \<noteq> k \<longrightarrow> kp_Alias q \<noteq> TrimSpace newAlias))"
proof -
  let ?rq = "(settings_of k p)\<lparr>up_Alias := newAlias\<rparr>"
  have k: "kp_PeerID p = k" using assms(1,2) GetPeer_PeerID by (auto simp: conf_wf_def)
  have up: "updated_peer ?rq p = p\<lparr>kp_Alias := TrimSpace newAlias\<rparr>" by (simp add: updated_peer_def settings_of_def)
  show ?thesis
  proof (cases "vd_required vd k")
    case False
    with assms(3) show ?thesis by (auto simp: changePeerAlias_def change_setting_def GetKnownPeerSettings_def)
  next
    case True
    then obtain r where r: "UpdatePeerSettings vd isdn x id (Some ?rq) s = Some (r, ts, s')"
      "out = done_or_error ''peer name updated successfully'' r"
      using assms(2,3) by (auto simp: changePeerAlias_def change_setting_def GetKnownPeerSettings_def)
    have ID: "up_PeerID ?rq = k" "up_Alias ?rq = newAlias" by (simp_all add: settings_of_def)
    from UpdatePeerSettings_cases [OF r(1)] show ?thesis
    proof (elim disjE exE conjE)
      fix rq q
      assume "Some ?rq = Some rq" "r = Resp200 ()" "GetPeer (as_c s) (up_PeerID rq) = Some q"
        and "IsUniqPeerAlias (as_c s) (up_PeerID rq) (TrimSpace (up_Alias rq))"
        and s': "s' = (id s)\<lparr>as_conf := UpsertPeer (updated_peer rq q) (as_conf (id s))\<rparr>"
      then have *: "q = p" "rq = ?rq" "IsUniqPeerAlias (as_c s) k (TrimSpace newAlias)" "out = Inr (line ''peer name updated successfully'')"
        using assms(2) ID r(2) by auto
      have "GetPeer (as_c s') j = (if j = k then Some (p\<lparr>kp_Alias := TrimSpace newAlias\<rparr>) else GetPeer (as_c s) j)" for j
        using s' *(1,2) up k by (simp add: GetPeer_set)
      moreover have "kp_Alias q \<noteq> TrimSpace newAlias" if "GetPeer (as_c s) j = Some q" "j \<noteq> k" for j q
        using *(3) that assms(1) by (auto simp: IsUniqPeerAlias_iff conf_wf_def GetPeer_def dest: gm_get_Some_in)
      ultimately show ?thesis using *(4) by (auto simp del: if_split_asm)
    qed (use r(2) in \<open>cases r; simp\<close>)+
  qed
qed

definition sample_named_peer :: KnownPeer where
  "sample_named_peer = sample_peer\<lparr>kp_DomainName := ''bob''\<rparr>"

definition sample_named_service :: AuthStatus where
  "sample_named_service = sample_auth ((demo_conf ''10.66.0.1/24'' [])\<lparr>c_KnownPeers := [(''Qm'', sample_named_peer)]\<rparr>)"

theorem rename_changes_alias_only_witness:
  "\<exists>ts s'. changePeerAlias sample_validator (\<lambda>_. True) sample_ext id ''Qm'' '' robert '' sample_named_service =
       Some (Inr (line ''peer name updated successfully''), ts, s') \<and>
     GetPeer (as_c s') ''Qm'' = Some (sample_named_peer\<lparr>kp_Alias := ''robert''\<rparr>)"
proof -
  let ?r = "changePeerAlias sample_validator (\<lambda>_. True) sample_ext id ''Qm'' '' robert '' sample_named_service"
  have "map_option fst ?r = Some (Inr (line ''peer name updated successfully''))" by code_simp
  then obtain ts s' where r: "?r = Some (Inr (line ''peer name updated successfully''), ts, s')" by auto
  have "conf_wf (as_c sample_named_service)"
    by (simp add: conf_wf_def peers_wf_def alias_wf_def gm_wf_def sample_named_service_def sample_auth_def demo_conf_def
        zero_Config_def sample_named_peer_def sample_peer_def)
  moreover have "GetPeer (as_c sample_named_service) ''Qm'' = Some sample_named_peer"
    by (simp add: GetPeer_def gm_get_def sample_named_service_def sample_auth_def)
  ultimately have "GetPeer (as_c s') ''Qm'' = Some (sample_named_peer\<lparr>kp_Alias := TrimSpace '' robert ''\<rparr>)"
    using rename_changes_alias_only [OF _ _ r] by simp
  moreover have "TrimSpace '' robert '' = ''robert''" by code_simp
  ultimately show ?thesis using r by simp
qed

end
