(* ===== verification/Tunnel_Routes.thy ===== *)
theory Tunnel_Routes
  imports Tunnel
begin

text \<open>
  What \<open>RefreshPeersList\<close> does to the peer tables: it never panics and keeps the tables
  consistent with each other; it makes the table follow the configuration; and every known
  peer with an IPv4 address is reachable under that address when no address changes hands
  between two peers. The last section shows that this condition is needed.
\<close>

section \<open>Consistent tables\<close>

definition table_ok :: "Tunnel \<Rightarrow> bool" where
  "table_ok t \<longleftrightarrow>
     (\<forall>i p. gm_get (tn_peerIDToPeer t) i = Some p \<longrightarrow>
        p < length (tn_heap t) \<and> vp_peerID (tn_heap t ! p) = i \<and>
        length (vp_localIP (tn_heap t ! p)) = 4 \<and> \<not> vp_closed (tn_heap t ! p)) \<and>
     (\<forall>a p. gm_get (tn_netIPToPeer t) a = Some p \<longrightarrow>
        gm_get (tn_peerIDToPeer t) (vp_peerID (tn_heap t ! p)) = Some p \<and> vp_localIP (tn_heap t ! p) = a) \<and>
     gm_wf (tn_peerIDToPeer t)"

text \<open>Every peer is reachable under its address.\<close>

definition table_full :: "Tunnel \<Rightarrow> bool" where
  "table_full t \<longleftrightarrow>
     (\<forall>i p. gm_get (tn_peerIDToPeer t) i = Some p \<longrightarrow>
        gm_get (tn_netIPToPeer t) (vp_localIP (tn_heap t ! p)) = Some p)"

definition peer_addr :: "Tunnel \<Rightarrow> string \<Rightarrow> ip option" where
  "peer_addr t i = map_option (\<lambda>p. vp_localIP (tn_heap t ! p)) (gm_get (tn_peerIDToPeer t) i)"

lemma table_okD:
  assumes "table_ok t" and "gm_get (tn_peerIDToPeer t) i = Some p"
  shows "p < length (tn_heap t)" "vp_peerID (tn_heap t ! p) = i" "length (vp_localIP (tn_heap t ! p)) = 4"
    "\<not> vp_closed (tn_heap t ! p)"
  using assms by (auto simp: table_ok_def)

lemma table_ok_netD:
  assumes "table_ok t" and "gm_get (tn_netIPToPeer t) a = Some p"
  shows "gm_get (tn_peerIDToPeer t) (vp_peerID (tn_heap t ! p)) = Some p" "vp_localIP (tn_heap t ! p) = a"
    "p < length (tn_heap t)"
proof -
  show g: "gm_get (tn_peerIDToPeer t) (vp_peerID (tn_heap t ! p)) = Some p" and "vp_localIP (tn_heap t ! p) = a"
    using assms by (auto simp: table_ok_def)
  show "p < length (tn_heap t)" using table_okD(1) [OF assms(1) g] .
qed

lemma table_okI:
  assumes "\<And>i p. gm_get (tn_peerIDToPeer t) i = Some p \<Longrightarrow>
        p < length (tn_heap t) \<and> vp_peerID (tn_heap t ! p) = i \<and>
        length (vp_localIP (tn_heap t ! p)) = 4 \<and> \<not> vp_closed (tn_heap t ! p)"
    and "\<And>a p. gm_get (tn_netIPToPeer t) a = Some p \<Longrightarrow>
        gm_get (tn_peerIDToPeer t) (vp_peerID (tn_heap t ! p)) = Some p \<and> vp_localIP (tn_heap t ! p) = a"
    and "gm_wf (tn_peerIDToPeer t)"
  shows "table_ok t"
  using assms by (simp add: table_ok_def)

lemma table_ok_inj:
  "table_ok t \<Longrightarrow> gm_get (tn_peerIDToPeer t) i = Some p \<Longrightarrow> gm_get (tn_peerIDToPeer t) j = Some p \<Longrightarrow> i = j"
  by (auto dest: table_okD(2))

lemma ip_Equal_4: "length a = 4 \<Longrightarrow> length b = 4 \<Longrightarrow> ip_Equal a b \<longleftrightarrow> a = b"
  by (simp add: ip_Equal_def)

text \<open>The update for one peer, by its ID and its address.\<close>

definition route_upsert :: "Config \<Rightarrow> string \<Rightarrow> ip \<Rightarrow> Tunnel \<Rightarrow> Tunnel" where
  "route_upsert c i a t =
     (case gm_get (tn_peerIDToPeer t) i of
        Some p \<Rightarrow>
          if vp_localIP (tn_heap t ! p) = a then t
          else t\<lparr>tn_netIPToPeer := gm_set (gm_del (tn_netIPToPeer t) (vp_localIP (tn_heap t ! p))) a p,
                 tn_heap := (tn_heap t)[p := (tn_heap t ! p)\<lparr>vp_localIP := a\<rparr>]\<rparr>
      | None \<Rightarrow>
          t\<lparr>tn_peerIDToPeer := gm_set (tn_peerIDToPeer t) i (length (tn_heap t)),
            tn_netIPToPeer := gm_set (tn_netIPToPeer t) a (length (tn_heap t)),
            tn_heap := tn_heap t @ [VpnPeer_Start c (NewVpnPeer i a)]\<rparr>)"

lemma refresh_known_upsert:
  assumes "table_ok t"
  shows "refresh_known pdec c t k =
     (if To4 (ParseIP (kp_IPAddr k)) = [] then t
      else route_upsert c (PeerId pdec k) (To4 (ParseIP (kp_IPAddr k))) t)"
proof (cases "To4 (ParseIP (kp_IPAddr k)) = []")
  case False
  then have "length (To4 (ParseIP (kp_IPAddr k))) = 4" using length_To4 by blast
  with False show ?thesis
    using table_okD(3) [OF assms]
    by (auto simp: refresh_known_def route_upsert_def Let_def ip_Equal_4 split: option.split)
qed (simp add: refresh_known_def)

lemma new_peer_fields [simp]:
  "vp_peerID (VpnPeer_Start c (NewVpnPeer i a)) = i" "vp_localIP (VpnPeer_Start c (NewVpnPeer i a)) = a"
  "vp_closed (VpnPeer_Start c (NewVpnPeer i a)) = False"
  by (simp_all add: VpnPeer_Start_def NewVpnPeer_def)

lemma route_upsert_ok:
  assumes ok: "table_ok t" and a: "length a = 4"
  shows "table_ok (route_upsert c i a t)"
proof (cases "gm_get (tn_peerIDToPeer t) i")
  case None
  let ?t = "route_upsert c i a t" and ?n = "length (tn_heap t)"
  have heap: "tn_heap ?t ! p = tn_heap t ! p" if "p < ?n" for p
    using that None by (simp add: route_upsert_def nth_append)
  have new: "tn_heap ?t ! ?n = VpnPeer_Start c (NewVpnPeer i a)" "length (tn_heap ?t) = Suc ?n"
    using None by (simp_all add: route_upsert_def)
  have maps: "gm_get (tn_peerIDToPeer ?t) j = (if j = i then Some ?n else gm_get (tn_peerIDToPeer t) j)"
    "gm_get (tn_netIPToPeer ?t) b = (if b = a then Some ?n else gm_get (tn_netIPToPeer t) b)" for j b
    using None by (simp_all add: route_upsert_def gm.get_put)
  show ?thesis
  proof (rule table_okI)
    show "p < length (tn_heap ?t) \<and> vp_peerID (tn_heap ?t ! p) = j \<and>
        length (vp_localIP (tn_heap ?t ! p)) = 4 \<and> \<not> vp_closed (tn_heap ?t ! p)"
      if "gm_get (tn_peerIDToPeer ?t) j = Some p" for j p
      using that a new heap [of p] table_okD [OF ok, of j p] by (auto simp: maps split: if_splits)
    show "gm_get (tn_peerIDToPeer ?t) (vp_peerID (tn_heap ?t ! p)) = Some p \<and> vp_localIP (tn_heap ?t ! p) = b"
      if "gm_get (tn_netIPToPeer ?t) b = Some p" for b p
      using that a new heap [of p] table_ok_netD [OF ok, of b p] None by (auto simp: maps split: if_splits)
    show "gm_wf (tn_peerIDToPeer ?t)" using ok None by (simp add: route_upsert_def table_ok_def gm.wf_put)
  qed
next
  case (Some p)
  have "vp_peerID (tn_heap t ! p) = i" "p < length (tn_heap t)" using table_okD [OF ok Some] by simp_all
  with ok Some a show ?thesis
    using table_ok_inj [OF ok]
    by (auto simp: table_ok_def route_upsert_def gm.get_put gm.get_del nth_list_update split: if_splits)
qed

lemma route_upsert_addr:
  assumes ok: "table_ok t"
  shows "peer_addr (route_upsert c i a t) j = (if j = i then Some a else peer_addr t j)"
proof (cases "gm_get (tn_peerIDToPeer t) i")
  case None
  then show ?thesis using table_okD(1) [OF ok]
    by (cases "gm_get (tn_peerIDToPeer t) j") (auto simp: peer_addr_def route_upsert_def gm.get_put nth_append)
next
  case (Some p)
  then show ?thesis using table_okD(1) [OF ok Some] table_ok_inj [OF ok, of _ p]
    by (cases "gm_get (tn_peerIDToPeer t) j") (auto simp: peer_addr_def route_upsert_def nth_list_update)
qed

lemma route_upsert_full:
  assumes ok: "table_ok t" and full: "table_full t"
    and free: "\<And>j. j \<noteq> i \<Longrightarrow> peer_addr t j \<noteq> Some a"
  shows "table_full (route_upsert c i a t)"
proof (cases "gm_get (tn_peerIDToPeer t) i")
  case None
  have "vp_localIP (tn_heap t ! p) \<noteq> a" "p < length (tn_heap t)" if "gm_get (tn_peerIDToPeer t) j = Some p" for j p
    using that None free [of j] table_okD(1) [OF ok that] by (cases "j = i"; auto simp: peer_addr_def)+
  with full None show ?thesis
    by (auto simp: table_full_def route_upsert_def gm.get_put nth_append)
next
  case (Some p)
  have other: "vp_localIP (tn_heap t ! q) \<noteq> a" "vp_localIP (tn_heap t ! q) \<noteq> vp_localIP (tn_heap t ! p)" "q \<noteq> p"
    if q: "gm_get (tn_peerIDToPeer t) j = Some q" "j \<noteq> i" for j q
  proof -
    show qp: "q \<noteq> p" using q Some table_ok_inj [OF ok] by auto
    show "vp_localIP (tn_heap t ! q) \<noteq> a" using free [OF q(2)] q(1) by (auto simp: peer_addr_def)
    have "gm_get (tn_netIPToPeer t) (vp_localIP (tn_heap t ! q)) = Some q"
      "gm_get (tn_netIPToPeer t) (vp_localIP (tn_heap t ! p)) = Some p"
      using full q(1) Some by (auto simp: table_full_def)
    with qp show "vp_localIP (tn_heap t ! q) \<noteq> vp_localIP (tn_heap t ! p)" by auto
  qed
  show ?thesis
    unfolding table_full_def
  proof (intro allI impI)
    fix j q
    assume j: "gm_get (tn_peerIDToPeer (route_upsert c i a t)) j = Some q"
    then have jt: "gm_get (tn_peerIDToPeer t) j = Some q"
      using Some by (auto simp: route_upsert_def split: if_splits)
    show "gm_get (tn_netIPToPeer (route_upsert c i a t)) (vp_localIP (tn_heap (route_upsert c i a t) ! q)) = Some q"
    proof (cases "j = i")
      case True
      with jt Some have "q = p" by simp
      with full Some table_okD(1) [OF ok Some] show ?thesis
        by (auto simp: table_full_def route_upsert_def gm.get_put)
    next
      case False
      with full jt Some other [OF jt False] show ?thesis
        by (auto simp: table_full_def route_upsert_def gm.get_put gm.get_del)
    qed
  qed
qed

section \<open>The loop over the known peers\<close>

text \<open>The ID and the address of a known peer, when it has an IPv4 address.\<close>

definition known_route :: "(string \<Rightarrow> string option) \<Rightarrow> KnownPeer \<Rightarrow> (string \<times> ip) option" where
  "known_route pdec k =
     (let a = To4 (ParseIP (kp_IPAddr k)) in if a = [] then None else Some (PeerId pdec k, a))"

definition routes_of :: "(string \<Rightarrow> string option) \<Rightarrow> Config \<Rightarrow> (string \<times> ip) list" where
  "routes_of pdec c = somes (map (known_route pdec) (gm_vals (c_KnownPeers c)))"

lemma set_somes: "set (somes xs) = {a. Some a \<in> set xs}"
  by (force simp: somes_def)

lemma known_route_length: "known_route pdec k = Some (i, a) \<Longrightarrow> length a = 4"
  using length_To4 [of "ParseIP (kp_IPAddr k)"] by (auto simp: known_route_def Let_def split: if_splits)

lemma refresh_known_route:
  "table_ok t \<Longrightarrow> refresh_known pdec c t k =
     (case known_route pdec k of None \<Rightarrow> t | Some (i, a) \<Rightarrow> route_upsert c i a t)"
  by (simp add: refresh_known_upsert known_route_def Let_def)

definition upserts :: "Config \<Rightarrow> (string \<times> ip) list \<Rightarrow> Tunnel \<Rightarrow> Tunnel" where
  "upserts c rs t = fold (\<lambda>(i, a). route_upsert c i a) rs t"

lemma upserts_simps [simp]:
  "upserts c [] t = t" "upserts c ((i, a) # rs) t = upserts c rs (route_upsert c i a t)"
  by (simp_all add: upserts_def)

lemma upserts_ok: "table_ok t \<Longrightarrow> \<forall>(i, a) \<in> set rs. length a = 4 \<Longrightarrow> table_ok (upserts c rs t)"
  by (induction rs arbitrary: t) (auto simp: route_upsert_ok)

lemma refresh_loop_upserts:
  assumes "table_ok t"
  shows "foldl (refresh_known pdec c) t ks = upserts c (somes (map (known_route pdec) ks)) t"
  using assms
proof (induction ks arbitrary: t)
  case (Cons k ks)
  show ?case
  proof (cases "known_route pdec k")
    case None
    with Cons show ?thesis by (simp add: refresh_known_route)
  next
    case (Some r)
    obtain i a where r: "r = (i, a)" by fastforce
    with Some have "table_ok (route_upsert c i a t)"
      using Cons.prems known_route_length by (intro route_upsert_ok) auto
    with Cons.IH Cons.prems Some r show ?thesis by (simp add: refresh_known_route)
  qed
qed simp

lemma routes_of_length: "(i, a) \<in> set (routes_of pdec c) \<Longrightarrow> length a = 4"
  by (auto simp: routes_of_def set_somes dest: known_route_length [OF sym])

text \<open>With distinct IDs every peer ends with its own address, and no other address changes.\<close>

lemma upserts_addr:
  assumes "table_ok t" and "\<forall>(i, a) \<in> set rs. length a = 4" and "distinct (map fst rs)"
  shows "peer_addr (upserts c rs t) j = (case map_of rs j of Some a \<Rightarrow> Some a | None \<Rightarrow> peer_addr t j)"
  using assms
proof (induction rs arbitrary: t)
  case (Cons r rs)
  obtain i a where r: "r = (i, a)" by fastforce
  have ok: "table_ok (route_upsert c i a t)" using Cons.prems r by (auto intro: route_upsert_ok)
  have "map_of rs i = None" using Cons.prems(3) r by (simp add: map_of_eq_None_iff)
  with Cons.IH [OF ok] Cons.prems r show ?case
    by (auto simp: route_upsert_addr split: option.splits)
qed simp

definition no_move :: "(string \<times> ip) list \<Rightarrow> Tunnel \<Rightarrow> bool" where
  "no_move rs t \<longleftrightarrow> (\<forall>(i, a) \<in> set rs. \<forall>j. j \<noteq> i \<longrightarrow> peer_addr t j \<noteq> Some a)"

lemma upserts_full:
  assumes "table_ok t" and "table_full t" and "\<forall>(i, a) \<in> set rs. length a = 4"
    and "set rs \<subseteq> set all" and "no_move all t" and "distinct (map snd all)"
  shows "table_full (upserts c rs t) \<and> no_move all (upserts c rs t)"
  using assms(1-5)
proof (induction rs arbitrary: t)
  case (Cons r rs)
  obtain i a where r: "r = (i, a)" by fastforce
  have ia: "(i, a) \<in> set all" using Cons.prems(4) r by simp
  have ok: "table_ok (route_upsert c i a t)" using Cons.prems r by (auto intro: route_upsert_ok)
  have full: "table_full (route_upsert c i a t)"
    using Cons.prems(1,2,5) ia by (intro route_upsert_full) (auto simp: no_move_def)
  have uniq: "j = i" if "(j, b) \<in> set all" "b = a" for j b
    using that ia assms(6) by (metis inj_on_eq_iff distinct_map fst_conv snd_conv)
  have "no_move all (route_upsert c i a t)"
    using Cons.prems(5) uniq by (auto simp: no_move_def route_upsert_addr [OF Cons.prems(1)])
  with Cons.IH [OF ok full] Cons.prems r show ?case by simp
qed simp

section \<open>Dropping the unknown peers\<close>

lemma drop_peer_ok:
  assumes ok: "table_ok t" and p: "gm_get (tn_peerIDToPeer t) i = Some p"
  shows "\<exists>d' t'. drop_peer p (d, t) = Some (d', t') \<and> table_ok t' \<and>
     (\<forall>j. gm_get (tn_peerIDToPeer t') j = (if j = i then None else gm_get (tn_peerIDToPeer t) j)) \<and>
     (\<forall>j. peer_addr t' j = (if j = i then None else peer_addr t j)) \<and>
     (\<forall>q. vp_peerID (tn_heap t' ! q) = vp_peerID (tn_heap t ! q)) \<and>
     (table_full t \<longrightarrow> table_full t')"
proof -
  let ?v = "tn_heap t ! p"
  let ?v' = "?v\<lparr>vp_inboundCh := [], vp_outboundCh := [], vp_closed := True\<rparr>"
  let ?t = "t\<lparr>tn_heap := (tn_heap t)[p := ?v'], tn_peerIDToPeer := gm_del (tn_peerIDToPeer t) i,
    tn_netIPToPeer := gm_del (tn_netIPToPeer t) (vp_localIP ?v)\<rparr>"
  have v: "p < length (tn_heap t)" "vp_peerID ?v = i" "\<not> vp_closed ?v" using table_okD [OF ok p] by simp_all
  have run: "\<exists>d'. drop_peer p (d, t) = Some (d', ?t)"
    using v by (simp add: drop_peer_def VpnPeer_Close_def Let_def)
  have heap: "tn_heap ?t ! q = (if q = p then ?v' else tn_heap t ! q)" for q
    using v(1) by (simp add: nth_list_update)
  have other: "q \<noteq> p" if "gm_get (tn_peerIDToPeer t) j = Some q" "j \<noteq> i" for j q
    using that p table_ok_inj [OF ok] by auto
  have "table_ok ?t"
  proof (rule table_okI)
    show "q < length (tn_heap ?t) \<and> vp_peerID (tn_heap ?t ! q) = j \<and>
        length (vp_localIP (tn_heap ?t ! q)) = 4 \<and> \<not> vp_closed (tn_heap ?t ! q)"
      if "gm_get (tn_peerIDToPeer ?t) j = Some q" for j q
      using that other [of j q] table_okD [OF ok, of j q] heap [of q] by (auto simp: gm.get_del split: if_splits)
    show "gm_get (tn_peerIDToPeer ?t) (vp_peerID (tn_heap ?t ! q)) = Some q \<and> vp_localIP (tn_heap ?t ! q) = a"
      if "gm_get (tn_netIPToPeer ?t) a = Some q" for a q
    proof -
      have q: "gm_get (tn_netIPToPeer t) a = Some q" "a \<noteq> vp_localIP ?v"
        using that by (auto simp: gm.get_del split: if_splits)
      note n = table_ok_netD [OF ok q(1)]
      have "q \<noteq> p" using n(2) q(2) by auto
      moreover have "vp_peerID (tn_heap t ! q) \<noteq> i" using n(1) p \<open>q \<noteq> p\<close> by auto
      ultimately show ?thesis using n heap [of q] by (simp add: gm.get_del)
    qed
    show "gm_wf (tn_peerIDToPeer ?t)" using ok by (simp add: table_ok_def gm.wf_del)
  qed
  moreover have "peer_addr ?t j = (if j = i then None else peer_addr t j)" for j
    using other [of j] heap by (cases "gm_get (tn_peerIDToPeer t) j") (auto simp: peer_addr_def gm.get_del)
  moreover have "table_full ?t" if full: "table_full t"
    unfolding table_full_def
  proof (intro allI impI)
    fix j q assume "gm_get (tn_peerIDToPeer ?t) j = Some q"
    then have j: "gm_get (tn_peerIDToPeer t) j = Some q" "j \<noteq> i" by (auto simp: gm.get_del split: if_splits)
    have f: "gm_get (tn_netIPToPeer t) (vp_localIP (tn_heap t ! q)) = Some q"
      "gm_get (tn_netIPToPeer t) (vp_localIP ?v) = Some p" using full j(1) p by (auto simp: table_full_def)
    have "vp_localIP (tn_heap t ! q) \<noteq> vp_localIP ?v" using f other [OF j] by auto
    with f(1) other [OF j] heap [of q]
    show "gm_get (tn_netIPToPeer ?t) (vp_localIP (tn_heap ?t ! q)) = Some q" by (simp add: gm.get_del)
  qed
  moreover have "vp_peerID (tn_heap ?t ! q) = vp_peerID (tn_heap t ! q)" for q
    using v(1) by (cases "q = p") simp_all
  ultimately show ?thesis using run by (auto simp: gm.get_del)
qed

lemma drop_unknown_ok:
  assumes "table_ok t" and "distinct ps" and "\<forall>p \<in> set ps. \<exists>i. gm_get (tn_peerIDToPeer t) i = Some p"
  shows "\<exists>d' t'. drop_unknown pstr c ps (d, t) = Some (d', t') \<and> table_ok t' \<and>
     (\<forall>j. gm_get (tn_peerIDToPeer t') j =
        (case gm_get (tn_peerIDToPeer t) j of
           None \<Rightarrow> None
         | Some p \<Rightarrow> if p \<in> set ps \<and> gm_get (c_KnownPeers c) (pstr j) = None then None else Some p)) \<and>
     (\<forall>j. gm_get (tn_peerIDToPeer t') j \<noteq> None \<longrightarrow> peer_addr t' j = peer_addr t j) \<and>
     (table_full t \<longrightarrow> table_full t')"
  using assms
proof (induction ps arbitrary: d t)
  case Nil
  then show ?case by (auto split: option.split)
next
  case (Cons p ps)
  obtain i where i: "gm_get (tn_peerIDToPeer t) i = Some p" using Cons.prems(3) by auto
  have id: "vp_peerID (tn_heap t ! p) = i" using table_okD(2) [OF Cons.prems(1) i] .
  show ?case
  proof (cases "gm_get (c_KnownPeers c) (pstr i)")
    case (Some k)
    have "\<forall>q \<in> set ps. \<exists>i. gm_get (tn_peerIDToPeer t) i = Some q" using Cons.prems(3) by simp
    from Cons.IH [OF Cons.prems(1) _ this, of d] Cons.prems(2) obtain d' t' where r:
      "drop_unknown pstr c ps (d, t) = Some (d', t')" "table_ok t'"
      "\<forall>j. gm_get (tn_peerIDToPeer t') j = (case gm_get (tn_peerIDToPeer t) j of None \<Rightarrow> None
         | Some q \<Rightarrow> if q \<in> set ps \<and> gm_get (c_KnownPeers c) (pstr j) = None then None else Some q)"
      "\<forall>j. gm_get (tn_peerIDToPeer t') j \<noteq> None \<longrightarrow> peer_addr t' j = peer_addr t j"
      "table_full t \<longrightarrow> table_full t'" by auto
    have "gm_get (c_KnownPeers c) (pstr j) \<noteq> None" if "gm_get (tn_peerIDToPeer t) j = Some p" for j
      using table_ok_inj [OF Cons.prems(1) that i] Some by simp
    then have "(case gm_get (tn_peerIDToPeer t) j of None \<Rightarrow> None
         | Some q \<Rightarrow> if q \<in> set ps \<and> gm_get (c_KnownPeers c) (pstr j) = None then None else Some q) =
       (case gm_get (tn_peerIDToPeer t) j of None \<Rightarrow> None
         | Some q \<Rightarrow> if q \<in> set (p # ps) \<and> gm_get (c_KnownPeers c) (pstr j) = None then None else Some q)" for j
      by (cases "gm_get (tn_peerIDToPeer t) j") auto
    moreover have "drop_unknown pstr c (p # ps) (d, t) = Some (d', t')" using r(1) Some by (simp add: id)
    ultimately show ?thesis using r(2-5) by (intro exI [of _ d'] exI [of _ t']) simp
  next
    case None
    obtain d1 t1 where dp: "drop_peer p (d, t) = Some (d1, t1)" "table_ok t1"
      "\<forall>j. gm_get (tn_peerIDToPeer t1) j = (if j = i then None else gm_get (tn_peerIDToPeer t) j)"
      "\<forall>j. peer_addr t1 j = (if j = i then None else peer_addr t j)"
      "table_full t \<longrightarrow> table_full t1"
      using drop_peer_ok [OF Cons.prems(1) i] by blast
    have in_ps: "\<forall>q \<in> set ps. \<exists>j. gm_get (tn_peerIDToPeer t1) j = Some q"
    proof
      fix q assume q: "q \<in> set ps"
      then obtain j where "gm_get (tn_peerIDToPeer t) j = Some q" using Cons.prems(3) by auto
      moreover have "j \<noteq> i" using calculation i q Cons.prems(2) by auto
      ultimately show "\<exists>j. gm_get (tn_peerIDToPeer t1) j = Some q" using dp(3) by auto
    qed
    from Cons.IH [OF dp(2) _ in_ps, of d1] Cons.prems(2) obtain d' t' where r:
      "drop_unknown pstr c ps (d1, t1) = Some (d', t')" "table_ok t'"
      "\<forall>j. gm_get (tn_peerIDToPeer t') j = (case gm_get (tn_peerIDToPeer t1) j of None \<Rightarrow> None
         | Some q \<Rightarrow> if q \<in> set ps \<and> gm_get (c_KnownPeers c) (pstr j) = None then None else Some q)"
      "\<forall>j. gm_get (tn_peerIDToPeer t') j \<noteq> None \<longrightarrow> peer_addr t' j = peer_addr t1 j"
      "table_full t1 \<longrightarrow> table_full t'" by auto
    have "q \<noteq> p" if "gm_get (tn_peerIDToPeer t) j = Some q" "j \<noteq> i" for j q
      using that i table_ok_inj [OF Cons.prems(1)] by auto
    then have m: "gm_get (tn_peerIDToPeer t') j = (case gm_get (tn_peerIDToPeer t) j of None \<Rightarrow> None
         | Some q \<Rightarrow> if q \<in> set (p # ps) \<and> gm_get (c_KnownPeers c) (pstr j) = None then None else Some q)" for j
      using r(3) dp(3) None i by (cases "j = i"; cases "gm_get (tn_peerIDToPeer t) j") auto
    have "peer_addr t' j = peer_addr t j" if "gm_get (tn_peerIDToPeer t') j \<noteq> None" for j
      using that r(4) dp(4) m [of j] None i by (cases "j = i") auto
    moreover have "drop_unknown pstr c (p # ps) (d, t) = Some (d', t')" using r(1) dp(1) None by (simp add: id)
    ultimately show ?thesis using r(2,5) dp(5) m by (intro exI [of _ d'] exI [of _ t']) simp
  qed
qed

section \<open>Properties\<close>

text \<open>
  What the code relies on in libp2p's peer IDs: the text a known peer is stored under decodes,
  and printing the decoded ID gives the text again.
\<close>

definition ids_roundtrip :: "(string \<Rightarrow> string option) \<Rightarrow> (string \<Rightarrow> string) \<Rightarrow> Config \<Rightarrow> bool" where
  "ids_roundtrip pdec pstr c \<longleftrightarrow>
     list_all (\<lambda>k. case pdec k of None \<Rightarrow> False | Some i \<Rightarrow> pstr i = k) (map fst (c_KnownPeers c))"

lemma routes_of_known:
  assumes "peers_wf c" and "ids_roundtrip pdec pstr c" and "(i, a) \<in> set (routes_of pdec c)"
  shows "gm_get (c_KnownPeers c) (pstr i) \<noteq> None"
proof -
  obtain k p where kp: "(k, p) \<in> set (c_KnownPeers c)" "known_route pdec p = Some (i, a)"
    using assms(3) by (fastforce simp: routes_of_def set_somes gm_vals_def)
  have "kp_PeerID p = k" using assms(1) kp(1) by (auto simp: peers_wf_def)
  with kp assms(2) have "pstr i = k"
    by (auto simp: ids_roundtrip_def list_all_iff known_route_def PeerId_def Let_def split: if_splits option.splits)
  with kp(1) assms(1) show ?thesis by (auto simp: peers_wf_def gm_get_iff)
qed

lemma routes_of_distinct:
  assumes "peers_wf c" and "ids_roundtrip pdec pstr c"
  shows "distinct (map fst (routes_of pdec c))"
proof -
  have "distinct (map fst (somes (map (known_route pdec) (map snd kps)))) \<and>
      pstr ` fst ` set (somes (map (known_route pdec) (map snd kps))) \<subseteq> fst ` set kps"
    if "distinct (map fst kps)" "set kps \<subseteq> set (c_KnownPeers c)" for kps
    using that
  proof (induction kps)
    case (Cons kp kps)
    obtain k p where kp: "kp = (k, p)" by fastforce
    have id: "kp_PeerID p = k" using assms(1) Cons.prems(2) kp by (auto simp: peers_wf_def)
    show ?case
    proof (cases "known_route pdec p")
      case None
      with Cons kp show ?thesis by auto
    next
      case (Some r)
      then have "pstr (fst r) = k"
        using assms(2) Cons.prems(2) kp id
        by (force simp: ids_roundtrip_def list_all_iff known_route_def PeerId_def Let_def split: if_splits option.splits)
      with Cons kp Some show ?thesis by auto
    qed
  qed simp
  then show ?thesis
    using assms(1) by (simp add: routes_of_def gm_vals_def peers_wf_def gm_wf_def)
qed

lemma table_vals:
  assumes "table_ok t"
  shows "distinct (gm_vals (tn_peerIDToPeer t))"
    and "\<forall>p \<in> set (gm_vals (tn_peerIDToPeer t)). \<exists>i. gm_get (tn_peerIDToPeer t) i = Some p"
proof -
  have wf: "gm_wf (tn_peerIDToPeer t)" using assms by (simp add: table_ok_def)
  show "\<forall>p \<in> set (gm_vals (tn_peerIDToPeer t)). \<exists>i. gm_get (tn_peerIDToPeer t) i = Some p"
    using wf by (simp add: gm_vals_iff)
  have "inj_on snd (set (tn_peerIDToPeer t))"
    using table_ok_inj [OF assms] wf by (auto simp: inj_on_def gm_get_iff [symmetric])
  then show "distinct (gm_vals (tn_peerIDToPeer t))"
    using wf by (simp add: gm_vals_def gm_wf_def distinct_map)
qed

lemma RefreshPeersList_table:
  assumes wf: "peers_wf c" "ids_roundtrip pdec pstr c" and ok: "table_ok t"
  shows "\<exists>d' t'. RefreshPeersList pdec pstr c d t = Some (d', t') \<and> table_ok t' \<and>
     (\<forall>(i, a) \<in> set (routes_of pdec c). peer_addr t' i = Some a) \<and>
     (\<forall>i. peer_addr t' i \<noteq> None \<longrightarrow> gm_get (c_KnownPeers c) (pstr i) \<noteq> None) \<and>
     (table_full t \<and> no_move (routes_of pdec c) t \<and> distinct (map snd (routes_of pdec c)) \<longrightarrow> table_full t')"
proof -
  let ?rs = "routes_of pdec c"
  let ?t1 = "upserts c ?rs t"
  have four: "\<forall>(i, a) \<in> set ?rs. length a = 4" using routes_of_length by blast
  have loop: "foldl (refresh_known pdec c) t (gm_vals (c_KnownPeers c)) = ?t1"
    unfolding routes_of_def by (rule refresh_loop_upserts [OF ok])
  have ok1: "table_ok ?t1" using ok four by (rule upserts_ok)
  note addr = upserts_addr [OF ok four routes_of_distinct [OF wf]]
  obtain d' t' where dr: "drop_unknown pstr c (gm_vals (tn_peerIDToPeer ?t1)) (d, ?t1) = Some (d', t')"
    "table_ok t'"
    "\<forall>j. gm_get (tn_peerIDToPeer t') j = (case gm_get (tn_peerIDToPeer ?t1) j of None \<Rightarrow> None
       | Some p \<Rightarrow> if p \<in> set (gm_vals (tn_peerIDToPeer ?t1)) \<and> gm_get (c_KnownPeers c) (pstr j) = None
                  then None else Some p)"
    "\<forall>j. gm_get (tn_peerIDToPeer t') j \<noteq> None \<longrightarrow> peer_addr t' j = peer_addr ?t1 j"
    "table_full ?t1 \<longrightarrow> table_full t'"
    using drop_unknown_ok [OF ok1 table_vals [OF ok1]] by blast
  have "peer_addr t' i = Some a" if "(i, a) \<in> set ?rs" for i a
  proof -
    have a1: "peer_addr ?t1 i = Some a"
      using that addr [where j = i and c = c] routes_of_distinct [OF wf] by (simp add: map_of_is_SomeI)
    then have "gm_get (tn_peerIDToPeer t') i \<noteq> None"
      using dr(3) routes_of_known [OF wf that] by (auto simp: peer_addr_def split: option.splits)
    with dr(4) a1 show ?thesis by simp
  qed
  moreover have "gm_get (c_KnownPeers c) (pstr i) \<noteq> None" if i: "peer_addr t' i \<noteq> None" for i
  proof -
    obtain p where p: "gm_get (tn_peerIDToPeer ?t1) i = Some p" "gm_get (tn_peerIDToPeer t') i \<noteq> None"
      using i dr(3) by (auto simp: peer_addr_def split: option.splits)
    have "p \<in> set (gm_vals (tn_peerIDToPeer ?t1))"
      using p(1) ok1 by (auto simp: table_ok_def gm_vals_iff)
    with p dr(3) show ?thesis by (auto split: if_splits)
  qed
  moreover have "table_full ?t1"
    if "table_full t" "no_move ?rs t" "distinct (map snd ?rs)"
    using upserts_full [OF ok that(1) four subset_refl that(2,3)] by blast
  ultimately show ?thesis using dr(1,2,5) loop by (auto simp: RefreshPeersList_def)
qed

text \<open>Neither a refresh nor closing the tunnel panics on consistent tables, whatever the configuration.\<close>

lemma RefreshPeersList_total:
  assumes "table_ok t"
  shows "\<exists>d' t'. RefreshPeersList pdec pstr c d t = Some (d', t') \<and> table_ok t'"
proof -
  have "\<forall>(i, a) \<in> set (routes_of pdec c). length a = 4" using routes_of_length by blast
  then have "table_ok (foldl (refresh_known pdec c) t (gm_vals (c_KnownPeers c)))"
    unfolding refresh_loop_upserts [OF assms] routes_of_def by (rule upserts_ok [OF assms])
  from drop_unknown_ok [OF this table_vals [OF this], of pstr c d] show ?thesis
    unfolding RefreshPeersList_def Let_def by blast
qed

lemma close_peers_drop: "close_peers ps dt = drop_unknown pstr (c\<lparr>c_KnownPeers := []\<rparr>) ps dt"
  by (induction ps arbitrary: dt) (simp_all add: gm_get_def cong: Option.bind_cong)

lemma Tunnel_Close_total:
  assumes "table_ok t"
  shows "\<exists>d' t'. Tunnel_Close d t = Some (d', t')"
proof -
  let ?t = "t\<lparr>tn_isClosed := True\<rparr>"
  have "table_ok ?t" using assms by (simp add: table_ok_def)
  from drop_unknown_ok [OF this table_vals [OF this], of id "zero_Config\<lparr>c_KnownPeers := []\<rparr>" d]
  show ?thesis
    by (auto simp: Tunnel_Close_def close_peers_drop [where pstr = id and c = zero_Config])
qed

lemma table_full_reach:
  assumes "table_ok t" and "table_full t" and "peer_addr t i = Some a"
  shows "\<exists>p. gm_get (tn_netIPToPeer t) a = Some p \<and> vp_peerID (tn_heap t ! p) = i"
proof -
  obtain p where p: "gm_get (tn_peerIDToPeer t) i = Some p" "vp_localIP (tn_heap t ! p) = a"
    using assms(3) by (auto simp: peer_addr_def)
  then show ?thesis using assms(2) table_okD(2) [OF assms(1) p(1)] by (auto simp: table_full_def)
qed

text \<open>
  C12. \<open>RefreshPeersList\<close> returns without a panic, keeps the two tables consistent, gives every
  known peer with an IPv4 address an entry with exactly that address, and keeps no entry for a
  peer that is not known.
\<close>

theorem refresh_follows_config:
  assumes "peers_wf c" and "ids_roundtrip pdec pstr c" and "table_ok t"
  shows "\<exists>d' t'. RefreshPeersList pdec pstr c d t = Some (d', t') \<and> table_ok t' \<and>
     (\<forall>(i, a) \<in> set (routes_of pdec c). peer_addr t' i = Some a) \<and>
     (\<forall>i. peer_addr t' i \<noteq> None \<longrightarrow> gm_get (c_KnownPeers c) (pstr i) \<noteq> None)"
  using RefreshPeersList_table [OF assms] by blast

text \<open>
  C3. When the known addresses are distinct and none of them is currently held by another peer
  of the table, every known peer can be reached after the refresh: its address leads to it.
\<close>

theorem refresh_routes_complete:
  assumes "peers_wf c" and "ids_roundtrip pdec pstr c" and "table_ok t" and "table_full t"
    and "no_move (routes_of pdec c) t" and "distinct (map snd (routes_of pdec c))"
  shows "\<exists>d' t'. RefreshPeersList pdec pstr c d t = Some (d', t') \<and> table_full t' \<and>
     (\<forall>(i, a) \<in> set (routes_of pdec c).
        \<exists>p. gm_get (tn_netIPToPeer t') a = Some p \<and> vp_peerID (tn_heap t' ! p) = i)"
proof -
  obtain d' t' where r: "RefreshPeersList pdec pstr c d t = Some (d', t')" "table_ok t'"
    "\<forall>(i, a) \<in> set (routes_of pdec c). peer_addr t' i = Some a" "table_full t'"
    using RefreshPeersList_table [OF assms(1-3)] assms(4-6) by blast
  then show ?thesis using table_full_reach [OF r(2,4)] by blast
qed

text \<open>The tables of a new tunnel.\<close>

lemma empty_tunnel_ok: "table_ok empty_tunnel" "table_full empty_tunnel" "no_move rs empty_tunnel"
  by (simp_all add: table_ok_def table_full_def no_move_def peer_addr_def empty_tunnel_def split: prod.split)

definition conf_two :: "string \<Rightarrow> string \<Rightarrow> Config" where
  "conf_two a b = demo_conf ''10.66.0.1/24'' [(''A'', a), (''B'', b)]"

lemma conf_two_facts:
  "peers_wf (conf_two ''10.66.0.2'' ''10.66.0.3'')" "ids_roundtrip Some id (conf_two ''10.66.0.2'' ''10.66.0.3'')"
  "routes_of Some (conf_two ''10.66.0.2'' ''10.66.0.3'') = [(''A'', [10, 66, 0, 2]), (''B'', [10, 66, 0, 3])]"
  by code_simp+

theorem refresh_follows_config_witness:
  "\<exists>d' t'. RefreshPeersList Some id (conf_two ''10.66.0.2'' ''10.66.0.3'') (zero_Device 1500 []) empty_tunnel = Some (d', t') \<and>
     peer_addr t' ''A'' = Some [10, 66, 0, 2]"
  using refresh_follows_config [OF conf_two_facts(1,2) empty_tunnel_ok(1), of "zero_Device 1500 []"]
  by (auto simp: conf_two_facts)

theorem refresh_routes_complete_witness:
  "\<exists>d' t' p. RefreshPeersList Some id (conf_two ''10.66.0.2'' ''10.66.0.3'') (zero_Device 1500 []) empty_tunnel = Some (d', t') \<and>
     gm_get (tn_netIPToPeer t') [10, 66, 0, 3] = Some p \<and> vp_peerID (tn_heap t' ! p) = ''B''"
  using refresh_routes_complete [OF conf_two_facts(1,2) empty_tunnel_ok, of "zero_Device 1500 []"]
  by (auto simp: conf_two_facts)

definition refreshed :: "Device \<Rightarrow> Config \<Rightarrow> Tunnel option \<Rightarrow> Tunnel option" where
  "refreshed d c t = Option.bind t (\<lambda>t. map_option snd (RefreshPeersList Some id c d t))"

lemma sample_addrs:
  "To4 (ParseIP ''10.66.0.2'') = [10, 66, 0, 2]" "To4 (ParseIP ''10.66.0.3'') = [10, 66, 0, 3]"
  "To4 (ParseIP ''10.66.0.4'') = [10, 66, 0, 4]"
  by code_simp+

lemmas refresh_eval = refreshed_def RefreshPeersList_def conf_two_def demo_conf_def demo_peer_def gm_vals_def
  refresh_known_def Let_def PeerId_def ip_Equal_def gm_get_def gm_set_def gm_del_def zero_KnownPeer_def
  zero_Config_def empty_tunnel_def peer_addr_def sample_addrs

definition tunnel_two :: "ip \<Rightarrow> ip \<Rightarrow> (ip, nat) gomap \<Rightarrow> Tunnel" where
  "tunnel_two a b m = empty_tunnel\<lparr>tn_peerIDToPeer := [(''A'', 0), (''B'', 1)], tn_netIPToPeer := m,
     tn_heap := [VpnPeer_Start zero_Config (NewVpnPeer ''A'' a), VpnPeer_Start zero_Config (NewVpnPeer ''B'' b)]\<rparr>"

lemma refresh_first:
  "refreshed d (conf_two ''10.66.0.2'' ''10.66.0.3'') (Some empty_tunnel) =
     Some (tunnel_two [10, 66, 0, 2] [10, 66, 0, 3] [([10, 66, 0, 2], 0), ([10, 66, 0, 3], 1)])"
  by (simp add: refresh_eval tunnel_two_def VpnPeer_Start_def NewVpnPeer_def)

lemma refresh_moved:
  "refreshed d (conf_two ''10.66.0.3'' ''10.66.0.4'')
     (Some (tunnel_two [10, 66, 0, 2] [10, 66, 0, 3] [([10, 66, 0, 2], 0), ([10, 66, 0, 3], 1)])) =
     Some (tunnel_two [10, 66, 0, 3] [10, 66, 0, 4] [([10, 66, 0, 4], 1)])"
  "refreshed d (conf_two ''10.66.0.3'' ''10.66.0.4'')
     (Some (tunnel_two [10, 66, 0, 3] [10, 66, 0, 4] [([10, 66, 0, 4], 1)])) =
     Some (tunnel_two [10, 66, 0, 3] [10, 66, 0, 4] [([10, 66, 0, 4], 1)])"
  by (simp_all add: refresh_eval tunnel_two_def VpnPeer_Start_def NewVpnPeer_def)

text \<open>
  When the configuration hands one peer's address to another, the refresh can lose a route:
  after A moves to the address B leaves, A's new address leads to nobody, although A is in the
  table with that address and the configuration is valid; another refresh does not repair it.
\<close>

theorem refresh_moved_address_unreachable:
  "let t1 = refreshed d (conf_two ''10.66.0.2'' ''10.66.0.3'') (Some empty_tunnel);
       t2 = refreshed d (conf_two ''10.66.0.3'' ''10.66.0.4'') t1;
       t3 = refreshed d (conf_two ''10.66.0.3'' ''10.66.0.4'') t2
   in map_option (\<lambda>t. (peer_addr t ''A'', gm_get (tn_netIPToPeer t) [10, 66, 0, 3])) t2 =
        Some (Some [10, 66, 0, 3], None) \<and> t3 = t2"
  by (simp only: Let_def refresh_first refresh_moved option.map)
    (simp add: tunnel_two_def peer_addr_def gm_get_def NewVpnPeer_def VpnPeer_Start_def)

end
