(* ===== verification/Ring_Buffer.thy ===== *)
theory Ring_Buffer
  imports Awl_Prelude
begin

text \<open>
  The in-memory log buffer of \<open>src/ringbuffer/ring_buffer.go\<close>: a byte array of twice the
  nominal size, compacted when the write position has passed 17/10 of that size.
  The abstract view is the history of all accepted bytes; \<open>Bytes\<close> is proved to return
  exactly its last \<open>size\<close> bytes after every sequence of operations.
  Sizes are \<open>nat\<close>: the products formed by the code (\<open>size*2\<close>, \<open>size*17\<close>) stay
  below \<open>2^63\<close> for every size that can be allocated (the program uses \<open>2^20\<close>).
\<close>

definition fillingRate :: nat where
  "fillingRate = 17"

record RingBuffer =
  rb_buf :: "byte list"
  rb_size :: nat
  rb_pos :: nat

definition rb_New :: "nat \<Rightarrow> RingBuffer" where
  "rb_New sz = \<lparr>rb_buf = replicate (sz * 2) 0, rb_size = sz, rb_pos = 0\<rparr>"

text \<open>The compaction step at the head of \<open>Write\<close>, then the copy itself.\<close>

definition rb_compact :: "RingBuffer \<Rightarrow> RingBuffer" where
  "rb_compact r =
     (if rb_pos r > rb_size r * fillingRate div 10
      then let s = rb_pos r - rb_size r
           in r\<lparr>rb_buf := blit (rb_buf r) 0 (go_slice (rb_buf r) s (rb_pos r)), rb_pos := rb_size r\<rparr>
      else r)"

definition rb_Write :: "RingBuffer \<Rightarrow> byte list \<Rightarrow> RingBuffer \<times> nat" where
  "rb_Write r p =
     (if p = [] then (r, 0)
      else let r1 = rb_compact r;
               n = min (length (rb_buf r1) - rb_pos r1) (length p)
           in (r1\<lparr>rb_buf := blit (rb_buf r1) (rb_pos r1) p, rb_pos := rb_pos r1 + n\<rparr>, n))"

definition rb_Capacity :: "RingBuffer \<Rightarrow> nat" where
  "rb_Capacity r = rb_size r"

definition rb_Bytes :: "RingBuffer \<Rightarrow> byte list" where
  "rb_Bytes r =
     (let lastIndex = rb_pos r
      in if lastIndex = 0 then []
         else let firstIndex = (if lastIndex < rb_size r then 0 else lastIndex - rb_size r)
              in go_slice (rb_buf r) firstIndex lastIndex)"

definition rb_Reset :: "RingBuffer \<Rightarrow> RingBuffer" where
  "rb_Reset r = r\<lparr>rb_pos := 0\<rparr>"

section \<open>Invariant and refinement of the byte history\<close>

text \<open>
  \<open>rb_inv h r\<close>: the buffer has its full length, the written part is a suffix of the history
  \<open>h\<close> of accepted bytes since the last reset, and nothing but the oldest bytes beyond the
  window has been dropped.
\<close>

definition rb_inv :: "byte list \<Rightarrow> RingBuffer \<Rightarrow> bool" where
  "rb_inv h r \<longleftrightarrow>
     length (rb_buf r) = rb_size r * 2 \<and> rb_pos r \<le> rb_size r * 2 \<and>
     rb_pos r \<le> length h \<and> take (rb_pos r) (rb_buf r) = last_n (rb_pos r) h \<and>
     (rb_pos r = length h \<or> rb_size r \<le> rb_pos r)"

lemma rb_inv_New: "rb_inv [] (rb_New sz)"
  by (simp add: rb_inv_def rb_New_def last_n_def)

lemma rb_inv_Reset: "rb_inv h r \<Longrightarrow> rb_inv [] (rb_Reset r)"
  by (simp add: rb_inv_def rb_Reset_def last_n_def)

lemma rb_size_compact [simp]: "rb_size (rb_compact r) = rb_size r"
  by (simp add: rb_compact_def Let_def)

lemma rb_pos_compact: "rb_pos (rb_compact r) \<le> max (rb_size r) (rb_size r * fillingRate div 10)"
  by (auto simp: rb_compact_def Let_def)

lemma rb_pos_compact_le: "rb_pos (rb_compact r) \<le> rb_size r * 17 div 10"
  using rb_pos_compact [of r] by (simp add: fillingRate_def max_def split: if_splits)

lemma rb_inv_compact:
  assumes inv: "rb_inv h r"
  shows "rb_inv h (rb_compact r)"
proof (cases "rb_pos r > rb_size r * fillingRate div 10")
  case False
  with inv show ?thesis by (simp add: rb_compact_def)
next
  case True
  let ?n = "rb_size r" and ?p = "rb_pos r"
  have le: "?n \<le> ?p" using True by (simp add: fillingRate_def)
  have len: "length (rb_buf r) = ?n * 2" and pos: "?p \<le> ?n * 2" and hist: "?p \<le> length h"
    and suffix: "take ?p (rb_buf r) = last_n ?p h"
    using inv by (simp_all add: rb_inv_def)
  have "go_slice (rb_buf r) (?p - ?n) ?p = last_n ?n (take ?p (rb_buf r))"
    using le len pos by (simp add: go_slice_def last_n_def take_drop min_def)
  also have "\<dots> = last_n ?n h"
    using le by (simp add: suffix last_n_last_n)
  finally have win: "go_slice (rb_buf r) (?p - ?n) ?p = last_n ?n h" .
  have "take ?n (blit (rb_buf r) 0 (last_n ?n h)) = last_n ?n h"
    using le hist len by (simp add: blit_def)
  with True win le len hist show ?thesis
    by (simp add: rb_compact_def Let_def rb_inv_def)
qed

lemma rb_inv_Write:
  assumes inv: "rb_inv h r" and w: "rb_Write r p = (r', n)"
  shows "rb_inv (h @ take n p) r'"
proof (cases "p = []")
  case True
  with inv w show ?thesis by (simp add: rb_Write_def)
next
  case False
  let ?r1 = "rb_compact r"
  let ?q = "rb_pos ?r1"
  have inv1: "rb_inv h ?r1" using inv by (rule rb_inv_compact)
  then have len: "length (rb_buf ?r1) = rb_size ?r1 * 2" and q: "?q \<le> rb_size ?r1 * 2"
    and hist: "?q \<le> length h" and suffix: "take ?q (rb_buf ?r1) = last_n ?q h"
    and old: "?q = length h \<or> rb_size ?r1 \<le> ?q"
    by (simp_all add: rb_inv_def)
  have n: "n = min (length (rb_buf ?r1) - ?q) (length p)"
    and r': "r' = ?r1\<lparr>rb_buf := blit (rb_buf ?r1) ?q p, rb_pos := ?q + n\<rparr>"
    using w False by (auto simp: rb_Write_def Let_def)
  have "take (?q + n) (blit (rb_buf ?r1) ?q p) = take ?q (rb_buf ?r1) @ take n p"
    using q len n by (auto simp: blit_def min_def)
  also have "\<dots> = last_n (?q + n) (h @ take n p)"
    using n hist by (simp add: suffix last_n_append last_n_all)
  finally show ?thesis
    using len q n hist old unfolding rb_inv_def r' by auto
qed

lemma rb_Bytes_window:
  assumes "rb_inv h r"
  shows "rb_Bytes r = last_n (rb_size r) h"
proof -
  let ?n = "rb_size r" and ?p = "rb_pos r"
  have suffix: "take ?p (rb_buf r) = last_n ?p h" and hist: "?p \<le> length h"
    and len: "length (rb_buf r) = ?n * 2" and p: "?p \<le> ?n * 2"
    and old: "?p = length h \<or> ?n \<le> ?p"
    using assms by (simp_all add: rb_inv_def)
  have "rb_Bytes r = last_n ?n (take ?p (rb_buf r))"
    using len p by (auto simp: rb_Bytes_def Let_def go_slice_def last_n_def take_drop min_def)
  also have "\<dots> = last_n ?n h"
    using old by (auto simp: suffix last_n_last_n last_n_all)
  finally show ?thesis .
qed

section \<open>The log window as an interface\<close>

text \<open>
  What the log API relies on: a sink that accepts byte strings, each possibly in part, and
  reads back the newest bytes it accepted. The client lemma (the window after a whole run of
  writes) is proved once from the laws.
\<close>

fun sink_run :: "('b \<Rightarrow> byte list \<Rightarrow> 'b \<times> nat) \<Rightarrow> 'b \<Rightarrow> byte list list \<Rightarrow> 'b \<times> byte list" where
  "sink_run f b [] = (b, [])"
| "sink_run f b (p # ps) =
     (let (b1, n) = f b p; (b2, acc) = sink_run f b1 ps in (b2, take n p @ acc))"

locale log_window =
  fixes sink :: "'b \<Rightarrow> byte list \<Rightarrow> 'b \<times> nat"
    and bytes :: "'b \<Rightarrow> byte list"
    and cap :: "'b \<Rightarrow> nat"
    and rel :: "byte list \<Rightarrow> 'b \<Rightarrow> bool"
  assumes rel_sink: "rel h b \<Longrightarrow> sink b p = (b', n) \<Longrightarrow> rel (h @ take n p) b'"
    and cap_sink: "sink b p = (b', n) \<Longrightarrow> cap b' = cap b"
    and bytes_window: "rel h b \<Longrightarrow> bytes b = last_n (cap b) h"
begin

lemma sink_run_rel:
  "rel h b \<Longrightarrow> sink_run sink b ps = (b', acc) \<Longrightarrow> rel (h @ acc) b' \<and> cap b' = cap b"
proof (induction ps arbitrary: h b b' acc)
  case Nil
  then show ?case by simp
next
  case (Cons p ps)
  obtain b1 n where w: "sink b p = (b1, n)" by (cases "sink b p")
  obtain b2 acc2 where ws: "sink_run sink b1 ps = (b2, acc2)" by (cases "sink_run sink b1 ps")
  have "rel (h @ take n p) b1" using Cons.prems(1) w by (rule rel_sink)
  then have "rel ((h @ take n p) @ acc2) b2 \<and> cap b2 = cap b1" using ws by (rule Cons.IH)
  with Cons.prems(2) w ws cap_sink [OF w] show ?case by simp
qed

lemma window_after_run:
  "rel h b \<Longrightarrow> sink_run sink b ps = (b', acc) \<Longrightarrow> bytes b' = last_n (cap b) (h @ acc)"
  using sink_run_rel bytes_window by metis

end

lemma rb_size_Write: "rb_Write r p = (r', n) \<Longrightarrow> rb_size r' = rb_size r"
  by (auto simp: rb_Write_def Let_def split: if_splits)

interpretation rb: log_window rb_Write rb_Bytes rb_Capacity rb_inv
  by unfold_locales
    (simp_all add: rb_inv_Write rb_Bytes_window rb_Capacity_def rb_size_Write)

section \<open>Properties\<close>

text \<open>
  C34. A log buffer of the given size that has received any sequence of writes returns from
  \<open>Bytes\<close> exactly the last \<open>size\<close> bytes of what the writes accepted, oldest first:
  compaction never loses or reorders a byte inside the window.
\<close>

theorem ring_buffer_window:
  "rb_Bytes (fst (sink_run rb_Write (rb_New sz) ps)) =
   last_n sz (snd (sink_run rb_Write (rb_New sz) ps))"
proof -
  obtain r acc where run: "sink_run rb_Write (rb_New sz) ps = (r, acc)"
    by (cases "sink_run rb_Write (rb_New sz) ps")
  have "rb_Bytes r = last_n (rb_Capacity (rb_New sz)) ([] @ acc)"
    using rb_inv_New run by (rule rb.window_after_run)
  with run show ?thesis by (simp add: rb_Capacity_def rb_New_def)
qed

text \<open>
  Under the invariant, a write of at most three tenths of the buffer size is accepted
  whole, whatever was written before; the invariant and the capacity are kept.
\<close>

theorem ring_buffer_write_accepts:
  assumes "rb_inv h r" and "10 * length p \<le> 3 * rb_size r"
  shows "\<exists>r'. rb_Write r p = (r', length p) \<and> rb_inv (h @ p) r' \<and> rb_size r' = rb_size r"
proof -
  obtain r' n where w: "rb_Write r p = (r', n)" by (cases "rb_Write r p")
  have "rb_pos (rb_compact r) \<le> rb_size r * 17 div 10" by (rule rb_pos_compact_le)
  then have "10 * rb_pos (rb_compact r) \<le> 17 * rb_size r" by linarith
  with assms(2) have "rb_pos (rb_compact r) + length p \<le> rb_size r * 2" by linarith
  moreover have "length (rb_buf (rb_compact r)) = rb_size r * 2"
    using rb_inv_compact [OF assms(1)] by (simp add: rb_inv_def)
  ultimately have "n = length p"
    using w by (auto simp: rb_Write_def Let_def split: if_splits)
  with w rb_inv_Write [OF assms(1) w] rb_size_Write [OF w] show ?thesis by simp
qed

theorem ring_buffer_write_accepts_witness:
  "\<exists>r'. rb_Write (rb_New 10) [1, 2, 3] = (r', 3) \<and> rb_inv [1, 2, 3] r'"
  using ring_buffer_write_accepts [OF rb_inv_New, of "[1, 2, 3]" 10]
  by (auto simp: rb_New_def)

text \<open>
  \<open>Write\<close> can accept fewer bytes than it is given and still reports no error: a write
  longer than the space left at the end of the array is cut, so the caller sees a short
  count.
\<close>

theorem ring_buffer_short_write: "snd (rb_Write (rb_New 2) [1, 2, 3, 4, 5]) = 4"
  by (simp add: rb_Write_def rb_compact_def rb_New_def Let_def)

end
