(* ===== verification/Awl_Application.thy ===== *)
theory Awl_Application
  imports Cli_Peers Tunnel_Routes Ring_Buffer
begin

text \<open>
  The parts of \<open>src/application.go\<close> that decide something: which configuration the program
  starts with, the levels of its loggers, the DNS service around the resolver and the figures for
  the metrics; \<open>Init\<close> and \<open>Close\<close> are in \<open>Awl_Lifecycle\<close>. Events reach the DNS service and the tunnel through
  the subscription loop of \<open>src/awlevent/awlevent.go\<close>.
\<close>

section \<open>Host and port\<close>

text \<open>\<open>net.SplitHostPort\<close> and \<open>net.JoinHostPort\<close>; \<open>None\<close> is an error.\<close>

definition last_colon :: "string \<Rightarrow> nat option" where
  "last_colon s =
     (if CHR '':'' \<in> set s then Some (length s - 1 - length (takeWhile (\<lambda>c. c \<noteq> CHR '':'') (rev s))) else None)"

definition SplitHostPort :: "string \<Rightarrow> (string \<times> string) option" where
  "SplitHostPort hostport =
     (case last_colon hostport of
        None \<Rightarrow> None
      | Some i \<Rightarrow>
          let (host, j, k, ok) =
            (if hd hostport = CHR ''['' then
               let e = length (takeWhile (\<lambda>c. c \<noteq> CHR '']'') hostport)
               in (take (e - 1) (drop 1 hostport), 1, e + 1, e < length hostport \<and> e + 1 = i)
             else (take i hostport, 0, 0, CHR '':'' \<notin> set (take i hostport)))
          in if \<not> ok \<or> CHR ''['' \<in> set (drop j hostport) \<or> CHR '']'' \<in> set (drop k hostport) then None
             else Some (host, drop (i + 1) hostport))"

definition JoinHostPort :: "string \<Rightarrow> string \<Rightarrow> string" where
  "JoinHostPort host port =
     (if CHR '':'' \<in> set host then ''['' @ host @ '']:'' @ port else host @ '':'' @ port)"

section \<open>Start\<close>

text \<open>The configuration the program starts with: the stored one, or a new one when that cannot be read.\<close>

definition setup_config :: "def_env \<Rightarrow> (string \<Rightarrow> conf_file option) \<Rightarrow> (load_error option \<times> Config) option" where
  "setup_config e files =
     (case LoadConfig e files of
        None \<Rightarrow> None
      | Some (Inr conf) \<Rightarrow> Some (None, conf)
      | Some (Inl err) \<Rightarrow> map_option (\<lambda>c. (Some err, c)) (NewConfig e))"

text \<open>The levels of the loggers by name; \<open>lvl\<close> is the configured one.\<close>

definition logger_level :: "'l \<Rightarrow> 'l \<Rightarrow> 'l \<Rightarrow> string \<Rightarrow> 'l" where
  "logger_level lvl warn info name =
     (if HasPrefix name ''awl'' then lvl
      else if name \<in> {''swarm2'', ''relay'', ''connmgr'', ''autonat''} then warn else info)"

section \<open>DNS service\<close>

record DNSService =
  ds_resolver :: "Resolver option"
  ds_upstreamDNS :: string
  ds_isAwlDNSSetAsSystem :: bool

definition NewDNSService :: DNSService where
  "NewDNSService = \<lparr>ds_resolver = None, ds_upstreamDNS = [], ds_isAwlDNSSetAsSystem = False\<rparr>"

definition dns_names :: "Config \<Rightarrow> (string, string) gomap" where
  "dns_names c = gm_set (DNSNamesMapping c) AdminHttpServerDomainName AdminHttpServerIP"

definition refreshDNSConfig :: "(string \<Rightarrow> string) \<Rightarrow> Config \<Rightarrow> DNSService \<Rightarrow> DNSService" where
  "refreshDNSConfig canonicalName c a =
     (case ds_resolver a of
        None \<Rightarrow> a
      | Some r \<Rightarrow>
          a\<lparr>ds_resolver := Some (r\<lparr>rv_cfg := ReceiveConfiguration canonicalName (ds_upstreamDNS a) (dns_names c)\<rparr>)\<rparr>)"

text \<open>
  What the operating system's configurator does: whether it can be created, whether it
  supports split DNS, its nameservers (\<open>None\<close> an error), whether setting DNS succeeds.
\<close>

record dns_os =
  do_newOk :: bool
  do_splitDNS :: bool
  do_base :: "string list option"
  do_setOk :: bool

definition DefaultDNSPort :: string where
  "DefaultDNSPort = ''53''"

text \<open>
  The refresh at the end is deferred, so it also runs on the early returns; \<open>None\<close> is the
  panic of \<open>MustParseAddr\<close>.
\<close>

definition initDNS :: "(string \<Rightarrow> string) \<Rightarrow> dns_os \<Rightarrow> Config \<Rightarrow> DNSService \<Rightarrow> DNSService option" where
  "initDNS canonicalName os c a =
     (let dnsAddr = dc_ListenAddress (c_DNS c); refresh = refreshDNSConfig canonicalName c
      in case SplitHostPort dnsAddr of
           None \<Rightarrow> Some a
         | Some (dnsHost, _) \<Rightarrow>
             let a1 = refresh (a\<lparr>ds_resolver := Some (NewResolver dnsAddr), ds_upstreamDNS := DefaultUpstreamDNSAddress\<rparr>)
             in if \<not> do_newOk os then Some (refresh a1)
                else if ParseAddr dnsHost = None then None
                else if \<not> do_splitDNS os \<and> do_base os = None then Some (refresh a1)
                else
                  let a2 = (if do_splitDNS os then a1
                            else a1\<lparr>ds_upstreamDNS :=
                              (case do_base os of
                                 Some (n # _) \<Rightarrow> JoinHostPort n DefaultDNSPort
                               | _ \<Rightarrow> DefaultUpstreamDNSAddress)\<rparr>);
                      a3 = (if do_setOk os then a2\<lparr>ds_isAwlDNSSetAsSystem := True\<rparr> else a2)
                  in Some (refresh a3))"

definition AwlDNSAddress :: "DNSService \<Rightarrow> string" where
  "AwlDNSAddress a = (case ds_resolver a of None \<Rightarrow> [] | Some r \<Rightarrow> DNSAddress r)"

section \<open>Events\<close>

text \<open>
  The subscription loop: the callback runs once per event, in order, until the subscription or
  the context is closed.
\<close>

datatype 'e sub_event = Event 'e | SubClosed | CtxDone

fun subscription_loop :: "('e \<Rightarrow> 's \<Rightarrow> 's) \<Rightarrow> 'e sub_event list \<Rightarrow> 's \<Rightarrow> 's" where
  "subscription_loop callback [] s = s"
| "subscription_loop callback (Event e # es) s = subscription_loop callback es (callback e s)"
| "subscription_loop callback (SubClosed # es) s = s"
| "subscription_loop callback (CtxDone # es) s = s"

section \<open>Metrics\<close>

definition GetKnownPeersSnapshot ::
    "externals \<Rightarrow> (string \<Rightarrow> bool) \<Rightarrow> Config \<Rightarrow> nat \<times> nat \<times> nat \<times> string list" where
  "GetKnownPeersSnapshot x isConnected c =
     foldl (\<lambda>(total, confirmed, connected, ids) kp.
         let pid = PeerId (x_Decode x) kp
         in (total, (if kp_Confirmed kp then confirmed + 1 else confirmed),
             (if isConnected pid then connected + 1 else connected), ids @ [pid]))
       (length (c_KnownPeers c), 0, 0, []) (gm_vals (c_KnownPeers c))"

section \<open>Names of known peers\<close>

definition peer_names :: "KnownPeer \<Rightarrow> (string \<times> string) list" where
  "peer_names p = (kp_PeerID p, kp_IPAddr p) # (if kp_DomainName p \<noteq> [] then [(kp_DomainName p, kp_IPAddr p)] else [])"

lemma DNSNamesMapping_put: "DNSNamesMapping c = put_all (concat (map peer_names (gm_vals (c_KnownPeers c))))"
proof -
  have "foldl (\<lambda>m p. let m1 = gm_set m (kp_PeerID p) (kp_IPAddr p)
         in if kp_DomainName p \<noteq> [] then gm_set m1 (kp_DomainName p) (kp_IPAddr p) else m1) m ps =
      foldl (\<lambda>m (k, a). gm_set m k a) m (concat (map peer_names ps))" for m ps
    by (induction ps arbitrary: m) (simp_all add: peer_names_def Let_def)
  then show ?thesis by (simp add: DNSNamesMapping_def put_all_def)
qed

definition name_entries :: "Config \<Rightarrow> (string \<times> string) list" where
  "name_entries c = concat (map peer_names (gm_vals (c_KnownPeers c))) @ [(AdminHttpServerDomainName, AdminHttpServerIP)]"

lemma dns_names_put: "dns_names c = put_all (name_entries c)"
  by (simp add: dns_names_def DNSNamesMapping_put name_entries_def put_all_def)

text \<open>A name is unambiguous when every peer that has it has the same address.\<close>

definition unambiguous :: "Config \<Rightarrow> string \<Rightarrow> string \<Rightarrow> bool" where
  "unambiguous c k a \<longleftrightarrow> k \<noteq> AdminHttpServerDomainName \<and>
     list_all (\<lambda>q. (kp_PeerID q = k \<or> kp_DomainName q = k) \<longrightarrow> kp_IPAddr q = a) (gm_vals (c_KnownPeers c))"

lemma unambiguous_entry:
  "unambiguous c k a \<Longrightarrow> (k, b) \<in> set (name_entries c) \<Longrightarrow> b = a"
  by (auto simp: unambiguous_def name_entries_def peer_names_def list_all_iff split: if_splits)

lemma peer_name_found:
  assumes "names_ok can (dns_names c)" and "p \<in> set (gm_vals (c_KnownPeers c))"
    and "k = kp_PeerID p \<or> k = kp_DomainName p \<and> k \<noteq> []" and "unambiguous c k (kp_IPAddr p)"
  shows "lookup can (ReceiveConfiguration can upstream (dns_names c)) k = Some (kp_IPAddr p)"
proof -
  have "(k, kp_IPAddr p) \<in> set (name_entries c)"
    using assms(2,3) by (auto simp: name_entries_def peer_names_def)
  with assms(1,4) show ?thesis
    unfolding dns_names_put by (intro awl_names.entry_found) (auto dest: unambiguous_entry)
qed

lemma admin_found:
  assumes "names_ok can (dns_names c)"
  shows "lookup can (ReceiveConfiguration can upstream (dns_names c)) AdminHttpServerDomainName = Some AdminHttpServerIP"
  by (rule awl_names.found [OF assms]) (simp add: dns_names_def gm.get_put)

text \<open>Every refresh leaves the resolver configured from the configuration, whatever happens to the system's DNS.\<close>

lemma refresh_resolver:
  "ds_resolver a = Some r \<Longrightarrow>
     \<exists>r'. ds_resolver (refreshDNSConfig can c a) = Some r' \<and>
       rv_cfg r' = ReceiveConfiguration can (ds_upstreamDNS (refreshDNSConfig can c a)) (dns_names c)"
  by (simp add: refreshDNSConfig_def)

lemma initDNS_resolver:
  assumes "initDNS can os c a = Some a'" and "SplitHostPort (dc_ListenAddress (c_DNS c)) \<noteq> None"
  shows "\<exists>r. ds_resolver a' = Some r \<and> rv_cfg r = ReceiveConfiguration can (ds_upstreamDNS a') (dns_names c)"
  using assms by (auto simp: initDNS_def Let_def refreshDNSConfig_def split: if_splits option.splits)

section \<open>Configuration changes reach the resolver\<close>

text \<open>
  The running program: the configuration with the events emitted so far, how many of them the
  subscription of the DNS service has consumed, and the DNS service.
\<close>

record app_state =
  ap_conf :: conf_state
  ap_seen :: nat
  ap_dns :: DNSService

definition dns_callback :: "(string \<Rightarrow> string) \<Rightarrow> Config \<Rightarrow> awl_event \<Rightarrow> DNSService \<Rightarrow> DNSService" where
  "dns_callback can c e a = (case e of KnownPeerChanged \<Rightarrow> refreshDNSConfig can c a | _ \<Rightarrow> a)"

text \<open>The operations of the configuration, as one relation.\<close>

inductive conf_change :: "conf_state \<Rightarrow> conf_state \<Rightarrow> bool" where
  upsert: "conf_change cs (UpsertPeer p cs)"
| remove: "conf_change cs (snd (RemovePeer k cs))"
| last_seen: "conf_change cs (UpdatePeerLastSeen now k cs)"
| block: "conf_change cs (UpsertBlockedPeer now k n cs)"
| unblock: "conf_change cs (RemoveBlockedPeer k cs)"
| exit_node: "conf_change cs (SetProxyPeerID i cs)"
| request: "conf_change cs (emit (ReceivedAuthRequest ap i) cs)"

inductive app_step :: "(string \<Rightarrow> string) \<Rightarrow> app_state \<Rightarrow> app_state \<Rightarrow> bool" for can :: "string \<Rightarrow> string" where
  change: "conf_change (ap_conf s) cs \<Longrightarrow> app_step can s (s\<lparr>ap_conf := cs\<rparr>)"
| deliver: "ap_seen s < length (cs_events (ap_conf s)) \<Longrightarrow>
     app_step can s (s\<lparr>ap_seen := Suc (ap_seen s),
       ap_dns := dns_callback can (cs_conf (ap_conf s)) (cs_events (ap_conf s) ! ap_seen s) (ap_dns s)\<rparr>)"

definition dns_current :: "(string \<Rightarrow> string) \<Rightarrow> Config \<Rightarrow> DNSService \<Rightarrow> bool" where
  "dns_current can c a \<longleftrightarrow>
     (case ds_resolver a of None \<Rightarrow> False
      | Some r \<Rightarrow> rv_cfg r = ReceiveConfiguration can (ds_upstreamDNS a) (dns_names c))"

definition app_init :: "(string \<Rightarrow> string) \<Rightarrow> app_state \<Rightarrow> bool" where
  "app_init can s \<longleftrightarrow> ap_seen s = length (cs_events (ap_conf s)) \<and> dns_current can (cs_conf (ap_conf s)) (ap_dns s)"

definition app_inv :: "(string \<Rightarrow> string) \<Rightarrow> app_state \<Rightarrow> bool" where
  "app_inv can s \<longleftrightarrow> ap_seen s \<le> length (cs_events (ap_conf s)) \<and> ds_resolver (ap_dns s) \<noteq> None \<and>
     (KnownPeerChanged \<in> set (drop (ap_seen s) (cs_events (ap_conf s))) \<or>
      dns_current can (cs_conf (ap_conf s)) (ap_dns s))"

lemma map_vals_set:
  "gm_get m k = Some v \<Longrightarrow> f v' = f v \<Longrightarrow> map f (gm_vals (gm_set m k v')) = map f (gm_vals m)"
  by (induction m) (auto simp: gm_get_def gm_set_def gm_vals_def split: if_splits)

lemma dns_names_cong:
  assumes "map peer_names (gm_vals (c_KnownPeers c)) = map peer_names (gm_vals (c_KnownPeers c'))"
  shows "dns_names c = dns_names c'"
  unfolding dns_names_put name_entries_def assms ..

text \<open>A change either announces itself or leaves the names alone.\<close>

lemma conf_change_effect:
  "conf_change cs cs' \<Longrightarrow>
     (\<exists>es. cs_events cs' = cs_events cs @ es \<and>
        (KnownPeerChanged \<in> set es \<or> dns_names (cs_conf cs') = dns_names (cs_conf cs)))"
proof (induction rule: conf_change.induct)
  case (last_seen cs now k)
  show ?case
  proof (cases "gm_get (c_KnownPeers (cs_conf cs)) k")
    case None
    then show ?thesis by (simp add: UpdatePeerLastSeen_def)
  next
    case (Some p)
    have "map peer_names (gm_vals (gm_set (c_KnownPeers (cs_conf cs)) k (p\<lparr>kp_LastSeen := now\<rparr>))) =
        map peer_names (gm_vals (c_KnownPeers (cs_conf cs)))"
      by (rule map_vals_set [OF Some]) (simp add: peer_names_def)
    with Some show ?thesis
      by (simp add: UpdatePeerLastSeen_def set_known_def dns_names_cong [where c = "cs_conf cs\<lparr>c_KnownPeers := _\<rparr>"])
  qed
next
  case (remove cs k)
  show ?case by (simp add: RemovePeer_def emit_def c_save_def set_known_def split: option.split)
qed (auto simp: UpsertPeer_def UpsertBlockedPeer_def RemoveBlockedPeer_def SetProxyPeerID_def emit_def c_save_def
    set_known_def set_blocked_def set_using_def Let_def dns_names_def DNSNamesMapping_def split: option.split)

lemma refresh_current: "ds_resolver a \<noteq> None \<Longrightarrow> dns_current can c (refreshDNSConfig can c a)"
  by (auto simp: dns_current_def refreshDNSConfig_def)

lemma callback_resolver [simp]:
  "ds_resolver (dns_callback can c e a) = None \<longleftrightarrow> ds_resolver a = None"
  "(\<exists>r. ds_resolver (dns_callback can c e a) = Some r) \<longleftrightarrow> (\<exists>r. ds_resolver a = Some r)"
  by (auto simp: dns_callback_def refreshDNSConfig_def split: awl_event.split option.split)

lemma callback_current:
  "dns_current can c a \<Longrightarrow> dns_current can c (dns_callback can c e a)"
  by (cases e) (auto simp: dns_callback_def intro!: refresh_current, auto simp: dns_current_def split: option.splits)

lemma app_step_inv: "app_step can s s' \<Longrightarrow> app_inv can s \<Longrightarrow> app_inv can s'"
proof (induction rule: app_step.induct)
  case (change s cs)
  from conf_change_effect [OF change.hyps] obtain es where
    es: "cs_events cs = cs_events (ap_conf s) @ es"
      "KnownPeerChanged \<in> set es \<or> dns_names (cs_conf cs) = dns_names (cs_conf (ap_conf s))" by blast
  with change.prems show ?case by (auto simp: app_inv_def dns_current_def)
next
  case (deliver s)
  let ?es = "cs_events (ap_conf s)" and ?c = "cs_conf (ap_conf s)"
  have split: "drop (ap_seen s) ?es = ?es ! ap_seen s # drop (Suc (ap_seen s)) ?es"
    using deliver.hyps by (simp add: Cons_nth_drop_Suc)
  show ?case
  proof (cases "?es ! ap_seen s = KnownPeerChanged")
    case True
    then have "dns_current can ?c (dns_callback can ?c (?es ! ap_seen s) (ap_dns s))"
      using deliver.prems refresh_current by (simp add: dns_callback_def app_inv_def)
    with deliver show ?thesis by (auto simp: app_inv_def)
  next
    case False
    then have "dns_callback can ?c (?es ! ap_seen s) (ap_dns s) = ap_dns s"
      by (simp add: dns_callback_def split: awl_event.split)
    with deliver split False show ?thesis by (auto simp: app_inv_def)
  qed
qed

interpretation app_machine: inductive_invariant "app_init can" "app_step can" "app_inv can"
  for can
  using app_step_inv by unfold_locales (auto simp: app_init_def app_inv_def dns_current_def split: option.splits)

lemma deliver_all:
  assumes "ds_resolver a \<noteq> None" and "KnownPeerChanged \<in> set es \<or> dns_current can c a"
  shows "dns_current can c (subscription_loop (dns_callback can c) (map Event es) a)"
  using assms
proof (induction es arbitrary: a)
  case (Cons e es)
  have "KnownPeerChanged \<in> set es \<or> dns_current can c (dns_callback can c e a)"
    using Cons.prems callback_current refresh_current by (auto simp: dns_callback_def)
  with Cons show ?case by simp
qed simp

section \<open>Properties\<close>

text \<open>
  C6. Whatever the operations do to the configuration and however the deliveries of events lie
  between them, once the pending events are delivered the resolver answers from the current
  configuration; with nothing pending it already does.
\<close>

theorem dns_eventually_current:
  assumes "reachable (app_init can) (app_step can) s"
  shows "dns_current can (cs_conf (ap_conf s))
     (subscription_loop (dns_callback can (cs_conf (ap_conf s))) (map Event (drop (ap_seen s) (cs_events (ap_conf s)))) (ap_dns s)) \<and>
   (ap_seen s = length (cs_events (ap_conf s)) \<longrightarrow> dns_current can (cs_conf (ap_conf s)) (ap_dns s))"
  using app_machine.inv_reachable [OF assms] deliver_all [of "ap_dns s"] by (auto simp: app_inv_def)

definition sample_dns :: DNSService where
  "sample_dns = refreshDNSConfig sample_canonical zero_Config
     (NewDNSService\<lparr>ds_resolver := Some (NewResolver DefaultDNSAddress)\<rparr>)"

definition sample_app :: app_state where
  "sample_app = \<lparr>ap_conf = as_conf (sample_auth zero_Config), ap_seen = 0, ap_dns = sample_dns\<rparr>"

theorem dns_eventually_current_witness:
  "dns_current sample_canonical (cs_conf (UpsertPeer sample_peer (ap_conf sample_app)))
     (subscription_loop (dns_callback sample_canonical (cs_conf (UpsertPeer sample_peer (ap_conf sample_app))))
       [Event KnownPeerChanged] sample_dns)"
proof -
  have "app_init sample_canonical sample_app"
    by (simp add: app_init_def sample_app_def sample_auth_def sample_dns_def refresh_current)
  then have "reachable (app_init sample_canonical) (app_step sample_canonical) sample_app" by (rule reach_init)
  moreover have "app_step sample_canonical sample_app (sample_app\<lparr>ap_conf := UpsertPeer sample_peer (ap_conf sample_app)\<rparr>)"
    by (intro app_step.change conf_change.upsert)
  ultimately have "reachable (app_init sample_canonical) (app_step sample_canonical)
      (sample_app\<lparr>ap_conf := UpsertPeer sample_peer (ap_conf sample_app)\<rparr>)" by (rule reach_step)
  from dns_eventually_current [OF this] show ?thesis
    by (simp add: sample_app_def UpsertPeer_def emit_def c_save_def set_known_def sample_auth_def)
qed

text \<open>
  C17. After the DNS service is initialised, in whatever way the system's DNS reacts, a question
  for the ID or the domain name of a known peer is answered with that peer's address, if no
  other peer claims the name with another address.
\<close>

theorem known_peers_resolvable:
  assumes "initDNS can os c a = Some a'" and "SplitHostPort (dc_ListenAddress (c_DNS c)) \<noteq> None"
    and "names_ok can (dns_names c)" and "p \<in> set (gm_vals (c_KnownPeers c))"
    and "k = kp_PeerID p \<or> k = kp_DomainName p \<and> k \<noteq> []" and "unambiguous c k (kp_IPAddr p)"
    and "ToLower ulower hostname = can (k @ ''.'' @ LocalDomain)" and "qt = TypeA \<or> qt = TypeAAAA \<or> qt = TypeANY"
  shows "\<exists>r. ds_resolver a' = Some r \<and>
     dnsLocalDomainHandler ulower trunc tcp udpsize (rv_cfg r) [\<lparr>qu_Name = hostname, qu_Qtype = qt\<rparr>] =
       Some (processOwnResponse trunc tcp udpsize
         (reply\<lparr>ms_Answer := [ARec hostname (To4 (ParseIP (kp_IPAddr p)))]\<rparr>))"
proof -
  obtain r where r: "ds_resolver a' = Some r" "rv_cfg r = ReceiveConfiguration can (ds_upstreamDNS a') (dns_names c)"
    using initDNS_resolver [OF assms(1,2)] by blast
  have "lookup can (rv_cfg r) k = Some (kp_IPAddr p)"
    unfolding r(2) by (rule peer_name_found [OF assms(3-6)])
  with r(1) assms(7,8) show ?thesis
    by (auto simp: lookup_def dnsLocalDomainHandler_def local_question_def reply_def)
qed

definition sample_dns_conf :: Config where
  "sample_dns_conf = zero_Config\<lparr>c_KnownPeers := [(''Qm'', sample_peer\<lparr>kp_DomainName := ''bob''\<rparr>)],
     c_DNS := \<lparr>dc_DisableDNS = False, dc_ListenAddress = DefaultDNSAddress\<rparr>\<rparr>"

definition sample_dns_os :: dns_os where
  "sample_dns_os = \<lparr>do_newOk = True, do_splitDNS = False, do_base = Some [''192.168.1.1''], do_setOk = True\<rparr>"

theorem known_peers_resolvable_witness:
  "\<exists>a' r. initDNS sample_canonical sample_dns_os sample_dns_conf NewDNSService = Some a' \<and> ds_resolver a' = Some r \<and>
     dnsLocalDomainHandler id (\<lambda>n m. m) False None (rv_cfg r) [\<lparr>qu_Name = ''BOB.awl.'', qu_Qtype = TypeA\<rparr>] =
       Some (processOwnResponse (\<lambda>n m. m) False None (reply\<lparr>ms_Answer := [ARec ''BOB.awl.'' [10, 66, 0, 7]]\<rparr>))"
proof -
  let ?p = "sample_peer\<lparr>kp_DomainName := ''bob''\<rparr>"
  have "map_option ds_upstreamDNS (initDNS sample_canonical sample_dns_os sample_dns_conf NewDNSService) = Some ''192.168.1.1:53''"
    by code_simp
  then obtain a' where a': "initDNS sample_canonical sample_dns_os sample_dns_conf NewDNSService = Some a'" by auto
  have split: "SplitHostPort (dc_ListenAddress (c_DNS sample_dns_conf)) \<noteq> None" by code_simp
  have names: "dns_names sample_dns_conf = [(''Qm'', ''10.66.0.7''), (''bob'', ''10.66.0.7''), (''admin'', ''127.0.0.66'')]"
    by code_simp
  have can: "sample_canonical ''Qm.awl'' = ''qm.awl.''" "sample_canonical ''bob.awl'' = ''bob.awl.''"
    "sample_canonical ''admin.awl'' = ''admin.awl.''" "ToLower id ''BOB.awl.'' = ''bob.awl.''" by code_simp+
  have ok: "names_ok sample_canonical (dns_names sample_dns_conf)"
    by (simp add: names_ok_def names gm_wf_def LocalDomain_def can)
  have p: "?p \<in> set (gm_vals (c_KnownPeers sample_dns_conf))" by (simp add: sample_dns_conf_def gm_vals_def)
  have un: "unambiguous sample_dns_conf ''bob'' (kp_IPAddr ?p)"
    by (simp add: unambiguous_def sample_dns_conf_def gm_vals_def AdminHttpServerDomainName_def)
  have ip: "To4 (ParseIP (kp_IPAddr sample_peer)) = [10, 66, 0, 7]" by code_simp
  show ?thesis
    using known_peers_resolvable [OF a' split ok p _ un, of id "''BOB.awl.''" TypeA "\<lambda>n m. m" False None] a'
    by (simp add: ip can LocalDomain_def)
qed

text \<open>
  Initialising the DNS service panics exactly when the system's configurator is available
  and the host of the configured listen address is not an IP address, as in \<open>localhost:53\<close>.
\<close>

theorem init_dns_panics_iff:
  "(initDNS can os c a = None \<longleftrightarrow>
     (\<exists>h p. SplitHostPort (dc_ListenAddress (c_DNS c)) = Some (h, p) \<and> do_newOk os \<and> ParseAddr h = None)) \<and>
   SplitHostPort ''localhost:53'' = Some (''localhost'', ''53'') \<and> ParseAddr ''localhost'' = None"
proof (intro conjI)
  show "SplitHostPort ''localhost:53'' = Some (''localhost'', ''53'')" by code_simp
  show "ParseAddr ''localhost'' = None" by code_simp
qed (auto simp: initDNS_def Let_def split: option.splits if_splits)

end
