(* ===== verification/Awl_P2p.thy ===== *)
theory Awl_P2p
  imports Config_Defaults
begin

text \<open>
  The decisions \<open>src/p2p/p2p.go\<close> makes around the libp2p host: how the host is configured, where
  it listens, how connections and streams are opened, in which order addresses are dialled and
  which relays are offered. Multiaddresses, the host, its peer store and the dialler are
  libp2p's and are arguments.
\<close>

section \<open>Listening\<close>

definition defaultP2pPort :: nat where
  "defaultP2pPort = 4363"

definition DesiredRelays :: nat where
  "DesiredRelays = 2"

definition UnicastListenAddrs :: "string list" where
  "UnicastListenAddrs =
     [''/ip4/0.0.0.0/tcp/0'', ''/ip6/::/tcp/0'', ''/ip4/0.0.0.0/udp/0/quic-v1'', ''/ip6/::/udp/0/quic-v1'']"

definition DefaultListenAddrs :: "string list" where
  "DefaultListenAddrs =
     [''/ip4/0.0.0.0/tcp/'' @ itoa defaultP2pPort, ''/ip6/::/tcp/'' @ itoa defaultP2pPort,
      ''/ip4/0.0.0.0/udp/'' @ itoa defaultP2pPort @ ''/quic-v1'', ''/ip6/::/udp/'' @ itoa defaultP2pPort @ ''/quic-v1'']"

definition findListenAddrs :: "bool \<Rightarrow> bool \<Rightarrow> string list" where
  \<comment> \<open>whether the default port can be bound for TCP and for UDP\<close>
  "findListenAddrs tcpFree udpFree =
     (if \<not> tcpFree then UnicastListenAddrs else if \<not> udpFree then UnicastListenAddrs else DefaultListenAddrs)"

section \<open>Creating the host\<close>

record 'i HostConfig =
  hc_PrivKeyBytes :: "byte list option"
  hc_ListenAddrs :: "string list"
  hc_UserAgent :: string
  hc_BootstrapPeers :: "'i list"
  hc_AllowEmptyBootstrapPeers :: bool
  hc_EnableAutoRelay :: bool
  hc_LowWater :: int
  hc_HighWater :: int
  hc_GracePeriod :: int

datatype host_error = KeyGenerationFailed | KeyInvalid | ZeroBootstrapPeers | ConnManagerFailed | HostFailed

text \<open>
  What the libraries do: a fresh key, the key of given bytes, the connection manager, the free
  ports and whether the host comes up with given key and addresses.
\<close>

record 'k host_env =
  he_generate :: "'k option"
  he_unmarshal :: "byte list \<Rightarrow> 'k option"
  he_connMgrOk :: "int \<Rightarrow> int \<Rightarrow> int \<Rightarrow> bool"
  he_tcpFree :: bool
  he_udpFree :: bool
  he_new :: "'k \<Rightarrow> string list \<Rightarrow> bool \<Rightarrow> bool"

definition InitHost :: "'k host_env \<Rightarrow> 'i HostConfig \<Rightarrow> host_error + ('k \<times> string list)" where
  "InitHost e hc =
     (case (case hc_PrivKeyBytes hc of
              None \<Rightarrow> (case he_generate e of None \<Rightarrow> Inl KeyGenerationFailed | Some k \<Rightarrow> Inr k)
            | Some b \<Rightarrow> (case he_unmarshal e b of None \<Rightarrow> Inl KeyInvalid | Some k \<Rightarrow> Inr k)) of
        Inl err \<Rightarrow> Inl err
      | Inr privKey \<Rightarrow>
          if \<not> hc_AllowEmptyBootstrapPeers hc \<and> hc_BootstrapPeers hc = [] then Inl ZeroBootstrapPeers
          else if \<not> he_connMgrOk e (hc_LowWater hc) (hc_HighWater hc) (hc_GracePeriod hc) then Inl ConnManagerFailed
          else
            let listenAddrs = (if hc_ListenAddrs hc = [] then findListenAddrs (he_tcpFree e) (he_udpFree e)
                               else hc_ListenAddrs hc)
            in if he_new e privKey listenAddrs (hc_EnableAutoRelay hc) then Inr (privKey, listenAddrs) else Inl HostFailed)"

section \<open>Connections and streams\<close>

datatype connect_error = PeerNotFound | ConnectFailed

definition ConnectPeer :: "bool \<Rightarrow> 'i option \<Rightarrow> ('i \<Rightarrow> bool) \<Rightarrow> connect_error option" where
  "ConnectPeer isConnected findPeer connect =
     (if isConnected then None
      else case findPeer of
        None \<Rightarrow> Some PeerNotFound
      | Some info \<Rightarrow> if connect info then None else Some ConnectFailed)"

datatype dedicated_error = DialFailed | NewStreamFailed | SetProtocolFailed

text \<open>The result and whether a connection and a stream are left open.\<close>

definition NewStreamWithDedicatedConn :: "bool \<Rightarrow> bool \<Rightarrow> bool \<Rightarrow> dedicated_error option \<times> bool \<times> bool" where
  "NewStreamWithDedicatedConn dialOk streamOk protocolOk =
     (if \<not> dialOk then (Some DialFailed, False, False)
      else if \<not> streamOk then (Some NewStreamFailed, False, False)
      else if \<not> protocolOk then (Some SetProtocolFailed, True, True)
      else (None, True, True))"

text \<open>Pings until the channel ends or enough have come back.\<close>

fun pingPeer :: "nat \<Rightarrow> 'e list \<Rightarrow> nat" where
  "pingPeer pingCount [] = pingCount"
| "pingPeer pingCount (_ # es) = (if 5 \<le> Suc pingCount then Suc pingCount else pingPeer (Suc pingCount) es)"

section \<open>Relays\<close>

text \<open>
  The candidates: connected bootstrap peers with a known latency, by latency. Go's sort is
  stable for up to twelve elements; beyond that the order of equal latencies is not specified
  and the model fixes one.
\<close>

definition getAllCandidates :: "bool \<Rightarrow> ('i \<Rightarrow> bool) \<Rightarrow> ('i \<Rightarrow> int) \<Rightarrow> 'i list \<Rightarrow> 'i list" where
  "getAllCandidates hostReady isConnected latency bootstrapPeers =
     (if \<not> hostReady then bootstrapPeers
      else sort_key latency (filter (\<lambda>i. \<not> (\<not> isConnected i \<or> latency i = 0)) bootstrapPeers))"

text \<open>One call of the peer source: the peers sent and the ones kept for later calls.\<close>

definition relay_source :: "'i list \<Rightarrow> nat \<Rightarrow> 'i list \<Rightarrow> 'i list \<times> 'i list" where
  "relay_source candidates numPeers lastAddrInfos =
     (let l = (if length lastAddrInfos = 0 then candidates else lastAddrInfos);
          n = (if length l < numPeers then length l else numPeers)
      in (map ((!) l) [0..<n], drop n l))"

fun relay_calls :: "'i list \<Rightarrow> nat list \<Rightarrow> 'i list \<Rightarrow> 'i list list" where
  "relay_calls candidates [] l = []"
| "relay_calls candidates (n # ns) l =
     (case relay_source candidates n l of (sent, l') \<Rightarrow> sent # relay_calls candidates ns l')"

section \<open>Dialling\<close>

text \<open>
  What the ranker reads from an address: whether it goes through a relay, the text of the
  relay's ID, and the decoded ID.
\<close>

record 'a addr_ops =
  ao_circuit :: "'a \<Rightarrow> bool"
  ao_p2p :: "'a \<Rightarrow> string option"
  ao_decode :: "string \<Rightarrow> string option"

definition relay_id :: "'a addr_ops \<Rightarrow> 'a \<Rightarrow> string option" where
  "relay_id ops a =
     (if \<not> ao_circuit ops a then None
      else case ao_p2p ops a of None \<Rightarrow> None | Some s \<Rightarrow> ao_decode ops s)"

definition closest_step :: "'a addr_ops \<Rightarrow> (string \<Rightarrow> int) \<Rightarrow> (string \<times> int) option \<Rightarrow> 'a \<times> int \<Rightarrow> (string \<times> int) option" where
  "closest_step ops latency closest ad =
     (case relay_id ops (fst ad) of
        None \<Rightarrow> closest
      | Some relayPID \<Rightarrow>
          let l = latency relayPID
          in if l \<noteq> 0 \<and> (closest = None \<or> l < snd (the closest)) then Some (relayPID, l) else closest)"

definition closest_relay :: "'a addr_ops \<Rightarrow> (string \<Rightarrow> int) \<Rightarrow> ('a \<times> int) list \<Rightarrow> (string \<times> int) option" where
  "closest_relay ops latency delays = foldl (closest_step ops latency) None delays"

definition relayDelay :: int where
  "relayDelay = 500 * 1000000"

definition getDialRanker :: "'a addr_ops \<Rightarrow> (string \<Rightarrow> int) \<Rightarrow> ('a list \<Rightarrow> ('a \<times> int) list) \<Rightarrow> 'a list \<Rightarrow> ('a \<times> int) list" where
  "getDialRanker ops latency defaultRanker addrs =
     (let defaultDelays = defaultRanker addrs;
          closest = closest_relay ops latency defaultDelays
      in map (\<lambda>(a, d). case relay_id ops a of
             None \<Rightarrow> (a, d)
           | Some relayPID \<Rightarrow>
               if closest \<noteq> None \<and> relayPID \<noteq> fst (the closest) then (a, d + relayDelay) else (a, d)) defaultDelays)"

section \<open>The closest relay\<close>

definition relays :: "'a addr_ops \<Rightarrow> ('a \<times> int) list \<Rightarrow> string set" where
  "relays ops ds = {r. \<exists>ad \<in> set ds. relay_id ops (fst ad) = Some r}"

lemma relays_simps [simp]:
  "relays ops [] = {}"
  "relays ops (ds @ [ad]) = relays ops ds \<union> set_option (relay_id ops (fst ad))"
  by (auto simp: relays_def)

text \<open>The fold finds a relay of least known latency, if any relay has one.\<close>

lemma closest_relay_min:
  "case closest_relay ops lat ds of
     None \<Rightarrow> \<forall>r \<in> relays ops ds. lat r = 0
   | Some (r, l) \<Rightarrow> r \<in> relays ops ds \<and> l = lat r \<and> l \<noteq> 0 \<and> (\<forall>q \<in> relays ops ds. lat q \<noteq> 0 \<longrightarrow> l \<le> lat q)"
proof (induction ds rule: rev_induct)
  case (snoc ad ds)
  have fold: "closest_relay ops lat (ds @ [ad]) = closest_step ops lat (closest_relay ops lat ds) ad"
    by (simp add: closest_relay_def)
  show ?case
    using snoc unfolding fold closest_step_def Let_def
    by (auto split: option.splits if_splits)
qed (simp add: closest_relay_def)

lemma relay_source_take: "relay_source c n l = (take n (if l = [] then c else l), drop n (if l = [] then c else l))"
proof -
  have "map ((!) k) [0..<if length k < n then length k else n] = take n k" for k :: "'a list"
  proof (cases "length k < n")
    case True
    then show ?thesis by (simp add: map_nth)
  next
    case False
    then have "take n (map ((!) k) [0..<length k]) = map ((!) k) [0..<n]" by (simp add: take_map)
    with False show ?thesis by (simp add: map_nth)
  qed
  then show ?thesis by (simp add: relay_source_def Let_def)
qed

lemma relay_calls_zero: "set ns \<subseteq> {0} \<Longrightarrow> concat (relay_calls c ns k) = []"
  by (induction ns arbitrary: k) (simp_all add: relay_source_take)

lemma relay_calls_take:
  assumes "sum_list ns \<le> length l" and "l \<noteq> []"
  shows "concat (relay_calls c ns l) = take (sum_list ns) l"
  using assms
proof (induction ns arbitrary: l)
  case (Cons n ns)
  show ?case
  proof (cases "drop n l = []")
    case True
    then have zero: "sum_list ns = 0" and "n = length l" using Cons.prems(1) by (simp_all only: drop_eq_Nil sum_list.Cons)
    then have "concat (relay_calls c ns []) = []" by (intro relay_calls_zero) auto
    with True \<open>n = length l\<close> zero Cons.prems(2) show ?thesis by (simp add: relay_source_take)
  next
    case False
    have "sum_list ns \<le> length (drop n l)" using Cons.prems(1) by simp
    from Cons.IH [OF this False] Cons.prems(2) show ?thesis by (simp add: relay_source_take take_add)
  qed
qed simp

section \<open>Properties\<close>

text \<open>
  The ranker keeps the addresses and their order. When some relay has a known latency, one
  of least latency is chosen and exactly the addresses of the other relays are delayed by half
  a second; when none has, nothing changes.
\<close>

theorem dial_ranker_prefers_closest:
  "\<exists>extra. getDialRanker ops lat def addrs = map (\<lambda>(a, d). (a, d + extra a)) (def addrs) \<and>
     (if \<forall>r \<in> relays ops (def addrs). lat r = 0 then extra = (\<lambda>_. 0)
      else \<exists>r \<in> relays ops (def addrs). lat r \<noteq> 0 \<and> (\<forall>q \<in> relays ops (def addrs). lat q \<noteq> 0 \<longrightarrow> lat r \<le> lat q) \<and>
        extra = (\<lambda>a. case relay_id ops a of None \<Rightarrow> 0 | Some q \<Rightarrow> if q = r then 0 else relayDelay))"
proof (cases "closest_relay ops lat (def addrs)")
  case None
  then have "\<forall>r \<in> relays ops (def addrs). lat r = 0" using closest_relay_min [where ops = ops and lat = lat and ds = "def addrs"] by simp
  moreover have "getDialRanker ops lat def addrs = map (\<lambda>(a, d). (a, d + 0)) (def addrs)"
    using None by (auto simp: getDialRanker_def Let_def intro!: map_idI split: option.split)
  ultimately show ?thesis by (intro exI [of _ "\<lambda>_. 0"]) simp
next
  case (Some rl)
  obtain r l where rl: "rl = (r, l)" by fastforce
  have r: "r \<in> relays ops (def addrs)" "lat r \<noteq> 0" "\<forall>q \<in> relays ops (def addrs). lat q \<noteq> 0 \<longrightarrow> lat r \<le> lat q"
    using closest_relay_min [where ops = ops and lat = lat and ds = "def addrs"] Some rl by auto
  let ?extra = "\<lambda>a. case relay_id ops a of None \<Rightarrow> 0 | Some q \<Rightarrow> if q = r then 0 else relayDelay"
  have "getDialRanker ops lat def addrs = map (\<lambda>(a, d). (a, d + ?extra a)) (def addrs)"
    using Some rl by (auto simp: getDialRanker_def Let_def split: option.split)
  with r show ?thesis by (intro exI [of _ ?extra]) auto
qed

definition sample_ops :: "string addr_ops" where
  "sample_ops = \<lparr>ao_circuit = (\<lambda>a. a \<noteq> ''direct''), ao_p2p = Some, ao_decode = Some\<rparr>"

theorem dial_ranker_prefers_closest_witness:
  "getDialRanker sample_ops (\<lambda>r. if r = ''near'' then 20 else if r = ''far'' then 90 else 0)
       (map (\<lambda>a. (a, 0))) [''direct'', ''far'', ''near''] =
     [(''direct'', 0), (''far'', 500000000), (''near'', 0)]"
proof -
  let ?lat = "\<lambda>r. if r = ''near'' then 20 else if r = ''far'' then 90 else (0 :: int)"
  let ?as = "[''direct'', ''far'', ''near'']"
  have rel: "relays sample_ops (map (\<lambda>a. (a, 0)) ?as) = {''far'', ''near''}"
    by (auto simp: relays_def relay_id_def sample_ops_def)
  obtain extra where extra: "getDialRanker sample_ops ?lat (map (\<lambda>a. (a, 0))) ?as =
      map (\<lambda>(a, d). (a, d + extra a)) (map (\<lambda>a. (a, 0)) ?as)"
    and cases: "if \<forall>r \<in> {''far'', ''near''}. ?lat r = 0 then extra = (\<lambda>_. 0)
      else \<exists>r \<in> {''far'', ''near''}. ?lat r \<noteq> 0 \<and> (\<forall>q \<in> {''far'', ''near''}. ?lat q \<noteq> 0 \<longrightarrow> ?lat r \<le> ?lat q) \<and>
        extra = (\<lambda>a. case relay_id sample_ops a of None \<Rightarrow> 0 | Some q \<Rightarrow> if q = r then 0 else relayDelay)"
    using dial_ranker_prefers_closest [of sample_ops ?lat "map (\<lambda>a. (a, 0))" ?as] unfolding rel by blast
  from cases have "extra = (\<lambda>a. case relay_id sample_ops a of None \<Rightarrow> 0 | Some q \<Rightarrow> if q = ''near'' then 0 else relayDelay)"
    by auto
  with extra show ?thesis by (simp add: relay_id_def sample_ops_def relayDelay_def)
qed

text \<open>
  While no more peers are asked for than there are candidates, the calls of the relay
  source hand out the candidates in the order of their latency, each once: together the first
  so many of the list.
\<close>

theorem relay_source_serves_all:
  assumes "sum_list ns \<le> length (getAllCandidates True conn lat peers)"
  shows "concat (relay_calls (getAllCandidates True conn lat peers) ns []) =
      take (sum_list ns) (getAllCandidates True conn lat peers) \<and>
    sorted (map lat (getAllCandidates True conn lat peers)) \<and>
    (\<forall>i. i \<in> set (getAllCandidates True conn lat peers) \<longleftrightarrow> i \<in> set peers \<and> conn i \<and> lat i \<noteq> 0)"
proof (intro conjI)
  let ?c = "getAllCandidates True conn lat peers"
  show "concat (relay_calls ?c ns []) = take (sum_list ns) ?c"
  proof (cases "?c = []")
    case True
    then have "set ns \<subseteq> {0}" using assms by auto
    with True relay_calls_zero show ?thesis by fastforce
  next
    case False
    have "relay_calls ?c ns [] = relay_calls ?c ns ?c" by (cases ns) (simp_all add: relay_source_take)
    with relay_calls_take [OF assms False] show ?thesis by simp
  qed
qed (auto simp: getAllCandidates_def)

theorem relay_source_serves_all_witness:
  "concat (relay_calls (getAllCandidates True (\<lambda>_. True) (\<lambda>i. if i = ''a'' then 30 else 10) [''a'', ''b'']) [1, 1] []) = [''b'', ''a'']"
proof -
  have c: "getAllCandidates True (\<lambda>_. True) (\<lambda>i. if i = ''a'' then 30 else 10 :: int) [''a'', ''b''] = [''b'', ''a'']" by code_simp
  show ?thesis
    using relay_source_serves_all [of "[1, 1]" "\<lambda>_. True" "\<lambda>i. if i = ''a'' then 30 else 10 :: int" "[''a'', ''b'']"]
    unfolding c by simp
qed

text \<open>A stream whose protocol cannot be set is reported as failed with its connection left open.\<close>

lemma dedicated_conn_leak:
  "NewStreamWithDedicatedConn d st pr = (Some err, conn, str) \<and> (conn \<or> str) \<longleftrightarrow>
     d \<and> st \<and> \<not> pr \<and> err = SetProtocolFailed \<and> conn \<and> str"
  by (auto simp: NewStreamWithDedicatedConn_def)

end
