(* ===== verification/Awl_Lifecycle.thy ===== *)
theory Awl_Lifecycle
  imports Awl_Application Awl_P2p
begin

text \<open>
  Starting and stopping the program: \<open>Init\<close> and \<open>Close\<close> of \<open>src/application.go\<close> with
  the servers of \<open>src/api/api.go\<close>, and the two programs that start and stop it while they run:
  the tray of \<open>src/cmd/awl-tray\<close> and the mobile library of \<open>src/cmd/gomobile-lib\<close>.
  What libraries and the operating system answer is one record of arguments, \<open>init_env\<close>.
\<close>

section \<open>API servers\<close>

definition AdminHttpServerListenAddress :: string where
  "AdminHttpServerListenAddress = ''127.0.0.66:80''"

text \<open>Which of the two servers have been set up; \<open>canBind\<close> is the outcome of \<open>net.Listen\<close>.\<close>

record Handler =
  hd_echo :: bool
  hd_echoAdmin :: bool

definition NewHandler :: Handler where
  "NewHandler = \<lparr>hd_echo = False, hd_echoAdmin = False\<rparr>"

definition SetupAPI :: "(string \<Rightarrow> bool) \<Rightarrow> Config \<Rightarrow> Handler \<Rightarrow> bool \<times> Handler" where
  \<comment> \<open>\<open>False\<close> is an error\<close>
  "SetupAPI canBind c h =
     (if \<not> canBind (c_HttpListenAddress c) then (False, h)
      else let h1 = h\<lparr>hd_echo := True\<rparr>
        in (True, if c_HttpListenOnAdminHost c \<and> canBind AdminHttpServerListenAddress
                  then h1\<lparr>hd_echoAdmin := True\<rparr> else h1))"

section \<open>The application\<close>

text \<open>
  The fields of the application, \<open>None\<close> for nil; the logger, the log buffer and the event bus are
  always set before \<open>Init\<close> and left out. Of the libp2p host only its presence is kept; \<open>app_streams\<close> are the protocols with a stream handler.
\<close>

record P2p =
  p2_host :: bool

record Application =
  app_Conf :: "conf_state option"
  app_AllowEmptyBootstrapPeers :: bool
  app_ctxCancel :: bool
  app_vpnDevice :: "Device option"
  app_P2p :: "P2p option"
  app_Api :: "Handler option"
  app_AuthStatus :: "AuthStatus option"
  app_Tunnel :: "Tunnel option"
  app_SOCKS5 :: "(Client option \<times> Server) option"
  app_Dns :: "DNSService option"
  app_streams :: "string list"

definition New :: Application where
  "New = \<lparr>app_Conf = None, app_AllowEmptyBootstrapPeers = False, app_ctxCancel = False, app_vpnDevice = None,
     app_P2p = None, app_Api = None, app_AuthStatus = None, app_Tunnel = None, app_SOCKS5 = None, app_Dns = None,
     app_streams = []\<rparr>"

abbreviation app_c :: "Application \<Rightarrow> Config" where
  "app_c a \<equiv> cs_conf (the (app_Conf a))"

definition disk_config :: "def_env \<Rightarrow> (string \<Rightarrow> conf_file option) \<Rightarrow> Config option" where
  "disk_config e files =
     (case files (path_Join (CalcAppDataDir (de_os e)) AppConfigFilename) of Some (Inr c) \<Rightarrow> Some c | _ \<Rightarrow> None)"

definition SetupLoggerAndConfig ::
    "def_env \<Rightarrow> (string \<Rightarrow> conf_file option) \<Rightarrow> bool \<Rightarrow> Application \<Rightarrow> Application option" where
  "SetupLoggerAndConfig e files diskOK a =
     map_option (\<lambda>(_, conf). a\<lparr>app_Conf :=
         Some \<lparr>cs_conf = conf, cs_disk = disk_config e files, cs_diskOK = diskOK, cs_events = []\<rparr>\<rparr>)
       (setup_config e files)"

section \<open>Init\<close>

record 'k init_env =
  ie_x :: externals
  ie_base58 :: "string \<Rightarrow> byte list option"
  ie_parse :: "string \<Rightarrow> string option"
  ie_infos :: "string list \<Rightarrow> string list option"
  ie_storesOk :: bool
  ie_userAgent :: string
  ie_host :: "'k host_env"
  ie_identity :: "'k \<Rightarrow> string"
  ie_peerID :: "'k \<Rightarrow> string"
  ie_existingTun :: bool
  ie_newTunOk :: bool
  ie_mtu :: "int option"
  ie_canListen :: "string \<Rightarrow> bool"
  ie_ifName :: bool
  ie_canonical :: "string \<Rightarrow> string"
  ie_dnsOS :: dns_os

datatype init_error = HostError host_error | VpnError dev_error | Socks5Error | ApiError

datatype init_result = Done | Failed init_error | Panicked

text \<open>Creating the peer store or the resource manager panics when it fails.\<close>

definition makeP2pHostConfig :: "'k init_env \<Rightarrow> Application \<Rightarrow> string HostConfig option" where
  "makeP2pHostConfig e a =
     (if \<not> ie_storesOk e then None
      else map_option (\<lambda>peers.
          \<lparr>hc_PrivKeyBytes = PrivKey (ie_base58 e) (app_c a), hc_ListenAddrs = GetListenAddresses (ie_parse e) (app_c a),
           hc_UserAgent = ie_userAgent e, hc_BootstrapPeers = peers,
           hc_AllowEmptyBootstrapPeers = app_AllowEmptyBootstrapPeers a, hc_EnableAutoRelay = True,
           hc_LowWater = 50, hc_HighWater = 100, hc_GracePeriod = 60 * 1000000000\<rparr>)
        (GetBootstrapPeers (ie_parse e) (ie_infos e) (app_c a)))"

definition init_host :: "'k init_env \<Rightarrow> Application \<Rightarrow> init_result \<times> Application" where
  "init_host e a =
     (let a1 = a\<lparr>app_ctxCancel := True, app_P2p := Some \<lparr>p2_host = False\<rparr>\<rparr>
      in case makeP2pHostConfig e a1 of
           None \<Rightarrow> (Panicked, a1)
         | Some hc \<Rightarrow>
             (case InitHost (ie_host e) hc of
                Inl err \<Rightarrow> (Failed (HostError err), a1)
              | Inr (privKey, _) \<Rightarrow>
                  (Done, a1\<lparr>app_P2p := Some \<lparr>p2_host = True\<rparr>,
                     app_Conf := map_option (SetIdentity (ie_identity e privKey) (ie_peerID e privKey)) (app_Conf a1)\<rparr>)))"

definition init_vpn :: "'k init_env \<Rightarrow> Application \<Rightarrow> init_result \<times> Application" where
  "init_vpn e a =
     (if vc_DisableVPNInterface (c_VPNConfig (app_c a)) then (Done, a)
      else case NewDevice (ie_existingTun e) (ie_newTunOk e) (ie_mtu e) (fst (VPNLocalIPMask (app_c a))) of
        Inl err \<Rightarrow> (Failed (VpnError err), a)
      | Inr d \<Rightarrow>
          (case NewTunnel (x_Decode (ie_x e)) (x_String (ie_x e)) (app_c a) d of
             None \<Rightarrow> (Panicked, a\<lparr>app_vpnDevice := Some d\<rparr>)
           | Some (d', t) \<Rightarrow> (Done, a\<lparr>app_vpnDevice := Some d', app_Tunnel := Some t\<rparr>)))"

definition init_services :: "'k init_env \<Rightarrow> Application \<Rightarrow> init_result \<times> Application" where
  "init_services e a =
     (let a1 = a\<lparr>app_Dns := Some NewDNSService, app_AuthStatus := Some (NewAuthStatus (ie_x e) (the (app_Conf a)))\<rparr>
      in case NewSOCKS5 (ie_canListen e) (app_c a) of
           None \<Rightarrow> (Panicked, a1)
         | Some (Inl _) \<Rightarrow> (Failed Socks5Error, a1)
         | Some (Inr s) \<Rightarrow> (Done, a1\<lparr>app_SOCKS5 := Some s\<rparr>))"

definition set_handlers :: "Application \<Rightarrow> init_result \<times> Application" where
  "set_handlers a =
     (Done, a\<lparr>app_streams := app_streams a @ [GetStatusMethod, AuthMethod] @
        (if app_Tunnel a \<noteq> None then [TunnelPacketMethod] else []) @ [Socks5PacketMethod, Socks5NoAuthMethod]\<rparr>)"

definition init_api :: "'k init_env \<Rightarrow> Application \<Rightarrow> init_result \<times> Application" where
  "init_api e a =
     (case SetupAPI (ie_canListen e) (app_c a) NewHandler of
        (ok, h) \<Rightarrow> (if ok then Done else Failed ApiError, a\<lparr>app_Api := Some h\<rparr>))"

text \<open>What is left of the DNS service when \<open>initDNS\<close> panics: its resolver, refreshed.\<close>

definition dns_panic_state :: "'k init_env \<Rightarrow> Config \<Rightarrow> DNSService \<Rightarrow> DNSService" where
  "dns_panic_state e c d =
     refreshDNSConfig (ie_canonical e) c
       (d\<lparr>ds_resolver := Some (NewResolver (dc_ListenAddress (c_DNS c))), ds_upstreamDNS := DefaultUpstreamDNSAddress\<rparr>)"

definition init_dns :: "'k init_env \<Rightarrow> Application \<Rightarrow> init_result \<times> Application" where
  "init_dns e a =
     (if \<not> dc_DisableDNS (c_DNS (app_c a)) \<and> \<not> vc_DisableVPNInterface (c_VPNConfig (app_c a)) \<and> ie_ifName e
      then case initDNS (ie_canonical e) (ie_dnsOS e) (app_c a) (the (app_Dns a)) of
             None \<Rightarrow> (Panicked, a\<lparr>app_Dns := Some (dns_panic_state e (app_c a) (the (app_Dns a)))\<rparr>)
           | Some d \<Rightarrow> (Done, a\<lparr>app_Dns := Some d\<rparr>)
      else (Done, a))"

fun init_seq :: "(Application \<Rightarrow> init_result \<times> Application) list \<Rightarrow> Application \<Rightarrow> init_result \<times> Application" where
  "init_seq [] a = (Done, a)"
| "init_seq (s # ss) a =
     (case s a of (r, a1) \<Rightarrow> (case r of Done \<Rightarrow> init_seq ss a1 | _ \<Rightarrow> (r, a1)))"

definition Init :: "'k init_env \<Rightarrow> Application \<Rightarrow> init_result \<times> Application" where
  "Init e a =
     (if app_Conf a = None then (Panicked, a)
      else init_seq [init_host e, init_vpn e, init_services e, set_handlers, init_api e, init_dns e] a)"

section \<open>Close\<close>

datatype close_action =
  SaveConfig | CancelContext | ShutdownAdmin | ShutdownApi | CloseTunnel | CloseSocks5 | CloseP2p | CloseDns | CloseDevice

type_synonym closing = "Application \<Rightarrow> close_action list \<times> bool \<times> Application"

text \<open>Every part of \<open>Close\<close>: what it does, whether it panics, and the application after it.\<close>

definition save_conf :: closing where
  "save_conf a =
     (case app_Conf a of None \<Rightarrow> ([], True, a) | Some cs \<Rightarrow> ([SaveConfig], False, a\<lparr>app_Conf := Some (c_save cs)\<rparr>))"

definition cancel_ctx :: closing where
  "cancel_ctx a = (if app_ctxCancel a then [CancelContext] else [], False, a)"

text \<open>\<open>Shutdown\<close> reads a field of the main server, which panics when that was not set up.\<close>

definition shutdown_api :: closing where
  "shutdown_api a =
     (case app_Api a of
        None \<Rightarrow> ([], False, a)
      | Some h \<Rightarrow>
          let admin = (if hd_echoAdmin h then [ShutdownAdmin] else [])
          in if hd_echo h then (admin @ [ShutdownApi], False, a) else (admin, True, a))"

definition close_tunnel :: closing where
  "close_tunnel a =
     (case app_Tunnel a of
        None \<Rightarrow> ([], False, a)
      | Some t \<Rightarrow>
          (case Tunnel_Close (the (app_vpnDevice a)) t of
             None \<Rightarrow> ([], True, a)
           | Some (d', t') \<Rightarrow> ([CloseTunnel], False, a\<lparr>app_vpnDevice := Some d', app_Tunnel := Some t'\<rparr>)))"

definition close_socks5 :: closing where
  "close_socks5 a = (if app_SOCKS5 a \<noteq> None then [CloseSocks5] else [], False, a)"

text \<open>\<open>P2p.Close\<close> calls methods of the host.\<close>

definition close_p2p :: closing where
  "close_p2p a =
     (case app_P2p a of
        None \<Rightarrow> ([], False, a)
      | Some p \<Rightarrow> if p2_host p then ([CloseP2p], False, a) else ([], True, a))"

definition close_dns :: closing where
  "close_dns a = (if app_Dns a \<noteq> None then [CloseDns] else [], False, a)"

definition close_device :: closing where
  "close_device a = (if app_vpnDevice a \<noteq> None then [CloseDevice] else [], False, a)"

fun close_seq :: "closing list \<Rightarrow> closing" where
  "close_seq [] a = ([], False, a)"
| "close_seq (s # ss) a =
     (case s a of (acts, panicked, a1) \<Rightarrow>
        if panicked then (acts, True, a1)
        else case close_seq ss a1 of (acts', panicked', a2) \<Rightarrow> (acts @ acts', panicked', a2))"

definition Close :: closing where
  "Close = close_seq [save_conf, cancel_ctx, shutdown_api, close_tunnel, close_socks5, close_p2p, close_dns,
     close_device, save_conf]"

section \<open>The tray\<close>

text \<open>
  The application of the tray and whether its menus show a started server. \<open>Crashed\<close> is a panic
  nobody recovers.
\<close>

record tray =
  tr_app :: "Application option"
  tr_started :: bool

datatype 'a alive = Alive 'a | Crashed

record 'k start_env =
  se_def :: def_env
  se_files :: "string \<Rightarrow> conf_file option"
  se_diskOK :: bool
  se_init :: "'k init_env"

text \<open>
  The deferred function of \<open>InitServer\<close>: it runs for errors and recovered panics and closes
  the application itself, so a panic of \<open>Close\<close> is not recovered any more.
\<close>

definition tray_abort :: "Application \<Rightarrow> tray \<Rightarrow> (bool \<times> tray) alive" where
  "tray_abort a t =
     (case Close a of (_, panicked, _) \<Rightarrow> if panicked then Crashed else Alive (False, t\<lparr>tr_app := None\<rparr>))"

definition InitServer :: "'k start_env \<Rightarrow> tray \<Rightarrow> (bool \<times> tray) alive" where
  \<comment> \<open>\<open>False\<close> is an error\<close>
  "InitServer e t =
     (case SetupLoggerAndConfig (se_def e) (se_files e) (se_diskOK e) New of
        None \<Rightarrow> tray_abort New t
      | Some a \<Rightarrow>
          (case Init (se_init e) a of (r, a1) \<Rightarrow>
             if r = Done then Alive (True, \<lparr>tr_app = Some a1, tr_started = True\<rparr>) else tray_abort a1 t))"

definition tray_StopServer :: "tray \<Rightarrow> tray" where
  "tray_StopServer t =
     (case tr_app t of
        None \<Rightarrow> t\<lparr>tr_started := False\<rparr>
      | Some a \<Rightarrow>
          (case Close a of (_, panicked, a1) \<Rightarrow>
             if panicked then \<lparr>tr_app = Some a1, tr_started = False\<rparr> else \<lparr>tr_app = None, tr_started = False\<rparr>))"

definition startStopMenu :: "'k start_env \<Rightarrow> tray \<Rightarrow> tray alive" where
  "startStopMenu e t =
     (if tr_app t \<noteq> None then Alive (tray_StopServer t)
      else case InitServer e t of Crashed \<Rightarrow> Crashed | Alive (_, t1) \<Rightarrow> Alive t1)"

definition restartMenu :: "'k start_env \<Rightarrow> tray \<Rightarrow> tray alive" where
  "restartMenu e t =
     (case InitServer e (tray_StopServer t) of Crashed \<Rightarrow> Crashed | Alive (_, t1) \<Rightarrow> Alive t1)"

section \<open>The mobile library\<close>

record mobile =
  mb_app :: "Application option"
  mb_dataDir :: string

definition GetConfig :: "def_env \<Rightarrow> (string \<Rightarrow> conf_file option) \<Rightarrow> mobile \<Rightarrow> Config option" where
  \<comment> \<open>the configuration it prints; \<open>None\<close> is a panic\<close>
  "GetConfig e files m = (if mb_dataDir m = [] then None else map_option snd (setup_config e files))"

definition StartServer :: "'k start_env \<Rightarrow> mobile \<Rightarrow> bool \<times> mobile" where
  \<comment> \<open>\<open>False\<close> is an error; every panic is recovered\<close>
  "StartServer e m =
     (case SetupLoggerAndConfig (se_def e) (se_files e) (se_diskOK e) New of
        None \<Rightarrow> (False, m\<lparr>mb_app := Some New\<rparr>)
      | Some a \<Rightarrow>
          (case Init (se_init e) a of
             (Done, a1) \<Rightarrow> (True, m\<lparr>mb_app := Some a1\<rparr>)
           | (Panicked, a1) \<Rightarrow> (False, m\<lparr>mb_app := Some a1\<rparr>)
           | (Failed _, a1) \<Rightarrow>
               (case Close a1 of (_, panicked, a2) \<Rightarrow>
                  (False, m\<lparr>mb_app := (if panicked then Some a2 else None)\<rparr>))))"

definition mobile_StopServer :: "mobile \<Rightarrow> mobile alive" where
  "mobile_StopServer m =
     (case mb_app m of
        None \<Rightarrow> Alive m
      | Some a \<Rightarrow> (case Close a of (_, panicked, _) \<Rightarrow> if panicked then Crashed else Alive (m\<lparr>mb_app := None\<rparr>)))"

definition mobile_ImportConfig ::
    "(string \<Rightarrow> bool) \<Rightarrow> conf_file \<Rightarrow> mobile \<Rightarrow> (string \<Rightarrow> conf_file option) \<Rightarrow>
     (load_error option \<times> (string \<Rightarrow> conf_file option)) alive" where
  "mobile_ImportConfig canWrite data m files =
     (if mb_app m \<noteq> None \<or> mb_dataDir m = [] then Crashed
      else Alive (ImportConfig canWrite data (mb_dataDir m) files))"

text \<open>The full-tunnel forwarder; the engine is a library, of which the inserted key is kept.\<close>

record engine_key =
  ek_Device :: string
  ek_Proxy :: string
  ek_MTU :: int

record mobile_vpn =
  mv_running :: bool
  mv_lastErr :: string
  mv_key :: "engine_key option"

datatype vpn_error = InvalidTunFd | EmptyProxyAddress

definition itoa_int :: "int \<Rightarrow> string" where
  "itoa_int n = (if n < 0 then ''-'' @ itoa (nat (- n)) else itoa (nat n))"

definition StartVPN :: "32 word \<Rightarrow> string \<Rightarrow> 32 word \<Rightarrow> mobile_vpn \<Rightarrow> vpn_error option \<times> mobile_vpn" where
  "StartVPN tunFD socks5ProxyAddr mtu v =
     (if mv_running v then (None, v)
      else if tunFD = 0 then (Some InvalidTunFd, v)
      else if socks5ProxyAddr = [] then (Some EmptyProxyAddress, v)
      else let m = (if sint mtu \<le> 0 then 1500 else mtu)
        in (None, \<lparr>mv_running = True, mv_lastErr = [],
             mv_key = Some \<lparr>ek_Device = ''fd://'' @ itoa_int (sint tunFD), ek_Proxy = ''socks5://'' @ socks5ProxyAddr,
               ek_MTU = sint m\<rparr>\<rparr>))"

definition StopVPN :: "mobile_vpn \<Rightarrow> mobile_vpn" where
  "StopVPN v = (if \<not> mv_running v then v else v\<lparr>mv_running := False\<rparr>)"


section \<open>Closing after starting\<close>

definition tables :: "Application \<Rightarrow> bool" where
  "tables a \<longleftrightarrow> (case app_Tunnel a of None \<Rightarrow> True | Some t \<Rightarrow> table_ok t)"

text \<open>What a running application has.\<close>

definition started :: "Application \<Rightarrow> bool" where
  "started a \<longleftrightarrow> app_Conf a \<noteq> None \<and> app_ctxCancel a \<and> app_P2p a = Some \<lparr>p2_host = True\<rparr> \<and>
     (case app_Api a of None \<Rightarrow> False | Some h \<Rightarrow> hd_echo h) \<and> app_Dns a \<noteq> None \<and> app_SOCKS5 a \<noteq> None \<and>
     (app_Tunnel a \<noteq> None \<longleftrightarrow> app_vpnDevice a \<noteq> None) \<and> tables a"

lemmas close_parts = save_conf_def cancel_ctx_def shutdown_api_def close_tunnel_def close_socks5_def close_p2p_def
  close_dns_def close_device_def

text \<open>With consistent tables only a missing part makes \<open>Close\<close> panic.\<close>

lemma Close_panics_iff:
  assumes "tables a"
  shows "fst (snd (Close a)) \<longleftrightarrow>
     app_Conf a = None \<or> (\<exists>h. app_Api a = Some h \<and> \<not> hd_echo h) \<or> (\<exists>p. app_P2p a = Some p \<and> \<not> p2_host p)"
proof (cases "app_Tunnel a")
  case None
  then show ?thesis by (auto simp: Close_def close_parts Let_def split: option.splits)
next
  case (Some t)
  then obtain d' t' where "Tunnel_Close (the (app_vpnDevice a)) t = Some (d', t')"
    using assms Tunnel_Close_total by (fastforce simp: tables_def)
  with Some show ?thesis by (auto simp: Close_def close_parts Let_def split: option.splits)
qed

definition close_order :: "Application \<Rightarrow> close_action list" where
  "close_order a =
     [SaveConfig, CancelContext] @ (if hd_echoAdmin (the (app_Api a)) then [ShutdownAdmin] else []) @ [ShutdownApi] @
     (if app_Tunnel a \<noteq> None then [CloseTunnel] else []) @ [CloseSocks5, CloseP2p, CloseDns] @
     (if app_vpnDevice a \<noteq> None then [CloseDevice] else []) @ [SaveConfig]"

lemma Close_started:
  assumes "started a"
  shows "fst (Close a) = close_order a" "\<not> fst (snd (Close a))"
proof -
  obtain cs h where a: "app_Conf a = Some cs" "app_Api a = Some h" "hd_echo h" "tables a"
    using assms by (auto simp: started_def split: option.splits)
  show "\<not> fst (snd (Close a))" using Close_panics_iff [OF a(4)] assms a by (auto simp: started_def)
  show "fst (Close a) = close_order a"
  proof (cases "app_Tunnel a")
    case None
    with assms a show ?thesis by (auto simp: started_def close_order_def Close_def close_parts Let_def)
  next
    case (Some t)
    then obtain d' t' where "Tunnel_Close (the (app_vpnDevice a)) t = Some (d', t')"
      using a(4) Tunnel_Close_total by (fastforce simp: tables_def)
    with Some assms a show ?thesis by (auto simp: started_def close_order_def Close_def close_parts Let_def)
  qed
qed

lemma NewTunnel_tables:
  assumes "NewTunnel pdec pstr c d = Some (d', t)"
  shows "table_ok t"
proof -
  obtain t0 where t0: "RefreshPeersList pdec pstr c d t0 = Some (d', t)" "tn_peerIDToPeer t0 = []" "tn_netIPToPeer t0 = []"
    using assms by (auto simp: NewTunnel_def Let_def split: prod.splits Option.bind_splits)
  then have "table_ok t0" by (simp add: table_ok_def)
  with RefreshPeersList_total t0(1) show ?thesis by (metis option.inject prod.inject)
qed

text \<open>The state each step of \<open>Init\<close> leaves.\<close>

definition has_host :: "Application \<Rightarrow> bool" where
  "has_host a \<longleftrightarrow> app_Conf a \<noteq> None \<and> app_ctxCancel a \<and> app_P2p a = Some \<lparr>p2_host = True\<rparr> \<and> tables a"

lemma init_host_result:
  assumes "init_host e a = (r, a1)" and "app_Conf a \<noteq> None" and "app_Tunnel a = None"
  shows "app_Conf a1 \<noteq> None" "app_Api a1 = app_Api a" "app_Tunnel a1 = None" "app_vpnDevice a1 = app_vpnDevice a"
    "r = Done \<Longrightarrow> has_host a1" "r \<noteq> Done \<Longrightarrow> app_P2p a1 = Some \<lparr>p2_host = False\<rparr>"
    "r \<noteq> Done \<Longrightarrow> r = Panicked \<or> (\<exists>err. r = Failed (HostError err))"
  using assms by (auto simp: init_host_def has_host_def tables_def Let_def split: option.splits sum.splits)

text \<open>Before the API is set up nothing that \<open>Close\<close> would stumble over is left behind.\<close>

definition no_api :: "Application \<Rightarrow> bool" where
  "no_api a \<longleftrightarrow> has_host a \<and> app_Api a = None \<and> (app_Tunnel a \<noteq> None \<longrightarrow> app_vpnDevice a \<noteq> None)"

lemma init_vpn_result:
  assumes "init_vpn e a = (r, a1)" and "no_api a" and "app_Tunnel a = None" and "app_vpnDevice a = None"
  shows "no_api a1" "r = Done \<Longrightarrow> app_Tunnel a1 \<noteq> None \<longleftrightarrow> app_vpnDevice a1 \<noteq> None"
    "r = Done \<or> r = Panicked \<or> (\<exists>err. r = Failed (VpnError err))"
  using assms by (auto simp: init_vpn_def no_api_def has_host_def tables_def NewTunnel_tables
      split: option.splits sum.splits if_splits)

lemma init_services_result:
  assumes "init_services e a = (r, a1)" and "no_api a"
  shows "no_api a1" "app_Tunnel a1 = app_Tunnel a" "app_vpnDevice a1 = app_vpnDevice a" "app_Dns a1 \<noteq> None"
    "r = Done \<Longrightarrow> app_SOCKS5 a1 \<noteq> None" "r = Done \<or> r = Panicked \<or> r = Failed Socks5Error"
  using assms by (auto simp: init_services_def no_api_def has_host_def tables_def Let_def
      split: option.splits sum.splits)

lemma init_api_result:
  assumes "init_api e a = (r, a1)" and "no_api a"
  shows "has_host a1" "app_Tunnel a1 = app_Tunnel a" "app_vpnDevice a1 = app_vpnDevice a" "app_Dns a1 = app_Dns a"
    "app_SOCKS5 a1 = app_SOCKS5 a" "app_streams a1 = app_streams a"
    "\<exists>h. app_Api a1 = Some h \<and> (hd_echo h \<longleftrightarrow> r = Done)" "r = Done \<or> r = Failed ApiError"
  using assms by (auto simp: init_api_def SetupAPI_def NewHandler_def no_api_def has_host_def tables_def Let_def
      split: if_splits)

lemma init_dns_result:
  assumes "init_dns e a = (r, a1)" and "app_Dns a \<noteq> None"
  shows "app_Dns a1 \<noteq> None" "r = Done \<or> r = Panicked" "a1 = a \<or> (\<exists>d. a1 = a\<lparr>app_Dns := Some d\<rparr>)"
  using assms by (auto simp: init_dns_def split: option.splits if_splits)

definition stream_protocols :: "Application \<Rightarrow> string list" where
  "stream_protocols a = [GetStatusMethod, AuthMethod] @ (if app_Tunnel a \<noteq> None then [TunnelPacketMethod] else []) @
     [Socks5PacketMethod, Socks5NoAuthMethod]"

definition new_app :: "conf_state \<Rightarrow> Application" where
  "new_app cs = New\<lparr>app_Conf := Some cs\<rparr>"

lemma init_tail_result:
  assumes "init_seq [set_handlers, init_api e, init_dns e] a3 = (r, a)" and n: "no_api a3" and st: "app_streams a3 = []"
    and parts: "app_Dns a3 \<noteq> None" "app_SOCKS5 a3 \<noteq> None" "app_Tunnel a3 \<noteq> None \<longleftrightarrow> app_vpnDevice a3 \<noteq> None"
  shows "has_host a \<and> (case r of
       Done \<Rightarrow> started a \<and> app_streams a = stream_protocols a
     | Failed err \<Rightarrow> err = ApiError \<and> (\<exists>h. app_Api a = Some h \<and> \<not> hd_echo h)
     | Panicked \<Rightarrow> started a)"
proof -
  let ?a = "snd (set_handlers a3)"
  have n4: "no_api ?a" using n by (simp add: set_handlers_def no_api_def has_host_def tables_def)
  obtain r4 a4 where ap: "init_api e ?a = (r4, a4)" by fastforce
  note p' = init_api_result [OF ap n4]
  obtain r5 a5 where dn: "init_dns e a4 = (r5, a5)" by fastforce
  have "app_Dns a4 \<noteq> None" using p'(4) parts(1) by (simp add: set_handlers_def)
  note q' = init_dns_result [OF dn this]
  have fields: "app_Tunnel a4 = app_Tunnel a3" "app_vpnDevice a4 = app_vpnDevice a3" "app_SOCKS5 a4 = app_SOCKS5 a3"
    "app_streams a4 = stream_protocols a3"
    using p'(2,3,5,6) st by (simp_all add: set_handlers_def stream_protocols_def)
  have run: "(r, a) = (if r4 = Done then (r5, a5) else (r4, a4))"
    using assms(1) ap dn q'(2) p'(8) by (auto simp: set_handlers_def split: init_result.splits)
  have "started a5 \<and> has_host a5" if "r4 = Done"
    using that p'(1,7) q'(1,3) parts fields by (auto simp: started_def has_host_def tables_def)
  moreover have "app_Tunnel a5 = app_Tunnel a3" "app_streams a5 = app_streams a4" using q'(3) fields(1) by auto
  then have "app_streams a5 = stream_protocols a5" using fields(4) by (simp add: stream_protocols_def)
  ultimately show ?thesis using run p'(1,7,8) q'(2) by (auto split: if_splits)
qed

text \<open>All outcomes of \<open>Init\<close>, by the last step that ran.\<close>

lemma Init_result:
  assumes "Init e (new_app cs) = (r, a)"
  shows "tables a \<and> app_Conf a \<noteq> None \<and>
    (case r of
       Done \<Rightarrow> started a \<and> app_streams a = stream_protocols a
     | Failed (HostError _) \<Rightarrow> app_P2p a = Some \<lparr>p2_host = False\<rparr> \<and> app_Api a = None
     | Failed ApiError \<Rightarrow> has_host a \<and> (\<exists>h. app_Api a = Some h \<and> \<not> hd_echo h)
     | Failed _ \<Rightarrow> no_api a
     | Panicked \<Rightarrow> app_P2p a = Some \<lparr>p2_host = False\<rparr> \<and> app_Api a = None \<or> no_api a \<or> started a)"
proof -
  have new: "app_Conf (new_app cs) \<noteq> None" "app_Tunnel (new_app cs) = None" "app_Api (new_app cs) = None"
    "app_vpnDevice (new_app cs) = None" "app_streams (new_app cs) = []" by (simp_all add: new_app_def New_def)
  obtain r1 a1 where h: "init_host e (new_app cs) = (r1, a1)" by fastforce
  note h' = init_host_result [OF h new(1,2)]
  obtain r2 a2 where v: "init_vpn e a1 = (r2, a2)" by fastforce
  obtain r3 a3 where s: "init_services e a2 = (r3, a3)" by fastforce
  have run: "(r, a) = (if r1 \<noteq> Done then (r1, a1) else if r2 \<noteq> Done then (r2, a2) else if r3 \<noteq> Done then (r3, a3)
      else init_seq [set_handlers, init_api e, init_dns e] a3)"
    using assms h v s new(1) by (auto simp: Init_def split: init_result.splits)
  have n1: "no_api a1" "app_Tunnel a1 = None" "app_vpnDevice a1 = None" if "r1 = Done"
    using h' that new by (auto simp: no_api_def)
  note v' = init_vpn_result [OF v n1]
  have s': "no_api a3" "app_Dns a3 \<noteq> None" "app_Tunnel a3 = app_Tunnel a2" "app_vpnDevice a3 = app_vpnDevice a2"
    "r3 = Done \<Longrightarrow> app_SOCKS5 a3 \<noteq> None" "r3 = Done \<or> r3 = Panicked \<or> r3 = Failed Socks5Error" if "r1 = Done"
    using init_services_result [OF s v'(1) [OF that that that]] by auto
  have st: "app_streams a3 = []"
    using h v s new by (auto simp: init_host_def init_vpn_def init_services_def Let_def
        split: option.splits sum.splits if_splits)
  consider "r1 \<noteq> Done" | "r1 = Done" "r2 \<noteq> Done" | "r1 = Done" "r2 = Done" "r3 \<noteq> Done" | "r1 = Done" "r2 = Done" "r3 = Done"
    by blast
  then show ?thesis
  proof cases
    case 1
    then show ?thesis using run h' new by (auto simp: tables_def)
  next
    case 2
    then show ?thesis using run v' by (auto simp: no_api_def has_host_def)
  next
    case 3
    then show ?thesis using run s' by (auto simp: no_api_def has_host_def)
  next
    case 4
    then have "init_seq [set_handlers, init_api e, init_dns e] a3 = (r, a)" using run by simp
    from init_tail_result [OF this _ st] show ?thesis
      using 4 s' v' by (auto simp: has_host_def split: init_result.splits)
  qed
qed

section \<open>Running\<close>

text \<open>
  What happens to a running application: changes of the configuration, and the refreshes of the
  tunnel and of the DNS service that follow them.
\<close>

inductive app_runs :: "externals \<Rightarrow> (string \<Rightarrow> string) \<Rightarrow> Application \<Rightarrow> Application \<Rightarrow> bool" for x can where
  configure: "app_Conf a = Some cs \<Longrightarrow> conf_change cs cs' \<Longrightarrow> app_runs x can a (a\<lparr>app_Conf := Some cs'\<rparr>)"
| refresh: "app_Tunnel a = Some t \<Longrightarrow> app_vpnDevice a = Some d \<Longrightarrow>
     RefreshPeersList (x_Decode x) (x_String x) (app_c a) d t = Some (d', t') \<Longrightarrow>
     app_runs x can a (a\<lparr>app_Tunnel := Some t', app_vpnDevice := Some d'\<rparr>)"
| dns: "app_Dns a = Some s \<Longrightarrow> app_runs x can a (a\<lparr>app_Dns := Some (refreshDNSConfig can (app_c a) s)\<rparr>)"

lemma app_runs_started: "app_runs x can a a' \<Longrightarrow> started a \<Longrightarrow> started a'"
proof (induction rule: app_runs.induct)
  case (refresh a t d d' t')
  then have "table_ok t" by (simp add: started_def tables_def)
  then have "table_ok t'" using RefreshPeersList_total refresh.hyps(3) by (metis option.inject prod.inject)
  with refresh show ?case by (simp add: started_def tables_def)
qed (auto simp: started_def tables_def)

text \<open>The tray between two clicks, and the clicks; a crash ends the run.\<close>

inductive tray_step :: "tray \<Rightarrow> tray \<Rightarrow> bool" where
  run: "tr_app t = Some a \<Longrightarrow> app_runs x can a a' \<Longrightarrow> tray_step t (t\<lparr>tr_app := Some a'\<rparr>)"
| start_stop: "startStopMenu (e :: unit start_env) t = Alive t' \<Longrightarrow> tray_step t t'"
| restart: "restartMenu (e :: unit start_env) t = Alive t' \<Longrightarrow> tray_step t t'"

definition tray_init :: "tray \<Rightarrow> bool" where
  "tray_init t \<longleftrightarrow> t = \<lparr>tr_app = None, tr_started = False\<rparr>"

definition tray_inv :: "tray \<Rightarrow> bool" where
  "tray_inv t \<longleftrightarrow> (tr_started t \<longleftrightarrow> tr_app t \<noteq> None) \<and> (case tr_app t of None \<Rightarrow> True | Some a \<Rightarrow> started a)"

lemma StopServer_stops: "tray_inv t \<Longrightarrow> tray_StopServer t = \<lparr>tr_app = None, tr_started = False\<rparr>"
  by (cases "Close (the (tr_app t))") (use Close_started(2) [of "the (tr_app t)"] in
    \<open>auto simp: tray_inv_def tray_StopServer_def split: option.splits\<close>)

lemma SetupLoggerAndConfig_new:
  "SetupLoggerAndConfig d files ok New = Some a \<Longrightarrow> \<exists>cs. a = new_app cs"
  by (auto simp: SetupLoggerAndConfig_def new_app_def)

lemma InitServer_inv:
  assumes "InitServer e t = Alive (ok, t')" and "t = \<lparr>tr_app = None, tr_started = False\<rparr>"
  shows "tray_inv t' \<and> (ok \<longleftrightarrow> tr_app t' \<noteq> None)"
proof -
  have abort: "tray_abort a t = Alive (ok, t') \<Longrightarrow> \<not> ok \<and> t' = t" for a
    using assms(2) by (auto simp: tray_abort_def split: prod.splits if_splits)
  have "started a1" if "Init (se_init e) (new_app cs) = (Done, a1)" for cs a1
    using Init_result [OF that] by simp
  with assms abort show ?thesis
    by (fastforce simp: InitServer_def tray_inv_def split: option.splits prod.splits if_splits
        dest!: SetupLoggerAndConfig_new)
qed

lemma tray_step_inv: "tray_step t t' \<Longrightarrow> tray_inv t \<Longrightarrow> tray_inv t'"
proof (induction rule: tray_step.induct)
  case (run t a x can a')
  then show ?case using app_runs_started by (auto simp: tray_inv_def)
next
  case (start_stop e t t')
  show ?case
  proof (cases "tr_app t")
    case None
    then have "t = \<lparr>tr_app = None, tr_started = False\<rparr>" using start_stop.prems by (cases t) (simp add: tray_inv_def)
    with None start_stop InitServer_inv show ?thesis
      by (fastforce simp: startStopMenu_def split: alive.splits)
  next
    case (Some a)
    with start_stop StopServer_stops show ?thesis by (auto simp: startStopMenu_def tray_inv_def)
  qed
next
  case (restart e t t')
  then show ?case using InitServer_inv StopServer_stops by (fastforce simp: restartMenu_def split: alive.splits)
qed

interpretation tray_machine: inductive_invariant tray_init tray_step tray_inv
proof
  show "tray_init s \<Longrightarrow> tray_inv s" for s by (simp add: tray_init_def tray_inv_def)
  show "tray_inv s \<Longrightarrow> tray_step s t \<Longrightarrow> tray_inv t" for s t by (rule tray_step_inv)
qed

section \<open>Properties\<close>

definition host_missing :: "Application \<Rightarrow> bool" where
  "host_missing a \<longleftrightarrow> app_P2p a = Some \<lparr>p2_host = False\<rparr>"

text \<open>The outcomes after which \<open>Close\<close> dereferences something that was never created.\<close>

definition close_unsafe :: "init_result \<Rightarrow> Application \<Rightarrow> bool" where
  "close_unsafe r a \<longleftrightarrow>
     (case r of Done \<Rightarrow> False
      | Failed err \<Rightarrow> (case err of HostError _ \<Rightarrow> True | ApiError \<Rightarrow> True | _ \<Rightarrow> False)
      | Panicked \<Rightarrow> host_missing a)"

lemma Close_after_Init:
  assumes "Init e (new_app cs) = (r, a)"
  shows "fst (snd (Close a)) \<longleftrightarrow> close_unsafe r a"
proof -
  note i = Init_result [OF assms]
  then have "tables a" "app_Conf a \<noteq> None" by blast+
  with i show ?thesis
    by (auto simp: Close_panics_iff close_unsafe_def host_missing_def started_def no_api_def has_host_def
        split: init_result.splits init_error.splits option.splits)
qed

text \<open>A panic of \<open>Close\<close> leaves an application on which \<open>Close\<close> panics again.\<close>

definition same_parts :: "Application \<Rightarrow> Application \<Rightarrow> bool" where
  "same_parts a b \<longleftrightarrow> app_Api b = app_Api a \<and> app_P2p b = app_P2p a \<and> (app_Conf b = None \<longleftrightarrow> app_Conf a = None)"

lemma close_seq_same:
  "list_all (\<lambda>s. \<forall>a. same_parts a (snd (snd (s a)))) ss \<Longrightarrow> same_parts a (snd (snd (close_seq ss a)))"
proof (induction ss arbitrary: a)
  case (Cons s ss)
  obtain acts p a1 where s: "s a = (acts, p, a1)" by (cases "s a")
  have "same_parts a (snd (snd (s a)))" using Cons.prems by simp
  with s have "same_parts a a1" by simp
  moreover have "same_parts a1 (snd (snd (close_seq ss a1)))" using Cons by simp
  ultimately show ?case using s by (auto simp: same_parts_def split: prod.split)
qed (simp add: same_parts_def)

lemma Close_same: "same_parts a (snd (snd (Close a)))"
  unfolding Close_def
  by (rule close_seq_same) (simp add: same_parts_def close_parts Let_def split: option.split)

lemma close_seq_panics: "s \<in> set ss \<Longrightarrow> (\<And>b. same_parts a b \<Longrightarrow> fst (snd (s b))) \<Longrightarrow>
    list_all (\<lambda>s. \<forall>a. same_parts a (snd (snd (s a)))) ss \<Longrightarrow> fst (snd (close_seq ss a))"
proof (induction ss arbitrary: a)
  case (Cons r ss)
  obtain acts p a1 where r: "r a = (acts, p, a1)" by (cases "r a")
  have "same_parts a (snd (snd (r a)))" using Cons.prems(3) by simp
  with r have "same_parts a a1" by simp
  then have same: "same_parts a b" if "same_parts a1 b" for b using that by (auto simp: same_parts_def)
  show ?case
  proof (cases "s = r")
    case True
    have "fst (snd (s a))" by (rule Cons.prems(2)) (simp add: same_parts_def)
    with True r show ?thesis by simp
  next
    case False
    with Cons.prems have "fst (snd (close_seq ss a1))" by (intro Cons.IH) (auto intro: same)
    with r show ?thesis by (auto split: prod.split)
  qed
qed simp

lemma Close_again:
  assumes "Close a = (acts, True, a1)" and "tables a"
  shows "fst (snd (Close a1))"
proof -
  have same: "same_parts a a1" using Close_same [of a] assms(1) by simp
  have parts: "list_all (\<lambda>s. \<forall>a. same_parts a (snd (snd (s a)))) [save_conf, cancel_ctx, shutdown_api, close_tunnel,
      close_socks5, close_p2p, close_dns, close_device, save_conf]"
    by (simp add: same_parts_def close_parts Let_def split: option.split)
  consider "app_Conf a = None" | h where "app_Api a = Some h" "\<not> hd_echo h" | p where "app_P2p a = Some p" "\<not> p2_host p"
    using Close_panics_iff [OF assms(2)] assms(1) by auto
  then show ?thesis
  proof cases
    case 1
    then show ?thesis unfolding Close_def
      by (intro close_seq_panics [OF _ _ parts, of save_conf]) (use same in \<open>auto simp: same_parts_def save_conf_def\<close>)
  next
    case 2
    then show ?thesis unfolding Close_def
      by (intro close_seq_panics [OF _ _ parts, of shutdown_api]) (use same in \<open>auto simp: same_parts_def shutdown_api_def Let_def\<close>)
  next
    case 3
    then show ?thesis unfolding Close_def
      by (intro close_seq_panics [OF _ _ parts, of close_p2p]) (use same in \<open>auto simp: same_parts_def close_p2p_def\<close>)
  qed
qed

text \<open>
  C16. After \<open>Init\<close>, \<open>Close\<close> behaves as follows. When \<open>Init\<close> succeeded, every protocol has its
  stream handler, and \<open>Close\<close> saves the configuration, stops what was started in a fixed order
  (API before tunnel before host before device) and saves again. When \<open>Init\<close> failed, \<open>Close\<close>
  panics exactly if the libp2p host could not be created or the API could not listen; after the
  other errors it returns.
\<close>

theorem init_then_close:
  assumes "Init e (new_app cs) = (r, a)"
  shows "(fst (snd (Close a)) \<longleftrightarrow> close_unsafe r a) \<and>
     (r = Done \<longrightarrow> app_streams a = stream_protocols a \<and> fst (Close a) = close_order a)"
  using Close_after_Init [OF assms] Init_result [OF assms] Close_started(1) by auto

definition sample_init :: "(string \<Rightarrow> bool) \<Rightarrow> unit init_env" where
  "sample_init canListen =
     \<lparr>ie_x = sample_ext, ie_base58 = (\<lambda>_. None), ie_parse = Some, ie_infos = (\<lambda>_. Some [''boot'']), ie_storesOk = True,
      ie_userAgent = UserAgent ''linux'' ''amd64'' ''dev'',
      ie_host = \<lparr>he_generate = Some (), he_unmarshal = (\<lambda>_. None), he_connMgrOk = (\<lambda>_ _ _. True),
        he_tcpFree = True, he_udpFree = True, he_new = (\<lambda>_ _ _. True)\<rparr>,
      ie_identity = (\<lambda>_. ''k''), ie_peerID = (\<lambda>_. ''me''), ie_existingTun = False, ie_newTunOk = True,
      ie_mtu = Some 1500, ie_canListen = canListen, ie_ifName = True, ie_canonical = sample_canonical,
      ie_dnsOS = sample_dns_os\<rparr>"

definition sample_state :: conf_state where
  "sample_state = \<lparr>cs_conf = zero_Config\<lparr>c_VPNConfig := \<lparr>vc_DisableVPNInterface = True, vc_InterfaceName = [], vc_IPNet = []\<rparr>\<rparr>,
     cs_disk = None, cs_diskOK = True, cs_events = []\<rparr>"

definition sample_start :: "(string \<Rightarrow> bool) \<Rightarrow> unit start_env" where
  "sample_start canListen = \<lparr>se_def = sample_def_env, se_files = (\<lambda>_. Some (Inr (cs_conf sample_state))), se_diskOK = True, se_init = sample_init canListen\<rparr>"

text \<open>Starting the sample environment, by computation on the symbolic configuration.\<close>

lemma NewServer_ok: "NewServer \<noteq> None"
  by code_simp

lemma sample_init_result:
  assumes "vc_DisableVPNInterface (c_VPNConfig (cs_conf cs))" and "canListen (sc_ListenAddress (c_SOCKS5 (cs_conf cs)))"
  shows "fst (Init (sample_init canListen) (new_app cs)) =
     (if canListen (c_HttpListenAddress (cs_conf cs)) then Done else Failed ApiError)"
proof -
  obtain sv where sv: "NewServer = Some sv" using NewServer_ok by auto
  have "GetBootstrapPeers Some (\<lambda>_. Some [''boot'']) c = Some [''boot'']" for c
    by (simp add: GetBootstrapPeers_def Let_def)
  moreover have "PrivKey (\<lambda>_. None) c = None" for c by (simp add: PrivKey_def)
  ultimately have h: "init_host (sample_init canListen) (new_app cs) =
      (Done, (new_app (SetIdentity ''k'' ''me'' cs))\<lparr>app_ctxCancel := True, app_P2p := Some \<lparr>p2_host = True\<rparr>\<rparr>)"
    by (simp add: init_host_def sample_init_def makeP2pHostConfig_def InitHost_def new_app_def New_def Let_def)
  have same: "c_VPNConfig (cs_conf (SetIdentity i j cs)) = c_VPNConfig (cs_conf cs)"
    "c_SOCKS5 (cs_conf (SetIdentity i j cs)) = c_SOCKS5 (cs_conf cs)"
    "c_HttpListenAddress (cs_conf (SetIdentity i j cs)) = c_HttpListenAddress (cs_conf cs)" for i j
    by (simp_all add: SetIdentity_def c_save_def)
  have new: "app_Conf (new_app c) = Some c" for c by (simp add: new_app_def)
  have listen: "ie_canListen (sample_init canListen) = canListen" by (simp add: sample_init_def)
  obtain cl where socks: "NewSOCKS5 canListen (cs_conf (SetIdentity ''k'' ''me'' cs)) = Some (Inr (cl, sv))"
    using assms(2) sv by (cases "sc_ListenerEnabled (c_SOCKS5 (cs_conf cs))") (simp_all add: NewSOCKS5_def same Let_def)
  show ?thesis
    using assms
    by (simp add: Init_def h new listen socks init_vpn_def init_services_def set_handlers_def init_api_def
        init_dns_def SetupAPI_def same Let_def)
qed

lemma sample_setup:
  "\<exists>cs. SetupLoggerAndConfig (se_def (sample_start f)) (se_files (sample_start f)) (se_diskOK (sample_start f)) New = Some (new_app cs) \<and>
     vc_DisableVPNInterface (c_VPNConfig (cs_conf cs)) \<and> sc_ListenAddress (c_SOCKS5 (cs_conf cs)) = defaultSOCKS5ListenAddress \<and>
     c_HttpListenAddress (cs_conf cs) = ''127.0.0.1:8639''"
proof -
  let ?dir = "CalcAppDataDir (de_os sample_def_env)"
  let ?c = "(cs_conf sample_state)\<lparr>c_dataDir := ?dir\<rparr>"
  have port: "itoa DefaultHTTPPort = ''8639''" by code_simp
  have "gm_wf (c_KnownPeers ?c)" by (simp add: sample_state_def zero_Config_def gm_wf_def)
  from setDefaults_result [OF this, of sample_def_env] obtain m where
    m: "setDefaults sample_def_env ?c = Some (defaulted sample_def_env ?c m)" by blast
  have "vc_DisableVPNInterface (c_VPNConfig (defaulted sample_def_env ?c m))"
    "sc_ListenAddress (c_SOCKS5 (defaulted sample_def_env ?c m)) = defaultSOCKS5ListenAddress"
    "c_HttpListenAddress (defaulted sample_def_env ?c m) = ''127.0.0.1:8639''"
    by (simp_all add: defaulted_def default_tail_def default_head_def default_vpn_def default_socks5_def
        sample_state_def zero_Config_def zero_SOCKS5Config_def port Let_def)
  with m show ?thesis
    by (intro exI [of _ "\<lparr>cs_conf = defaulted sample_def_env ?c m, cs_disk = disk_config sample_def_env
          (\<lambda>_. Some (Inr (cs_conf sample_state))), cs_diskOK = True, cs_events = []\<rparr>"])
      (simp add: SetupLoggerAndConfig_def setup_config_def LoadConfig_def sample_start_def new_app_def Let_def)
qed

theorem init_then_close_witness:
  "\<exists>a. Init (sample_init (\<lambda>_. True)) (new_app sample_state) = (Done, a) \<and> \<not> fst (snd (Close a)) \<and>
     fst (Close a) = close_order a"
proof -
  have "fst (Init (sample_init (\<lambda>_. True)) (new_app sample_state)) = Done"
    using sample_init_result [of sample_state "\<lambda>_. True"] by (simp add: sample_state_def)
  then obtain a where a: "Init (sample_init (\<lambda>_. True)) (new_app sample_state) = (Done, a)" by (metis prod.collapse)
  from init_then_close [OF this] a show ?thesis by (auto simp: close_unsafe_def)
qed

text \<open>
  In every state the tray can reach by clicks and by the work of the running application, the
  menus show a started server exactly when there is one, and stopping the server never panics:
  it leaves no application and the menus of a stopped server.
\<close>

theorem tray_consistent:
  assumes "reachable tray_init tray_step t"
  shows "(tr_started t \<longleftrightarrow> tr_app t \<noteq> None) \<and> tray_StopServer t = \<lparr>tr_app = None, tr_started = False\<rparr>"
  using tray_machine.inv_reachable [OF assms] StopServer_stops by (auto simp: tray_inv_def)

theorem tray_consistent_witness:
  "\<exists>t. startStopMenu (sample_start (\<lambda>_. True)) \<lparr>tr_app = None, tr_started = False\<rparr> = Alive t \<and> tr_started t \<and>
     tray_StopServer t = \<lparr>tr_app = None, tr_started = False\<rparr>"
proof -
  let ?e = "sample_start (\<lambda>_. True)" and ?t0 = "\<lparr>tr_app = None, tr_started = False\<rparr>"
  obtain cs where cs: "SetupLoggerAndConfig (se_def ?e) (se_files ?e) (se_diskOK ?e) New = Some (new_app cs)"
    "vc_DisableVPNInterface (c_VPNConfig (cs_conf cs))" using sample_setup by blast
  have "fst (Init (se_init ?e) (new_app cs)) = Done"
    using sample_init_result [OF cs(2), of "\<lambda>_. True"] by (simp add: sample_start_def)
  then obtain a where "Init (se_init ?e) (new_app cs) = (Done, a)" by (metis prod.collapse)
  then have t: "startStopMenu ?e ?t0 = Alive \<lparr>tr_app = Some a, tr_started = True\<rparr>"
    using cs(1) by (simp add: startStopMenu_def InitServer_def)
  have "reachable tray_init tray_step ?t0" by (rule reachable.reach_init) (simp add: tray_init_def)
  from reachable.reach_step [OF this start_stop [OF t]]
  have "reachable tray_init tray_step \<lparr>tr_app = Some a, tr_started = True\<rparr>" .
  from tray_consistent [OF this] t show ?thesis by simp
qed

text \<open>
  C40. When the host cannot be created or the API address is in use, \<open>InitServer\<close> of the tray does
  not return an error for the dialog: \<open>Close\<close> panics in its deferred function and the process
  dies. In the mobile library the same start returns an error but leaves the half-made application
  in place, so that both \<open>StopServer\<close> and \<open>ImportConfig\<close> panic afterwards.
\<close>

theorem failed_start_is_fatal:
  assumes "SetupLoggerAndConfig (se_def e) (se_files e) (se_diskOK e) New = Some a"
    and "Init (se_init e) a = (Failed err, a1)" and "close_unsafe (Failed err) a1"
  shows "InitServer e t = Crashed \<and>
     (\<exists>m'. StartServer e m = (False, m') \<and> mobile_StopServer m' = Crashed \<and>
        mobile_ImportConfig canWrite data m' files = Crashed)"
proof -
  obtain cs where a: "a = new_app cs" using SetupLoggerAndConfig_new [OF assms(1)] by blast
  obtain acts p a2 where c: "Close a1 = (acts, p, a2)" by (cases "Close a1")
  then have p: "p" using Close_after_Init assms(2,3) a by fastforce
  then have crash: "InitServer e t = Crashed"
    using assms(1,2) c by (simp add: InitServer_def tray_abort_def)
  let ?m = "m\<lparr>mb_app := Some a2\<rparr>"
  have start: "StartServer e m = (False, ?m)" using assms(1,2) c p by (simp add: StartServer_def)
  have "fst (snd (Close a2))" using Close_again [of a1 acts a2] c p Init_result [of "se_init e" cs] assms(2) a by simp
  then have "mobile_StopServer ?m = Crashed" by (cases "Close a2") (simp add: mobile_StopServer_def)
  with crash start show ?thesis by (auto simp: mobile_ImportConfig_def)
qed


theorem failed_start_is_fatal_witness:
  "InitServer (sample_start (\<lambda>s. s \<noteq> ''127.0.0.1:8639'')) \<lparr>tr_app = None, tr_started = False\<rparr> = Crashed"
proof -
  let ?f = "\<lambda>s. s \<noteq> ''127.0.0.1:8639''"
  let ?e = "sample_start ?f"
  obtain cs where cs: "SetupLoggerAndConfig (se_def ?e) (se_files ?e) (se_diskOK ?e) New = Some (new_app cs)"
    "vc_DisableVPNInterface (c_VPNConfig (cs_conf cs))" "sc_ListenAddress (c_SOCKS5 (cs_conf cs)) = defaultSOCKS5ListenAddress"
    "c_HttpListenAddress (cs_conf cs) = ''127.0.0.1:8639''" using sample_setup by blast
  have "fst (Init (se_init ?e) (new_app cs)) = Failed ApiError"
    using sample_init_result [OF cs(2), of ?f] cs(3,4) by (simp add: sample_start_def defaultSOCKS5ListenAddress_def)
  then obtain a1 where "Init (se_init ?e) (new_app cs) = (Failed ApiError, a1)" by (metis prod.collapse)
  from failed_start_is_fatal [OF cs(1) this] show ?thesis by (simp add: close_unsafe_def)
qed

end
