(* ===== verification/Awl_Embeds.thy ===== *)
theory Awl_Embeds
  imports Wire_Protocol
begin

text \<open>
  The comparison of an embedded file with the one on disk, \<open>src/embeds/compare.go\<close>. Both sides
  are streams; reading ahead in chunks gives the same bytes as reading them directly.
\<close>

definition chunkSize :: nat where
  "chunkSize = 4096"

text \<open>
  \<open>io.ReadFull\<close> into a buffer of the chunk size: the bytes it got and its error. Here the
  bytes count also when there is an error.
\<close>

definition read_chunk :: "stream \<Rightarrow> byte list \<times> rerr option \<times> stream" where
  "read_chunk s =
     (let n = length (st_bytes s); s' = s\<lparr>st_bytes := drop chunkSize (st_bytes s)\<rparr>
      in if chunkSize \<le> n then (take chunkSize (st_bytes s), None, s')
         else (st_bytes s, Some (if 0 < n \<and> st_end s = EOF then UnexpectedEOF else st_end s), s'))"

datatype compare_result = Equal bool | CompareError

text \<open>The loop has no bound of its own: \<open>None\<close> means that it does not return.\<close>

partial_function (option) streamsEqual :: "stream \<Rightarrow> stream \<Rightarrow> compare_result option" where
  "streamsEqual s1 s2 =
     (case (read_chunk s1, read_chunk s2) of
        ((buf1, err1, s1'), (buf2, err2, s2')) \<Rightarrow>
          if err1 \<notin> {None, Some UnexpectedEOF} \<or> err2 \<notin> {None, Some UnexpectedEOF}
          then (if err1 \<in> {Some EOF, None} \<and> err2 \<in> {Some EOF, None}
                then Some (Equal (err1 = Some EOF \<and> err2 = Some EOF)) else Some CompareError)
          else if buf1 \<noteq> buf2 then Some (Equal False)
          else streamsEqual s1' s2')"

declare streamsEqual.simps [code]

datatype stat_result = StatSize nat | NotExist | StatFailed

text \<open>
  The file's size, and its content if it can be opened; the result of a comparison with an
  error is false. \<open>None\<close> is the nil pointer dereference after a failed \<open>Stat\<close> (or no result).
\<close>

definition checkIsFileEqual :: "stat_result \<Rightarrow> stream option \<Rightarrow> byte list \<Rightarrow> bool option" where
  "checkIsFileEqual stat file data =
     (case stat of
        NotExist \<Rightarrow> Some False
      | StatFailed \<Rightarrow> None
      | StatSize n \<Rightarrow>
          if n \<noteq> length data then Some False
          else case file of
            None \<Rightarrow> Some False
          | Some f \<Rightarrow>
              map_option (\<lambda>r. r = Equal True) (streamsEqual \<lparr>st_bytes = data, st_end = EOF\<rparr> f))"

section \<open>The comparison\<close>

lemma read_chunk_EOF:
  assumes "st_end s = EOF"
  shows "read_chunk s =
     (take chunkSize (st_bytes s),
      (if chunkSize \<le> length (st_bytes s) then None else if st_bytes s = [] then Some EOF else Some UnexpectedEOF),
      s\<lparr>st_bytes := drop chunkSize (st_bytes s)\<rparr>)"
  using assms by (auto simp: read_chunk_def Let_def)

lemma take_drop_eq_iff: "xs = ys \<longleftrightarrow> take n xs = take n ys \<and> drop n xs = drop n ys"
  by (metis append_take_drop_id)

lemma streamsEqual_EOF:
  assumes "st_end s1 = EOF" and "st_end s2 = EOF"
  shows "\<exists>r. streamsEqual s1 s2 = Some r \<and> (r = Equal True \<longleftrightarrow> st_bytes s1 = st_bytes s2)"
  using assms
proof (induction "length (st_bytes s1)" arbitrary: s1 s2 rule: less_induct)
  case less
  let ?b1 = "st_bytes s1" and ?b2 = "st_bytes s2"
  note chunks = read_chunk_EOF [OF less.prems(1)] read_chunk_EOF [OF less.prems(2)]
  have pos: "0 < chunkSize" by (simp add: chunkSize_def)
  show ?case
  proof (cases "?b1 = [] \<or> ?b2 = []")
    case True
    then show ?thesis using pos by (subst streamsEqual.simps) (auto simp: chunks)
  next
    case False
    let ?s1 = "s1\<lparr>st_bytes := drop chunkSize ?b1\<rparr>" and ?s2 = "s2\<lparr>st_bytes := drop chunkSize ?b2\<rparr>"
    have step: "streamsEqual s1 s2 = (if take chunkSize ?b1 \<noteq> take chunkSize ?b2 then Some (Equal False) else streamsEqual ?s1 ?s2)"
      using False by (subst streamsEqual.simps) (simp add: chunks)
    have "length (st_bytes ?s1) < length ?b1" using False pos by simp
    from less.hyps [OF this, of ?s2] less.prems obtain r where r: "streamsEqual ?s1 ?s2 = Some r"
      "r = Equal True \<longleftrightarrow> drop chunkSize ?b1 = drop chunkSize ?b2" by auto
    show ?thesis using step r take_drop_eq_iff [of ?b1 ?b2 chunkSize] by auto
  qed
qed

section \<open>Properties\<close>

text \<open>
  The comparison of two streams that end with EOF returns, and says equal exactly when they
  carry the same bytes, wherever the chunk boundaries fall; so an existing, readable file of
  the right size is found equal exactly when it holds the data.
\<close>

theorem streams_equal_iff:
  assumes "st_end s1 = EOF" and "st_end s2 = EOF"
  shows "(\<exists>r. streamsEqual s1 s2 = Some r \<and> (r = Equal True \<longleftrightarrow> st_bytes s1 = st_bytes s2)) \<and>
     checkIsFileEqual (StatSize (length (st_bytes s2))) (Some s2) data = Some (st_bytes s2 = data)"
proof
  show "\<exists>r. streamsEqual s1 s2 = Some r \<and> (r = Equal True \<longleftrightarrow> st_bytes s1 = st_bytes s2)"
    by (rule streamsEqual_EOF [OF assms])
  obtain r where "streamsEqual \<lparr>st_bytes = data, st_end = EOF\<rparr> s2 = Some r" "r = Equal True \<longleftrightarrow> data = st_bytes s2"
    using streamsEqual_EOF [of "\<lparr>st_bytes = data, st_end = EOF\<rparr>" s2] assms(2) by auto
  then show "checkIsFileEqual (StatSize (length (st_bytes s2))) (Some s2) data = Some (st_bytes s2 = data)"
    by (auto simp: checkIsFileEqual_def)
qed

theorem streams_equal_iff_witness:
  "checkIsFileEqual (StatSize 3) (Some \<lparr>st_bytes = [1, 2, 3], st_end = EOF\<rparr>) [1, 2, 4] = Some False"
  using streams_equal_iff [of "\<lparr>st_bytes = [1, 2, 3], st_end = EOF\<rparr>" "\<lparr>st_bytes = [1, 2, 3], st_end = EOF\<rparr>" "[1, 2, 4]"]
  by (simp add: numeral_3_eq_3)

text \<open>A \<open>Stat\<close> that fails for another reason than a missing file panics.\<close>

lemma stat_failure_panics: "checkIsFileEqual StatFailed file data = None"
  by (simp add: checkIsFileEqual_def)

end
