(* ===== verification/Awl_Debug.thy ===== *)
theory Awl_Debug
  imports Ring_Buffer Go_Strings
begin

text \<open>
  The log endpoint of \<open>src/api/debug.go\<close>, on the bytes the log buffer returns.
\<close>

section \<open>Bytes\<close>

text \<open>
  What the handler uses of the package \<open>bytes\<close>: dropping bytes that are no UTF-8, trimming,
  splitting and joining with the one-byte separator \<open>nl\<close>.
\<close>

definition nl :: char where
  "nl = char_of (10 :: nat)"

definition ToValidUTF8 :: "string \<Rightarrow> string" where
  "ToValidUTF8 b = concat (map snd (filter (\<lambda>(r, s). \<not> (r = RuneError \<and> length s = 1)) (runes b)))"

definition Trim_nl :: "string \<Rightarrow> string" where
  "Trim_nl b = rev (dropWhile (\<lambda>c. c = nl) (rev (dropWhile (\<lambda>c. c = nl) b)))"

fun Split_nl :: "string \<Rightarrow> string list" where
  "Split_nl [] = [[]]"
| "Split_nl (c # s) = (if c = nl then [] # Split_nl s else (c # hd (Split_nl s)) # tl (Split_nl s))"

fun Join_nl :: "string list \<Rightarrow> string" where
  "Join_nl [] = []"
| "Join_nl [l] = l"
| "Join_nl (l # ls) = l @ nl # Join_nl ls"

section \<open>The handler\<close>

text \<open>\<open>ToValidUTF8\<close> is the identity on valid text, so the test before it is not needed.\<close>

lemma ToValidUTF8_valid: "list_all (\<lambda>(r, s). \<not> (r = RuneError \<and> length s = 1)) (runes b) \<Longrightarrow> ToValidUTF8 b = b"
  by (simp add: ToValidUTF8_def list_all_iff filter_True)

record LogRequest =
  lr_StartFromHead :: bool
  lr_LogsRows :: int

definition log_text :: "string \<Rightarrow> string" where
  "log_text b = Trim_nl (ToValidUTF8 b)"

text \<open>\<open>None\<close> is the answer 400 for a request that does not validate.\<close>

definition GetLog :: "LogRequest \<Rightarrow> string \<Rightarrow> string option" where
  "GetLog req buffer =
     (if lr_LogsRows req < 0 then None
      else let b = log_text buffer; logLines = Split_nl b; rows = nat (lr_LogsRows req)
        in Some (if rows = 0 \<or> length logLines \<le> rows then b
                 else if lr_StartFromHead req then Join_nl (take rows logLines)
                 else Join_nl (drop (length logLines - rows) logLines)))"

section \<open>Lines\<close>

lemma Split_nl_not_Nil [simp]: "Split_nl s \<noteq> []"
  by (induction s) simp_all

lemma Join_nl_Cons: "ls \<noteq> [] \<Longrightarrow> Join_nl (l # ls) = l @ nl # Join_nl ls"
  by (cases ls) simp_all

lemma Join_Split [simp]: "Join_nl (Split_nl s) = s"
proof (induction s)
  case (Cons c s)
  obtain l ls where l: "Split_nl s = l # ls" by (cases "Split_nl s") auto
  have "Join_nl ((c # l) # ls) = c # Join_nl (l # ls)" by (cases ls) simp_all
  with Cons l show ?case by (auto simp: Join_nl_Cons)
qed simp

lemma Split_Join:
  "ls \<noteq> [] \<Longrightarrow> (\<And>l. l \<in> set ls \<Longrightarrow> nl \<notin> set l) \<Longrightarrow> Split_nl (Join_nl ls) = ls"
proof (induction ls)
  case (Cons l ls)
  have line: "nl \<notin> set l \<Longrightarrow> Split_nl l = [l]" for l by (induction l) auto
  have app: "nl \<notin> set l \<Longrightarrow> Split_nl (l @ nl # s) = l # Split_nl s" for l s by (induction l) auto
  show ?case
  proof (cases "ls = []")
    case True
    with Cons.prems line show ?thesis by simp
  next
    case False
    with Cons app show ?thesis by (simp add: Join_nl_Cons)
  qed
qed simp

lemma Split_lines: "l \<in> set (Split_nl s) \<Longrightarrow> nl \<notin> set l"
proof (induction s arbitrary: l)
  case (Cons c s)
  obtain k ls where "Split_nl s = k # ls" by (cases "Split_nl s") auto
  with Cons show ?case by (auto split: if_splits)
qed simp

lemma Join_append: "ls \<noteq> [] \<Longrightarrow> ms \<noteq> [] \<Longrightarrow> Join_nl (ls @ ms) = Join_nl ls @ nl # Join_nl ms"
proof (induction ls)
  case (Cons l ls)
  then show ?case by (cases ls) (simp_all add: Join_nl_Cons)
qed simp

section \<open>Properties\<close>

text \<open>
  A request for \<open>n\<close> rows gets whole lines of the log: all of the text when it has at most
  \<open>n\<close> lines, otherwise exactly its first or its last \<open>n\<close> lines, cut off at a line end.
\<close>

theorem log_rows:
  assumes "0 < lr_LogsRows req"
  shows "\<exists>t. GetLog req b = Some t \<and>
     (if int (length (Split_nl (log_text b))) \<le> lr_LogsRows req then t = log_text b
      else int (length (Split_nl t)) = lr_LogsRows req \<and>
        (\<exists>rest. log_text b = (if lr_StartFromHead req then t @ nl # rest else rest @ nl # t)))"
proof -
  let ?ls = "Split_nl (log_text b)" and ?n = "nat (lr_LogsRows req)"
  let ?k = "if lr_StartFromHead req then ?n else length ?ls - ?n"
  have n: "0 < ?n" "int ?n = lr_LogsRows req" using assms by simp_all
  show ?thesis
  proof (cases "length ?ls \<le> ?n")
    case True
    then show ?thesis using n by (simp add: GetLog_def Let_def)
  next
    case False
    let ?t = "Join_nl (if lr_StartFromHead req then take ?k ?ls else drop ?k ?ls)"
    have parts: "take ?k ?ls \<noteq> []" "drop ?k ?ls \<noteq> []" using False n(1) by auto
    have lines: "nl \<notin> set l" if "l \<in> set (take ?k ?ls) \<or> l \<in> set (drop ?k ?ls)" for l
      using that Split_lines by (meson in_set_dropD in_set_takeD)
    have get: "GetLog req b = Some ?t"
      using False n by (simp add: GetLog_def Let_def)
    have whole: "log_text b = Join_nl (take ?k ?ls) @ nl # Join_nl (drop ?k ?ls)"
      using Join_append [OF parts] Join_Split [of "log_text b"] by simp
    have "Split_nl ?t = (if lr_StartFromHead req then take ?k ?ls else drop ?k ?ls)"
      using parts lines by (cases "lr_StartFromHead req") (auto intro!: Split_Join)
    then have "length (Split_nl ?t) = ?n" using False by simp
    with False n get whole show ?thesis by (auto split: if_splits)
  qed
qed

theorem log_rows_witness:
  "GetLog \<lparr>lr_StartFromHead = False, lr_LogsRows = 1\<rparr> (''one'' @ [nl] @ ''two'' @ [nl]) = Some ''two'' \<and>
   (\<exists>t. GetLog \<lparr>lr_StartFromHead = False, lr_LogsRows = 1\<rparr> (''one'' @ [nl] @ ''two'' @ [nl]) = Some t \<and>
     length (Split_nl t) = 1)"
proof -
  let ?b = "''one'' @ [nl] @ ''two'' @ [nl]"
  have "Split_nl (log_text ?b) = [''one'', ''two'']" by code_simp
  moreover have "GetLog \<lparr>lr_StartFromHead = False, lr_LogsRows = 1\<rparr> ?b = Some ''two''" by code_simp
  ultimately show ?thesis using log_rows [of "\<lparr>lr_StartFromHead = False, lr_LogsRows = 1\<rparr>" ?b] by auto
qed

end
