(* ===== verification/Awl_Update.thy ===== *)
theory Awl_Update
  imports Config_Defaults
begin

text \<open>
  The update service of \<open>src/update/update.go\<close>: the channels it follows, the version it compares
  with and how the outcome of a check is reported. Searching and installing are the updater
  library's.
\<close>

section \<open>Configuration of the updater\<close>

datatype ApplicationType = AppTypeAwl | AppTypeAwlTray | AppTypeOther int

text \<open>A channel with its flag for being used; the release channel has the empty name.\<close>

type_synonym channel = "string \<times> bool"

definition updChannels :: "string list" where
  "updChannels = [''rc'']"

text \<open>The loop over the known channels, with \<open>lowestInChan\<close>.\<close>

fun add_channels :: "string \<Rightarrow> string list \<Rightarrow> bool \<Rightarrow> channel list \<Rightarrow> channel list \<times> bool" where
  "add_channels lowest [] lowestInChan channels = (channels, lowestInChan)"
| "add_channels lowest (ch # chs) lowestInChan channels =
     add_channels lowest chs (if ch = lowest then True else lowestInChan) (channels @ [(ch, \<not> lowestInChan)])"

definition update_channels :: "string \<Rightarrow> channel list" where
  "update_channels lowest =
     (let (channels, lowestInChan) = add_channels lowest updChannels (lowest = []) [([], True)]
      in if \<not> lowestInChan then channels @ [(lowest, True)] else channels)"

text \<open>
  \<open>strings.Split\<close> at dashes; the version without a suffix that starts with a digit. Digits
  outside ASCII are the argument \<open>udigit\<close>.
\<close>

fun split_dash :: "string \<Rightarrow> string list" where
  "split_dash [] = [[]]"
| "split_dash (c # s) = (if c = CHR ''-'' then [] # split_dash s else (c # hd (split_dash s)) # tl (split_dash s))"

definition IsDigit :: "(nat \<Rightarrow> bool) \<Rightarrow> nat \<Rightarrow> bool" where
  "IsDigit udigit r = (if r < 0x80 then 48 \<le> r \<and> r \<le> 57 else udigit r)"

definition update_version :: "(nat \<Rightarrow> bool) \<Rightarrow> string \<Rightarrow> string" where
  "update_version udigit version =
     (let splitVer = split_dash version
      in if 1 < length splitVer \<and> (splitVer ! 1 = [] \<or> IsDigit udigit (fst (hd (runes (splitVer ! 1)))))
         then splitVer ! 0 else version)"

datatype update_error = DevVersionUnsupported | UnknownApplicationType | BadApplicationConfig

text \<open>\<open>appConf\<close> is the library's constructor: version, channels and which program's files are meant.\<close>

definition NewUpdateService ::
    "(nat \<Rightarrow> bool) \<Rightarrow> (string \<Rightarrow> channel list \<Rightarrow> ApplicationType \<Rightarrow> 'a option) \<Rightarrow> string \<Rightarrow> Config \<Rightarrow> ApplicationType \<Rightarrow>
     update_error + 'a" where
  "NewUpdateService udigit appConf version c appType =
     (if IsDevVersion version then Inl DevVersionUnsupported
      else if appType \<noteq> AppTypeAwl \<and> appType \<noteq> AppTypeAwlTray then Inl UnknownApplicationType
      else case appConf (update_version udigit version) (update_channels (uc_LowestPriorityChan (c_Update c))) appType of
        None \<Rightarrow> Inl BadApplicationConfig
      | Some a \<Rightarrow> Inr a)"

section \<open>Checking\<close>

datatype check_status = CheckSuccess | CheckHasErrors | CheckFailure

definition CheckForUpdates :: "'v option \<Rightarrow> check_status \<Rightarrow> (bool \<times> bool)" where
  \<comment> \<open>the new version found and the status of the sources; the result and whether there is an error\<close>
  "CheckForUpdates newVersion st =
     (if st = CheckSuccess then (newVersion \<noteq> None, False)
      else if st = CheckFailure then (False, True)
      else (newVersion \<noteq> None, False))"

section \<open>Facts\<close>

text \<open>
  The channels in order of priority: release first, then the known ones, which are used down to
  the configured lowest one; an unknown one is appended.
\<close>

lemma update_channels_cases:
  "update_channels [] = [([], True), (''rc'', False)]"
  "update_channels ''rc'' = [([], True), (''rc'', True)]"
  "lowest \<notin> {[], ''rc''} \<Longrightarrow> update_channels lowest = [([], True), (''rc'', True), (lowest, True)]"
  by (auto simp: update_channels_def updChannels_def)

lemma split_dash_not_Nil [simp]: "split_dash s \<noteq> []"
  by (induction s) simp_all

lemma update_version_prefix: "\<exists>rest. version = update_version udigit version @ rest"
proof -
  have "\<exists>rest. s = hd (split_dash s) @ rest" for s by (induction s) auto
  then show ?thesis by (simp add: update_version_def Let_def hd_conv_nth [symmetric])
qed

end
