(* ===== verification/Go_Duration.thy ===== *)
theory Go_Duration
  imports Go_Strings
begin

text \<open>
  Durations as texts: Go's \<open>time.ParseDuration\<close> and \<open>time.Duration.String\<close>. The floating-point
  value of a fraction is an argument. A duration is an \<open>int64\<close> of nanoseconds. The program reads
  the interval of the update check from its configuration, and sends measured latencies as such texts
  (\<open>Duration\<close> of \<open>src/p2p/metrics.go\<close>).
\<close>

section \<open>Reading\<close>

text \<open>Leading digits as a 64-bit number; \<open>None\<close> when they exceed \<open>2 ^ 63\<close>.\<close>

definition leadingInt :: "string \<Rightarrow> (nat \<times> string) option" where
  "leadingInt s =
     (let v = atoi (takeWhile is_digit s) in if 2 ^ 63 < v then None else Some (v, dropWhile is_digit s))"

text \<open>The digits of a fraction, the number of them that count, and the rest.\<close>

fun leadingFraction :: "nat \<Rightarrow> nat \<Rightarrow> bool \<Rightarrow> string \<Rightarrow> nat \<times> nat \<times> string" where
  "leadingFraction x n overflow [] = (x, n, [])"
| "leadingFraction x n overflow (c # s) =
     (if \<not> is_digit c then (x, n, c # s)
      else if overflow then leadingFraction x n True s
      else if (2 ^ 63 - 1) div 10 < x then leadingFraction x n True s
      else let y = x * 10 + digit_val c
        in if 2 ^ 63 < y then leadingFraction x n True s else leadingFraction y (n + 1) False s)"

definition unitMap :: "string \<Rightarrow> nat option" where
  "unitMap u =
     map_of [(''ns'', 1), (''us'', 1000), ([CHR 0xC2, CHR 0xB5, CHR ''s''], 1000), ([CHR 0xCE, CHR 0xBC, CHR ''s''], 1000),
       (''ms'', 1000000), (''s'', 1000000000), (''m'', 60000000000), (''h'', 3600000000000)] u"

text \<open>
  One number with its unit: its nanoseconds and the rest. \<open>frac f n unit\<close> is the floating-point
  product of the fraction \<open>f\<close> of \<open>n\<close> digits with the unit.
\<close>

definition duration_term :: "(nat \<Rightarrow> nat \<Rightarrow> nat \<Rightarrow> nat) \<Rightarrow> string \<Rightarrow> (nat \<times> string) option" where
  "duration_term frac s =
     (if s = [] \<or> \<not> (hd s = CHR ''.'' \<or> is_digit (hd s)) then None
      else case leadingInt s of
        None \<Rightarrow> None
      | Some (v, s1) \<Rightarrow>
          let pre = (length s1 \<noteq> length s); dot = (s1 \<noteq> [] \<and> hd s1 = CHR ''.'');
              (f, n, s2) = (if dot then leadingFraction 0 0 False (tl s1) else (0, 0, s1));
              post = (dot \<and> length s2 \<noteq> length (tl s1));
              u = takeWhile (\<lambda>c. \<not> (c = CHR ''.'' \<or> is_digit c)) s2; s3 = drop (length u) s2
          in if \<not> pre \<and> \<not> post \<or> u = [] then None
             else (case unitMap u of
               None \<Rightarrow> None
             | Some unit \<Rightarrow>
                 if 2 ^ 63 div unit < v then None
                 else let w = (if 0 < f then (v * unit + frac f n unit) mod 2 ^ 64 else v * unit)
                   in if 0 < f \<and> 2 ^ 63 < w then None else Some (w, s3)))"

lemma leadingFraction_length: "leadingFraction x n ov s = (f, m, r) \<Longrightarrow> length r \<le> length s"
  by (induction x n ov s rule: leadingFraction.induct) (auto simp: Let_def split: if_splits)

lemma duration_term_shorter: "duration_term frac s = Some (v, r) \<Longrightarrow> length r < length s"
proof -
  assume t: "duration_term frac s = Some (v, r)"
  obtain v1 s1 where l: "leadingInt s = Some (v1, s1)" using t by (auto simp: duration_term_def split: if_splits option.splits)
  then have s1: "length s1 \<le> length s" by (auto simp: leadingInt_def Let_def length_dropWhile_le split: if_splits)
  let ?dot = "s1 \<noteq> [] \<and> hd s1 = CHR ''.''"
  obtain f n s2 where f: "(if ?dot then leadingFraction 0 0 False (tl s1) else (0, 0, s1)) = (f, n, s2)" by (metis prod_cases3)
  then have s2: "length s2 \<le> length s1" using leadingFraction_length by (fastforce split: if_splits)
  let ?u = "takeWhile (\<lambda>c. \<not> (c = CHR ''.'' \<or> is_digit c)) s2"
  have r: "?u \<noteq> []" "r = drop (length ?u) s2"
    using t unfolding duration_term_def l by (auto simp: f Let_def split: if_splits option.splits)
  have "length ?u \<le> length s2" by (rule length_takeWhile_le)
  with r s1 s2 show "length r < length s" by (cases ?u) auto
qed

function duration_terms :: "(nat \<Rightarrow> nat \<Rightarrow> nat \<Rightarrow> nat) \<Rightarrow> nat \<Rightarrow> string \<Rightarrow> nat option" where
  "duration_terms frac d s =
     (if s = [] then Some d
      else case duration_term frac s of
        None \<Rightarrow> None
      | Some (v, r) \<Rightarrow> let d' = (d + v) mod 2 ^ 64 in if 2 ^ 63 < d' then None else duration_terms frac d' r)"
  by pat_completeness auto
termination
  by (relation "measure (\<lambda>(_, _, s). length s)") (auto dest: duration_term_shorter)

declare duration_terms.simps [simp del]

definition ParseDuration :: "(nat \<Rightarrow> nat \<Rightarrow> nat \<Rightarrow> nat) \<Rightarrow> string \<Rightarrow> int option" where
  "ParseDuration frac s =
     (let neg = (s \<noteq> [] \<and> hd s = CHR ''-'');
          r = (if s \<noteq> [] \<and> (hd s = CHR ''-'' \<or> hd s = CHR ''+'') then tl s else s)
      in if r = ''0'' then Some 0
         else if r = [] then None
         else case duration_terms frac 0 r of
           None \<Rightarrow> None
         | Some d \<Rightarrow> if neg then Some (- int d) else if 2 ^ 63 - 1 < d then None else Some (int d))"

lemma default_interval: "ParseDuration frac ''8h'' = Some (8 * 3600 * 1000000000)"
  by (simp add: ParseDuration_def duration_terms.simps [of frac] duration_term_def leadingInt_def is_digit_def
      atoi_def digit_val_def unitMap_def)

lemma zero_interval: "ParseDuration frac ''0s'' = Some 0"
  by (simp add: ParseDuration_def duration_terms.simps [of frac] duration_term_def leadingInt_def is_digit_def
      atoi_def digit_val_def unitMap_def)

section \<open>Printing\<close>

text \<open>The fraction of \<open>prec\<close> digits without trailing zeros, with its point, and the integer part.\<close>

fun fmtFrac :: "nat \<Rightarrow> bool \<Rightarrow> nat \<Rightarrow> string \<Rightarrow> string \<times> nat" where
  "fmtFrac 0 print v acc = ((if print then CHR ''.'' # acc else acc), v)"
| "fmtFrac (Suc prec) print v acc =
     (let digit = v mod 10; print' = (print \<or> digit \<noteq> 0)
      in fmtFrac prec print' (v div 10) (if print' then char_of (48 + digit) # acc else acc))"

definition micro :: string where
  "micro = [CHR 0xC2, CHR 0xB5]"

definition duration_text :: "nat \<Rightarrow> string" where
  "duration_text u =
     (let small = (\<lambda>prec unit. case fmtFrac prec False u (unit @ ''s'') of (s, i) \<Rightarrow> itoa i @ s)
      in if u < 1000000000 then
           (if u = 0 then ''0s'' else if u < 1000 then small 0 ''n'' else if u < 1000000 then small 3 micro else small 6 ''m'')
         else case fmtFrac 9 False u ''s'' of (s, t) \<Rightarrow>
           (if t div 60 = 0 then []
            else (if t div 60 div 60 = 0 then [] else itoa (t div 60 div 60) @ ''h'') @ itoa (t div 60 mod 60) @ ''m'') @
           itoa (t mod 60) @ s)"

definition duration_String :: "int \<Rightarrow> string" where
  "duration_String d = (let text = duration_text (nat \<bar>d\<bar>) in if d < 0 then CHR ''-'' # text else text)"

section \<open>What is printed is read back\<close>

lemma atoi_snoc: "atoi (ds @ [c]) = atoi ds * 10 + digit_val c"
  by (simp add: atoi_def)

lemma mod_pow_Suc: "v mod 10 ^ Suc p = 10 * (v div 10 mod 10 ^ p) + v mod (10 :: nat)"
  by (simp add: mod_mult2_eq)

lemma div_pow_Suc: "v div 10 div 10 ^ p = v div (10 :: nat) ^ Suc p"
  by (simp add: div_mult2_eq)

lemma fmtFrac_all:
  "\<exists>ds. fmtFrac p True v acc = (CHR ''.'' # ds @ acc, v div 10 ^ p) \<and> list_all is_digit ds \<and> length ds = p \<and> atoi ds = v mod 10 ^ p"
proof (induction p arbitrary: v acc)
  case (Suc p)
  let ?c = "char_of (48 + v mod 10) :: char"
  obtain ds where ds: "fmtFrac p True (v div 10) (?c # acc) = (CHR ''.'' # ds @ ?c # acc, v div 10 div 10 ^ p)"
    "list_all is_digit ds" "length ds = p" "atoi ds = v div 10 mod 10 ^ p" using Suc by blast
  then show ?case
    by (intro exI [of _ "ds @ [?c]"]) (simp only: fmtFrac.simps Let_def div_pow_Suc mod_pow_Suc atoi_snoc, simp)
qed (simp add: atoi_def)

lemma fmtFrac_trim:
  "if v mod 10 ^ p = 0 then fmtFrac p False v acc = (acc, v div 10 ^ p)
   else \<exists>ds. fmtFrac p False v acc = (CHR ''.'' # ds @ acc, v div 10 ^ p) \<and> list_all is_digit ds \<and> ds \<noteq> [] \<and> length ds \<le> p \<and>
     atoi ds * 10 ^ (p - length ds) = v mod 10 ^ p"
proof (induction p arbitrary: v acc)
  case (Suc p)
  show ?case
  proof (cases "v mod 10 = 0")
    case True
    then have m: "v mod 10 ^ Suc p = 10 * (v div 10 mod 10 ^ p)" by (simp only: mod_pow_Suc)
    have f: "fmtFrac (Suc p) False v acc = fmtFrac p False (v div 10) acc" using True by simp
    show ?thesis
    proof (cases "v div 10 mod 10 ^ p = 0")
      case True
      with Suc [of "v div 10" acc] show ?thesis unfolding m f by (simp add: div_pow_Suc [symmetric] del: power_Suc)
    next
      case False
      with Suc [of "v div 10" acc] obtain ds where
        ds: "fmtFrac p False (v div 10) acc = (CHR ''.'' # ds @ acc, v div 10 div 10 ^ p)" "list_all is_digit ds" "ds \<noteq> []"
        "length ds \<le> p" "atoi ds * 10 ^ (p - length ds) = v div 10 mod 10 ^ p" by auto
      then have "atoi ds * 10 ^ (Suc p - length ds) = 10 * (v div 10 mod 10 ^ p)" by (simp add: Suc_diff_le)
      with ds False show ?thesis unfolding m f by (auto simp: div_pow_Suc simp del: power_Suc)
    qed
  next
    case False
    let ?c = "char_of (48 + v mod 10) :: char"
    obtain ds where ds: "fmtFrac p True (v div 10) (?c # acc) = (CHR ''.'' # ds @ ?c # acc, v div 10 div 10 ^ p)"
      "list_all is_digit ds" "length ds = p" "atoi ds = v div 10 mod 10 ^ p" using fmtFrac_all by blast
    have "fmtFrac (Suc p) False v acc = (CHR ''.'' # (ds @ [?c]) @ acc, v div 10 ^ Suc p)"
      using ds(1) False by (simp add: div_pow_Suc del: power_Suc)
    moreover have "atoi (ds @ [?c]) = v mod 10 ^ Suc p" using ds(4) by (simp only: atoi_snoc mod_pow_Suc) simp
    moreover have "v mod 10 ^ Suc p \<noteq> 0" using False by (simp add: mod_pow_Suc del: power_Suc)
    ultimately show ?thesis using ds(2,3) by (auto simp del: power_Suc intro!: exI [of _ "ds @ [?c]"])
  qed
qed simp

text \<open>Reading digits.\<close>

definition no_digit :: "string \<Rightarrow> bool" where
  "no_digit s \<longleftrightarrow> s = [] \<or> \<not> is_digit (hd s)"

lemma digits_read:
  "list_all is_digit ds \<Longrightarrow> no_digit r \<Longrightarrow> takeWhile is_digit (ds @ r) = ds \<and> dropWhile is_digit (ds @ r) = r"
  by (induction ds) (cases r; auto simp: no_digit_def)+

lemma itoa_read: "no_digit r \<Longrightarrow> v \<le> 2 ^ 63 \<Longrightarrow> leadingInt (itoa v @ r) = Some (v, r)"
  using digits_read [of "itoa v" r] itoa_digits [of v] by (simp add: leadingInt_def list_all_iff)

lemma atoi_from: "foldl (\<lambda>a c. a * 10 + digit_val c) x ds = x * 10 ^ length ds + atoi ds"
proof (induction ds rule: rev_induct)
  case (snoc c ds)
  then show ?case by (simp add: atoi_snoc algebra_simps)
qed (simp add: atoi_def)

lemma fraction_read:
  "list_all is_digit ds \<Longrightarrow> no_digit r \<Longrightarrow> x * 10 ^ length ds + atoi ds < 10 ^ 18 \<Longrightarrow>
   leadingFraction x n False (ds @ r) = (x * 10 ^ length ds + atoi ds, n + length ds, r)"
proof (induction ds arbitrary: x n)
  case Nil
  then show ?case by (cases r) (auto simp: no_digit_def atoi_def)
next
  case (Cons c ds)
  let ?y = "x * 10 + digit_val c"
  have at: "atoi (c # ds) = digit_val c * 10 ^ length ds + atoi ds" using atoi_from [of "digit_val c" ds] by (simp add: atoi_def)
  then have eq: "x * 10 ^ length (c # ds) + atoi (c # ds) = ?y * 10 ^ length ds + atoi ds" by (simp add: algebra_simps)
  with Cons.prems(3) have lt: "?y * 10 ^ length ds + atoi ds < 10 ^ 18" by simp
  have "?y \<le> ?y * 10 ^ length ds" by simp
  with lt have "?y < 10 ^ 18" by linarith
  then have "\<not> (2 ^ 63 - 1) div 10 < x" "\<not> 2 ^ 63 < ?y" by auto
  with Cons.IH [OF _ Cons.prems(2) lt, of "n + 1"] Cons.prems(1) eq show ?case by (simp add: Let_def)
qed

text \<open>A number with a unit, with or without a fraction.\<close>

definition exact :: "(nat \<Rightarrow> nat \<Rightarrow> nat \<Rightarrow> nat) \<Rightarrow> bool" where
  "exact frac \<longleftrightarrow> (\<forall>f n p. n \<le> p \<longrightarrow> p \<le> 9 \<longrightarrow> f < 10 ^ n \<longrightarrow> frac f n (10 ^ p) = f * 10 ^ (p - n))"

definition is_unit_text :: "string \<Rightarrow> bool" where
  "is_unit_text us \<longleftrightarrow> us \<noteq> [] \<and> list_all (\<lambda>c. \<not> (c = CHR ''.'' \<or> is_digit c)) us"

definition starts_number :: "string \<Rightarrow> bool" where
  "starts_number r \<longleftrightarrow> r = [] \<or> is_digit (hd r)"

lemma unit_read:
  assumes "is_unit_text us" and "starts_number r"
  shows "takeWhile (\<lambda>c. \<not> (c = CHR ''.'' \<or> is_digit c)) (us @ r) = us"
proof -
  have "takeWhile (\<lambda>c. \<not> (c = CHR ''.'' \<or> is_digit c)) r = []" using assms(2) by (cases r) (auto simp: starts_number_def)
  with assms(1) show ?thesis by (simp add: is_unit_text_def list_all_iff takeWhile_append)
qed

lemma number_head: "itoa v @ r \<noteq> []" "is_digit (hd (itoa v @ r))"
  using itoa_digits [of v] by (auto simp: hd_append)

lemma plain_term:
  assumes "is_unit_text us" and "starts_number r" and "unitMap us = Some unit" and "v * unit \<le> 2 ^ 63" and "0 < unit"
  shows "duration_term frac (itoa v @ us @ r) = Some (v * unit, r)"
proof -
  have us: "no_digit (us @ r)" "us @ r \<noteq> []" "hd (us @ r) \<noteq> CHR ''.''"
    using assms(1) by (cases us; auto simp: no_digit_def is_unit_text_def)+
  have v: "v \<le> 2 ^ 63 div unit" using assms(4,5) by (simp add: less_eq_div_iff_mult_less_eq)
  then have "v \<le> 2 ^ 63" using assms(4,5) by (metis div_le_dividend le_trans)
  from itoa_read [OF us(1) this] us number_head [of v "us @ r"] unit_read [OF assms(1,2)] assms(1,3) v show ?thesis
    by (simp add: duration_term_def is_unit_text_def Let_def)
qed

lemma fraction_term:
  assumes "is_unit_text us" and "starts_number r" and "unitMap us = Some (10 ^ p)" and "exact frac" and "p \<le> 9"
    and "list_all is_digit ds" "ds \<noteq> []" "length ds \<le> p" and "0 < atoi ds" and "v * 10 ^ p + atoi ds * 10 ^ (p - length ds) \<le> 2 ^ 63"
  shows "duration_term frac (itoa v @ CHR ''.'' # ds @ us @ r) = Some (v * 10 ^ p + atoi ds * 10 ^ (p - length ds), r)"
proof -
  have us: "no_digit (us @ r)" using assms(1) by (cases us; auto simp: no_digit_def is_unit_text_def)
  have dot: "no_digit (CHR ''.'' # ds @ us @ r)" by (simp add: no_digit_def is_digit_def)
  have v: "v \<le> 2 ^ 63 div 10 ^ p" using assms(10) by (simp add: less_eq_div_iff_mult_less_eq)
  then have v': "v \<le> 2 ^ 63" by (metis div_le_dividend le_trans)
  have "atoi ds < 10 ^ length ds" using assms(6)
    by (induction ds rule: rev_induct) (auto simp: atoi_snoc atoi_def is_digit_def digit_val_def)
  moreover have "(10 :: nat) ^ length ds \<le> 10 ^ 9" using assms(5,8) by (intro power_increasing) auto
  ultimately have f: "frac (atoi ds) (length ds) (10 ^ p) = atoi ds * 10 ^ (p - length ds)" "atoi ds < 10 ^ 18"
    using assms(4,5,8) by (auto simp: exact_def)
  then have read: "leadingFraction 0 0 False (ds @ us @ r) = (atoi ds, length ds, us @ r)"
    using fraction_read [OF assms(6) us, of 0 0] by simp
  have small: "(v * 10 ^ p + atoi ds * 10 ^ (p - length ds)) mod 2 ^ 64 = v * 10 ^ p + atoi ds * 10 ^ (p - length ds)"
    using assms(10) by simp
  show ?thesis
    using itoa_read [OF dot v'] number_head [of v "CHR ''.'' # ds @ us @ r"] unit_read [OF assms(1,2)] assms(1,3,7,9,10) v f(1) small
    by (simp add: duration_term_def is_unit_text_def read Let_def)
qed

lemma frac_term:
  assumes "is_unit_text us" and "starts_number r" and "unitMap us = Some (10 ^ p)" and "exact frac" and "p \<le> 9"
    and "fmtFrac p False u us = (s, i)" and "v * 10 ^ p + u mod 10 ^ p \<le> 2 ^ 63"
  shows "duration_term frac (itoa v @ s @ r) = Some (v * 10 ^ p + u mod 10 ^ p, r)" "i = u div 10 ^ p"
proof -
  note t = fmtFrac_trim [of u p us]
  show "i = u div 10 ^ p" using t assms(6) by (auto split: if_splits)
  show "duration_term frac (itoa v @ s @ r) = Some (v * 10 ^ p + u mod 10 ^ p, r)"
  proof (cases "u mod 10 ^ p = 0")
    case True
    with t assms(6,7) plain_term [OF assms(1-3), of v] show ?thesis by simp
  next
    case False
    with t assms(6) obtain ds where ds: "s = CHR ''.'' # ds @ us" "list_all is_digit ds" "ds \<noteq> []" "length ds \<le> p"
      "atoi ds * 10 ^ (p - length ds) = u mod 10 ^ p" by auto
    with False have "0 < atoi ds" by (cases "atoi ds") auto
    from fraction_term [OF assms(1-5) ds(2-4) this, of v] ds assms(7) show ?thesis by simp
  qed
qed

lemma units:
  "unitMap ''ns'' = Some (10 ^ 0)" "unitMap (micro @ ''s'') = Some (10 ^ 3)" "unitMap ''ms'' = Some (10 ^ 6)"
  "unitMap ''s'' = Some (10 ^ 9)" "unitMap ''m'' = Some 60000000000" "unitMap ''h'' = Some 3600000000000"
  "is_unit_text ''ns''" "is_unit_text (micro @ ''s'')" "is_unit_text ''ms''" "is_unit_text ''s''" "is_unit_text ''m''" "is_unit_text ''h''"
  by (simp_all add: unitMap_def micro_def is_unit_text_def is_digit_def)

lemma starts_number_itoa: "starts_number (itoa v @ r)" "starts_number []"
  using number_head [of v r] by (simp_all add: starts_number_def)

lemma terms_step:
  assumes "duration_term frac s = Some (v, r)" and "d + v \<le> 2 ^ 63"
  shows "duration_terms frac d s = duration_terms frac (d + v) r"
proof -
  have "s \<noteq> []" using duration_term_shorter [OF assms(1)] by auto
  then show ?thesis using assms by (subst duration_terms.simps) (simp add: Let_def)
qed

lemma terms_end: "duration_terms frac d [] = Some d"
  by (subst duration_terms.simps) simp

lemma small_text:
  assumes "exact frac" and "is_unit_text us" and "unitMap us = Some (10 ^ p)" and "p \<le> 9" and "u \<le> 2 ^ 63"
  shows "duration_terms frac 0 (case fmtFrac p False u us of (s, i) \<Rightarrow> itoa i @ s) = Some u"
proof -
  obtain s i where f: "fmtFrac p False u us = (s, i)" by fastforce
  have i: "i = u div 10 ^ p" using fmtFrac_trim [of u p us] f by (auto split: if_splits)
  have "u div 10 ^ p * 10 ^ p + u mod 10 ^ p = u" by (rule div_mult_mod_eq)
  with frac_term(1) [OF assms(2) starts_number_itoa(2) assms(3,1,4) f, of i] i assms(5)
  have "duration_term frac (itoa i @ s @ []) = Some (u, [])" by simp
  from terms_step [OF this, of 0] assms(5) f show ?thesis by (simp add: terms_end)
qed

lemma split_seconds:
  fixes u :: nat
  defines "t \<equiv> u div 10 ^ 9"
  shows "t div 60 div 60 * 3600000000000 + t div 60 mod 60 * 60000000000 + (t mod 60 * 10 ^ 9 + u mod 10 ^ 9) = u"
proof -
  have e: "t div 60 = t div 60 div 60 * 60 + t div 60 mod 60" "t = t div 60 * 60 + t mod 60" "u = t * 10 ^ 9 + u mod 10 ^ 9"
    unfolding t_def by (rule div_mult_mod_eq [symmetric])+
  have "h * 3600000000000 + m * 60000000000 + (s * 10 ^ 9 + r) = v"
    if "q = h * 60 + m" "w = q * 60 + s" "v = w * 10 ^ 9 + r" for q h m w s v r :: nat
    using that by simp
  from this [OF e] show ?thesis .
qed

lemma large_text:
  assumes "exact frac" and "u \<le> 2 ^ 63" and "1000000000 \<le> u"
  shows "duration_terms frac 0 (duration_text u) = Some u"
proof -
  obtain s t where f: "fmtFrac 9 False u ''s'' = (s, t)" by fastforce
  have t: "t = u div 10 ^ 9" using fmtFrac_trim [of u 9 "''s''"] f by (auto split: if_splits)
  let ?h = "t div 60 div 60" and ?m = "t div 60 mod 60" and ?s = "t mod 60 * 10 ^ 9 + u mod 10 ^ 9"
  have sum: "?h * 3600000000000 + ?m * 60000000000 + ?s = u" using split_seconds [of u] t by simp
  have "duration_term frac (itoa (t mod 60) @ s @ []) = Some (?s, [])"
    using frac_term(1) [OF units(10) starts_number_itoa(2) units(4) assms(1) _ f, of "t mod 60"] sum assms(2) by simp
  then have sec: "duration_terms frac d (itoa (t mod 60) @ s) = Some (d + ?s)" if "d + ?s \<le> 2 ^ 63" for d
    using terms_step [of frac "itoa (t mod 60) @ s" ?s "[]" d] that by (simp add: terms_end)
  have min: "duration_terms frac d (itoa ?m @ ''m'' @ itoa (t mod 60) @ s) = Some (d + ?m * 60000000000 + ?s)"
    if "d + ?m * 60000000000 + ?s \<le> 2 ^ 63" for d
    using terms_step [OF plain_term [OF units(11) starts_number_itoa(1) units(5), of ?m], of d frac] that sec by simp
  have "duration_terms frac 0 (itoa ?h @ ''h'' @ itoa ?m @ ''m'' @ itoa (t mod 60) @ s) = Some u"
    using terms_step [OF plain_term [OF units(12) starts_number_itoa(1) units(6), of ?h], of 0 frac] min [of "?h * 3600000000000"] sum assms(2)
    by simp
  moreover have "duration_text u = (if t div 60 = 0 then [] else (if ?h = 0 then [] else itoa ?h @ ''h'') @ itoa ?m @ ''m'') @ itoa (t mod 60) @ s"
    using assms(3) f by (simp add: duration_text_def)
  moreover have "?h = 0" if "t div 60 = 0" using that by simp
  moreover have "?m = 0" if "t div 60 = 0" using that by simp
  ultimately show ?thesis using sum min [of 0] sec [of 0] assms(2) by (cases "t div 60 = 0"; cases "?h = 0") (simp_all del: div_eq_0_iff)
qed

lemma text_read:
  assumes "exact frac" and "u \<le> 2 ^ 63"
  shows "duration_terms frac 0 (duration_text u) = Some u"
proof (cases "1000000000 \<le> u")
  case False
  consider "u = 0" | "u \<noteq> 0" "u < 1000" | "1000 \<le> u" "u < 1000000" | "1000000 \<le> u" by linarith
  then show ?thesis
  proof cases
    case 1
    have "duration_term frac (itoa 0 @ ''s'' @ []) = Some (0 * 10 ^ 9, [])"
      by (rule plain_term [OF units(10) starts_number_itoa(2) units(4)]) simp_all
    moreover have "itoa 0 = ''0''" by code_simp
    ultimately show ?thesis using 1 terms_step [of frac "''0s''" 0 "[]" 0] by (simp add: duration_text_def terms_end)
  qed (use False small_text [OF assms(1) units(7,1)] small_text [OF assms(1) units(8,2)] small_text [OF assms(1) units(9,3)] assms(2) in
      \<open>simp_all add: duration_text_def\<close>)
qed (rule large_text [OF assms])

text \<open>The first character of a printed duration is a digit; a bare zero is no duration.\<close>

lemma text_head: "duration_text u \<noteq> [] \<and> is_digit (hd (duration_text u))"
  using number_head by (auto simp: duration_text_def Let_def is_digit_def split: prod.split)

lemma zero_not_read: "duration_terms frac d ''0'' = None"
  by (simp add: duration_terms.simps [of frac d "''0''"] duration_term_def leadingInt_def is_digit_def
      atoi_def digit_val_def)

theorem duration_reads_back:
  assumes "exact frac" and "- (2 ^ 63) \<le> d" and "d < 2 ^ 63"
  shows "ParseDuration frac (duration_String d) = Some d"
proof -
  let ?t = "duration_text (nat \<bar>d\<bar>)"
  have "nat \<bar>d\<bar> \<le> 2 ^ 63" using assms(2,3) by (simp add: nat_le_iff abs_le_iff)
  note t = text_read [OF assms(1) this]
  have "?t \<noteq> ''0''" using t zero_not_read by auto
  moreover have h: "?t \<noteq> []" "hd ?t \<noteq> CHR ''-''" "hd ?t \<noteq> CHR ''+''"
    using text_head [of "nat \<bar>d\<bar>"] by (auto simp: is_digit_def)
  ultimately show ?thesis
    using t assms(3) by (auto simp: ParseDuration_def duration_String_def Let_def)
qed

end
