(* ===== verification/Server_Program.thy ===== *)
theory Server_Program
  imports Awl_Lifecycle Awl_Update Go_Duration
begin

text \<open>
  The server program \<open>src/cmd/awl/main.go\<close>: its start, the periodic check for updates and the
  protocol by which it exits.
\<close>

section \<open>The periodic check\<close>

text \<open>What becomes of the goroutine of the check; \<open>time.NewTicker\<close> panics unless the interval is positive.\<close>

datatype auto_check = AutoOff | AutoDev | BadInterval | TickerPanics | EveryNanos int

definition auto_check_of :: "(nat \<Rightarrow> nat \<Rightarrow> nat \<Rightarrow> nat) \<Rightarrow> string \<Rightarrow> UpdateConfig \<Rightarrow> auto_check" where
  "auto_check_of frac version u =
     (if \<not> uc_TrayAutoCheckEnabled u then AutoOff
      else if IsDevVersion version then AutoDev
      else case ParseDuration frac (uc_TrayAutoCheckInterval u) of
        None \<Rightarrow> BadInterval
      | Some interval \<Rightarrow> if interval \<le> 0 then TickerPanics else EveryNanos interval)"

text \<open>What a check reports; \<open>look\<close> is the search of the updater library.\<close>

datatype 'v check_report = CreateFailed update_error | SearchFailed | NothingNew | NewVersion 'v

definition checkForUpdates ::
    "(nat \<Rightarrow> bool) \<Rightarrow> (string \<Rightarrow> channel list \<Rightarrow> ApplicationType \<Rightarrow> 'a option) \<Rightarrow> string \<Rightarrow> ('a \<Rightarrow> 'v option \<times> check_status) \<Rightarrow>
     ApplicationType \<Rightarrow> Config \<Rightarrow> 'v check_report" where
  "checkForUpdates udigit appConf version look appType c =
     (case NewUpdateService udigit appConf version c appType of
        Inl err \<Rightarrow> CreateFailed err
      | Inr service \<Rightarrow>
          (case look service of (newVersion, st) \<Rightarrow>
             (case CheckForUpdates newVersion st of
                (_, True) \<Rightarrow> SearchFailed
              | (False, False) \<Rightarrow> NothingNew
              | (True, False) \<Rightarrow> NewVersion (the newVersion))))"

section \<open>Start and exit\<close>

text \<open>
  The process: running, closing after a signal, or ended with an exit code: 0 for a normal exit, 1 for a
  fatal log message, 2 for a panic.
\<close>

datatype server = Serving Application | ClosingDown Application | Exited nat

definition awl_main :: "'k start_env \<Rightarrow> server" where
  "awl_main e =
     (case SetupLoggerAndConfig (se_def e) (se_files e) (se_diskOK e) New of
        None \<Rightarrow> Exited 2
      | Some a \<Rightarrow>
          (case Init (se_init e) a of
             (Done, a1) \<Rightarrow> Serving a1
           | (Failed _, _) \<Rightarrow> Exited 1
           | (Panicked, _) \<Rightarrow> Exited 2))"

text \<open>
  After the first signal the main goroutine closes the application while another one waits for the
  end of that, for three seconds or for a second signal, whichever comes first.
\<close>

datatype exit_event = ExitSignal | ExitTimeout | CloseReturned

fun exit_step :: "exit_event \<Rightarrow> server \<Rightarrow> server" where
  "exit_step ev (Serving a) = (if ev = ExitSignal then ClosingDown a else Serving a)"
| "exit_step ev (ClosingDown a) =
     (case ev of
        ExitSignal \<Rightarrow> Exited 1
      | ExitTimeout \<Rightarrow> Exited 1
      | CloseReturned \<Rightarrow> (case Close a of (_, panicked, _) \<Rightarrow> Exited (if panicked then 2 else 0)))"
| "exit_step ev (Exited n) = Exited n"

section \<open>Properties\<close>

text \<open>The check runs every eight hours by default, and an interval of zero ends the process with a panic.\<close>

lemma default_auto_check:
  "uc_TrayAutoCheckInterval u \<in> {[], ''24h''} \<Longrightarrow> \<not> IsDevVersion v \<Longrightarrow>
     auto_check_of frac v (default_update u) = (if uc_TrayAutoCheckEnabled (default_update u) then EveryNanos 28800000000000 else AutoOff)"
  by (auto simp: auto_check_of_def default_update_def default_interval Let_def)

lemma zero_interval_panics:
  "uc_TrayAutoCheckEnabled u \<Longrightarrow> uc_TrayAutoCheckInterval u = ''0s'' \<Longrightarrow> \<not> IsDevVersion v \<Longrightarrow>
     auto_check_of frac v (default_update u) = TickerPanics"
  by (simp add: auto_check_of_def default_update_def zero_interval Let_def)

lemma fold_exited: "fold exit_step evs (Exited n) = Exited n"
  by (induction evs) simp_all

lemma fold_serving: "ExitSignal \<notin> set evs \<Longrightarrow> fold exit_step evs (Serving a) = Serving a"
  by (induction evs) auto



end
