(* ===== verification/Tray_Menu.thy ===== *)
theory Tray_Menu
  imports Socks5_Proxy
begin

text \<open>
  The submenus of the tray, \<open>src/cmd/awl-tray/tray.go\<close>: the list of peers and the list of exit nodes
  with its check marks. Menu items are their titles; the
  drawing is the systray library's.
\<close>

section \<open>State\<close>

text \<open>
  A submenu of the proxy menu carries the peer its click handler selects, its title and whether it
  is checked. The fields \<open>tm_prev...\<close> are the package variables that remember what is shown.
\<close>

record proxy_item =
  pi_PeerID :: string
  pi_title :: string
  pi_checked :: bool

record tray_menus =
  tm_prevOnline :: "string list"
  tm_prevOffline :: "string list"
  tm_peers :: "string list"
  tm_prevProxies :: "AvailableProxy list"
  tm_prevProxyPeerID :: string
  tm_proxies :: "proxy_item list"

definition zero_menus :: tray_menus where
  "zero_menus = \<lparr>tm_prevOnline = [], tm_prevOffline = [], tm_peers = [], tm_prevProxies = [],
     tm_prevProxyPeerID = [], tm_proxies = []\<rparr>"

section \<open>Peers\<close>

definition peer_title :: "KnownPeer \<Rightarrow> string" where
  "peer_title p = (let peerName = DisplayName p in if peerName = [] then kp_PeerID p else peerName)"

definition peer_names_by :: "externals \<Rightarrow> (string \<Rightarrow> bool) \<Rightarrow> Config \<Rightarrow> string list \<times> string list" where
  "peer_names_by x isConnected c =
     (let ps = gm_vals (c_KnownPeers c); online = (\<lambda>p. isConnected (PeerId (x_Decode x) p))
      in (sort (map peer_title (filter online ps)), sort (map peer_title (filter (\<lambda>p. \<not> online p) ps))))"

definition peer_items :: "string list \<Rightarrow> string list \<Rightarrow> string list" where
  "peer_items onlinePeers offlinePeers =
     [''Online peers:''] @ onlinePeers @ [''_______________'', ''Offline peers:''] @ offlinePeers"

definition refreshPeersSubmenus :: "externals \<Rightarrow> (string \<Rightarrow> bool) \<Rightarrow> Config \<Rightarrow> tray_menus \<Rightarrow> tray_menus" where
  "refreshPeersSubmenus x isConnected c m =
     (case peer_names_by x isConnected c of (onlinePeers, offlinePeers) \<Rightarrow>
        if tm_prevOnline m = onlinePeers \<and> tm_prevOffline m = offlinePeers then m
        else m\<lparr>tm_prevOnline := onlinePeers, tm_prevOffline := offlinePeers,
               tm_peers := peer_items onlinePeers offlinePeers\<rparr>)"

section \<open>Exit nodes\<close>

definition proxy_items :: "AvailableProxy list \<Rightarrow> string \<Rightarrow> proxy_item list" where
  "proxy_items proxies currentProxy =
     map (\<lambda>p. \<lparr>pi_PeerID = av_PeerID p, pi_title = av_PeerName p, pi_checked = (av_PeerID p = currentProxy)\<rparr>) proxies"

definition refreshProxySubmenus :: "externals \<Rightarrow> (string \<Rightarrow> bool) \<Rightarrow> Config \<Rightarrow> tray_menus \<Rightarrow> tray_menus" where
  "refreshProxySubmenus x isConnected c m =
     (let currentProxy = sc_UsingPeerID (c_SOCKS5 c); proxies = ListAvailableProxies x isConnected c
      in if tm_prevProxies m = proxies \<and> tm_prevProxyPeerID m = currentProxy then m
         else m\<lparr>tm_prevProxies := proxies, tm_prevProxyPeerID := currentProxy,
                tm_proxies := proxy_items proxies currentProxy\<rparr>)"

text \<open>A click on the \<open>i\<close>th exit node.\<close>

definition click_proxy :: "nat \<Rightarrow> conf_state \<times> tray_menus \<Rightarrow> conf_state \<times> tray_menus" where
  "click_proxy i s =
     (case s of (cs, m) \<Rightarrow>
        if i < length (tm_proxies m)
        then (SetProxyPeerID (pi_PeerID (tm_proxies m ! i)) cs,
              m\<lparr>tm_proxies := map (\<lambda>j. (tm_proxies m ! j)\<lparr>pi_checked := (j = i)\<rparr>) [0..<length (tm_proxies m)]\<rparr>)
        else (cs, m))"

section \<open>What the menus show\<close>

text \<open>The remembered values describe the items, except for the empty start and for clicks.\<close>

definition menus_ok :: "tray_menus \<Rightarrow> bool" where
  "menus_ok m \<longleftrightarrow>
     (tm_peers m = peer_items (tm_prevOnline m) (tm_prevOffline m) \<or>
      tm_peers m = [] \<and> tm_prevOnline m = [] \<and> tm_prevOffline m = [])"

lemma refresh_peers_ok: "menus_ok m \<Longrightarrow> menus_ok (refreshPeersSubmenus x con c m)"
  by (auto simp: menus_ok_def refreshPeersSubmenus_def split: prod.split)

lemma other_menus_ok:
  "menus_ok zero_menus" "menus_ok (refreshProxySubmenus x con c m) \<longleftrightarrow> menus_ok m"
  "menus_ok (snd (click_proxy i (cs, m))) \<longleftrightarrow> menus_ok m"
  by (auto simp: menus_ok_def zero_menus_def refreshProxySubmenus_def click_proxy_def Let_def)

text \<open>After a refresh the peer menu lists the connected peers and then the others, each group by name.\<close>

theorem peers_menu_current:
  assumes "menus_ok m" and "c_KnownPeers c \<noteq> []"
  shows "tm_peers (refreshPeersSubmenus x con c m) =
     peer_items (fst (peer_names_by x con c)) (snd (peer_names_by x con c))"
proof -
  obtain on off where n: "peer_names_by x con c = (on, off)" by fastforce
  have "length on + length off = length (gm_vals (c_KnownPeers c))"
    using n sum_length_filter_compl [of "\<lambda>p. con (PeerId (x_Decode x) p)" "gm_vals (c_KnownPeers c)"]
    by (auto simp: peer_names_by_def Let_def)
  then have "\<not> (on = [] \<and> off = [])" using assms(2) by (auto simp: gm_vals_def)
  with assms(1) n show ?thesis by (auto simp: menus_ok_def refreshPeersSubmenus_def)
qed

text \<open>
  The menu shows the exit node in use as long as it is changed through refreshes only. A click
  does not update what is remembered: when the exit node is later set back to the remembered one
  by another way, the next refresh does nothing and the clicked node stays checked.
\<close>

lemma proxy_menu_current:
  assumes "tm_proxies m = proxy_items (tm_prevProxies m) (tm_prevProxyPeerID m)"
  shows "tm_proxies (refreshProxySubmenus x con c m) =
     proxy_items (ListAvailableProxies x con c) (sc_UsingPeerID (c_SOCKS5 c))"
  using assms by (auto simp: refreshProxySubmenus_def Let_def)

lemma proxy_menu_stale:
  fixes m x con c
  defines "shown \<equiv> refreshProxySubmenus x con c m"
  shows "refreshProxySubmenus x con c (snd (click_proxy i (cs, shown))) = snd (click_proxy i (cs, shown))"
  by (simp add: shown_def refreshProxySubmenus_def click_proxy_def Let_def)

end
