(* ===== verification/Tray_Linux.thy ===== *)
theory Tray_Linux
  imports Config_Defaults Awl_Embeds
begin

text \<open>
  How the tray program starts on Linux (\<open>src/cmd/awl-tray/os_hacks_linux.go\<close>): it runs itself again with
  root rights, hands the user's environment over in its arguments, finds the user under root, and
  installs its icon and desktop file (\<open>src/embeds/icon.go\<close>, \<open>src/embeds/dot_desktop_linux.go\<close>). The
  operating system and \<open>pkexec\<close> are arguments.
\<close>

section \<open>Environment\<close>

type_synonym environ = "string \<rightharpoonup> string"

definition Getenv :: "environ \<Rightarrow> string \<Rightarrow> string" where
  "Getenv e k = (case e k of None \<Rightarrow> [] | Some v \<Rightarrow> v)"

abbreviation nul :: char where
  "nul \<equiv> CHR 0x00"

text \<open>\<open>os.Setenv\<close> refuses an empty key, a key with an equals sign, and zero bytes.\<close>

definition Setenv :: "string \<Rightarrow> string \<Rightarrow> environ \<Rightarrow> environ" where
  "Setenv k v e = (if k = [] \<or> CHR ''='' \<in> set k \<or> nul \<in> set k \<union> set v then e else e(k \<mapsto> v))"

definition requiredEnvVars :: "string list" where
  "requiredEnvVars =
     [''AWL_DATA_DIR'', ''DISPLAY'', ''XAUTHORITY'', ''DBUS_SESSION_BUS_ADDRESS'', ''XDG_CONFIG_HOME'', ''HOME'', ''XDG_RUNTIME_DIR'',
      ''XDG_CURRENT_DESKTOP'', ''XDG_SESSION_TYPE'']"

definition WithEnvCommandName :: string where
  "WithEnvCommandName = ''with-env''"

definition root_args :: "string \<Rightarrow> environ \<Rightarrow> string list" where
  "root_args executable e =
     [executable, WithEnvCommandName] @
     map (\<lambda>k. k @ CHR ''='' # Getenv e k) (filter (\<lambda>k. Getenv e k \<noteq> []) requiredEnvVars)"

definition set_env :: "string \<Rightarrow> environ \<Rightarrow> environ" where
  "set_env env e = (case Cut env CHR ''='' of (key, val, exists) \<Rightarrow> if exists then Setenv key val e else e)"

definition setEnvFromArgs :: "string list \<Rightarrow> environ \<Rightarrow> environ" where
  "setEnvFromArgs args e =
     (if length args < 3 \<or> args ! 1 \<noteq> WithEnvCommandName then e else fold set_env (drop 2 args) e)"

text \<open>\<open>runItselfWithRoot\<close> always ends the process; the result is its exit code.\<close>

datatype pkexec_result = NotStarted | Finished int

definition runItselfWithRoot :: "string option \<Rightarrow> string list \<Rightarrow> (string list \<Rightarrow> pkexec_result) \<Rightarrow> environ \<Rightarrow> int" where
  "runItselfWithRoot osExecutable args pkexec e =
     (let executable = (case osExecutable of None \<Rightarrow> args ! 0 | Some x \<Rightarrow> x)
      in case pkexec (root_args executable e) of NotStarted \<Rightarrow> 1 | Finished n \<Rightarrow> n)"

section \<open>The user\<close>

text \<open>\<open>strconv.Atoi\<close> on 64 bits.\<close>

definition Atoi :: "string \<Rightarrow> int option" where
  "Atoi s =
     (let neg = (s \<noteq> [] \<and> hd s = CHR ''-'');
          d = (if s \<noteq> [] \<and> (hd s = CHR ''-'' \<or> hd s = CHR ''+'') then tl s else s);
          v = (if neg then - int (atoi d) else int (atoi d))
      in if d = [] \<or> \<not> list_all is_digit d \<or> v < - (2 ^ 63) \<or> 2 ^ 63 \<le> v then None else Some v)"

definition getUserIdUnderRoot :: "environ \<Rightarrow> int option" where
  "getUserIdUnderRoot e =
     (case Atoi (Getenv e ''SUDO_UID'') of
        Some u \<Rightarrow> Some u
      | None \<Rightarrow>
          (case Atoi (Getenv e ''PKEXEC_UID'') of
             Some u \<Rightarrow> Some u
           | None \<Rightarrow> Atoi (TrimPrefix (Getenv e ''XDG_RUNTIME_DIR'') ''/run/user/'')))"

record process =
  ps_env :: environ
  ps_euid :: int
  ps_nonRootUid :: int
  ps_filesOwner :: int

text \<open>\<open>ok u\<close>: whether the effective user can be set to \<open>u\<close>. Connecting to the bus has no effect here.\<close>

definition connectSessionDbus :: "(int \<Rightarrow> bool) \<Rightarrow> int \<Rightarrow> process \<Rightarrow> process" where
  "connectSessionDbus ok userUid p =
     (if \<not> ok userUid then p
      else let e = (if Getenv (ps_env p) ''DBUS_SESSION_BUS_ADDRESS'' = []
                    then Setenv ''DBUS_SESSION_BUS_ADDRESS'' (''unix:path=/run/user/'' @ (if userUid < 0 then CHR ''-'' # itoa (nat (- userUid)) else itoa (nat userUid)) @ ''/bus'') (ps_env p)
                    else ps_env p)
           in p\<lparr>ps_env := e, ps_euid := (if ok 0 then 0 else userUid)\<rparr>)"

definition getRealUserID :: "process \<Rightarrow> 32 word \<times> bool" where
  "getRealUserID p = (of_int (ps_nonRootUid p), ps_nonRootUid p \<noteq> 0)"

text \<open>The user a program is opened with: that of the desktop session, if it is known.\<close>

definition openURL :: "process \<Rightarrow> string \<Rightarrow> (32 word) option \<times> string" where
  "openURL p input = (case getRealUserID p of (uid, hasUID) \<Rightarrow> (if hasUID then Some uid else None, input))"

section \<open>Icon and desktop file\<close>

definition iconName :: string where
  "iconName = ''anywherelan.png''"

record icon_state =
  ic_appIconPath :: string
  ic_isTempIcon :: bool

datatype mkdir_result = Created | Exists | MkdirFailed

record icon_env =
  ie_GOOS :: string
  ie_homeDir :: "string option"
  ie_configDir :: "string option"
  ie_tempDir :: string
  ie_mkdir :: "string \<Rightarrow> mkdir_result"
  ie_stat :: "string \<Rightarrow> stat_result"
  ie_open :: "string \<Rightarrow> stream option"
  ie_writeOk :: "string \<Rightarrow> bool"

datatype icon_error = NoHomeDir | NoConfigDir | CreateDirFailed | WriteFileFailed

definition getIconDirLinux :: "icon_env \<Rightarrow> icon_error + string" where
  "getIconDirLinux e = (case ie_homeDir e of None \<Rightarrow> Inl NoHomeDir | Some h \<Rightarrow> Inr (path_Join h ''.local/share/icons''))"

definition getIconDirWindows :: "icon_env \<Rightarrow> icon_error + string" where
  "getIconDirWindows e = (case ie_configDir e of None \<Rightarrow> Inl NoConfigDir | Some d \<Rightarrow> Inr (path_Join d AppDataDirectory))"

definition getIconDirDefault :: "icon_env \<Rightarrow> string" where
  "getIconDirDefault e = ie_tempDir e"

text \<open>
  The result, the new package variables and the files written; \<open>None\<close> is the panic of
  \<open>checkIsFileEqual\<close>.
\<close>

definition EmbedIcon ::
    "icon_env \<Rightarrow> byte list \<Rightarrow> icon_state \<Rightarrow> ((icon_error + string) \<times> icon_state \<times> (string \<times> byte list) list) option" where
  "EmbedIcon e appIcon st =
     (let (dir, st1) =
        (if ie_GOOS e = ''linux'' then (getIconDirLinux e, st)
         else if ie_GOOS e = ''windows'' then (getIconDirWindows e, st)
         else (Inr (getIconDirDefault e), st\<lparr>ic_isTempIcon := True\<rparr>))
      in case dir of
           Inl err \<Rightarrow> Some (Inl err, st1, [])
         | Inr iconDir \<Rightarrow>
             if ie_mkdir e iconDir = MkdirFailed then Some (Inl CreateDirFailed, st1, [])
             else
               let iconPath = path_Join iconDir iconName
               in case checkIsFileEqual (ie_stat e iconPath) (ie_open e iconPath) appIcon of
                    None \<Rightarrow> None
                  | Some True \<Rightarrow> Some (Inr iconDir, st1\<lparr>ic_appIconPath := iconPath\<rparr>, [])
                  | Some False \<Rightarrow>
                      if \<not> ie_writeOk e iconPath then Some (Inl WriteFileFailed, st1, [])
                      else Some (Inr iconDir, st1\<lparr>ic_appIconPath := iconPath\<rparr>, [(iconPath, appIcon)]))"

definition RemoveIconIfNeeded :: "icon_state \<Rightarrow> string option" where
  \<comment> \<open>the file that is removed\<close>
  "RemoveIconIfNeeded st = (if length (ic_appIconPath st) = 0 then None else if \<not> ic_isTempIcon st then None else Some (ic_appIconPath st))"

text \<open>\<open>bytes.ReplaceAll\<close> of a text that is not empty.\<close>

function ReplaceAll :: "string \<Rightarrow> string \<Rightarrow> string \<Rightarrow> string" where
  "ReplaceAll old new s =
     (if old = [] \<or> s = [] then s
      else if HasPrefix s old then new @ ReplaceAll old new (drop (length old) s)
      else hd s # ReplaceAll old new (tl s))"
  by pat_completeness auto
termination
  by (relation "measure (\<lambda>(_, _, s). length s)") (auto simp: Suc_le_eq)

declare ReplaceAll.simps [simp del]

text \<open>The replacements are a map: \<open>execFirst\<close> is the order in which they happen to be visited.\<close>

definition EmbedDesktopFile ::
    "icon_env \<Rightarrow> string option \<Rightarrow> string \<Rightarrow> bool \<Rightarrow> string \<Rightarrow> string \<Rightarrow> icon_error + (string \<times> string) option" where
  "EmbedDesktopFile e executable version execFirst desktopFile iconPath =
     (if IsDevVersion version then Inr None
      else case ie_homeDir e of
        None \<Rightarrow> Inl NoHomeDir
      | Some homeDir \<Rightarrow>
          (case executable of
             None \<Rightarrow> Inl NoConfigDir
           | Some ex \<Rightarrow>
               let icon = ReplaceAll ''{ICONPATH}'' iconPath; exec = ReplaceAll ''{EXECPATH}'' ex;
                   desktopFileCopy = (if execFirst then icon (exec desktopFile) else exec (icon desktopFile));
                   filePath = path_Join (path_Join homeDir ''.local/share/applications'') ''awl.desktop''
               in if \<not> ie_writeOk e filePath then Inl WriteFileFailed else Inr (Some (filePath, desktopFileCopy))))"

section \<open>Start\<close>

text \<open>
  \<open>initOSSpecificHacks\<close>: the process ends with an exit code, or goes on with what it found. The icon and
  the desktop file are written only after the user is known.
\<close>

datatype start_result = ExitsWith int | GoesOn process "icon_state option" "string option"

definition initOSSpecificHacks ::
    "(environ \<Rightarrow> int) \<Rightarrow> string list \<Rightarrow> (int \<Rightarrow> bool) \<Rightarrow> (environ \<Rightarrow> (string \<times> icon_state) option) \<Rightarrow> process \<Rightarrow> start_result" where
  "initOSSpecificHacks runRoot args ok embedIcon p =
     (if ps_euid p \<noteq> 0 then ExitsWith (runRoot (ps_env p))
      else
        let p1 = p\<lparr>ps_env := setEnvFromArgs args (ps_env p)\<rparr>
        in case getUserIdUnderRoot (ps_env p1) of
             None \<Rightarrow> GoesOn p1 None None
           | Some uid \<Rightarrow>
               let p2 = connectSessionDbus ok uid (p1\<lparr>ps_nonRootUid := uid, ps_filesOwner := uid\<rparr>);
                   p3 = (if Getenv (ps_env p2) ''DISPLAY'' = [] then p2\<lparr>ps_env := Setenv ''DISPLAY'' '':0'' (ps_env p2)\<rparr> else p2)
               in case embedIcon (ps_env p3) of
                    None \<Rightarrow> GoesOn p3 None None
                  | Some (iconDir, st) \<Rightarrow> GoesOn p3 (Some st) (Some iconDir))"

section \<open>The environment is handed over\<close>

lemma set_env_pair: "CHR ''='' \<notin> set k \<Longrightarrow> set_env (k @ CHR ''='' # v) e = Setenv k v e"
  by (simp add: set_env_def Cut_found)

lemma fold_set_env:
  assumes "\<forall>k \<in> set ks. k \<noteq> [] \<and> CHR ''='' \<notin> set k \<and> nul \<notin> set k \<union> set (val k)" and "distinct ks"
  shows "fold set_env (map (\<lambda>k. k @ CHR ''='' # val k) ks) e = (\<lambda>k. if k \<in> set ks then Some (val k) else e k)"
  using assms
proof (induction ks arbitrary: e)
  case (Cons k ks)
  have "set_env (k @ CHR ''='' # val k) e = e(k \<mapsto> val k)" using Cons.prems(1) by (simp add: set_env_pair Setenv_def)
  then have "fold set_env (map (\<lambda>k. k @ CHR ''='' # val k) (k # ks)) e =
      (\<lambda>j. if j \<in> set ks then Some (val j) else (e(k \<mapsto> val k)) j)"
    using Cons by simp
  then show ?case by (auto simp: fun_eq_iff)
qed simp

lemma required_ok:
  "list_all (\<lambda>k. k \<noteq> [] \<and> CHR ''='' \<notin> set k \<and> nul \<notin> set k) requiredEnvVars" "distinct requiredEnvVars"
  by code_simp+

text \<open>
  The environment reaches the process with root rights: started with the arguments that the user's
  process passes, it has the user's value of every listed variable that is not empty there, whatever
  characters the values contain, and its own value of every other variable.
\<close>

theorem environment_handed_over:
  assumes "\<forall>k v. user k = Some v \<longrightarrow> nul \<notin> set v"
  shows "setEnvFromArgs (root_args executable user) e =
    (\<lambda>k. if k \<in> set requiredEnvVars \<and> Getenv user k \<noteq> [] then user k else e k)"
proof -
  let ?ks = "filter (\<lambda>k. Getenv user k \<noteq> []) requiredEnvVars"
  have "\<forall>k \<in> set ?ks. k \<noteq> [] \<and> CHR ''='' \<notin> set k \<and> nul \<notin> set k \<union> set (Getenv user k)"
    using required_ok(1) assms by (auto simp: list_all_iff Getenv_def split: option.splits)
  then have f: "fold set_env (map (\<lambda>k. k @ CHR ''='' # Getenv user k) ?ks) e =
      (\<lambda>k. if k \<in> set ?ks then Some (Getenv user k) else e k)"
    using fold_set_env [of ?ks "Getenv user" e] required_ok(2) by simp
  have "Some (Getenv user k) = user k" if "Getenv user k \<noteq> []" for k
    using that by (auto simp: Getenv_def split: option.splits)
  moreover have "setEnvFromArgs (root_args executable user) e = fold set_env (map (\<lambda>k. k @ CHR ''='' # Getenv user k) ?ks) e"
    by (cases "?ks = []") (auto simp: setEnvFromArgs_def root_args_def Suc_le_eq)
  ultimately show ?thesis by (auto simp: f fun_eq_iff)
qed

theorem environment_handed_over_witness:
  "setEnvFromArgs (root_args ''/usr/bin/awl-tray'' [''DISPLAY'' \<mapsto> '':1'', ''HOME'' \<mapsto> ''/home/a=b''])
     [''HOME'' \<mapsto> ''/root''] ''HOME'' = Some ''/home/a=b''"
proof -
  have v: "\<forall>k v. [''DISPLAY'' \<mapsto> '':1'', ''HOME'' \<mapsto> ''/home/a=b''] k = Some v \<longrightarrow> nul \<notin> set v" by auto
  have "''HOME'' \<in> set requiredEnvVars" by (simp add: requiredEnvVars_def)
  then show ?thesis
    by (simp only: environment_handed_over [OF v]) (simp add: Getenv_def)
qed

section \<open>User and icon\<close>

lemma atoi_digits: "Atoi (itoa n) = Some (int n)" if "n < 2 ^ 63"
proof -
  have d: "list_all is_digit (itoa n)" using itoa_digits by (simp add: list_all_iff)
  obtain c r where c: "itoa n = c # r" "is_digit c" using itoa_not_Nil [of n] d by (cases "itoa n") auto
  then have "c \<noteq> CHR ''-''" "c \<noteq> CHR ''+''" by (auto simp: is_digit_def)
  moreover have "atoi (c # r) = n" using atoi_itoa [of n] c(1) by simp
  ultimately show ?thesis using d c(1) that by (simp add: Atoi_def)
qed

text \<open>
  The user that is found: the one of \<open>sudo\<close> before the one of \<open>pkexec\<close> before the one of the session.
\<close>

lemma user_found:
  assumes "u < 2 ^ 63"
  shows "Getenv e ''SUDO_UID'' = itoa u \<Longrightarrow> getUserIdUnderRoot e = Some (int u)"
    "Atoi (Getenv e ''SUDO_UID'') = None \<Longrightarrow> Getenv e ''PKEXEC_UID'' = itoa u \<Longrightarrow> getUserIdUnderRoot e = Some (int u)"
    "Atoi (Getenv e ''SUDO_UID'') = None \<Longrightarrow> Atoi (Getenv e ''PKEXEC_UID'') = None \<Longrightarrow>
       Getenv e ''XDG_RUNTIME_DIR'' = ''/run/user/'' @ itoa u \<Longrightarrow> getUserIdUnderRoot e = Some (int u)"
  using assms by (simp_all add: getUserIdUnderRoot_def atoi_digits TrimPrefix_append [of "''/run/user/''", simplified])

text \<open>
  What \<open>EmbedIcon\<close> returns is the directory of the icon; the desktop file is written with it as the icon.
\<close>

lemma EmbedIcon_returns_directory:
  "EmbedIcon e icon st = Some (Inr d, st', ws) \<Longrightarrow> ic_appIconPath st' = path_Join d iconName"
  by (auto simp: EmbedIcon_def Let_def split: if_splits sum.splits option.splits bool.splits)

end
