(* ===== verification/Tray_Program.thy ===== *)
theory Tray_Program
  imports Server_Program Tray_Menu Tray_Linux
begin

text \<open>
  The tray program, \<open>src/cmd/awl-tray/main.go\<close>, \<open>tray.go\<close> and \<open>dialogs.go\<close>: its menu bar, what
  every click does, its dialogs and notifications. It refines the two-field tray of
  \<open>Awl_Lifecycle\<close>. Clicks are handled one after the other; drawing, dialogs and the updater
  are libraries whose answers are arguments.
\<close>

section \<open>The menu bar\<close>

record menu_item =
  mi_title :: string
  mi_enabled :: bool

definition AddMenuItem :: "string \<Rightarrow> menu_item" where
  "AddMenuItem title = \<lparr>mi_title = title, mi_enabled = True\<rparr>"

abbreviation item_Enable :: "menu_item \<Rightarrow> menu_item" where
  "item_Enable i \<equiv> i\<lparr>mi_enabled := True\<rparr>"

abbreviation item_Disable :: "menu_item \<Rightarrow> menu_item" where
  "item_Disable i \<equiv> i\<lparr>mi_enabled := False\<rparr>"

abbreviation item_SetTitle :: "menu_item \<Rightarrow> string \<Rightarrow> menu_item" where
  "item_SetTitle i title \<equiv> i\<lparr>mi_title := title\<rparr>"

record menu_bar =
  bar_status :: menu_item
  bar_peersCount :: menu_item
  bar_openBrowser :: menu_item
  bar_peers :: menu_item
  bar_proxy :: menu_item
  bar_startStop :: menu_item
  bar_restart :: menu_item
  bar_update :: menu_item

definition updateMenuLabel :: string where
  "updateMenuLabel = ''Check for updates''"

definition setPeersConnectedCounter :: "nat \<Rightarrow> menu_bar \<Rightarrow> menu_bar" where
  "setPeersConnectedCounter peers b =
     b\<lparr>bar_peersCount := item_SetTitle (bar_peersCount b) (''Peers connected: '' @ itoa peers)\<rparr>"

definition refreshMenusOnStoppedServer :: "menu_bar \<Rightarrow> menu_bar" where
  "refreshMenusOnStoppedServer b0 =
     (let b = setPeersConnectedCounter 0 (b0\<lparr>bar_status := item_SetTitle (bar_status b0) ''Status: stopped''\<rparr>)
      in b\<lparr>bar_openBrowser := item_Disable (bar_openBrowser b), bar_peers := item_Disable (bar_peers b),
           bar_proxy := item_Disable (bar_proxy b), bar_startStop := item_SetTitle (bar_startStop b) ''Start server'',
           bar_restart := item_Disable (bar_restart b)\<rparr>)"

definition initTray :: menu_bar where
  "initTray = refreshMenusOnStoppedServer
     \<lparr>bar_status = item_Disable (AddMenuItem []), bar_peersCount = item_Disable (AddMenuItem []),
      bar_openBrowser = AddMenuItem ''Open Web UI'', bar_peers = AddMenuItem ''Peers'', bar_proxy = AddMenuItem ''Proxy'',
      bar_startStop = AddMenuItem [], bar_restart = AddMenuItem ''Restart server'', bar_update = AddMenuItem updateMenuLabel\<rparr>"

text \<open>The package variables of the tray; \<open>ui_sub\<close> are the submenus of \<open>Tray_Menu\<close>.\<close>

record ui =
  ui_app :: "Application option"
  ui_bar :: menu_bar
  ui_sub :: tray_menus

text \<open>The titles and the submenus of a started server; \<open>con\<close> tells who is connected.\<close>

definition refreshMenusOnStartedServer :: "externals \<Rightarrow> (string \<Rightarrow> bool) \<Rightarrow> Config \<Rightarrow> ui \<Rightarrow> ui" where
  "refreshMenusOnStartedServer x con c u =
     (let b0 = ui_bar u;
          b = setPeersConnectedCounter 0 (b0\<lparr>bar_status := item_SetTitle (bar_status b0) ''Status: running''\<rparr>)
      in u\<lparr>ui_bar := b\<lparr>bar_openBrowser := item_Enable (bar_openBrowser b), bar_peers := item_Enable (bar_peers b),
             bar_proxy := item_Enable (bar_proxy b), bar_startStop := item_SetTitle (bar_startStop b) ''Stop server'',
             bar_restart := item_Enable (bar_restart b)\<rparr>,
           ui_sub := refreshProxySubmenus x con c (refreshPeersSubmenus x con c (ui_sub u))\<rparr>)"

definition connected_known :: "externals \<Rightarrow> (string \<Rightarrow> bool) \<Rightarrow> Config \<Rightarrow> nat" where
  "connected_known x con c = length (filter (\<lambda>k. con (PeerId (x_Decode x) k)) (gm_vals (c_KnownPeers c)))"

definition refreshPeersCounterOnPeersConnectionChanged ::
    "externals \<Rightarrow> (string \<Rightarrow> bool) \<Rightarrow> string option \<Rightarrow> Config \<Rightarrow> menu_bar \<Rightarrow> menu_bar" where
  "refreshPeersCounterOnPeersConnectionChanged x con peerID c b =
     (if peerID \<noteq> None \<and> GetPeer c (the peerID) = None then b
      else setPeersConnectedCounter (connected_known x con c) b)"

section \<open>Start and stop\<close>

definition ui_abort :: "Application \<Rightarrow> ui \<Rightarrow> (bool \<times> ui) alive" where
  "ui_abort a u =
     (case Close a of (_, panicked, _) \<Rightarrow> if panicked then Crashed else Alive (False, u\<lparr>ui_app := None\<rparr>))"

definition ui_InitServer :: "'k start_env \<Rightarrow> (string \<Rightarrow> bool) \<Rightarrow> ui \<Rightarrow> (bool \<times> ui) alive" where
  "ui_InitServer e con u =
     (case SetupLoggerAndConfig (se_def e) (se_files e) (se_diskOK e) New of
        None \<Rightarrow> ui_abort New u
      | Some a \<Rightarrow>
          (case Init (se_init e) a of (r, a1) \<Rightarrow>
             if r \<noteq> Done then ui_abort a1 u
             else let x = ie_x (se_init e); u1 = refreshMenusOnStartedServer x con (app_c a1) (u\<lparr>ui_app := Some a1\<rparr>)
               in Alive (True, u1\<lparr>ui_bar := refreshPeersCounterOnPeersConnectionChanged x con None (app_c a1) (ui_bar u1)\<rparr>)))"

text \<open>The deferred calls of \<open>StopServer\<close>: the menus are refreshed even when \<open>Close\<close> panics.\<close>

definition ui_StopServer :: "ui \<Rightarrow> ui" where
  "ui_StopServer u =
     (let u1 = (case ui_app u of
                  None \<Rightarrow> u
                | Some a \<Rightarrow>
                    (case Close a of (_, panicked, a1) \<Rightarrow> if panicked then u\<lparr>ui_app := Some a1\<rparr> else u\<lparr>ui_app := None\<rparr>))
      in u1\<lparr>ui_bar := refreshMenusOnStoppedServer (ui_bar u1)\<rparr>)"

section \<open>Dialogs\<close>

datatype dialog_answer = DialogOk | DialogCanceled | DialogError

definition showQuestionDialog :: "dialog_answer \<Rightarrow> bool" where
  "showQuestionDialog r = (case r of DialogCanceled \<Rightarrow> False | DialogError \<Rightarrow> True | DialogOk \<Rightarrow> True)"

text \<open>The user a dialog is shown to and its icon, title and text.\<close>

datatype dialog = ErrorDialog "(32 word) option" string string | InfoDialog "(32 word) option" string string

definition showErrorDialog :: "process \<Rightarrow> string \<Rightarrow> string \<Rightarrow> dialog" where
  "showErrorDialog p title message =
     (case getRealUserID p of (uid, hasUID) \<Rightarrow> ErrorDialog (if hasUID then Some uid else None) title message)"

definition showInfoDialog :: "process \<Rightarrow> string \<Rightarrow> string \<Rightarrow> dialog" where
  "showInfoDialog p title message =
     (case getRealUserID p of (uid, hasUID) \<Rightarrow> InfoDialog (if hasUID then Some uid else None) title message)"

definition handleErrorWithDialog :: "process \<Rightarrow> string option \<Rightarrow> dialog option" where
  "handleErrorWithDialog p err = map_option (showErrorDialog p ''Anywherelan error'') err"

section \<open>Clicks\<close>

text \<open>\<open>openOk\<close>: whether the file could be opened. The opened path and whether an error is shown.\<close>

definition onClickEditRawConfig :: "os_env \<Rightarrow> dialog_answer \<Rightarrow> bool \<Rightarrow> ui \<Rightarrow> (string \<times> bool) option \<times> ui" where
  "onClickEditRawConfig os answer openOk u =
     (if ui_app u \<noteq> None \<and> \<not> showQuestionDialog answer then (None, u)
      else let u1 = (if ui_app u \<noteq> None then ui_StopServer u else u);
               configPath = path_Join (CalcAppDataDir os) AppConfigFilename
        in (Some (configPath, \<not> openOk), u1))"

definition ui_getConfig :: "'k start_env \<Rightarrow> ui \<Rightarrow> (load_error + Config) option" where
  "ui_getConfig e u =
     (case ui_app u of Some a \<Rightarrow> Some (Inr (app_c a)) | None \<Rightarrow> LoadConfig (se_def e) (se_files e))"

record ('a, 'v) upd_env =
  ud_digit :: "nat \<Rightarrow> bool"
  ud_appConf :: "string \<Rightarrow> channel list \<Rightarrow> ApplicationType \<Rightarrow> 'a option"
  ud_version :: string
  ud_look :: "'a \<Rightarrow> 'v option \<times> check_status"
  ud_install :: "'v \<Rightarrow> bool"
  ud_cleanup :: bool

datatype click_update = ConfigUnread load_error | NoService update_error | NoCheck | UpToDateInfo | Declined | NotInstalled | UpdatedTo bool

text \<open>
  The body of \<open>onClickUpdateMenu\<close> after the menu is marked; \<open>None\<close> is a panic while the
  configuration is loaded. \<open>UpdatedTo\<close> carries whether the old files were removed.
\<close>

definition update_body :: "'k start_env \<Rightarrow> ('a, 'v) upd_env \<Rightarrow> dialog_answer \<Rightarrow> ui \<Rightarrow> (click_update \<times> ui) option" where
  "update_body e d answer u =
     (case ui_getConfig e u of
        None \<Rightarrow> None
      | Some (Inl err) \<Rightarrow> Some (ConfigUnread err, u)
      | Some (Inr conf) \<Rightarrow>
          (case NewUpdateService (ud_digit d) (ud_appConf d) (ud_version d) conf AppTypeAwlTray of
             Inl err \<Rightarrow> Some (NoService err, u)
           | Inr service \<Rightarrow>
               (case ud_look d service of (newVersion, st) \<Rightarrow>
                  (case CheckForUpdates newVersion st of
                     (_, True) \<Rightarrow> Some (NoCheck, u)
                   | (False, False) \<Rightarrow> Some (UpToDateInfo, u)
                   | (True, False) \<Rightarrow>
                       if \<not> showQuestionDialog answer then Some (Declined, u)
                       else if \<not> ud_install d (the newVersion) then Some (NotInstalled, u)
                       else Some (UpdatedTo (ud_cleanup d), ui_StopServer u)))))"

definition onClickUpdateMenu :: "'k start_env \<Rightarrow> ('a, 'v) upd_env \<Rightarrow> dialog_answer \<Rightarrow> ui \<Rightarrow> (click_update \<times> ui) alive" where
  "onClickUpdateMenu e d answer u =
     (let b = ui_bar u; u1 = u\<lparr>ui_bar := b\<lparr>bar_update := item_Disable (item_SetTitle (bar_update b) ''Checking...'')\<rparr>\<rparr>
      in case update_body e d answer u1 of
           None \<Rightarrow> Crashed
         | Some (r, u2) \<Rightarrow>
             Alive (r, u2\<lparr>ui_bar := (ui_bar u2)\<lparr>bar_update := item_Enable (item_SetTitle (bar_update (ui_bar u2)) updateMenuLabel)\<rparr>\<rparr>))"

text \<open>The text of the notification of a new version; \<open>tag\<close> and \<open>name\<close> are the library's.\<close>

definition checkForUpdatesWithDesktopNotification ::
    "'k start_env \<Rightarrow> ('a, 'v) upd_env \<Rightarrow> ('v \<Rightarrow> string) \<Rightarrow> ('v \<Rightarrow> string) \<Rightarrow> ui \<Rightarrow> (string \<times> string) option alive" where
  "checkForUpdatesWithDesktopNotification e d tag name u =
     (case ui_getConfig e u of
        None \<Rightarrow> Crashed
      | Some (Inl _) \<Rightarrow> Alive None
      | Some (Inr conf) \<Rightarrow>
          Alive (case checkForUpdates (ud_digit d) (ud_appConf d) (ud_version d) (ud_look d) AppTypeAwlTray conf of
             NewVersion v \<Rightarrow>
               Some (''Anywherelan: new version available!'',
                 ''Version '' @ tag v @ '': '' @ name v @ '' available for installation!'' @ [CHR 0x0A] @ ''Use tray menu option '' @
                 CHR 0x22 # updateMenuLabel @ [CHR 0x22, CHR 0x0A])
           | _ \<Rightarrow> None))"

definition friend_request_title :: "string \<Rightarrow> string" where
  "friend_request_title name =
     (if name \<noteq> [] then ''Anywherelan: friend request from '' @ name else ''Anywherelan: incoming friend request'')"

text \<open>\<open>get\<close>: the status and the readable body of a page.\<close>

definition bytes_Contains :: "string \<Rightarrow> string \<Rightarrow> bool" where
  "bytes_Contains b sub \<longleftrightarrow> list_ex (\<lambda>i. HasPrefix (drop i b) sub) [0..<Suc (length b)]"

definition checkURL :: "(string \<Rightarrow> (nat \<times> string) option) \<Rightarrow> string \<Rightarrow> bool" where
  "checkURL get url =
     (case get url of
        None \<Rightarrow> False
      | Some (status, body) \<Rightarrow>
          status = 200 \<and> bytes_Contains (take 8192 body @ replicate (8192 - length body) nul) ''Anywherelan'')"

definition openWebGUI :: "(string \<Rightarrow> (nat \<times> string) option) \<Rightarrow> string \<Rightarrow> string" where
  \<comment> \<open>the page that is opened\<close>
  "openWebGUI get apiAddress =
     (let adminURL = ''http://'' @ AdminHttpServerDomainName @ ''.'' @ LocalDomain
      in if checkURL get adminURL then adminURL else ''http://'' @ apiAddress)"

section \<open>Events\<close>

text \<open>
  What the goroutines of the tray wait for, and everything that they ask in answering it. Clicks reach the
  program only for enabled items; connections change only while the host runs.
\<close>

datatype ui_event = ClickOpenBrowser | ClickPeers | TrayOpened | ClickProxy nat | ClickStartStop | ClickRestart | ClickUpdate
  | ClickEditConfig | ConnectionChanged string

record ('k, 'a, 'v) ui_env =
  ue_start :: "'k start_env"
  ue_con :: "string \<Rightarrow> bool"
  ue_answer :: dialog_answer
  ue_upd :: "('a, 'v) upd_env"
  ue_openOk :: bool

definition possible :: "ui_event \<Rightarrow> ui \<Rightarrow> bool" where
  "possible ev u =
     (case ev of
        ClickOpenBrowser \<Rightarrow> mi_enabled (bar_openBrowser (ui_bar u))
      | ClickPeers \<Rightarrow> mi_enabled (bar_peers (ui_bar u))
      | ClickProxy i \<Rightarrow> mi_enabled (bar_proxy (ui_bar u)) \<and> i < length (tm_proxies (ui_sub u))
      | ClickStartStop \<Rightarrow> mi_enabled (bar_startStop (ui_bar u))
      | ClickRestart \<Rightarrow> mi_enabled (bar_restart (ui_bar u))
      | ClickUpdate \<Rightarrow> mi_enabled (bar_update (ui_bar u))
      | ConnectionChanged _ \<Rightarrow> ui_app u \<noteq> None
      | TrayOpened \<Rightarrow> True
      | ClickEditConfig \<Rightarrow> True)"

text \<open>Using the application while it is nil panics.\<close>

definition with_app :: "(Application \<Rightarrow> ui) \<Rightarrow> ui \<Rightarrow> ui alive" where
  "with_app f u = (case ui_app u of None \<Rightarrow> Crashed | Some a \<Rightarrow> Alive (f a))"

definition ui_handle :: "('k, 'a, 'v) ui_env \<Rightarrow> ui_event \<Rightarrow> ui \<Rightarrow> ui alive" where
  "ui_handle e ev u =
     (let x = ie_x (se_init (ue_start e)); con = ue_con e;
          start = (\<lambda>u. case ui_InitServer (ue_start e) con u of Crashed \<Rightarrow> Crashed | Alive (_, u1) \<Rightarrow> Alive u1)
      in case ev of
        ClickOpenBrowser \<Rightarrow> Alive u
      | ClickPeers \<Rightarrow> with_app (\<lambda>a. u\<lparr>ui_sub := refreshPeersSubmenus x con (app_c a) (ui_sub u)\<rparr>) u
      | TrayOpened \<Rightarrow>
          if ui_app u = None then Alive u
          else with_app (\<lambda>a. u\<lparr>ui_sub := refreshProxySubmenus x con (app_c a) (refreshPeersSubmenus x con (app_c a) (ui_sub u))\<rparr>) u
      | ClickProxy i \<Rightarrow>
          with_app (\<lambda>a. case click_proxy i (the (app_Conf a), ui_sub u) of
            (cs, m) \<Rightarrow> u\<lparr>ui_app := Some (a\<lparr>app_Conf := Some cs\<rparr>), ui_sub := m\<rparr>) u
      | ClickStartStop \<Rightarrow> if ui_app u \<noteq> None then Alive (ui_StopServer u) else start u
      | ClickRestart \<Rightarrow> start (ui_StopServer u)
      | ClickUpdate \<Rightarrow>
          (case onClickUpdateMenu (ue_start e) (ue_upd e) (ue_answer e) u of Crashed \<Rightarrow> Crashed | Alive (_, u1) \<Rightarrow> Alive u1)
      | ClickEditConfig \<Rightarrow> Alive (snd (onClickEditRawConfig (de_os (se_def (ue_start e))) (ue_answer e) (ue_openOk e) u))
      | ConnectionChanged p \<Rightarrow>
          with_app (\<lambda>a. u\<lparr>ui_bar := refreshPeersCounterOnPeersConnectionChanged x con (Some p) (app_c a) (ui_bar u)\<rparr>) u)"

definition ui_start :: ui where
  "ui_start = \<lparr>ui_app = None, ui_bar = initTray, ui_sub = zero_menus\<rparr>"

text \<open>\<open>onReady\<close>: the server is started like from the menu, and the periodic check with it.\<close>

definition onReady :: "(nat \<Rightarrow> nat \<Rightarrow> nat \<Rightarrow> nat) \<Rightarrow> string \<Rightarrow> 'k start_env \<Rightarrow> (string \<Rightarrow> bool) \<Rightarrow> (auto_check \<times> ui) alive" where
  "onReady frac version e con =
     (case ui_InitServer e con ui_start of
        Crashed \<Rightarrow> Crashed
      | Alive (_, u) \<Rightarrow>
          (case ui_getConfig e u of
             None \<Rightarrow> Crashed
           | Some (Inl _) \<Rightarrow> Alive (AutoOff, u)
           | Some (Inr conf) \<Rightarrow> Alive (auto_check_of frac version (c_Update conf), u)))"

definition onExit :: "icon_state \<Rightarrow> ui \<Rightarrow> string option \<times> ui" where
  \<comment> \<open>the icon file that is removed\<close>
  "onExit icon u = (RemoveIconIfNeeded icon, ui_StopServer u)"

inductive ui_step :: "ui \<Rightarrow> ui \<Rightarrow> bool" where
  event: "possible ev u \<Longrightarrow> ui_handle (e :: (unit, unit, unit) ui_env) ev u = Alive u' \<Longrightarrow> ui_step u u'"
| ui_run: "ui_app u = Some a \<Longrightarrow> app_runs x can a a' \<Longrightarrow> ui_step u (u\<lparr>ui_app := Some a'\<rparr>)"

definition ui_init :: "ui \<Rightarrow> bool" where
  "ui_init u \<longleftrightarrow> u = ui_start"

section \<open>The shape of the bar\<close>

text \<open>The bar of a running or stopped server with a number of connected peers.\<close>

definition bar_of :: "bool \<Rightarrow> nat \<Rightarrow> menu_bar" where
  "bar_of running n =
     \<lparr>bar_status = \<lparr>mi_title = if running then ''Status: running'' else ''Status: stopped'', mi_enabled = False\<rparr>,
      bar_peersCount = \<lparr>mi_title = ''Peers connected: '' @ itoa n, mi_enabled = False\<rparr>,
      bar_openBrowser = \<lparr>mi_title = ''Open Web UI'', mi_enabled = running\<rparr>,
      bar_peers = \<lparr>mi_title = ''Peers'', mi_enabled = running\<rparr>,
      bar_proxy = \<lparr>mi_title = ''Proxy'', mi_enabled = running\<rparr>,
      bar_startStop = \<lparr>mi_title = if running then ''Stop server'' else ''Start server'', mi_enabled = True\<rparr>,
      bar_restart = \<lparr>mi_title = ''Restart server'', mi_enabled = running\<rparr>,
      bar_update = \<lparr>mi_title = updateMenuLabel, mi_enabled = True\<rparr>\<rparr>"

lemma bar_ops:
  "refreshMenusOnStoppedServer ((bar_of r n)\<lparr>bar_update := i\<rparr>) = (bar_of False 0)\<lparr>bar_update := i\<rparr>"
  "refreshMenusOnStoppedServer (bar_of r n) = bar_of False 0"
  "setPeersConnectedCounter m (bar_of r n) = bar_of r m"
  "initTray = bar_of False 0"
  by (simp_all add: refreshMenusOnStoppedServer_def setPeersConnectedCounter_def bar_of_def initTray_def AddMenuItem_def Let_def)

lemma bar_started:
  "ui_bar u = bar_of r n \<Longrightarrow> refreshMenusOnStartedServer x con c u =
     u\<lparr>ui_bar := bar_of True 0, ui_sub := refreshProxySubmenus x con c (refreshPeersSubmenus x con c (ui_sub u))\<rparr>"
  by (simp add: refreshMenusOnStartedServer_def setPeersConnectedCounter_def bar_of_def Let_def)

lemma bar_counter:
  "refreshPeersCounterOnPeersConnectionChanged x con p c (bar_of r n) = bar_of r (if p \<noteq> None \<and> GetPeer c (the p) = None then n else connected_known x con c)"
  by (auto simp: refreshPeersCounterOnPeersConnectionChanged_def bar_ops)

lemma bar_enabled [simp]:
  "mi_enabled (bar_openBrowser (bar_of r n)) = r" "mi_enabled (bar_peers (bar_of r n)) = r"
  "mi_enabled (bar_proxy (bar_of r n)) = r" "mi_enabled (bar_startStop (bar_of r n))"
  "mi_enabled (bar_restart (bar_of r n)) = r" "mi_enabled (bar_update (bar_of r n))"
  "mi_title (bar_status (bar_of r n)) = ''Status: running'' \<longleftrightarrow> r"
  by (simp_all add: bar_of_def)

section \<open>Refinement of the tray\<close>

definition ui_abs :: "ui \<Rightarrow> tray" where
  "ui_abs u = \<lparr>tr_app = ui_app u, tr_started = (mi_title (bar_status (ui_bar u)) = ''Status: running'')\<rparr>"

definition ui_inv :: "ui \<Rightarrow> bool" where
  "ui_inv u \<longleftrightarrow> (\<exists>n. ui_bar u = bar_of (ui_app u \<noteq> None) n \<and> (ui_app u = None \<longrightarrow> n = 0)) \<and> (case ui_app u of None \<Rightarrow> True | Some a \<Rightarrow> started a)"

lemma ui_inv_abs: "ui_inv u \<Longrightarrow> tray_inv (ui_abs u)"
  by (auto simp: ui_inv_def ui_abs_def tray_inv_def)

lemma stop_app: "case ui_app u of None \<Rightarrow> True | Some a \<Rightarrow> started a \<Longrightarrow>
    ui_StopServer u = u\<lparr>ui_app := None, ui_bar := refreshMenusOnStoppedServer (ui_bar u)\<rparr>"
  using Close_started(2) [of "the (ui_app u)"]
  by (cases "Close (the (ui_app u))") (auto simp: ui_StopServer_def Let_def split: option.splits)

lemma ui_stop: "ui_inv u \<Longrightarrow> ui_StopServer u = u\<lparr>ui_app := None, ui_bar := bar_of False 0\<rparr>"
  using stop_app by (auto simp: ui_inv_def bar_ops)

lemma stop_refines: "ui_abs (ui_StopServer u) = tray_StopServer (ui_abs u)"
  by (auto simp: ui_StopServer_def tray_StopServer_def ui_abs_def refreshMenusOnStoppedServer_def setPeersConnectedCounter_def Let_def
      split: option.split prod.split)

definition abs_result :: "(bool \<times> ui) alive \<Rightarrow> (bool \<times> tray) alive" where
  "abs_result r = (case r of Crashed \<Rightarrow> Crashed | Alive (ok, u) \<Rightarrow> Alive (ok, ui_abs u))"

lemma init_refines: "abs_result (ui_InitServer e con u) = InitServer e (ui_abs u)"
  by (auto simp: abs_result_def ui_InitServer_def InitServer_def ui_abort_def tray_abort_def ui_abs_def
      refreshMenusOnStartedServer_def refreshPeersCounterOnPeersConnectionChanged_def setPeersConnectedCounter_def Let_def
      split: option.split prod.split if_splits)

lemma ui_InitServer_inv:
  assumes "ui_InitServer e con u = Alive (ok, u')" and "ui_bar u = bar_of False 0" and "ui_app u = None"
  shows "ui_inv u'"
proof -
  have abs: "ui_abs u = \<lparr>tr_app = None, tr_started = False\<rparr>" using assms(2,3) by (simp add: ui_abs_def)
  have "InitServer e (ui_abs u) = Alive (ok, ui_abs u')" using init_refines [of e con u] assms(1) by (simp add: abs_result_def)
  from InitServer_inv [OF this abs] have i: "tray_inv (ui_abs u')" by simp
  have "\<exists>n. ui_bar u' = bar_of (ui_app u' \<noteq> None) n \<and> (ui_app u' = None \<longrightarrow> n = 0)"
    using assms bar_started [of _ False 0]
    by (fastforce simp: ui_InitServer_def ui_abort_def bar_counter Let_def split: option.splits prod.splits if_splits)
  with i show ?thesis by (auto simp: ui_inv_def tray_inv_def ui_abs_def)
qed

text \<open>The update click restores its menu item, and stops the server only when it installed something.\<close>

lemma update_click_result:
  assumes "ui_inv u" and "onClickUpdateMenu e d answer u = Alive (r, u')"
  shows "u' = (case r of UpdatedTo _ \<Rightarrow> u\<lparr>ui_app := None, ui_bar := bar_of False 0\<rparr> | _ \<Rightarrow> u)"
    and "r = UpdatedTo ok \<Longrightarrow> answer \<noteq> DialogCanceled \<and> (\<exists>conf service v st. ui_getConfig e u = Some (Inr conf) \<and>
      NewUpdateService (ud_digit d) (ud_appConf d) (ud_version d) conf AppTypeAwlTray = Inr service \<and>
      ud_look d service = (Some v, st) \<and> st \<noteq> CheckFailure \<and> ud_install d v)"
proof -
  obtain n where b: "ui_bar u = bar_of (ui_app u \<noteq> None) n" using assms(1) by (auto simp: ui_inv_def)
  let ?u1 = "u\<lparr>ui_bar := (ui_bar u)\<lparr>bar_update := item_Disable (item_SetTitle (bar_update (ui_bar u)) ''Checking...'')\<rparr>\<rparr>"
  obtain u2 where u2: "update_body e d answer ?u1 = Some (r, u2)"
    "u' = u2\<lparr>ui_bar := (ui_bar u2)\<lparr>bar_update := item_Enable (item_SetTitle (bar_update (ui_bar u2)) updateMenuLabel)\<rparr>\<rparr>"
    using assms(2) by (auto simp: onClickUpdateMenu_def Let_def split: option.splits)
  have same: "(case r of UpdatedTo _ \<Rightarrow> u2 = ui_StopServer ?u1 | _ \<Rightarrow> u2 = ?u1)"
    using u2(1) by (auto simp: update_body_def split: option.splits sum.splits prod.splits bool.splits if_splits)
  have app: "case ui_app ?u1 of None \<Rightarrow> True | Some a \<Rightarrow> started a" using assms(1) by (simp add: ui_inv_def)
  have stop: "ui_StopServer ?u1 = u\<lparr>ui_app := None, ui_bar := (bar_of False 0)\<lparr>bar_update := bar_update (ui_bar ?u1)\<rparr>\<rparr>"
    unfolding stop_app [OF app] by (simp add: b bar_ops)
  obtain i where i: "u2 = (case r of UpdatedTo _ \<Rightarrow> u\<lparr>ui_app := None, ui_bar := (bar_of False 0)\<lparr>bar_update := i\<rparr>\<rparr>
      | _ \<Rightarrow> u\<lparr>ui_bar := (ui_bar u)\<lparr>bar_update := i\<rparr>\<rparr>)"
    using same unfolding stop by (cases r) auto
  have restore: "(bar_of q m)\<lparr>bar_update := item_Enable (item_SetTitle j updateMenuLabel)\<rparr> = bar_of q m" for q m j
    by (cases j) (simp add: bar_of_def)
  have keep: "u\<lparr>ui_bar := ui_bar u\<rparr> = u" by (cases u) simp
  have marked: "(ui_bar u)\<lparr>bar_update := item_Enable (item_SetTitle i updateMenuLabel)\<rparr> = ui_bar u" unfolding b by (rule restore)
  show "u' = (case r of UpdatedTo _ \<Rightarrow> u\<lparr>ui_app := None, ui_bar := bar_of False 0\<rparr> | _ \<Rightarrow> u)"
    unfolding u2(2) i using marked restore [where q = False and m = 0 and j = i] keep by (cases r) simp_all
  show "answer \<noteq> DialogCanceled \<and> (\<exists>conf service v st. ui_getConfig e u = Some (Inr conf) \<and>
      NewUpdateService (ud_digit d) (ud_appConf d) (ud_version d) conf AppTypeAwlTray = Inr service \<and>
      ud_look d service = (Some v, st) \<and> st \<noteq> CheckFailure \<and> ud_install d v)" if "r = UpdatedTo ok"
    using u2(1) that
    by (auto simp: update_body_def ui_getConfig_def showQuestionDialog_def CheckForUpdates_def
        split: option.splits sum.splits prod.splits bool.splits if_splits)
qed

lemma edit_config_result:
  assumes "ui_inv u"
  shows "onClickEditRawConfig os answer openOk u =
     (if ui_app u = None then (Some (path_Join (CalcAppDataDir os) AppConfigFilename, \<not> openOk), u)
      else if answer = DialogCanceled then (None, u)
      else (Some (path_Join (CalcAppDataDir os) AppConfigFilename, \<not> openOk), u\<lparr>ui_app := None, ui_bar := bar_of False 0\<rparr>))"
  using ui_stop [OF assms]
  by (cases answer) (auto simp: onClickEditRawConfig_def showQuestionDialog_def Let_def)

text \<open>Every event keeps the invariant and is a run of the abstract tray.\<close>

lemma stop_steps:
  assumes "ui_inv u"
  shows "tray_step\<^sup>*\<^sup>* (ui_abs u) (ui_abs (u\<lparr>ui_app := None, ui_bar := bar_of False 0\<rparr>))"
proof (cases "ui_app u")
  case None
  with assms show ?thesis by (auto simp: ui_abs_def ui_inv_def)
next
  case (Some a)
  then have "startStopMenu undefined (ui_abs u) = Alive (ui_abs (ui_StopServer u))"
    by (simp add: startStopMenu_def stop_refines) (simp add: ui_abs_def)
  then have "tray_step (ui_abs u) (ui_abs (ui_StopServer u))" by (rule tray_step.start_stop)
  with ui_stop [OF assms] show ?thesis by simp
qed

lemma start_steps:
  assumes "ui_inv u" and "ui_InitServer (e :: unit start_env) con (u\<lparr>ui_app := None, ui_bar := bar_of False 0\<rparr>) = Alive (ok, u')"
  shows "ui_inv u'" "tray_step\<^sup>*\<^sup>* (ui_abs u) (ui_abs u')"
proof -
  let ?u0 = "u\<lparr>ui_app := None, ui_bar := bar_of False 0\<rparr>"
  show "ui_inv u'" by (rule ui_InitServer_inv [OF assms(2)]) simp_all
  have "InitServer e (ui_abs ?u0) = Alive (ok, ui_abs u')" using init_refines [of e con ?u0] assms(2) by (simp add: abs_result_def)
  moreover have "tr_app (ui_abs ?u0) = None" by (simp add: ui_abs_def)
  ultimately have "startStopMenu e (ui_abs ?u0) = Alive (ui_abs u')" by (simp add: startStopMenu_def)
  then have "tray_step (ui_abs ?u0) (ui_abs u')" by (rule tray_step.start_stop)
  with stop_steps [OF assms(1)] show "tray_step\<^sup>*\<^sup>* (ui_abs u) (ui_abs u')" by simp
qed

lemma ui_stopped: "ui_inv u \<Longrightarrow> ui_inv (u\<lparr>ui_app := None, ui_bar := bar_of False 0\<rparr>)"
  by (auto simp: ui_inv_def)

lemma none_stopped: "ui_inv u \<Longrightarrow> ui_app u = None \<Longrightarrow> u\<lparr>ui_app := None, ui_bar := bar_of False 0\<rparr> = u"
  by (cases u) (auto simp: ui_inv_def)

lemma bar_ex [simp]: "\<exists>m. bar_of q k = bar_of q m"
  by blast

text \<open>Events that change neither the application nor the status.\<close>

lemma quiet_event:
  assumes "ui_inv u" and "possible ev u" and "ui_handle e ev u = Alive u'" and "ev \<in> {ClickOpenBrowser, ClickPeers, TrayOpened, ConnectionChanged p}"
  shows "ui_inv u' \<and> ui_abs u' = ui_abs u"
  using assms
  by (auto simp: ui_inv_def ui_abs_def ui_handle_def with_app_def bar_counter Let_def split: option.splits if_splits)

lemma proxy_event:
  assumes "ui_inv u" and "possible (ClickProxy i) u" and "ui_handle e (ClickProxy i) u = Alive u'"
  shows "ui_inv u' \<and> tray_step (ui_abs u) (ui_abs u')"
proof -
  obtain n a where a: "ui_app u = Some a" "started a" "ui_bar u = bar_of True n" "i < length (tm_proxies (ui_sub u))"
    using assms(1,2) by (auto simp: ui_inv_def possible_def split: option.splits)
  let ?cs = "SetProxyPeerID (pi_PeerID (tm_proxies (ui_sub u) ! i)) (the (app_Conf a))"
  have u': "ui_app u' = Some (a\<lparr>app_Conf := Some ?cs\<rparr>)" "ui_bar u' = ui_bar u"
    using assms(3) a by (auto simp: ui_handle_def with_app_def click_proxy_def)
  have "app_runs sample_ext id a (a\<lparr>app_Conf := Some ?cs\<rparr>)"
    using a(2) by (intro app_runs.configure [of _ "the (app_Conf a)"] conf_change.exit_node) (auto simp: started_def)
  then have "started (a\<lparr>app_Conf := Some ?cs\<rparr>)" "tray_step (ui_abs u) ((ui_abs u)\<lparr>tr_app := Some (a\<lparr>app_Conf := Some ?cs\<rparr>)\<rparr>)"
    by (rule app_runs_started [OF _ a(2)], rule tray_step.run [rotated]) (simp add: ui_abs_def a(1))
  with u' a show ?thesis by (auto simp: ui_inv_def ui_abs_def)
qed

lemma switch_event:
  assumes "ui_inv u" and "ui_handle (e :: (unit, 'a, 'v) ui_env) ev u = Alive u'" and "ev \<in> {ClickStartStop, ClickRestart, ClickUpdate, ClickEditConfig}"
  shows "ui_inv u' \<and> tray_step\<^sup>*\<^sup>* (ui_abs u) (ui_abs u')"
proof -
  let ?u0 = "u\<lparr>ui_app := None, ui_bar := bar_of False 0\<rparr>"
  consider "u' = u" | "u' = ?u0" | ok where "ui_InitServer (ue_start e) (ue_con e) ?u0 = Alive (ok, u')"
  proof (cases "ev = ClickUpdate")
    case True
    with assms(2) obtain r where "onClickUpdateMenu (ue_start e) (ue_upd e) (ue_answer e) u = Alive (r, u')"
      by (auto simp: ui_handle_def split: alive.splits)
    from update_click_result(1) [OF assms(1) this] show thesis using that by (cases r) auto
  next
    case False
    then show thesis
      using that assms edit_config_result [OF assms(1)] ui_stop [OF assms(1)] none_stopped [OF assms(1)]
      by (auto simp: ui_handle_def split: alive.splits if_splits)
  qed
  then show ?thesis
    by cases (use assms(1) ui_stopped stop_steps start_steps in auto)
qed

lemma ui_step_refines:
  assumes "ui_step u u'" and "ui_inv u"
  shows "ui_inv u' \<and> tray_step\<^sup>*\<^sup>* (ui_abs u) (ui_abs u')"
  using assms
proof (induction rule: ui_step.induct)
  case (event ev u e u')
  then show ?case
    using quiet_event [of u ev e u'] proxy_event [of u _ e u'] switch_event [of u e ev u'] by (cases ev) auto
next
  case (ui_run u a x can a')
  then have "started a'" using app_runs_started by (auto simp: ui_inv_def)
  moreover have "tray_step (ui_abs u) ((ui_abs u)\<lparr>tr_app := Some a'\<rparr>)"
    using ui_run by (intro tray_step.run) (auto simp: ui_abs_def)
  ultimately show ?case using ui_run by (auto simp: ui_inv_def ui_abs_def)
qed

interpretation ui_machine: inductive_invariant ui_init ui_step ui_inv
proof
  show "ui_init s \<Longrightarrow> ui_inv s" for s by (auto simp: ui_init_def ui_inv_def ui_start_def bar_ops)
  show "ui_inv s \<Longrightarrow> ui_step s t \<Longrightarrow> ui_inv t" for s t using ui_step_refines by blast
qed

lemma reachable_steps: "step\<^sup>*\<^sup>* s t \<Longrightarrow> reachable init step s \<Longrightarrow> reachable init step t"
proof (induction rule: rtranclp_induct)
  case (step t u)
  from reachable.reach_step [OF step.IH [OF step.prems] step.hyps(2)] show ?case .
qed

lemma ui_reachable: "reachable ui_init ui_step u \<Longrightarrow> ui_inv u \<and> reachable tray_init tray_step (ui_abs u)"
proof (induction rule: reachable.induct)
  case (reach_init u)
  then have "u = ui_start" by (simp add: ui_init_def)
  then have "tray_init (ui_abs u)" "ui_inv u"
    using ui_machine.inv_init by (simp_all add: ui_abs_def ui_start_def bar_ops tray_init_def ui_init_def)
  then show ?case by (blast intro: reachable.reach_init)
next
  case (reach_step u u')
  then have "ui_inv u'" "tray_step\<^sup>*\<^sup>* (ui_abs u) (ui_abs u')" using ui_step_refines by blast+
  with reachable_steps [of tray_step] reach_step.IH show ?case by blast
qed

text \<open>The start of the abstract tray, without a server.\<close>

abbreviation no_server :: tray where
  "no_server \<equiv> \<lparr>tr_app = None, tr_started = False\<rparr>"

lemma ui_crash:
  assumes "ui_inv u" and "possible ev u" and "ui_handle e ev u = Crashed"
  shows "(ev = ClickRestart \<or> ev = ClickStartStop \<and> ui_app u = None) \<and> InitServer (ue_start e) no_server = Crashed \<or>
     ev = ClickUpdate \<and> ui_app u = None \<and> LoadConfig (se_def (ue_start e)) (se_files (ue_start e)) = None"
proof -
  let ?u0 = "u\<lparr>ui_app := None, ui_bar := bar_of False 0\<rparr>"
  have start: "InitServer (ue_start e) no_server = Crashed" if "ui_InitServer (ue_start e) (ue_con e) v = Crashed" "ui_abs v = no_server" for v
    using init_refines [of "ue_start e" "ue_con e" v] that by (simp add: abs_result_def)
  have abs: "ui_abs ?u0 = no_server" "ui_app u = None \<Longrightarrow> ui_abs u = no_server"
    using assms(1) by (auto simp: ui_abs_def ui_inv_def)
  have upd: "onClickUpdateMenu (ue_start e) (ue_upd e) (ue_answer e) u = Crashed \<Longrightarrow>
      ui_app u = None \<and> LoadConfig (se_def (ue_start e)) (se_files (ue_start e)) = None"
    by (auto simp: onClickUpdateMenu_def update_body_def ui_getConfig_def Let_def
        split: option.splits sum.splits prod.splits bool.splits if_splits)
  show ?thesis
    using assms start [OF _ abs(1)] start [OF _ abs(2)] upd ui_stop [OF assms(1)]
    by (cases ev) (auto simp: ui_handle_def with_app_def possible_def ui_inv_def Let_def split: alive.splits if_splits option.splits prod.splits)
qed

section \<open>Properties\<close>


definition sample_upd :: "(unit, unit) upd_env" where
  "sample_upd = \<lparr>ud_digit = (\<lambda>_. False), ud_appConf = (\<lambda>_ _ _. Some ()), ud_version = ''v0.12.0'',
     ud_look = (\<lambda>_. (Some (), CheckSuccess)), ud_install = (\<lambda>_. True), ud_cleanup = True\<rparr>"

definition sample_ui :: "(string \<Rightarrow> bool) \<Rightarrow> (unit, unit, unit) ui_env" where
  "sample_ui canListen = \<lparr>ue_start = sample_start canListen, ue_con = (\<lambda>_. False), ue_answer = DialogOk, ue_upd = sample_upd, ue_openOk = True\<rparr>"

lemma sample_ui_start: "\<exists>u. ui_handle (sample_ui (\<lambda>_. True)) ClickStartStop ui_start = Alive u \<and> ui_app u \<noteq> None"
proof -
  let ?e = "sample_start (\<lambda>_. True)"
  obtain cs where cs: "SetupLoggerAndConfig (se_def ?e) (se_files ?e) (se_diskOK ?e) New = Some (new_app cs)"
    "vc_DisableVPNInterface (c_VPNConfig (cs_conf cs))" using sample_setup by blast
  have "fst (Init (se_init ?e) (new_app cs)) = Done"
    using sample_init_result [OF cs(2), of "\<lambda>_. True"] by (simp add: sample_start_def)
  then obtain a where "Init (se_init ?e) (new_app cs) = (Done, a)" by (metis prod.collapse)
  with cs(1) show ?thesis
    by (simp add: ui_handle_def sample_ui_def ui_InitServer_def ui_start_def refreshMenusOnStartedServer_def Let_def)
qed

lemma ui_start_reachable: "reachable ui_init ui_step ui_start"
  by (rule reachable.reach_init) (simp add: ui_init_def)

lemma sample_ui_reachable:
  "\<exists>u. ui_handle (sample_ui (\<lambda>_. True)) ClickStartStop ui_start = Alive u \<and> ui_app u \<noteq> None \<and> reachable ui_init ui_step u"
proof -
  obtain u where u: "ui_handle (sample_ui (\<lambda>_. True)) ClickStartStop ui_start = Alive u" "ui_app u \<noteq> None" using sample_ui_start by blast
  have "possible ClickStartStop ui_start" by (simp add: possible_def ui_start_def bar_ops)
  from reachable.reach_step [OF ui_start_reachable ui_step.event [OF this u(1)]] u show ?thesis by blast
qed


text \<open>
  The update click: whatever happens, the menu item is enabled under its label again. The server is
  stopped only after a new version, found with the configuration in use and not declined by the user,
  has been installed; in all other cases nothing has changed.
\<close>

theorem update_click_effect:
  assumes "reachable ui_init ui_step u" and "onClickUpdateMenu e d answer u = Alive (r, u')"
  shows "u' = (case r of UpdatedTo _ \<Rightarrow> u\<lparr>ui_app := None, ui_bar := bar_of False 0\<rparr> | _ \<Rightarrow> u) \<and>
    (\<forall>ok. r = UpdatedTo ok \<longrightarrow> answer \<noteq> DialogCanceled \<and> (\<exists>conf service v st. ui_getConfig e u = Some (Inr conf) \<and>
       NewUpdateService (ud_digit d) (ud_appConf d) (ud_version d) conf AppTypeAwlTray = Inr service \<and>
       ud_look d service = (Some v, st) \<and> st \<noteq> CheckFailure \<and> ud_install d v))"
proof -
  have "ui_inv u" using ui_reachable [OF assms(1)] by blast
  from update_click_result [OF this assms(2)] show ?thesis by blast
qed

theorem update_click_effect_witness:
  "\<exists>u u'. ui_app u \<noteq> None \<and> onClickUpdateMenu (sample_start (\<lambda>_. True)) sample_upd DialogError u = Alive (UpdatedTo True, u') \<and>
     ui_app u' = None \<and> ui_bar u' = bar_of False 0"
proof -
  obtain u where u: "ui_app u \<noteq> None" "reachable ui_init ui_step u" using sample_ui_reachable by blast
  then have "\<exists>u'. onClickUpdateMenu (sample_start (\<lambda>_. True)) sample_upd DialogError u = Alive (UpdatedTo True, u')"
    by (auto simp: onClickUpdateMenu_def update_body_def ui_getConfig_def sample_upd_def NewUpdateService_def IsDevVersion_def
        CheckForUpdates_def showQuestionDialog_def Let_def)
  then obtain u' where u': "onClickUpdateMenu (sample_start (\<lambda>_. True)) sample_upd DialogError u = Alive (UpdatedTo True, u')" by blast
  from update_click_effect [OF u(2) this] u(1) u' show ?thesis by auto
qed

end
