(* ===== verification/Go_Json.thy ===== *)
theory Go_Json
  imports Go_Utf8 Wire_Protocol
begin

text \<open>
  What the program uses of \<open>encoding/json\<close>: values, their text as \<open>json.Encoder\<close> writes it, reading
  a value from the front of a text as \<open>json.Decoder\<close> does, and storing it in a struct. A text is a
  string of bytes. The encoder escapes HTML characters (its default) and replaces bytes that are no
  UTF-8; the decoder accepts every JSON text up to its limit of nested values.
\<close>

section \<open>Values and their text\<close>

datatype json = JNull | JBool bool | JNum string | JStr string | JArr "json list" | JObj "(string \<times> json) list"

abbreviation quote_chr :: char where
  "quote_chr \<equiv> CHR 0x22"

abbreviation backslash :: char where
  "backslash \<equiv> CHR 0x5C"

definition hex_digit :: "nat \<Rightarrow> char" where
  "hex_digit n = char_of (if n < 10 then 48 + n else 87 + n)"

definition u_escape :: "nat \<Rightarrow> string" where
  "u_escape r = [backslash, CHR ''u'', hex_digit (r div 4096 mod 16), hex_digit (r div 256 mod 16),
     hex_digit (r div 16 mod 16), hex_digit (r mod 16)]"

text \<open>One code point of a string, with the bytes it was read from.\<close>

definition quote_rune :: "nat \<times> string \<Rightarrow> string" where
  "quote_rune x =
     (case x of (r, b) \<Rightarrow>
        if r < 0x80 then
          (if r = 34 \<or> r = 92 then backslash # b
           else if r = 8 then [backslash, CHR ''b''] else if r = 12 then [backslash, CHR ''f'']
           else if r = 10 then [backslash, CHR ''n''] else if r = 13 then [backslash, CHR ''r'']
           else if r = 9 then [backslash, CHR ''t'']
           else if r < 32 \<or> r = 60 \<or> r = 62 \<or> r = 38 then u_escape r
           else b)
        else if r = RuneError \<and> length b = 1 then u_escape RuneError
        else if r = 0x2028 \<or> r = 0x2029 then u_escape r
        else b)"

definition json_quote :: "string \<Rightarrow> string" where
  "json_quote s = quote_chr # concat (map quote_rune (runes s)) @ [quote_chr]"

fun commas :: "string list \<Rightarrow> string" where
  "commas [] = []"
| "commas [t] = t"
| "commas (t # ts) = t @ CHR '','' # commas ts"

primrec json_text :: "json \<Rightarrow> string" where
  "json_text JNull = ''null''"
| "json_text (JBool b) = (if b then ''true'' else ''false'')"
| "json_text (JNum n) = n"
| "json_text (JStr s) = json_quote s"
| "json_text (JArr vs) = CHR ''['' # commas (map json_text vs) @ '']''"
| "json_text (JObj ms) =
     CHR ''{'' # commas (map (\<lambda>(k, t). json_quote k @ CHR '':'' # t) (map (map_prod id json_text) ms)) @ ''}''"

section \<open>Reading a string\<close>

definition hex_val :: "char \<Rightarrow> nat option" where
  "hex_val c =
     (let n = of_char c :: nat
      in if 48 \<le> n \<and> n \<le> 57 then Some (n - 48)
         else if 97 \<le> n \<and> n \<le> 102 then Some (n - 87)
         else if 65 \<le> n \<and> n \<le> 70 then Some (n - 55) else None)"

fun getu4 :: "string \<Rightarrow> nat option" where
  "getu4 (b # u # c1 # c2 # c3 # c4 # _) =
     (if b = backslash \<and> u = CHR ''u'' then
        (case (hex_val c1, hex_val c2, hex_val c3, hex_val c4) of
           (Some d1, Some d2, Some d3, Some d4) \<Rightarrow> Some (((d1 * 16 + d2) * 16 + d3) * 16 + d4)
         | _ \<Rightarrow> None)
      else None)"
| "getu4 _ = None"

definition simple_escape :: "char \<Rightarrow> char option" where
  "simple_escape e =
     (if e \<in> {quote_chr, backslash, CHR ''/''} then Some e
      else if e = CHR ''b'' then Some (char_of (8 :: nat)) else if e = CHR ''f'' then Some (char_of (12 :: nat))
      else if e = CHR ''n'' then Some (char_of (10 :: nat)) else if e = CHR ''r'' then Some (char_of (13 :: nat))
      else if e = CHR ''t'' then Some (char_of (9 :: nat)) else None)"

text \<open>
  The character at the front of the rest of a literal: the bytes it stands for and what follows. A
  surrogate without its partner is replaced.
\<close>

definition unquote_step :: "string \<Rightarrow> (string \<times> string) option" where
  "unquote_step s =
     (if s = [] then None
      else if hd s = backslash then
        (if tl s = [] then None
         else if hd (tl s) = CHR ''u'' then
           (case getu4 s of
              None \<Rightarrow> None
            | Some rr \<Rightarrow>
                let s6 = drop 6 s
                in if 0xD800 \<le> rr \<and> rr < 0xE000 then
                     (case getu4 s6 of
                        Some r1 \<Rightarrow>
                          if rr < 0xDC00 \<and> 0xDC00 \<le> r1 \<and> r1 < 0xE000
                          then Some (encode_rune ((rr - 0xD800) * 0x400 + (r1 - 0xDC00) + 0x10000), drop 6 s6)
                          else Some (encode_rune RuneError, s6)
                      | None \<Rightarrow> Some (encode_rune RuneError, s6))
                   else Some (encode_rune rr, s6))
         else case simple_escape (hd (tl s)) of None \<Rightarrow> None | Some ch \<Rightarrow> Some ([ch], tl (tl s)))
      else if of_char (hd s) < (0x20 :: nat) then None
      else if of_char (hd s) < (0x80 :: nat) then Some ([hd s], tl s)
      else case DecodeRune s of (r, w) \<Rightarrow> Some (encode_rune r, drop w s))"

lemma unquote_step_shorter: "unquote_step s = Some (b, s') \<Longrightarrow> length s' < length s"
proof -
  assume a: "unquote_step s = Some (b, s')"
  have "s \<noteq> []" using a by (auto simp: unquote_step_def)
  moreover have "0 < snd (DecodeRune s)" using DecodeRune_width [of s] by simp
  ultimately show ?thesis
    using a by (cases s) (auto simp: unquote_step_def Let_def split: if_splits option.splits prod.splits)
qed

text \<open>The rest of a literal after its opening quote: the string and what follows the closing quote.\<close>

function unquote :: "string \<Rightarrow> (string \<times> string) option" where
  "unquote s =
     (if s = [] then None
      else if hd s = quote_chr then Some ([], tl s)
      else case unquote_step s of
        None \<Rightarrow> None
      | Some (b, s') \<Rightarrow> map_option (\<lambda>(t, rest). (b @ t, rest)) (unquote s'))"
  by pat_completeness auto
termination
  by (relation "measure length") (auto dest: unquote_step_shorter)

declare unquote.simps [simp del]

section \<open>Reading a value\<close>

definition skip_ws :: "string \<Rightarrow> string" where
  "skip_ws s = dropWhile (\<lambda>c. of_char c \<in> {32, 9, 10, 13 :: nat}) s"

definition digits1 :: "string \<Rightarrow> (string \<times> string) option" where
  "digits1 s = (let d = takeWhile is_digit s in if d = [] then None else Some (d, dropWhile is_digit s))"

definition num_int :: "string \<Rightarrow> (string \<times> string) option" where
  "num_int s =
     (case s of
        [] \<Rightarrow> None
      | c # r \<Rightarrow> if c = CHR ''0'' then Some ([c], r) else digits1 s)"

definition num_frac :: "string \<Rightarrow> (string \<times> string) option" where
  "num_frac s =
     (case s of
        c # r \<Rightarrow> if c = CHR ''.'' then map_option (\<lambda>(d, t). (c # d, t)) (digits1 r) else Some ([], s)
      | [] \<Rightarrow> Some ([], s))"

definition num_exp :: "string \<Rightarrow> (string \<times> string) option" where
  "num_exp s =
     (case s of
        c # r \<Rightarrow>
          if c = CHR ''e'' \<or> c = CHR ''E'' then
            (case r of
               g # r' \<Rightarrow> if g = CHR ''+'' \<or> g = CHR ''-'' then map_option (\<lambda>(d, t). (c # g # d, t)) (digits1 r')
                         else map_option (\<lambda>(d, t). (c # d, t)) (digits1 r)
             | [] \<Rightarrow> None)
          else Some ([], s)
      | [] \<Rightarrow> Some ([], s))"

definition parse_number :: "string \<Rightarrow> (string \<times> string) option" where
  "parse_number s =
     (let (sign, s1) = (if s \<noteq> [] \<and> hd s = CHR ''-'' then ([hd s], tl s) else ([], s))
      in case num_int s1 of
           None \<Rightarrow> None
         | Some (i, s2) \<Rightarrow>
             (case num_frac s2 of
                None \<Rightarrow> None
              | Some (f, s3) \<Rightarrow> map_option (\<lambda>(x, s4). (sign @ i @ f @ x, s4)) (num_exp s3)))"

text \<open>
  \<open>d\<close> is how many containers may still be opened; the second number of the loops bounds the
  members, of which a text cannot have more than bytes.
\<close>

function parse_value :: "nat \<Rightarrow> string \<Rightarrow> (json \<times> string) option"
  and parse_elems :: "nat \<Rightarrow> nat \<Rightarrow> string \<Rightarrow> (json list \<times> string) option"
  and parse_members :: "nat \<Rightarrow> nat \<Rightarrow> string \<Rightarrow> ((string \<times> json) list \<times> string) option" where
  "parse_value d s =
     (case skip_ws s of
        [] \<Rightarrow> None
      | c # r \<Rightarrow>
          if c = quote_chr then map_option (\<lambda>(x, t). (JStr x, t)) (unquote r)
          else if c = CHR ''{'' then
            (if d = 0 then None
             else case skip_ws r of
               [] \<Rightarrow> None
             | c2 # r2 \<Rightarrow> if c2 = CHR ''}'' then Some (JObj [], r2)
                          else map_option (\<lambda>(ms, t). (JObj ms, t)) (parse_members (d - 1) (length r) r))
          else if c = CHR ''['' then
            (if d = 0 then None
             else case skip_ws r of
               [] \<Rightarrow> None
             | c2 # r2 \<Rightarrow> if c2 = CHR '']'' then Some (JArr [], r2)
                          else map_option (\<lambda>(vs, t). (JArr vs, t)) (parse_elems (d - 1) (length r) r))
          else if HasPrefix (c # r) ''true'' then Some (JBool True, drop 4 (c # r))
          else if HasPrefix (c # r) ''false'' then Some (JBool False, drop 5 (c # r))
          else if HasPrefix (c # r) ''null'' then Some (JNull, drop 4 (c # r))
          else map_option (\<lambda>(n, t). (JNum n, t)) (parse_number (c # r)))"
| "parse_elems d n s =
     (if n = 0 then None
      else case parse_value d s of
        None \<Rightarrow> None
      | Some (v, t) \<Rightarrow>
          (case skip_ws t of
             [] \<Rightarrow> None
           | c # t' \<Rightarrow> if c = CHR '','' then map_option (\<lambda>(vs, z). (v # vs, z)) (parse_elems d (n - 1) t')
                       else if c = CHR '']'' then Some ([v], t') else None))"
| "parse_members d n s =
     (if n = 0 then None
      else case skip_ws s of
        [] \<Rightarrow> None
      | q # r \<Rightarrow>
          if q \<noteq> quote_chr then None
          else case unquote r of
            None \<Rightarrow> None
          | Some (k, t) \<Rightarrow>
              (case skip_ws t of
                 [] \<Rightarrow> None
               | c # t1 \<Rightarrow>
                   if c \<noteq> CHR '':'' then None
                   else case parse_value d t1 of
                     None \<Rightarrow> None
                   | Some (v, t2) \<Rightarrow>
                       (case skip_ws t2 of
                          [] \<Rightarrow> None
                        | e # t3 \<Rightarrow>
                            if e = CHR '','' then map_option (\<lambda>(ms, z). ((k, v) # ms, z)) (parse_members d (n - 1) t3)
                            else if e = CHR ''}'' then Some ([(k, v)], t3) else None)))"
  by pat_completeness auto
termination
  by (relation "measures [\<lambda>x. case x of Inl (d, s) \<Rightarrow> d | Inr (Inl (d, n, s)) \<Rightarrow> d | Inr (Inr (d, n, s)) \<Rightarrow> d,
      \<lambda>x. case x of Inl (d, s) \<Rightarrow> 0 | Inr (Inl (d, n, s)) \<Rightarrow> Suc n | Inr (Inr (d, n, s)) \<Rightarrow> Suc n]") auto

declare parse_value.simps [simp del] parse_elems.simps [simp del] parse_members.simps [simp del]

text \<open>The decoder's limit of nested values.\<close>

definition maxNestingDepth :: nat where
  "maxNestingDepth = 10000"

section \<open>Strings are read back\<close>

lemma hex_val_digit [simp]: "n < 16 \<Longrightarrow> hex_val (hex_digit n) = Some n"
  by (simp add: hex_val_def hex_digit_def Let_def)

lemma getu4_escape: "r < 65536 \<Longrightarrow> getu4 (u_escape r @ t) = Some r"
proof -
  assume "r < 65536"
  then have "r div 4096 < 16" by simp
  moreover from this have "r div 4096 mod 16 = r div 4096" by simp
  moreover have "r div 4096 * 16 + r div 256 mod 16 = r div 256" "r div 256 * 16 + r div 16 mod 16 = r div 16"
    using mod_div_mult_eq [of "r div 256" 16] mod_div_mult_eq [of "r div 16" 16]
    by (simp_all add: div_mult2_eq [of r 256 16, simplified] div_mult2_eq [of r 16 16, simplified])
  ultimately show ?thesis by (simp add: u_escape_def)
qed

lemma unquote_escape:
  assumes "r < 65536" and "\<not> (0xD800 \<le> r \<and> r < 0xE000)"
  shows "unquote_step (u_escape r @ t) = Some (encode_rune r, t)"
proof -
  define e where "e = u_escape r @ t"
  have "e \<noteq> []" "hd e = backslash" "tl e \<noteq> []" "hd (tl e) = CHR ''u''" "drop 6 e = t"
    by (simp_all add: e_def u_escape_def)
  moreover have "getu4 e = Some r" unfolding e_def by (rule getu4_escape [OF assms(1)])
  ultimately show ?thesis using assms(2) by (auto simp: unquote_step_def e_def [symmetric] Let_def)
qed

definition segment :: "nat \<times> string \<Rightarrow> bool" where
  "segment x \<longleftrightarrow> encode_rune (fst x) = snd x \<or> fst x = RuneError \<and> length (snd x) = 1"

lemma encode_ascii: "r < 0x80 \<Longrightarrow> encode_rune r = [char_of r]"
  by (simp add: encode_rune_def)

lemma encode_not_ascii: "0x80 \<le> r \<Longrightarrow> \<exists>c cs. encode_rune r = c # cs \<and> 0x80 \<le> (of_char c :: nat)"
proof -
  assume r: "0x80 \<le> r"
  have s: "0x80 \<le> scalar r" using r by (simp add: scalar_def RuneError_def)
  obtain b bs where b: "utf8 (scalar r) = b # bs" "0x80 \<le> b" using s
    by (cases "scalar r < 0x800"; cases "scalar r < 0x10000") (auto simp: utf8_def)
  have "b < 256" using utf8_less [of "scalar r"] scalar_range [of r] b(1) by auto
  with b show ?thesis by (simp add: encode_rune_utf8)
qed

lemma quote_chars: "char_of (34 :: nat) = quote_chr" "char_of (92 :: nat) = backslash"
  by code_simp+

lemma quote_rune_ascii:
  assumes "r < 0x80"
  shows "unquote_step (quote_rune (r, [char_of r]) @ t) = Some ([char_of r], t)"
proof -
  have esc: "unquote_step (u_escape r @ t) = Some ([char_of r], t)" using assms by (simp add: unquote_escape encode_ascii)
  consider "r = 34 \<or> r = 92" | "r \<in> {8, 9, 10, 12, 13}" | "r \<notin> {8, 9, 10, 12, 13}" "r < 32 \<or> r = 60 \<or> r = 62 \<or> r = 38"
    | "32 \<le> r" "r \<notin> {34, 92, 60, 62, 38}" by fastforce
  then show ?thesis
  proof cases
    case 1
    then show ?thesis by (elim disjE) (simp_all add: quote_rune_def unquote_step_def simple_escape_def quote_chars)
  next
    case 2
    then have "r = 8 \<or> r = 9 \<or> r = 10 \<or> r = 12 \<or> r = 13" by blast
    then show ?thesis by (elim disjE) (simp_all add: quote_rune_def unquote_step_def simple_escape_def)
  next
    case 3
    then show ?thesis using esc assms by (auto simp: quote_rune_def)
  next
    case 4
    have "char_of r \<noteq> backslash"
    proof
      assume "char_of r = backslash"
      then have "(of_char (char_of r :: char) :: nat) = of_char backslash" by simp
      with 4 assms show False by simp
    qed
    then show ?thesis using 4 assms by (simp add: quote_rune_def unquote_step_def)
  qed
qed

lemma quote_rune_step:
  assumes "segment (r, b)"
  shows "unquote_step (quote_rune (r, b) @ t) = Some (encode_rune r, t)"
proof (cases "r < 0x80")
  case True
  then have "b = [char_of r]" using assms encode_ascii by (auto simp: segment_def RuneError_def)
  with True show ?thesis using quote_rune_ascii encode_ascii by simp
next
  case False
  show ?thesis
  proof (cases "r = RuneError \<and> length b = 1 \<or> r = 0x2028 \<or> r = 0x2029")
    case True
    then have "quote_rune (r, b) = u_escape r" using False by (auto simp: quote_rune_def)
    moreover have "r < 65536" "\<not> (0xD800 \<le> r \<and> r < 0xE000)" using True by (auto simp: RuneError_def)
    ultimately show ?thesis by (simp add: unquote_escape)
  next
    case plain: False
    then have b: "quote_rune (r, b) = b" "b = encode_rune r" using False assms by (auto simp: quote_rune_def segment_def)
    obtain c cs where c: "b = c # cs" "0x80 \<le> (of_char c :: nat)" using encode_not_ascii [of r] False b(2) by auto
    have "c \<noteq> backslash" using c(2) by auto
    then show ?thesis using c b DecodeRune_encode [of r t] by (simp add: unquote_step_def)
  qed
qed

lemma quote_rune_not_Nil:
  assumes "segment x"
  shows "\<exists>c cs. quote_rune x = c # cs \<and> c \<noteq> quote_chr"
proof -
  obtain r b where x: "x = (r, b)" by fastforce
  show ?thesis
  proof (cases "r < 0x80")
    case True
    then have "b = [char_of r]" using assms x encode_ascii by (auto simp: segment_def RuneError_def)
    moreover have "char_of r \<noteq> quote_chr" if "r \<noteq> 34"
    proof
      assume "char_of r = quote_chr"
      then have "(of_char (char_of r :: char) :: nat) = of_char quote_chr" by simp
      with that True show False by simp
    qed
    ultimately show ?thesis using True x by (auto simp: quote_rune_def u_escape_def)
  next
    case False
    show ?thesis
    proof (cases "r = RuneError \<and> length b = 1 \<or> r = 0x2028 \<or> r = 0x2029")
      case True
      then show ?thesis using False x by (auto simp: quote_rune_def u_escape_def)
    next
      case plain: False
      then have "quote_rune x = encode_rune r" using False assms x by (auto simp: quote_rune_def segment_def)
      moreover obtain c cs where c: "encode_rune r = c # cs" "0x80 \<le> (of_char c :: nat)"
        using encode_not_ascii [of r] False by auto
      moreover have "c \<noteq> quote_chr" using c(2) by auto
      ultimately show ?thesis by simp
    qed
  qed
qed

lemma unquote_segments:
  "list_all segment xs \<Longrightarrow>
     unquote (concat (map quote_rune xs) @ quote_chr # rest) = Some (concat (map (\<lambda>x. encode_rune (fst x)) xs), rest)"
proof (induction xs)
  case Nil
  show ?case by (simp add: unquote.simps)
next
  case (Cons x xs)
  let ?t = "concat (map quote_rune xs) @ quote_chr # rest"
  obtain c cs where c: "quote_rune x = c # cs" "c \<noteq> quote_chr" using quote_rune_not_Nil [of x] Cons.prems by auto
  have "unquote_step (quote_rune x @ ?t) = Some (encode_rune (fst x), ?t)"
    using quote_rune_step [of "fst x" "snd x"] Cons.prems by simp
  then have "unquote (quote_rune x @ ?t) = map_option (\<lambda>(u, r). (encode_rune (fst x) @ u, r)) (unquote ?t)"
    using c by (subst unquote.simps) simp
  with Cons show ?case by simp
qed

lemma unquote_quoted: "unquote (concat (map quote_rune (runes s)) @ quote_chr # rest) = Some (to_valid s, rest)"
proof -
  have "list_all segment (runes s)" using runes_segments by (auto simp: list_all_iff segment_def)
  then show ?thesis by (simp add: unquote_segments to_valid_def map_runes_def)
qed

section \<open>Values are read back\<close>

lemma unquote_shorter: "unquote s = Some (x, t) \<Longrightarrow> length t < length s"
proof (induction s arbitrary: x rule: unquote.induct)
  case (1 s)
  show ?case
  proof (cases "s = [] \<or> hd s = quote_chr")
    case True
    then show ?thesis using 1(2) by (cases s) (auto simp: unquote.simps)
  next
    case False
    then obtain b s' y where u: "unquote_step s = Some (b, s')" "unquote s' = Some (y, t)"
      using 1(2) by (auto simp: unquote.simps [of s] split: option.splits)
    then have "length t < length s'" using 1(1) False by auto
    with unquote_step_shorter [OF u(1)] show ?thesis by simp
  qed
qed

lemma skip_ws_shorter: "length (skip_ws s) \<le> length s"
  by (simp add: skip_ws_def length_dropWhile_le)

lemma digits1_shorter: "digits1 s = Some (d, t) \<Longrightarrow> length t < length s"
proof -
  assume "digits1 s = Some (d, t)"
  then have d: "takeWhile is_digit s \<noteq> []" "t = dropWhile is_digit s" by (auto simp: digits1_def Let_def split: if_splits)
  have "length (takeWhile is_digit s) + length t = length s"
    by (metis d(2) length_append takeWhile_dropWhile_id)
  with d(1) show ?thesis by (cases "takeWhile is_digit s") auto
qed

lemma parse_number_shorter: "parse_number s = Some (n, t) \<Longrightarrow> length t < length s"
proof -
  assume a: "parse_number s = Some (n, t)"
  have int: "num_int u = Some (i, u') \<Longrightarrow> length u' < length u" for u i u'
    by (auto simp: num_int_def split: list.splits if_splits dest: digits1_shorter)
  have frac: "num_frac u = Some (i, u') \<Longrightarrow> length u' \<le> length u" for u i u'
    by (auto simp: num_frac_def split: list.splits if_splits dest: digits1_shorter)
  have exp: "num_exp u = Some (i, u') \<Longrightarrow> length u' \<le> length u" for u i u'
    by (auto simp: num_exp_def split: list.splits if_splits dest: digits1_shorter)
  obtain sg s1 where s1: "(if s \<noteq> [] \<and> hd s = CHR ''-'' then ([hd s], tl s) else ([], s)) = (sg, s1)" by fastforce
  then have "length s1 \<le> length s" by (auto split: if_splits)
  moreover obtain i s2 f s3 x where "num_int s1 = Some (i, s2)" "num_frac s2 = Some (f, s3)" "num_exp s3 = Some (x, t)"
    using a s1 by (auto simp: parse_number_def split: option.splits)
  ultimately show ?thesis using int frac exp by (meson le_less_trans less_le_trans)
qed

lemma HasPrefix_shorter: "HasPrefix s p \<Longrightarrow> p \<noteq> [] \<Longrightarrow> length (drop (length p) s) < length s"
  by (cases "s = []") (auto simp: HasPrefix_def)

lemma parse_shorter:
  "parse_value d s = Some (v, t) \<Longrightarrow> length t < length s"
  "parse_elems d n s = Some (vs, t) \<Longrightarrow> length t < length s"
  "parse_members d n s = Some (ms, t) \<Longrightarrow> length t < length s"
proof (induction d s and d n s and d n s arbitrary: v t and vs t and ms t
    rule: parse_value_parse_elems_parse_members.induct)
  case (1 d s)
  obtain c r where cr: "skip_ws s = c # r" using 1(3) by (auto simp: parse_value.simps [of d s] split: list.splits)
  have len: "Suc (length r) \<le> length s" using skip_ws_shorter [of s] cr by simp
  have tail: "skip_ws r = c2 # r2 \<Longrightarrow> length r2 < length s" for c2 r2 using skip_ws_shorter [of r] len by simp
  have mem: "length u < length r" if "c = CHR ''{''" "d \<noteq> 0" "skip_ws r = c2 # r2" "c2 \<noteq> CHR ''}''"
    "parse_members (d - 1) (length r) r = Some (ms, u)" for c2 r2 ms u
    using 1(1) [OF cr _ _ _ that(3)] that by fastforce
  have el: "length u < length r" if "c = CHR ''[''" "d \<noteq> 0" "skip_ws r = c2 # r2" "c2 \<noteq> CHR '']''"
    "parse_elems (d - 1) (length r) r = Some (vs, u)" for c2 r2 vs u
    using 1(2) [OF cr _ _ _ _ that(3)] that by fastforce
  have "length t < Suc (length r) \<or> length t < length s"
    using 1(3) cr tail HasPrefix_shorter [of "c # r" "''true''"] HasPrefix_shorter [of "c # r" "''false''"]
      HasPrefix_shorter [of "c # r" "''null''"]
    by (auto simp: parse_value.simps [of d s] split: if_splits list.splits option.splits
        dest!: unquote_shorter parse_number_shorter dest: mem el)
  with len show ?case by linarith
next
  case (2 d n s)
  then obtain v u c u' where v: "n \<noteq> 0" "parse_value d s = Some (v, u)" "skip_ws u = c # u'"
    by (auto simp: parse_elems.simps [of d n s] split: if_splits option.splits list.splits)
  have u: "length u < length s" "length u' < length u" using 2(1) v skip_ws_shorter [of u] by auto
  have rec: "length z < length u'" if "c = CHR '',''" "parse_elems d (n - 1) u' = Some (ws, z)" for ws z
    using 2(2) v that by fastforce
  show ?case
    using 2(3) v u rec by (fastforce simp: parse_elems.simps [of d n s] split: if_splits option.splits)
next
  case (3 d n s)
  then obtain r k u u1 v u2 c u3 where v: "n \<noteq> 0" "skip_ws s = quote_chr # r" "unquote r = Some (k, u)"
    "skip_ws u = CHR '':'' # u1" "parse_value d u1 = Some (v, u2)" "skip_ws u2 = c # u3"
    by (auto simp: parse_members.simps [of d n s] split: if_splits option.splits list.splits)
  have u: "length u2 < length u1" "length u1 < length u" "length u < length r" "length r < length s" "length u3 < length u2"
    using 3(1) v skip_ws_shorter [of s] skip_ws_shorter [of u] skip_ws_shorter [of u2] unquote_shorter [OF v(3)] by auto
  have rec: "length z < length u3" if "c = CHR '',''" "parse_members d (n - 1) u3 = Some (ws, z)" for ws z
    using 3(2) v that by fastforce
  show ?case
    using 3(3) v u rec by (fastforce simp: parse_members.simps [of d n s] split: if_splits option.splits)
qed

text \<open>The bound of the loops is never met: any larger one gives the same result.\<close>

lemma parse_fuel:
  "length s \<le> n \<Longrightarrow> length s \<le> m \<Longrightarrow> parse_elems d n s = parse_elems d m s"
  "length s \<le> n \<Longrightarrow> length s \<le> m \<Longrightarrow> parse_members d n s = parse_members d m s"
proof (induction "length s" arbitrary: s n m rule: less_induct)
  case less
  {
    case 1
    show ?case
    proof (cases "s = []")
      case True
      then show ?thesis by (simp add: parse_elems.simps parse_value.simps skip_ws_def)
    next
      case False
      then have nm: "n \<noteq> 0" "m \<noteq> 0" using 1 by (cases s; auto)+
      have rec: "parse_elems d (n - 1) u = parse_elems d (m - 1) u" if "length u < length s" for u
        using less(1) [OF that] 1 that nm by simp
      have "length u' < length s" if "parse_value d s = Some (v, u)" "skip_ws u = c # u'" for v u c u'
        using parse_shorter(1) [OF that(1)] skip_ws_shorter [of u] that(2) by simp
      with rec nm show ?thesis
        by (auto simp: parse_elems.simps [of d n s] parse_elems.simps [of d m s] split: option.splits list.splits)
    qed
  next
    case 2
    show ?case
    proof (cases "s = []")
      case True
      then show ?thesis by (simp add: parse_members.simps skip_ws_def)
    next
      case False
      then have nm: "n \<noteq> 0" "m \<noteq> 0" using 2 by (cases s; auto)+
      have rec: "parse_members d (n - 1) u = parse_members d (m - 1) u" if "length u < length s" for u
        using less(2) [OF that] 2 that nm by simp
      have "length u3 < length s"
        if "skip_ws s = q # r" "unquote r = Some (k, u)" "skip_ws u = c # u1" "parse_value d u1 = Some (v, u2)"
          "skip_ws u2 = e # u3" for q r k u c u1 v u2 e u3
        using parse_shorter(1) [OF that(4)] unquote_shorter [OF that(2)] skip_ws_shorter [of u] skip_ws_shorter [of u2]
          skip_ws_shorter [of s] that by simp
      with rec nm show ?thesis
        by (auto simp: parse_members.simps [of d n s] parse_members.simps [of d m s] split: option.splits list.splits)
    qed
  }
qed

text \<open>A number ends where a character follows that could not continue it.\<close>

definition stops :: "string \<Rightarrow> bool" where
  "stops rest \<longleftrightarrow> rest = [] \<or> \<not> is_digit (hd rest) \<and> hd rest \<notin> {CHR ''.'', CHR ''e'', CHR ''E''}"

lemma digits1_append: "digits1 s = Some (d, t) \<Longrightarrow> stops rest \<Longrightarrow> digits1 (s @ rest) = Some (d, t @ rest)"
proof -
  assume a: "digits1 s = Some (d, t)" "stops rest"
  have "takeWhile is_digit (s @ rest) = takeWhile is_digit s" "dropWhile is_digit (s @ rest) = dropWhile is_digit s @ rest"
  proof -
    have r: "takeWhile is_digit rest = []" "dropWhile is_digit rest = rest" using a(2) by (cases rest; auto simp: stops_def)+
    show "takeWhile is_digit (s @ rest) = takeWhile is_digit s" using r(1)
      by (cases "\<forall>c \<in> set s. is_digit c") (auto simp: takeWhile_append takeWhile_eq_all_conv [THEN iffD2])
    show "dropWhile is_digit (s @ rest) = dropWhile is_digit s @ rest" using r(2)
      by (cases "\<forall>c \<in> set s. is_digit c") (auto simp: dropWhile_append)
  qed
  with a(1) show ?thesis by (auto simp: digits1_def Let_def split: if_splits)
qed

lemma parse_number_append:
  assumes "parse_number n = Some (n, [])" and "stops rest"
  shows "parse_number (n @ rest) = Some (n, rest)"
proof -
  have int: "num_int u = Some (i, u') \<Longrightarrow> num_int (u @ rest) = Some (i, u' @ rest)" for u i u'
    using digits1_append [OF _ assms(2), of u] by (auto simp: num_int_def split: list.splits if_splits)
  have frac: "num_frac u = Some (i, u') \<Longrightarrow> num_frac (u @ rest) = Some (i, u' @ rest)" for u i u'
  proof (cases u)
    case Nil
    assume "num_frac u = Some (i, u')"
    with Nil show ?thesis using assms(2) by (cases rest) (auto simp: num_frac_def stops_def)
  next
    case (Cons c r)
    assume "num_frac u = Some (i, u')"
    with Cons show ?thesis using digits1_append [OF _ assms(2), of r] by (auto simp: num_frac_def split: if_splits)
  qed
  have exp: "num_exp u = Some (i, u') \<Longrightarrow> num_exp (u @ rest) = Some (i, u' @ rest)" for u i u'
  proof (cases u)
    case Nil
    assume "num_exp u = Some (i, u')"
    with Nil show ?thesis using assms(2) by (cases rest) (auto simp: num_exp_def stops_def)
  next
    case (Cons c r)
    assume "num_exp u = Some (i, u')"
    with Cons show ?thesis
      using digits1_append [OF _ assms(2), of r] digits1_append [OF _ assms(2), of "tl r"]
      by (auto simp: num_exp_def split: if_splits list.splits)
  qed
  obtain sg s1 where s1: "(if n \<noteq> [] \<and> hd n = CHR ''-'' then ([hd n], tl n) else ([], n)) = (sg, s1)" by fastforce
  have ne: "n \<noteq> []" using assms(1) by (auto simp: parse_number_def num_int_def)
  then have s1': "(if n @ rest \<noteq> [] \<and> hd (n @ rest) = CHR ''-'' then ([hd (n @ rest)], tl (n @ rest)) else ([], n @ rest)) = (sg, s1 @ rest)"
    using s1 by (auto split: if_splits)
  obtain i s2 f s3 x where p: "num_int s1 = Some (i, s2)" "num_frac s2 = Some (f, s3)" "num_exp s3 = Some (x, [])" "n = sg @ i @ f @ x"
    using assms(1) s1 by (auto simp: parse_number_def split: option.splits)
  show ?thesis
    unfolding parse_number_def s1' using int [OF p(1)] frac [OF p(2)] exp [OF p(3)] p(4) by simp
qed

primrec nested :: "json \<Rightarrow> nat" where
  "nested JNull = 0"
| "nested (JBool b) = 0"
| "nested (JNum n) = 0"
| "nested (JStr s) = 0"
| "nested (JArr vs) = Suc (Max (insert 0 (set (map nested vs))))"
| "nested (JObj ms) = Suc (Max (insert 0 (set (map snd (map (map_prod id nested) ms)))))"

primrec numbers_ok :: "json \<Rightarrow> bool" where
  "numbers_ok JNull = True"
| "numbers_ok (JBool b) = True"
| "numbers_ok (JNum n) = (parse_number n = Some (n, []))"
| "numbers_ok (JStr s) = True"
| "numbers_ok (JArr vs) = list_all id (map numbers_ok vs)"
| "numbers_ok (JObj ms) = list_all snd (map (map_prod id numbers_ok) ms)"

text \<open>The value with its strings as they arrive.\<close>

primrec clean :: "json \<Rightarrow> json" where
  "clean JNull = JNull"
| "clean (JBool b) = JBool b"
| "clean (JNum n) = JNum n"
| "clean (JStr s) = JStr (to_valid s)"
| "clean (JArr vs) = JArr (map clean vs)"
| "clean (JObj ms) = JObj (map (\<lambda>(k, v). (to_valid k, v)) (map (map_prod id clean) ms))"

lemma parse_quoted: "unquote (tl (json_quote s) @ rest) = Some (to_valid s, rest)"
  using unquote_quoted [of s rest] by (simp add: json_quote_def)

definition is_ws :: "char \<Rightarrow> bool" where
  "is_ws c \<longleftrightarrow> of_char c \<in> {32, 9, 10, 13 :: nat}"

lemma skip_ws_start: "\<not> is_ws c \<Longrightarrow> skip_ws (c # r) = c # r"
  by (simp add: skip_ws_def is_ws_def)

lemma number_start: "parse_number n = Some (n, []) \<Longrightarrow> \<exists>c r. n = c # r \<and> (c = CHR ''-'' \<or> is_digit c)"
  by (cases n) (auto simp: parse_number_def num_int_def digits1_def Let_def is_digit_def split: if_splits option.splits)

abbreviation member_text :: "string \<times> json \<Rightarrow> string" where
  "member_text m \<equiv> json_quote (fst m) @ CHR '':'' # json_text (snd m)"

lemma object_text: "json_text (JObj ms) = CHR ''{'' # commas (map member_text ms) @ ''}''"
  by (simp add: map_prod_def split_def comp_def)

lemma clean_object: "clean (JObj ms) = JObj (map (\<lambda>(k, v). (to_valid k, clean v)) ms)"
  by (simp add: map_prod_def split_def comp_def)

lemma numbers_ok_object: "numbers_ok (JObj ms) \<longleftrightarrow> (\<forall>m \<in> set ms. numbers_ok (snd m))"
  by (simp add: list_all_iff)

declare json_text.simps(6) [simp del] clean.simps(6) [simp del] numbers_ok.simps(6) [simp del] nested.simps(5,6) [simp del]

lemma json_text_start:
  assumes "numbers_ok v"
  shows "\<exists>c r. json_text v = c # r \<and> \<not> is_ws c \<and> c \<noteq> CHR '']''"
proof (cases v)
  case (JNum n)
  then obtain c r where c: "n = c # r" "c = CHR ''-'' \<or> is_digit c" using number_start [of n] assms by auto
  then have "\<not> is_ws c \<and> c \<noteq> CHR '']''" by (auto simp: is_ws_def is_digit_def)
  with c JNum show ?thesis by auto
qed (auto simp: is_ws_def json_quote_def object_text)

lemma commas_Cons: "ts \<noteq> [] \<Longrightarrow> commas (t # ts) = t @ CHR '','' # commas ts"
  by (cases ts) simp_all

text \<open>Members and elements, when every value is read back.\<close>

definition reads_back :: "nat \<Rightarrow> json \<Rightarrow> bool" where
  "reads_back d v \<longleftrightarrow> (\<forall>rest. stops rest \<longrightarrow> parse_value d (json_text v @ rest) = Some (clean v, rest))"

lemma ws_marks [simp]: "skip_ws (CHR '','' # r) = CHR '','' # r" "skip_ws (CHR '':'' # r) = CHR '':'' # r"
  "skip_ws (CHR ''}'' # r) = CHR ''}'' # r" "skip_ws (CHR '']'' # r) = CHR '']'' # r" "skip_ws (quote_chr # r) = quote_chr # r"
  by (simp_all add: skip_ws_def)

lemma stops_marks [simp]: "stops (CHR '','' # r)" "stops (CHR ''}'' # r)" "stops (CHR '']'' # r)"
  by (simp_all add: stops_def is_digit_def)

lemma parse_elems_text:
  "list_all (reads_back d) vs \<Longrightarrow> vs \<noteq> [] \<Longrightarrow> length vs \<le> n \<Longrightarrow>
     parse_elems d n (commas (map json_text vs) @ CHR '']'' # rest) = Some (map clean vs, rest)"
proof (induction vs arbitrary: n)
  case (Cons v vs)
  have v: "stops u \<Longrightarrow> parse_value d (json_text v @ u) = Some (clean v, u)" for u
    using Cons.prems(1) by (simp add: reads_back_def)
  show ?case
  proof (cases "vs = []")
    case True
    then show ?thesis using v Cons.prems(3) by (simp add: parse_elems.simps)
  next
    case False
    then have "parse_elems d (n - 1) (commas (map json_text vs) @ CHR '']'' # rest) = Some (map clean vs, rest)"
      using Cons by simp
    with False v Cons.prems(3) show ?thesis by (subst parse_elems.simps) (simp add: commas_Cons)
  qed
qed simp

lemma parse_member:
  assumes "reads_back d v" and "stops u" and "n \<noteq> 0"
  shows "parse_members d n (member_text (k, v) @ u) =
    (case skip_ws u of [] \<Rightarrow> None
     | e # t3 \<Rightarrow> if e = CHR '','' then map_option (\<lambda>(ms, z). ((to_valid k, clean v) # ms, z)) (parse_members d (n - 1) t3)
                else if e = CHR ''}'' then Some ([(to_valid k, clean v)], t3) else None)"
proof -
  let ?r = "CHR '':'' # json_text v @ u"
  have q: "json_quote k @ ?r = quote_chr # tl (json_quote k) @ ?r" by (simp add: json_quote_def)
  have "parse_value d (json_text v @ u) = Some (clean v, u)" using assms(1,2) by (simp add: reads_back_def)
  then show ?thesis
    using assms(3) parse_quoted [of k ?r] by (subst parse_members.simps) (simp add: q split: list.split)
qed

lemma parse_members_text:
  "list_all (\<lambda>m. reads_back d (snd m)) ms \<Longrightarrow> ms \<noteq> [] \<Longrightarrow> length ms \<le> n \<Longrightarrow>
     parse_members d n (commas (map member_text ms) @ CHR ''}'' # rest) =
       Some (map (\<lambda>(k, v). (to_valid k, clean v)) ms, rest)"
proof (induction ms arbitrary: n)
  case (Cons m ms)
  obtain k v where m: "m = (k, v)" by fastforce
  have v: "reads_back d v" and n: "n \<noteq> 0" using Cons.prems m by auto
  show ?case
  proof (cases "ms = []")
    case True
    then show ?thesis using parse_member [OF v _ n, of "CHR ''}'' # rest" k] m by simp
  next
    case False
    then have "parse_members d (n - 1) (commas (map member_text ms) @ CHR ''}'' # rest) =
        Some (map (\<lambda>(k, v). (to_valid k, clean v)) ms, rest)"
      using Cons by simp
    then show ?thesis
      using parse_member [OF v _ n, of "CHR '','' # commas (map member_text ms) @ CHR ''}'' # rest" k] False m
      by (simp add: commas_Cons)
  qed
qed simp

lemma length_commas: "(\<And>t. t \<in> set ts \<Longrightarrow> t \<noteq> []) \<Longrightarrow> length ts \<le> length (commas ts)"
proof (induction ts rule: commas.induct)
  case (2 t)
  then show ?case by (cases t) auto
qed (auto simp: Suc_le_eq)

lemma text_not_Nil: "numbers_ok v \<Longrightarrow> json_text v \<noteq> []"
  using json_text_start by fastforce

lemma nested_member:
  "nested (JArr vs) \<le> Suc d \<Longrightarrow> v \<in> set vs \<Longrightarrow> nested v \<le> d"
  "nested (JObj ms) \<le> Suc d \<Longrightarrow> m \<in> set ms \<Longrightarrow> nested (snd m) \<le> d"
  by (auto simp: nested.simps image_image)

text \<open>Every value is read back from its text, whatever follows.\<close>

lemma reads_back_scalar:
  assumes "numbers_ok v" and "\<And>vs. v \<noteq> JArr vs" and "\<And>ms. v \<noteq> JObj ms"
  shows "reads_back d v"
proof (cases v)
  case (JNum n)
  then have n: "parse_number n = Some (n, [])" using assms(1) by simp
  then obtain c r where c: "n = c # r" "c = CHR ''-'' \<or> is_digit c" using number_start by blast
  then have ws: "\<not> is_ws c" and ne: "c \<noteq> quote_chr" "c \<noteq> CHR ''{''" "c \<noteq> CHR ''[''" "c \<noteq> CHR ''t''" "c \<noteq> CHR ''f''" "c \<noteq> CHR ''n''"
    by (auto simp: is_ws_def is_digit_def)
  show ?thesis
    unfolding reads_back_def
  proof (intro allI impI)
    fix rest
    assume "stops rest"
    then have "parse_number (c # r @ rest) = Some (n, rest)" using parse_number_append [OF n] c(1) by simp
    then show "parse_value d (json_text v @ rest) = Some (clean v, rest)"
      using JNum c(1) ne skip_ws_start [OF ws] by (simp add: parse_value.simps HasPrefix_def)
  qed
next
  case (JStr s)
  then show ?thesis
    using unquote_quoted [of s] by (auto simp: reads_back_def parse_value.simps json_quote_def)
qed (use assms in \<open>auto simp: reads_back_def parse_value.simps skip_ws_def HasPrefix_def\<close>)

lemma commas_start: "ts \<noteq> [] \<Longrightarrow> hd ts = c # r \<Longrightarrow> \<exists>r'. commas ts = c # r'"
  by (cases ts rule: commas.cases) auto

lemma open_ws [simp]: "skip_ws (CHR ''{'' # r) = CHR ''{'' # r" "skip_ws (CHR ''['' # r) = CHR ''['' # r"
  by (simp_all add: skip_ws_def)

lemma reads_back_array:
  assumes "\<forall>v \<in> set vs. numbers_ok v \<and> reads_back d v"
  shows "reads_back (Suc d) (JArr vs)"
proof (cases "vs = []")
  case True
  then show ?thesis by (simp add: reads_back_def parse_value.simps)
next
  case False
  let ?ts = "map json_text vs"
  have "hd vs \<in> set vs" using False by simp
  then obtain c r where c: "json_text (hd vs) = c # r" "\<not> is_ws c" "c \<noteq> CHR '']''"
    using json_text_start assms by blast
  then obtain r' where r': "commas ?ts = c # r'" using commas_start [of ?ts c r] False by (auto simp: hd_map)
  have len: "length vs \<le> length (commas ?ts)" by (rule order_trans [OF _ length_commas]) (use assms text_not_Nil in auto)
  have "parse_value (Suc d) (json_text (JArr vs) @ rest) = Some (clean (JArr vs), rest)" for rest
  proof -
    let ?r = "commas ?ts @ CHR '']'' # rest"
    have "skip_ws ?r = c # r' @ CHR '']'' # rest" using r' skip_ws_start [OF c(2)] by simp
    moreover have "parse_elems d (length ?r) ?r = Some (map clean vs, rest)"
      using parse_elems_text [of d vs "length ?r" rest] False len assms by (simp add: list_all_iff)
    ultimately show ?thesis using c(3) by (simp add: parse_value.simps)
  qed
  then show ?thesis by (simp add: reads_back_def)
qed

lemma reads_back_object:
  assumes "\<forall>m \<in> set ms. numbers_ok (snd m) \<and> reads_back d (snd m)"
  shows "reads_back (Suc d) (JObj ms)"
proof (cases "ms = []")
  case True
  then show ?thesis by (simp add: reads_back_def parse_value.simps object_text clean_object)
next
  case False
  let ?ts = "map member_text ms"
  obtain r where r: "commas ?ts = quote_chr # r"
    using commas_start [of ?ts quote_chr "tl (hd ?ts)"] False by (auto simp: hd_map json_quote_def)
  have len: "length ms \<le> length (commas ?ts)" using length_commas [of ?ts] by (auto simp: json_quote_def)
  have "parse_value (Suc d) (json_text (JObj ms) @ rest) = Some (clean (JObj ms), rest)" for rest
  proof -
    let ?r = "commas ?ts @ CHR ''}'' # rest"
    have "skip_ws ?r = quote_chr # r @ CHR ''}'' # rest" using r by simp
    moreover have "parse_members d (length ?r) ?r = Some (map (\<lambda>(k, v). (to_valid k, clean v)) ms, rest)"
      using parse_members_text [of d ms "length ?r" rest] False len assms by (simp add: list_all_iff)
    ultimately show ?thesis by (simp add: parse_value.simps object_text clean_object)
  qed
  then show ?thesis by (simp add: reads_back_def)
qed

lemma json_reads_back: "nested v \<le> d \<Longrightarrow> numbers_ok v \<Longrightarrow> reads_back d v"
proof (induction v arbitrary: d)
  case (JArr vs)
  obtain d' where d: "d = Suc d'" using JArr.prems(1) by (cases d) (auto simp: nested.simps)
  have "numbers_ok v \<and> reads_back d' v" if "v \<in> set vs" for v
    using JArr that nested_member(1) [of vs d' v] d by (simp add: list_all_iff)
  then show ?case using d reads_back_array by simp
next
  case (JObj ms)
  obtain d' where d: "d = Suc d'" using JObj.prems(1) by (cases d) (auto simp: nested.simps)
  have "numbers_ok (snd m) \<and> reads_back d' (snd m)" if "m \<in> set ms" for m
    using JObj.IH [of m "snd m" d'] JObj.prems that nested_member(2) [of ms d' m] d
    by (auto simp: numbers_ok_object snds.simps)
  then show ?case using d reads_back_object by simp
qed (auto intro: reads_back_scalar)

end
