(* ===== verification/Json_Cut.thy ===== *)
theory Json_Cut
  imports Go_Json
begin

text \<open>
  Texts that are cut short: a value read from a text is read from every longer one, so a reader never
  takes the beginning of an object for the object. Strings that were read are UTF-8.
\<close>

section \<open>Strings\<close>

lemma valid_encoded: "valid_utf8 (concat (map encode_rune rs))"
proof -
  have "\<not> (scalar r = RuneError \<and> length (encode_rune r) = 1)" for r
    by (auto simp: encode_rune_utf8 utf8_def RuneError_def)
  then show ?thesis by (simp add: valid_utf8_def runes_encode list_all_iff)
qed

lemma unquote_step_rune: "unquote_step s = Some (b, s') \<Longrightarrow> \<exists>r. b = encode_rune r"
proof -
  assume a: "unquote_step s = Some (b, s')"
  have low: "\<exists>r. [ch] = encode_rune r" if "of_char ch < (128 :: nat)" for ch
    using that encode_ascii [of "of_char ch"] by (intro exI [of _ "of_char ch"]) simp
  have esc: "\<exists>r. [ch] = encode_rune r" if "simple_escape e = Some ch" for e ch
    using that by (intro low) (auto simp: simple_escape_def split: if_splits)
  show ?thesis
    using a esc low by (fastforce simp: unquote_step_def Let_def split: if_splits option.splits prod.splits)
qed

lemma unquote_runes: "unquote s = Some (t, rest) \<Longrightarrow> \<exists>rs. t = concat (map encode_rune rs)"
proof (induction s arbitrary: t rule: unquote.induct)
  case (1 s)
  show ?case
  proof (cases "hd s = quote_chr")
    case True
    then show ?thesis using 1(2) by (intro exI [of _ "[]"]) (simp add: unquote.simps [of s] split: if_splits)
  next
    case False
    then obtain b s' t' where s: "s \<noteq> []" "unquote_step s = Some (b, s')" "unquote s' = Some (t', rest)" "t = b @ t'"
      using 1(2) by (auto simp: unquote.simps [of s] split: if_splits option.splits)
    obtain r where "b = encode_rune r" using unquote_step_rune [OF s(2)] by blast
    moreover obtain rs where "t' = concat (map encode_rune rs)" using 1(1) [OF s(1) False s(2) refl s(3)] by blast
    ultimately show ?thesis using s(4) by (intro exI [of _ "r # rs"]) simp
  qed
qed

lemma unquote_valid: "unquote s = Some (t, rest) \<Longrightarrow> valid_utf8 t"
  using unquote_runes valid_encoded by blast

lemma parse_string_valid: "parse_value d s = Some (JStr x, t) \<Longrightarrow> valid_utf8 x"
  by (auto simp: parse_value.simps split: list.splits if_splits intro: unquote_valid)

lemma parse_members_valid:
  "parse_members d n s = Some (ms, t) \<Longrightarrow> (k, JStr x) \<in> set ms \<Longrightarrow> valid_utf8 x"
proof (induction n arbitrary: s ms)
  case (Suc n)
  obtain k' v ms' where ms: "ms = (k', v) # ms'" and v: "\<exists>u u'. parse_value d u = Some (v, u')"
    and ms': "ms' = [] \<or> (\<exists>u. parse_members d n u = Some (ms', t))"
    using Suc.prems(1) by (auto simp: parse_members.simps [of d "Suc n"] split: list.splits if_splits option.splits) blast+
  show ?case using Suc.prems(2) ms v ms' Suc.IH by (auto intro: parse_string_valid)
qed (simp add: parse_members.simps)

section \<open>Longer texts\<close>

lemma unquote_high: "list_all (\<lambda>c. 0x80 \<le> (of_char c :: nat)) s \<Longrightarrow> unquote s = None"
proof (induction s rule: unquote.induct)
  case (1 s)
  show ?case
  proof (cases s)
    case (Cons c r)
    have c: "128 \<le> (of_char c :: nat)" using 1(2) Cons by simp
    then have ne: "c \<noteq> quote_chr" "c \<noteq> backslash" by auto
    have step: "unquote_step s = Some (encode_rune (fst (DecodeRune s)), drop (snd (DecodeRune s)) s)"
      using Cons c ne by (simp add: unquote_step_def split: prod.split)
    have "list_all (\<lambda>c. 128 \<le> (of_char c :: nat)) (drop (snd (DecodeRune s)) s)"
      using 1(2) by (auto simp: list_all_iff dest: in_set_dropD)
    then have "unquote (drop (snd (DecodeRune s)) s) = None"
      using 1(1) [OF _ _ step refl] Cons ne by simp
    then show ?thesis using step Cons ne by (simp add: unquote.simps [of "c # r"])
  qed (simp add: unquote.simps)
qed

lemma decode_cut:
  "decode_valid p = None \<Longrightarrow> decode_valid (p @ q) = Some rw \<Longrightarrow> \<forall>b \<in> set p. 0x80 \<le> b"
  by (cases p rule: decode_valid.cases) (auto simp: cont_def split: if_splits list.splits)

lemma DecodeRune_append:
  assumes "list_ex (\<lambda>c. (of_char c :: nat) < 0x80) s"
  shows "DecodeRune (s @ q) = DecodeRune s"
proof (cases "decode_valid (map of_char s)")
  case None
  have "decode_valid (map of_char s @ map of_char q) = None"
  proof (rule ccontr)
    assume "decode_valid (map of_char s @ map of_char q) \<noteq> None"
    then have "\<forall>b \<in> set (map of_char s). 128 \<le> (b :: nat)" using decode_cut [OF None] by auto
    with assms show False by (auto simp: list_ex_iff)
  qed
  with None show ?thesis by (simp add: DecodeRune_def)
next
  case (Some rw)
  then show ?thesis using decode_valid_append [OF Some, of "map of_char q"] by (simp add: DecodeRune_def)
qed

lemma getu4_long: "6 \<le> length s \<Longrightarrow> getu4 (s @ q) = getu4 s"
proof -
  assume "6 \<le> length s"
  then obtain a b c d e f r where "s = a # b # c # d # e # f # r"
    by (auto simp: Suc_le_length_iff numeral_eq_Suc)
  then show ?thesis by simp
qed

lemma getu4_short: "length s < 6 \<Longrightarrow> getu4 s = None"
  by (cases s rule: getu4.cases) auto

lemma getu4_append: "unquote s = Some tr \<Longrightarrow> getu4 (s @ q) = getu4 s"
proof (cases "length s < 6")
  case True
  assume u: "unquote s = Some tr"
  then have "s \<noteq> []" by (auto simp: unquote.simps)
  have "getu4 (s @ q) = None"
  proof (rule ccontr)
    assume "getu4 (s @ q) \<noteq> None"
    then obtain r where r: "s @ q = backslash # CHR ''u'' # r"
      by (cases "s @ q" rule: getu4.cases) (auto split: if_splits)
    then have "hd s = backslash" "tl s = [] \<or> hd (tl s) = CHR ''u''" using \<open>s \<noteq> []\<close> by (cases s; cases "tl s"; auto)+
    then have "unquote_step s = None" using \<open>s \<noteq> []\<close> getu4_short [OF True] by (auto simp: unquote_step_def)
    then show False using u \<open>hd s = backslash\<close> \<open>s \<noteq> []\<close> by (simp add: unquote.simps [of s])
  qed
  then show ?thesis using getu4_short [OF True] by simp
qed (simp add: getu4_long)

lemma unquote_step_append:
  assumes "unquote_step s = Some (b, s')" and "unquote s' = Some tr"
  shows "unquote_step (s @ q) = Some (b, s' @ q)"
proof -
  have ne: "s \<noteq> []" using assms(1) by (auto simp: unquote_step_def)
  have low: "\<not> list_all (\<lambda>c. 0x80 \<le> (of_char c :: nat)) s'" using unquote_high assms(2) by fastforce
  show ?thesis
  proof (cases "hd s = backslash")
    case False
    have "DecodeRune (s @ q) = DecodeRune s \<and> snd (DecodeRune s) \<le> length s" if "128 \<le> (of_char (hd s) :: nat)"
    proof -
      have s': "s' = drop (snd (DecodeRune s)) s"
        using assms(1) that False ne by (auto simp: unquote_step_def split: prod.splits)
      then have "list_ex (\<lambda>c. (of_char c :: nat) < 128) s"
        using low by (force simp: list_ex_iff list_all_iff dest: in_set_dropD)
      moreover have "snd (DecodeRune s) \<le> length s" using s' low by (cases "snd (DecodeRune s) \<le> length s") auto
      ultimately show ?thesis using DecodeRune_append by simp
    qed
    then show ?thesis
      using assms(1) False ne by (auto simp: unquote_step_def split: if_splits prod.splits)
  next
    case True
    have tl: "tl s \<noteq> []" using assms(1) True ne by (auto simp: unquote_step_def split: if_splits)
    show ?thesis
    proof (cases "hd (tl s) = CHR ''u''")
      case False
      then show ?thesis
        using assms(1) True ne tl by (auto simp: unquote_step_def split: option.splits)
    next
      case u: True
      obtain rr where rr: "getu4 s = Some rr" using assms(1) True u ne tl by (auto simp: unquote_step_def split: option.splits)
      then have len: "6 \<le> length s" using getu4_short [of s] by (cases "length s < 6") auto
      then have s6: "getu4 (s @ q) = Some rr" "drop 6 (s @ q) = drop 6 s @ q" using rr getu4_long by simp_all
      have two: "getu4 (drop 6 s @ q) = getu4 (drop 6 s)" if "0xD800 \<le> rr" "rr < 0xE000"
      proof (cases "6 \<le> length (drop 6 s)")
        case False
        then have "s' = drop 6 s"
          using assms(1) True u ne tl rr that getu4_short [of "drop 6 s"] by (auto simp: unquote_step_def Let_def)
        then show ?thesis using getu4_append assms(2) by blast
      qed (simp add: getu4_long)
      have len2: "6 \<le> length (drop 6 s)" if "getu4 (drop 6 s) = Some r1" for r1
        using that getu4_short [of "drop 6 s"] by (cases "length (drop 6 s) < 6") auto
      show ?thesis
        using assms(1) True u ne tl rr s6 two len2
        by (auto simp: unquote_step_def Let_def split: if_splits option.splits)
    qed
  qed
qed

lemma unquote_append: "unquote s = Some (t, rest) \<Longrightarrow> unquote (s @ q) = Some (t, rest @ q)"
proof (induction s arbitrary: t rule: unquote.induct)
  case (1 s)
  have ne: "s \<noteq> []" using 1(2) by (auto simp: unquote.simps)
  show ?case
  proof (cases "hd s = quote_chr")
    case True
    then show ?thesis using 1(2) ne by (simp add: unquote.simps [of s] unquote.simps [of "s @ q"])
  next
    case False
    then obtain b s' t' where s: "unquote_step s = Some (b, s')" "unquote s' = Some (t', rest)" "t = b @ t'"
      using 1(2) ne by (auto simp: unquote.simps [of s] split: option.splits)
    have "unquote (s' @ q) = Some (t', rest @ q)" using 1(1) [OF ne False s(1) refl s(2)] .
    then show ?thesis
      using unquote_step_append [OF s(1,2), of q] False ne s(3) by (simp add: unquote.simps [of "s @ q"])
  qed
qed

section \<open>Values\<close>

lemma skip_ws_append: "skip_ws s = c # r \<Longrightarrow> skip_ws (s @ q) = c # r @ q"
proof -
  assume a: "skip_ws s = c # r"
  have "\<exists>c \<in> set s. \<not> is_ws c"
  proof (rule ccontr)
    assume "\<not> ?thesis"
    then have "skip_ws s = []" by (auto simp: skip_ws_def is_ws_def)
    with a show False by simp
  qed
  then have "skip_ws (s @ q) = skip_ws s @ q" by (auto simp: skip_ws_def is_ws_def dropWhile_append)
  with a show ?thesis by simp
qed

lemma digits1_longer: "digits1 s = Some (d, t) \<Longrightarrow> t \<noteq> [] \<Longrightarrow> digits1 (s @ q) = Some (d, t @ q)"
proof -
  assume a: "digits1 s = Some (d, t)" "t \<noteq> []"
  then have "\<exists>c \<in> set s. \<not> is_digit c" by (auto simp: digits1_def Let_def dropWhile_eq_Nil_conv split: if_splits)
  then have "takeWhile is_digit (s @ q) = takeWhile is_digit s" "dropWhile is_digit (s @ q) = dropWhile is_digit s @ q"
    by (auto simp: takeWhile_append dropWhile_append)
  with a(1) show ?thesis by (auto simp: digits1_def Let_def split: if_splits)
qed

lemma num_int_longer: "num_int s = Some (d, t) \<Longrightarrow> t \<noteq> [] \<Longrightarrow> num_int (s @ q) = Some (d, t @ q)"
  using digits1_longer [of s d t q] by (cases s) (auto simp: num_int_def split: if_splits)

lemma num_frac_longer: "num_frac s = Some (d, t) \<Longrightarrow> t \<noteq> [] \<Longrightarrow> num_frac (s @ q) = Some (d, t @ q)"
  using digits1_longer [of "tl s" "tl d" t q] by (cases s) (auto simp: num_frac_def split: if_splits)

lemma num_exp_longer: "num_exp s = Some (d, t) \<Longrightarrow> t \<noteq> [] \<Longrightarrow> num_exp (s @ q) = Some (d, t @ q)"
proof (cases s)
  case (Cons c r)
  assume "num_exp s = Some (d, t)" "t \<noteq> []"
  then show ?thesis
    using Cons digits1_longer [of r "tl d" t q] digits1_longer [of "tl r" "tl (tl d)" t q]
    by (cases r) (auto simp: num_exp_def split: if_splits)
qed (simp add: num_exp_def)

lemma num_rest:
  "num_frac s = Some (d, t) \<Longrightarrow> t \<noteq> [] \<Longrightarrow> s \<noteq> []" "num_exp s = Some (d, t) \<Longrightarrow> t \<noteq> [] \<Longrightarrow> s \<noteq> []"
  by (auto simp: num_frac_def num_exp_def)

lemma parse_number_longer:
  assumes "parse_number s = Some (n, t)" and "t \<noteq> []"
  shows "parse_number (s @ q) = Some (n, t @ q)"
proof -
  obtain sg s1 where s1: "(if s \<noteq> [] \<and> hd s = CHR ''-'' then ([hd s], tl s) else ([], s)) = (sg, s1)" by fastforce
  obtain i s2 f s3 x where p: "num_int s1 = Some (i, s2)" "num_frac s2 = Some (f, s3)" "num_exp s3 = Some (x, t)" "n = sg @ i @ f @ x"
    using assms(1) s1 by (auto simp: parse_number_def split: option.splits)
  have "s \<noteq> []" using p(1) s1 by (auto simp: num_int_def split: if_splits)
  then have s1': "(if s @ q \<noteq> [] \<and> hd (s @ q) = CHR ''-'' then ([hd (s @ q)], tl (s @ q)) else ([], s @ q)) = (sg, s1 @ q)"
    using s1 by (auto split: if_splits)
  have "s3 \<noteq> []" "s2 \<noteq> []" using num_rest p(2,3) assms(2) by blast+
  then show ?thesis
    unfolding parse_number_def s1' using p assms(2) by (simp add: num_int_longer num_frac_longer num_exp_longer)
qed

definition container :: "json \<Rightarrow> bool" where
  "container v \<longleftrightarrow> (case v of JObj _ \<Rightarrow> True | JArr _ \<Rightarrow> True | _ \<Rightarrow> False)"

lemma HasPrefix_longer: "HasPrefix s p \<Longrightarrow> HasPrefix (s @ q) p"
  by (cases "length p \<le> length s") (auto simp: HasPrefix_def)

lemma HasPrefix_length: "HasPrefix s p \<Longrightarrow> length p \<le> length s"
  by (metis HasPrefix_def length_take min.cobounded1)

lemma HasPrefix_words: "HasPrefix s ''false'' \<Longrightarrow> \<not> HasPrefix s ''true''"
  "HasPrefix s ''null'' \<Longrightarrow> \<not> HasPrefix s ''true'' \<and> \<not> HasPrefix s ''false''"
  by (cases s; simp add: HasPrefix_def)+

lemma parse_word_longer:
  assumes "parse_number (c # r) = Some (n, t)"
  shows "\<not> HasPrefix (c # r @ q) ''true'' \<and> \<not> HasPrefix (c # r @ q) ''false'' \<and> \<not> HasPrefix (c # r @ q) ''null''"
proof -
  have "c = CHR ''-'' \<or> is_digit c"
    using assms by (auto simp: parse_number_def num_int_def digits1_def Let_def is_digit_def split: if_splits option.splits)
  then show ?thesis by (auto simp: HasPrefix_def is_digit_def)
qed

text \<open>
  A value whose end is known (a container, or one that something follows) is read from every longer text.
\<close>

lemma parse_longer:
  "parse_value d s = Some (v, t) \<Longrightarrow> container v \<or> t \<noteq> [] \<Longrightarrow> parse_value d (s @ q) = Some (v, t @ q)"
  "parse_elems d n s = Some (vs, t) \<Longrightarrow> n \<le> m \<Longrightarrow> parse_elems d m (s @ q) = Some (vs, t @ q)"
  "parse_members d n s = Some (ms, t) \<Longrightarrow> n \<le> m \<Longrightarrow> parse_members d m (s @ q) = Some (ms, t @ q)"
proof (induction d s and d n s and d n s arbitrary: v t and vs t m and ms t m
    rule: parse_value_parse_elems_parse_members.induct)
  case (1 d s)
  obtain c r where cr: "skip_ws s = c # r" using 1(3) by (auto simp: parse_value.simps [of d s] split: list.splits)
  note sq = skip_ws_append [OF cr, of q]
  note ps = parse_value.simps [of d s] parse_value.simps [of d "s @ q"] cr sq
  consider "c = quote_chr" | "c = CHR ''{''" | "c = CHR ''[''" | "c \<noteq> quote_chr \<and> c \<noteq> CHR ''{'' \<and> c \<noteq> CHR ''[''" by blast
  then show ?case
  proof cases
    case 1
    then show ?thesis using \<open>parse_value d s = Some (v, t)\<close> unquote_append by (auto simp: ps)
  next
    case 2
    then obtain c2 r2 where r2: "d \<noteq> 0" "skip_ws r = c2 # r2"
      using 1(3) by (auto simp: ps split: if_splits list.splits)
    show ?thesis
    proof (cases "c2 = CHR ''}''")
      case False
      then obtain ms where ms: "parse_members (d - 1) (length r) r = Some (ms, t)" "v = JObj ms"
        using 1(3) 2 r2 by (auto simp: ps)
      have "parse_members (d - 1) (length (r @ q)) (r @ q) = Some (ms, t @ q)"
        using 1(1) [OF cr _ 2 r2(1) r2(2) False ms(1)] 2 by simp
      then show ?thesis using 2 r2 False ms(2) skip_ws_append [OF r2(2), of q] by (simp add: ps)
    qed (use 1(3) 2 r2 skip_ws_append [OF r2(2), of q] in \<open>auto simp: ps\<close>)
  next
    case 3
    then obtain c2 r2 where r2: "d \<noteq> 0" "skip_ws r = c2 # r2"
      using 1(3) by (auto simp: ps split: if_splits list.splits)
    show ?thesis
    proof (cases "c2 = CHR '']''")
      case False
      then obtain vs where vs: "parse_elems (d - 1) (length r) r = Some (vs, t)" "v = JArr vs"
        using 1(3) 3 r2 by (auto simp: ps)
      have "parse_elems (d - 1) (length (r @ q)) (r @ q) = Some (vs, t @ q)"
        using 1(2) [OF cr _ _ 3 r2(1) r2(2) False vs(1)] 3 by simp
      then show ?thesis using 3 r2 False vs(2) skip_ws_append [OF r2(2), of q] by (simp add: ps)
    qed (use 1(3) 3 r2 skip_ws_append [OF r2(2), of q] in \<open>auto simp: ps\<close>)
  next
    case 4
    have num: "t \<noteq> []" if "v = JNum n" for n using 1(4) that by (simp add: container_def)
    have w: "v = JBool True \<and> HasPrefix (c # r) ''true'' \<and> t = drop 4 (c # r) \<or>
      v = JBool False \<and> HasPrefix (c # r) ''false'' \<and> t = drop 5 (c # r) \<or>
      v = JNull \<and> HasPrefix (c # r) ''null'' \<and> t = drop 4 (c # r) \<or>
      (\<exists>n. v = JNum n \<and> parse_number (c # r) = Some (n, t))"
      using 1(3) 4 by (auto simp: ps split: if_splits)
    have pre: "drop (length p) ((c # r) @ q) = drop (length p) (c # r) @ q \<and> HasPrefix ((c # r) @ q) p"
      if "HasPrefix (c # r) p" for p
      using that HasPrefix_longer [OF that, of q] HasPrefix_length [OF that] by (simp del: append_Cons)
    have "parse_number ((c # r) @ q) = Some (n, t @ q)" if "v = JNum n" "parse_number (c # r) = Some (n, t)" for n
      using parse_number_longer [OF that(2) num [OF that(1)]] .
    then show ?thesis
      using w 4 pre [of "''true''"] pre [of "''false''"] pre [of "''null''"] parse_word_longer [of c r _ t q]
      by (auto simp: ps HasPrefix_words numeral_eq_Suc)
  qed
next
  case (2 d n s)
  then obtain v u c u' where v: "n \<noteq> 0" "parse_value d s = Some (v, u)" "skip_ws u = c # u'"
    by (auto simp: parse_elems.simps [of d n s] split: if_splits option.splits list.splits)
  have "u \<noteq> []" using v(3) by (auto simp: skip_ws_def)
  then have pv: "parse_value d (s @ q) = Some (v, u @ q)" using 2(1) v(1,2) by simp
  have m: "m \<noteq> 0" using 2(4) v(1) by simp
  have rec: "parse_elems d (m - 1) (u' @ q) = Some (ws, z @ q)"
    if "c = CHR '',''" "parse_elems d (n - 1) u' = Some (ws, z)" for ws z
    using 2(2) [OF v(1,2) refl v(3) that, of "m - 1"] 2(4) by simp
  show ?case
    using 2(3) v rec pv m skip_ws_append [OF v(3), of q]
    by (auto simp: parse_elems.simps [of d n s] parse_elems.simps [of d m "s @ q"] split: if_splits)
next
  case (3 d n s)
  then obtain r k u u1 v u2 c u3 where v: "n \<noteq> 0" "skip_ws s = quote_chr # r" "unquote r = Some (k, u)"
    "skip_ws u = CHR '':'' # u1" "parse_value d u1 = Some (v, u2)" "skip_ws u2 = c # u3"
    by (auto simp: parse_members.simps [of d n s] split: if_splits option.splits list.splits)
  have "u2 \<noteq> []" using v(6) by (auto simp: skip_ws_def)
  then have pv: "parse_value d (u1 @ q) = Some (v, u2 @ q)" using 3(1) v by simp
  have m: "m \<noteq> 0" using 3(4) v(1) by simp
  have rec: "parse_members d (m - 1) (u3 @ q) = Some (ws, z @ q)"
    if "c = CHR '',''" "parse_members d (n - 1) u3 = Some (ws, z)" for ws z
    using 3(2) v that 3(4) by fastforce
  show ?case
    using 3(3) v rec pv m skip_ws_append [OF v(2), of q] skip_ws_append [OF v(4), of q] skip_ws_append [OF v(6), of q]
      unquote_append [OF v(3), of q]
    by (auto simp: parse_members.simps [of d n s] parse_members.simps [of d m "s @ q"] split: if_splits)
qed

text \<open>An object of which the end is missing is not read.\<close>

lemma cut_not_read:
  assumes "parse_value d x = Some (w, [])" and "x = CHR ''{'' # y" and "k < length x"
  shows "parse_value d (take k x) = None"
proof (rule ccontr)
  assume "parse_value d (take k x) \<noteq> None"
  then obtain v t where v: "parse_value d (take k x) = Some (v, t)" by fastforce
  have "k \<noteq> 0"
  proof
    assume "k = 0"
    with v show False by (simp add: parse_value.simps skip_ws_def)
  qed
  then obtain r where r: "take k x = CHR ''{'' # r" using assms(2) by (cases k) simp_all
  have "container v"
    using v unfolding r by (auto simp: parse_value.simps container_def split: list.splits if_splits)
  then have "parse_value d (take k x @ drop k x) = Some (v, t @ drop k x)"
    using parse_longer(1) [OF v] by blast
  then show False using assms(1,3) by simp
qed

end
