(* ===== verification/Wire_Messages.thy ===== *)
theory Wire_Messages
  imports Json_Cut
begin

text \<open>
  The JSON messages of \<open>src/protocol/protocol.go\<close> on the bytes of a stream: what the senders write
  and what the receivers make of any bytes. Storing a value in a struct follows \<open>encoding/json\<close>:
  a member goes to the field of its name, or to the one whose name differs in case only; \<open>null\<close>
  leaves the field; a value of another type is reported after the other members are stored.
\<close>

section \<open>Bytes of a text\<close>

definition text_of :: "byte list \<Rightarrow> string" where
  "text_of bs = map (\<lambda>b. char_of (unat b)) bs"

definition bytes_of :: "string \<Rightarrow> byte list" where
  "bytes_of s = map (\<lambda>c. of_nat (of_char c)) s"

lemma text_of_bytes [simp]: "text_of (bytes_of s) = s"
proof -
  have "(of_char c :: nat) < 256" for c by simp
  then have "unat (of_nat (of_char c) :: byte) = of_char c" for c by (simp add: unat_of_nat)
  then show ?thesis by (simp add: text_of_def bytes_of_def comp_def)
qed

lemma text_of_append [simp]: "text_of (a @ b) = text_of a @ text_of b"
  by (simp add: text_of_def)

lemma bytes_of_append [simp]: "bytes_of (a @ b) = bytes_of a @ bytes_of b"
  by (simp add: bytes_of_def)

section \<open>Storing a value in a struct\<close>

text \<open>
  \<open>foldRune\<close> on the code points that share a fold with an ASCII letter; no other code point can make
  a name equal to a field's, which are ASCII.
\<close>

definition fold_rune :: "nat \<Rightarrow> nat" where
  "fold_rune r =
     (if 97 \<le> r \<and> r \<le> 122 then r - 32 else if r = 0x212A then 75 else if r = 0x17F then 83 else r)"

definition fold_name :: "string \<Rightarrow> nat list" where
  "fold_name s = map (fold_rune \<circ> fst) (runes s)"

text \<open>A field: its name and how a value is stored; a value of another type is refused.\<close>

type_synonym 'a field = "string \<times> (json \<Rightarrow> ('a \<Rightarrow> 'a) option)"

fun string_field :: "string \<Rightarrow> (string \<Rightarrow> 'a \<Rightarrow> 'a) \<Rightarrow> 'a field" where
  "string_field n upd = (n, \<lambda>v. case v of JStr s \<Rightarrow> Some (upd s) | JNull \<Rightarrow> Some id | _ \<Rightarrow> None)"

fun bool_field :: "string \<Rightarrow> (bool \<Rightarrow> 'a \<Rightarrow> 'a) \<Rightarrow> 'a field" where
  "bool_field n upd = (n, \<lambda>v. case v of JBool b \<Rightarrow> Some (upd b) | JNull \<Rightarrow> Some id | _ \<Rightarrow> None)"

definition find_field :: "'a field list \<Rightarrow> string \<Rightarrow> 'a field option" where
  "find_field fs k =
     (case find (\<lambda>f. fst f = k) fs of
        Some f \<Rightarrow> Some f
      | None \<Rightarrow> find (\<lambda>f. fold_name (fst f) = fold_name k) fs)"

text \<open>The struct after one member, and whether every value so far could be stored.\<close>

definition store_member :: "'a field list \<Rightarrow> string \<times> json \<Rightarrow> 'a \<times> bool \<Rightarrow> 'a \<times> bool" where
  "store_member fs m st =
     (case find_field fs (fst m) of
        None \<Rightarrow> st
      | Some f \<Rightarrow> (case snd f (snd m) of None \<Rightarrow> (fst st, False) | Some upd \<Rightarrow> (upd (fst st), snd st)))"

definition store_struct :: "'a field list \<Rightarrow> json \<Rightarrow> 'a \<Rightarrow> 'a \<times> bool" where
  "store_struct fs v a =
     (case v of
        JObj ms \<Rightarrow> fold (store_member fs) ms (a, True)
      | JNull \<Rightarrow> (a, True)
      | _ \<Rightarrow> (a, False))"

section \<open>Decoder and encoder\<close>

abbreviation newline :: char where
  "newline \<equiv> CHR 0x0A"

datatype json_error = BadText | TypeMismatch

text \<open>
  The value at the front of the stream. An object or array is complete at its bracket; any other value
  needs one byte more or the end of the stream.
\<close>

definition read_value :: "'b stream_scheme \<Rightarrow> json option" where
  "read_value s =
     (case parse_value maxNestingDepth (text_of (st_bytes s)) of
        None \<Rightarrow> None
      | Some (v, rest) \<Rightarrow>
          (case v of
             JObj _ \<Rightarrow> Some v
           | JArr _ \<Rightarrow> Some v
           | _ \<Rightarrow> if rest = [] \<and> st_end s \<noteq> EOF then None else Some v))"

definition decode_struct :: "'a field list \<Rightarrow> 'a \<Rightarrow> 'b stream_scheme \<Rightarrow> 'a \<times> json_error option" where
  "decode_struct fs a s =
     (case read_value s of
        None \<Rightarrow> (a, Some BadText)
      | Some v \<Rightarrow> (case store_struct fs v a of (a', ok) \<Rightarrow> (a', if ok then None else Some TypeMismatch)))"

definition encode_json :: "json \<Rightarrow> byte list" where
  "encode_json v = bytes_of (json_text v @ [newline])"

section \<open>Messages\<close>

definition PeerStatusInfo_fields :: "PeerStatusInfo field list" where
  "PeerStatusInfo_fields =
     [string_field ''Name'' (\<lambda>s r. r\<lparr>psi_Name := s\<rparr>),
      bool_field ''Declined'' (\<lambda>b r. r\<lparr>psi_Declined := b\<rparr>),
      bool_field ''AllowUsingAsExitNode'' (\<lambda>b r. r\<lparr>psi_AllowUsingAsExitNode := b\<rparr>),
      string_field ''UsingPeerID'' (\<lambda>s r. r\<lparr>psi_UsingPeerID := s\<rparr>)]"

definition ReceiveStatus :: "'b stream_scheme \<Rightarrow> PeerStatusInfo \<times> json_error option" where
  "ReceiveStatus stream =
     decode_struct PeerStatusInfo_fields
       \<lparr>psi_Name = [], psi_Declined = False, psi_AllowUsingAsExitNode = False, psi_UsingPeerID = []\<rparr> stream"

definition SendStatus :: "PeerStatusInfo \<Rightarrow> byte list" where
  "SendStatus statusInfo =
     encode_json (JObj
       [(''Name'', JStr (psi_Name statusInfo)), (''Declined'', JBool (psi_Declined statusInfo)),
        (''AllowUsingAsExitNode'', JBool (psi_AllowUsingAsExitNode statusInfo)),
        (''UsingPeerID'', JStr (psi_UsingPeerID statusInfo))])"

definition ReceiveAuth :: "'b stream_scheme \<Rightarrow> AuthPeer \<times> json_error option" where
  "ReceiveAuth stream =
     decode_struct [string_field ''Name'' (\<lambda>s r. r\<lparr>ap_Name := s\<rparr>)] \<lparr>ap_Name = []\<rparr> stream"

definition SendAuth :: "AuthPeer \<Rightarrow> byte list" where
  "SendAuth authPeer = encode_json (JObj [(''Name'', JStr (ap_Name authPeer))])"

definition ReceiveAuthResponse :: "'b stream_scheme \<Rightarrow> AuthPeerResponse \<times> json_error option" where
  "ReceiveAuthResponse stream =
     decode_struct
       [bool_field ''Confirmed'' (\<lambda>b r. r\<lparr>apr_Confirmed := b\<rparr>),
        bool_field ''Declined'' (\<lambda>b r. r\<lparr>apr_Declined := b\<rparr>)]
       \<lparr>apr_Confirmed = False, apr_Declined = False\<rparr> stream"

definition SendAuthResponse :: "AuthPeerResponse \<Rightarrow> byte list" where
  "SendAuthResponse response =
     encode_json (JObj [(''Confirmed'', JBool (apr_Confirmed response)), (''Declined'', JBool (apr_Declined response))])"

section \<open>Reading back\<close>

lemma parse_json_text:
  "nested v \<le> d \<Longrightarrow> numbers_ok v \<Longrightarrow> stops rest \<Longrightarrow> parse_value d (json_text v @ rest) = Some (clean v, rest)"
  using json_reads_back by (simp add: reads_back_def)

lemma stops_newline [simp]: "stops (newline # r)"
  by (simp add: stops_def is_digit_def)

text \<open>A flat object: its members are scalars without numbers.\<close>

definition flat_member :: "string \<times> json \<Rightarrow> bool" where
  "flat_member m \<longleftrightarrow> (case snd m of JArr _ \<Rightarrow> False | JObj _ \<Rightarrow> False | JNum _ \<Rightarrow> False | _ \<Rightarrow> True)"

lemma nested_flat: "list_all flat_member ms \<Longrightarrow> nested (JObj ms) = 1 \<and> numbers_ok (JObj ms)"
proof -
  assume a: "list_all flat_member ms"
  have "nested (snd m) = 0 \<and> numbers_ok (snd m)" if "m \<in> set ms" for m
    using a that by (cases "snd m") (auto simp: flat_member_def list_all_iff)
  then have n: "\<forall>m \<in> set ms. nested (snd m) = 0" and k: "\<forall>m \<in> set ms. numbers_ok (snd m)" by blast+
  have "insert 0 (set (map snd (map (map_prod id nested) ms))) = {0}" using n by auto
  then have "nested (JObj ms) = 1" by (simp only: nested.simps Max_singleton One_nat_def)
  with k show ?thesis by (simp add: numbers_ok_object)
qed

lemma decode_encoded:
  assumes "list_all flat_member ms"
  shows "decode_struct fs a \<lparr>st_bytes = encode_json (JObj ms) @ rest, st_end = e\<rparr> =
    (case fold (store_member fs) (map (\<lambda>(k, v). (to_valid k, clean v)) ms) (a, True) of
       (a', ok) \<Rightarrow> (a', if ok then None else Some TypeMismatch))"
proof -
  have "nested (JObj ms) \<le> maxNestingDepth" "numbers_ok (JObj ms)"
    using nested_flat [OF assms] by (simp_all add: maxNestingDepth_def)
  then have "parse_value maxNestingDepth (json_text (JObj ms) @ newline # text_of rest) =
      Some (JObj (map (\<lambda>(k, v). (to_valid k, clean v)) ms), newline # text_of rest)"
    using parse_json_text [of "JObj ms"] by (simp add: clean_object)
  then show ?thesis
    by (simp add: decode_struct_def read_value_def encode_json_def store_struct_def split: prod.split)
qed

definition ascii :: "string \<Rightarrow> bool" where
  "ascii s \<longleftrightarrow> list_all (\<lambda>c. of_char c < (0x80 :: nat)) s"

lemma DecodeRune_ascii: "of_char c < (0x80 :: nat) \<Longrightarrow> DecodeRune (c # s) = (of_char c, 1)"
  by (simp add: DecodeRune_def)

lemma runes_ascii: "ascii s \<Longrightarrow> runes s = map (\<lambda>c. (of_char c, [c])) s"
proof (induction s)
  case (Cons c s)
  then have "DecodeRune (c # s) = (of_char c, 1)" "runes s = map (\<lambda>c. (of_char c, [c])) s"
    by (simp_all add: ascii_def DecodeRune_ascii)
  then show ?case by simp
qed simp

lemma to_valid_ascii: "ascii s \<Longrightarrow> to_valid s = s"
proof -
  assume a: "ascii s"
  then have "map (\<lambda>c. encode_rune (of_char c)) s = map (\<lambda>c. [c]) s"
    by (auto simp: ascii_def list_all_iff encode_ascii)
  then have "concat (map (\<lambda>c. encode_rune (of_char c)) s) = s" by (simp only: concat_map_singleton list.map_ident)
  then show ?thesis using a by (simp add: to_valid_def map_runes_def runes_ascii comp_def)
qed

text \<open>A field named as the member is found first, so an encoded struct is stored field by field.\<close>

lemma store_exact:
  "find (\<lambda>f. fst f = k) fs = Some f \<Longrightarrow> snd f v = Some upd \<Longrightarrow> store_member fs (k, v) (a, ok) = (upd a, ok)"
  by (simp add: store_member_def find_field_def)

lemma names_ascii [simp]: "to_valid ''Name'' = ''Name''" "to_valid ''Declined'' = ''Declined''"
  "to_valid ''AllowUsingAsExitNode'' = ''AllowUsingAsExitNode''" "to_valid ''UsingPeerID'' = ''UsingPeerID''"
  "to_valid ''Confirmed'' = ''Confirmed''"
  by (simp_all add: to_valid_ascii ascii_def)

lemma receive_sent:
  "ReceiveStatus \<lparr>st_bytes = SendStatus info @ rest, st_end = e\<rparr> =
     (info\<lparr>psi_Name := to_valid (psi_Name info), psi_UsingPeerID := to_valid (psi_UsingPeerID info)\<rparr>, None)"
  "ReceiveAuth \<lparr>st_bytes = SendAuth ap @ rest, st_end = e\<rparr> = (ap\<lparr>ap_Name := to_valid (ap_Name ap)\<rparr>, None)"
  "ReceiveAuthResponse \<lparr>st_bytes = SendAuthResponse r @ rest, st_end = e\<rparr> = (r, None)"
  by (simp_all add: ReceiveStatus_def SendStatus_def ReceiveAuth_def SendAuth_def ReceiveAuthResponse_def SendAuthResponse_def
      decode_encoded flat_member_def store_exact PeerStatusInfo_fields_def)

text \<open>
  C8. Every message of the two exchanges arrives as it was sent: what \<open>SendStatus\<close>, \<open>SendAuth\<close> and
  \<open>SendAuthResponse\<close> write is read without an error by the receivers, whatever follows it in the stream
  and however the stream ends, and gives the same message with each byte of a string that is no UTF-8
  replaced by U+FFFD; a string that is UTF-8 arrives unchanged (\<open>to_valid_id\<close>).
\<close>

theorem messages_roundtrip:
  "ReceiveStatus \<lparr>st_bytes = SendStatus info @ rest, st_end = e\<rparr> =
     (info\<lparr>psi_Name := to_valid (psi_Name info), psi_UsingPeerID := to_valid (psi_UsingPeerID info)\<rparr>, None) \<and>
   ReceiveAuth \<lparr>st_bytes = SendAuth ap @ rest, st_end = e\<rparr> = (ap\<lparr>ap_Name := to_valid (ap_Name ap)\<rparr>, None) \<and>
   ReceiveAuthResponse \<lparr>st_bytes = SendAuthResponse r @ rest, st_end = e\<rparr> = (r, None)"
  by (simp add: receive_sent)

section \<open>Whatever arrives\<close>

definition valid_value :: "json \<Rightarrow> bool" where
  "valid_value v \<longleftrightarrow> (\<forall>x. v = JStr x \<longrightarrow> valid_utf8 x)"

lemma parse_object_valid:
  assumes "parse_value d s = Some (JObj ms, t)"
  shows "\<forall>m \<in> set ms. valid_value (snd m)"
proof -
  have "ms = [] \<or> (\<exists>n u. parse_members (d - 1) n u = Some (ms, t))"
    using assms by (auto simp: parse_value.simps split: list.splits if_splits)
  then show ?thesis by (auto simp: valid_value_def intro: parse_members_valid)
qed

lemma read_value_Some:
  assumes "read_value s = Some v"
  shows "\<exists>t. parse_value maxNestingDepth (text_of (st_bytes s)) = Some (v, t)"
proof (cases "parse_value maxNestingDepth (text_of (st_bytes s))")
  case (Some vt)
  obtain v' t where vt: "vt = (v', t)" by fastforce
  have "v' = v" using assms Some vt by (cases v') (simp_all add: read_value_def split: if_splits)
  then show ?thesis using Some vt by simp
qed (use assms in \<open>simp add: read_value_def\<close>)

definition keeps :: "('a \<Rightarrow> bool) \<Rightarrow> 'a field list \<Rightarrow> bool" where
  "keeps P fs \<longleftrightarrow> (\<forall>f \<in> set fs. \<forall>v upd a. snd f v = Some upd \<longrightarrow> valid_value v \<longrightarrow> P a \<longrightarrow> P (upd a))"

lemma find_field_set: "find_field fs k = Some f \<Longrightarrow> f \<in> set fs"
  by (auto simp: find_field_def find_Some_iff split: option.splits)

lemma store_keeps:
  assumes "keeps P fs" and "P a" and "\<forall>m \<in> set ms. valid_value (snd m)"
  shows "P (fst (fold (store_member fs) ms (a, ok)))"
  using assms(2,3)
proof (induction ms arbitrary: a ok)
  case (Cons m ms)
  obtain a' ok' where st: "store_member fs m (a, ok) = (a', ok')" by fastforce
  have "P a'"
    using st Cons.prems assms(1) find_field_set [of fs "fst m"]
    by (fastforce simp: store_member_def keeps_def split: option.splits)
  then show ?case using Cons st by simp
qed simp

lemma decode_keeps:
  assumes "keeps P fs" and "P a"
  shows "P (fst (decode_struct fs a s))"
proof (cases "read_value s")
  case (Some v)
  show ?thesis
  proof (cases v)
    case (JObj ms)
    obtain t where "parse_value maxNestingDepth (text_of (st_bytes s)) = Some (JObj ms, t)"
      using read_value_Some Some JObj by blast
    then have "\<forall>m \<in> set ms. valid_value (snd m)" by (rule parse_object_valid)
    then have "P (fst (fold (store_member fs) ms (a, True)))" by (rule store_keeps [OF assms])
    then show ?thesis using Some JObj by (simp add: decode_struct_def store_struct_def case_prod_unfold)
  qed (use Some assms(2) in \<open>simp_all add: decode_struct_def store_struct_def\<close>)
qed (simp add: decode_struct_def assms(2))


text \<open>An object that is cut before its last bracket is not read.\<close>

lemma cut_object:
  assumes "list_all flat_member ms" and "k < length (encode_json (JObj ms)) - 1"
  shows "decode_struct fs a \<lparr>st_bytes = take k (encode_json (JObj ms)), st_end = e\<rparr> = (a, Some BadText)"
proof -
  let ?j = "json_text (JObj ms)"
  have k: "k < length ?j" using assms(2) by (simp add: encode_json_def bytes_of_def)
  have p: "text_of (take k (encode_json (JObj ms))) = take k ?j"
  proof -
    have "text_of (take k (encode_json (JObj ms))) = take k (text_of (encode_json (JObj ms)))"
      by (simp add: text_of_def take_map)
    with k show ?thesis by (simp add: encode_json_def)
  qed
  have whole: "parse_value maxNestingDepth ?j = Some (clean (JObj ms), [])"
    using parse_json_text [of "JObj ms" maxNestingDepth "[]"] nested_flat [OF assms(1)]
    by (simp add: maxNestingDepth_def stops_def)
  have "parse_value maxNestingDepth (take k ?j) = None" using cut_not_read [OF whole object_text k] .
  then show ?thesis using p by (simp add: decode_struct_def read_value_def)
qed

text \<open>
  C18. A message that is cut short is refused: when the stream ends anywhere before the closing bracket of
  what a sender wrote, the receiver returns an error and an empty message, whatever the strings contain.
\<close>

theorem cut_message_refused:
  "(k < length (SendStatus info) - 1 \<longrightarrow>
      ReceiveStatus \<lparr>st_bytes = take k (SendStatus info), st_end = e\<rparr> =
        (\<lparr>psi_Name = [], psi_Declined = False, psi_AllowUsingAsExitNode = False, psi_UsingPeerID = []\<rparr>, Some BadText)) \<and>
   (k < length (SendAuth ap) - 1 \<longrightarrow>
      ReceiveAuth \<lparr>st_bytes = take k (SendAuth ap), st_end = e\<rparr> = (\<lparr>ap_Name = []\<rparr>, Some BadText)) \<and>
   (k < length (SendAuthResponse r) - 1 \<longrightarrow>
      ReceiveAuthResponse \<lparr>st_bytes = take k (SendAuthResponse r), st_end = e\<rparr> =
        (\<lparr>apr_Confirmed = False, apr_Declined = False\<rparr>, Some BadText))"
  unfolding ReceiveStatus_def SendStatus_def ReceiveAuth_def SendAuth_def ReceiveAuthResponse_def SendAuthResponse_def
  by (intro conjI impI cut_object) (simp_all add: flat_member_def)

theorem cut_message_refused_witness:
  "ReceiveStatus \<lparr>st_bytes = take 12 (SendStatus \<lparr>psi_Name = ''me'', psi_Declined = True, psi_AllowUsingAsExitNode = False,
       psi_UsingPeerID = ''p''\<rparr>), st_end = EOF\<rparr> =
     (\<lparr>psi_Name = [], psi_Declined = False, psi_AllowUsingAsExitNode = False, psi_UsingPeerID = []\<rparr>, Some BadText) \<and>
   12 < length (SendAuth \<lparr>ap_Name = ''peer''\<rparr>) - 1 \<and> 12 < length (SendAuthResponse \<lparr>apr_Confirmed = True, apr_Declined = False\<rparr>) - 1"
proof -
  let ?i = "\<lparr>psi_Name = ''me'', psi_Declined = True, psi_AllowUsingAsExitNode = False, psi_UsingPeerID = ''p''\<rparr>"
  have "12 < length (SendStatus ?i) - 1" by code_simp
  moreover have "12 < length (SendAuth \<lparr>ap_Name = ''peer''\<rparr>) - 1" by code_simp
  moreover have "12 < length (SendAuthResponse \<lparr>apr_Confirmed = True, apr_Declined = False\<rparr>) - 1" by code_simp
  ultimately show ?thesis using cut_message_refused [of 12 ?i EOF "\<lparr>ap_Name = ''peer''\<rparr>"] by blast
qed

end
