(* ===== verification/Status_Wire.thy ===== *)
theory Status_Wire
  imports Auth_Status Wire_Messages
begin

text \<open>
  A status exchange of two nodes over the bytes of one stream: one runs \<open>ExchangeNewStatusInfo\<close>, the
  other \<open>StatusStreamHandler\<close> (\<open>src/service/auth_status.go\<close>), and the messages cross as the JSON of
  \<open>src/protocol/protocol.go\<close>. An auth request and its answer cross in the same way.
\<close>

section \<open>Both ends of a stream\<close>

definition received_of :: "'a \<times> json_error option \<Rightarrow> 'a option" where
  "received_of r = (if snd r = None then Some (fst r) else None)"

definition sent_of :: "('a \<Rightarrow> byte list) \<Rightarrow> 'a option \<Rightarrow> byte list" where
  "sent_of send m = (case m of None \<Rightarrow> [] | Some i \<Rightarrow> send i)"

text \<open>The handler on the bytes that arrive; it closes the stream after its answer.\<close>

definition serve_status :: "externals \<Rightarrow> nat \<Rightarrow> stream \<Rightarrow> string \<Rightarrow> AuthStatus \<Rightarrow> byte list \<times> AuthStatus" where
  "serve_status x now st remotePeer s =
     (case StatusStreamHandler x now id (received_of (ReceiveStatus st)) remotePeer s of
        (answer, s') \<Rightarrow> (sent_of SendStatus answer, s'))"

definition serve_auth :: "externals \<Rightarrow> nat \<Rightarrow> stream \<Rightarrow> string \<Rightarrow> AuthStatus \<Rightarrow> (byte list \<times> task list \<times> AuthStatus) option" where
  "serve_auth x now st remotePeer s =
     map_option (\<lambda>(answer, ts, s'). (sent_of SendAuthResponse answer, ts, s'))
       (AuthStreamHandler x now (received_of (ReceiveAuth st)) remotePeer s)"

definition stream_env :: "PeerStatusInfo option \<Rightarrow> exch_env" where
  "stream_env r = \<lparr>xe_connectOk = True, xe_streamOk = True, xe_sendOk = True, xe_received = r\<rparr>"

text \<open>
  The whole exchange: \<open>idA\<close> dials \<open>idB\<close>, whose answer is the rest of the stream. What the dialling
  side sends does not depend on the answer.
\<close>

definition exchange_over_stream ::
    "externals \<Rightarrow> nat \<Rightarrow> nat \<Rightarrow> string \<Rightarrow> string \<Rightarrow> KnownPeer \<Rightarrow> AuthStatus \<Rightarrow> AuthStatus \<Rightarrow>
     exch_error option \<times> AuthStatus \<times> AuthStatus" where
  "exchange_over_stream x nowA nowB idA idB knownPeer a b =
     (let sent = fst (snd (ExchangeNewStatusInfo x nowA (stream_env None) id id idB knownPeer a));
          (answer, b') = serve_status x nowB \<lparr>st_bytes = sent_of SendStatus sent, st_end = EOF\<rparr> idA b;
          received = received_of (ReceiveStatus \<lparr>st_bytes = answer, st_end = EOF\<rparr>)
      in case ExchangeNewStatusInfo x nowA (stream_env received) id id idB knownPeer a of
           (err, _, a') \<Rightarrow> (err, a', b'))"

definition auth_over_stream ::
    "externals \<Rightarrow> nat \<Rightarrow> string \<Rightarrow> string \<Rightarrow> AuthPeer \<Rightarrow> AuthStatus \<Rightarrow> AuthStatus \<Rightarrow>
     (exch_error option \<times> AuthStatus \<times> task list \<times> AuthStatus) option" where
  "auth_over_stream x now idA idB req a b =
     map_option (\<lambda>(answer, ts, b').
         case SendAuthRequest x \<lparr>ae_connectOk = True, ae_streamOk = True, ae_sendOk = True,
                ae_received = received_of (ReceiveAuthResponse \<lparr>st_bytes = answer, st_end = EOF\<rparr>)\<rparr> id idB req a of
           (err, a') \<Rightarrow> (err, a', ts, b'))
       (serve_auth x now \<lparr>st_bytes = SendAuth req, st_end = EOF\<rparr> idA b)"

section \<open>Messages on the way\<close>

definition wire_info :: "PeerStatusInfo \<Rightarrow> PeerStatusInfo" where
  "wire_info i = i\<lparr>psi_Name := to_valid (psi_Name i), psi_UsingPeerID := to_valid (psi_UsingPeerID i)\<rparr>"

lemma status_crosses [simp]:
  "received_of (ReceiveStatus \<lparr>st_bytes = SendStatus i, st_end = e\<rparr>) = Some (wire_info i)"
  using receive_sent(1) [of i "[]" e] by (simp add: received_of_def wire_info_def)

lemma auth_crosses [simp]:
  "received_of (ReceiveAuth \<lparr>st_bytes = SendAuth r, st_end = e\<rparr>) = Some (r\<lparr>ap_Name := to_valid (ap_Name r)\<rparr>)"
  "received_of (ReceiveAuthResponse \<lparr>st_bytes = SendAuthResponse p, st_end = e\<rparr>) = Some p"
  using receive_sent(2) [of r "[]" e] receive_sent(3) [of p "[]" e] by (simp_all add: received_of_def)

lemma nothing_received [simp]: "received_of (ReceiveStatus \<lparr>st_bytes = [], st_end = e\<rparr>) = None"
  by (simp add: received_of_def ReceiveStatus_def decode_struct_def read_value_def text_of_def parse_value.simps skip_ws_def)

text \<open>The message a node sends about itself to a peer it knows.\<close>

definition own_info :: "AuthStatus \<Rightarrow> KnownPeer \<Rightarrow> PeerStatusInfo" where
  "own_info s p = createPeerInfo (as_c s) p (pn_Name (c_P2pNode (as_c s))) False"

lemma GetPeer_reload:
  assumes "peers_wf (as_c s)" and "GetPeer (as_c s) k = Some p"
  shows "GetPeer (as_c (reload_and_process x now k info s)) j =
    (if j = k then Some (stored_peer x now (as_c s) p info) else GetPeer (as_c s) j)"
  using assms GetPeer_PeerID [OF assms] by (simp add: reload_and_process_def process_conf Let_def GetPeer_set)

text \<open>Both ends when neither is blocked.\<close>

lemma exchange_known:
  assumes "GetPeer (as_c a) (x_String x idB) = Some pb" and "GetPeer (as_c b) (x_String x idA) = Some pa"
    and "GetBlockedPeer (as_c a) (x_String x idB) = None" and "GetBlockedPeer (as_c b) (x_String x idA) = None"
  shows "exchange_over_stream x nowA nowB idA idB pb a b =
    (None, reload_and_process x nowA (x_String x idB) (wire_info (own_info b pa)) (del_ingoing idB a),
     reload_and_process x nowB (x_String x idA) (wire_info (own_info a pb)) (del_outgoing idA b))"
  using assms
  by (simp add: exchange_over_stream_def serve_status_def ExchangeNewStatusInfo_def StatusStreamHandler_def stream_env_def
      sent_of_def own_info_def Let_def)

text \<open>
  C4. Two nodes that know each other and exchange their status agree afterwards: each has the other as
  confirmed, under the name the other gives itself, with the exit node the other uses, and what each may
  use of the other is what the other allows. All of it survives the JSON on the stream, for every name
  that is UTF-8, and no other peer of either node changes.
\<close>

theorem exchange_agrees:
  assumes "peers_wf (as_c a)" and "peers_wf (as_c b)"
    and "GetPeer (as_c a) (x_String x idB) = Some pb" and "GetPeer (as_c b) (x_String x idA) = Some pa"
    and "GetBlockedPeer (as_c a) (x_String x idB) = None" and "GetBlockedPeer (as_c b) (x_String x idA) = None"
    and "valid_utf8 (pn_Name (c_P2pNode (as_c a)))" and "valid_utf8 (pn_Name (c_P2pNode (as_c b)))"
    and "valid_utf8 (sc_UsingPeerID (c_SOCKS5 (as_c a)))" and "valid_utf8 (sc_UsingPeerID (c_SOCKS5 (as_c b)))"
    and "exchange_over_stream x nowA nowB idA idB pb a b = (err, a', b')"
  shows "err = None \<and>
    (\<exists>pb' pa'. GetPeer (as_c a') (x_String x idB) = Some pb' \<and> GetPeer (as_c b') (x_String x idA) = Some pa' \<and>
       kp_Confirmed pb' \<and> kp_Confirmed pa' \<and> \<not> kp_Declined pb' \<and> \<not> kp_Declined pa' \<and>
       kp_Name pb' = pn_Name (c_P2pNode (as_c b)) \<and> kp_Name pa' = pn_Name (c_P2pNode (as_c a)) \<and>
       kp_AllowedUsingAsExitNode pb' = kp_WeAllowUsingAsExitNode pa' \<and>
       kp_AllowedUsingAsExitNode pa' = kp_WeAllowUsingAsExitNode pb' \<and>
       kp_ReportedUsingPeerID pb' = sc_UsingPeerID (c_SOCKS5 (as_c b)) \<and>
       kp_ReportedUsingPeerID pa' = sc_UsingPeerID (c_SOCKS5 (as_c a))) \<and>
    (\<forall>k. k \<noteq> x_String x idB \<longrightarrow> GetPeer (as_c a') k = GetPeer (as_c a) k) \<and>
    (\<forall>k. k \<noteq> x_String x idA \<longrightarrow> GetPeer (as_c b') k = GetPeer (as_c b) k)"
proof -
  have w: "wire_info (own_info a pb) = own_info a pb" "wire_info (own_info b pa) = own_info b pa"
    using assms(7-10) by (simp_all add: wire_info_def own_info_def createPeerInfo_def to_valid_id)
  have r: "err = None" "a' = reload_and_process x nowA (x_String x idB) (own_info b pa) (del_ingoing idB a)"
    "b' = reload_and_process x nowB (x_String x idA) (own_info a pb) (del_outgoing idA b)"
    using assms(11) exchange_known [OF assms(3-6), of nowA nowB] w by simp_all
  have "GetPeer (as_c a') k = (if k = x_String x idB then Some (stored_peer x nowA (as_c a) pb (own_info b pa)) else GetPeer (as_c a) k)"
    "GetPeer (as_c b') k = (if k = x_String x idA then Some (stored_peer x nowB (as_c b) pa (own_info a pb)) else GetPeer (as_c b) k)" for k
    using assms(1-4) GetPeer_reload [of "del_ingoing idB a"] GetPeer_reload [of "del_outgoing idA b"] by (simp_all add: r)
  then show ?thesis using r(1) by (simp add: stored_peer_def own_info_def createPeerInfo_def)
qed

definition node :: "string \<Rightarrow> KnownPeer \<Rightarrow> AuthStatus" where
  "node name p = sample_auth (zero_Config\<lparr>c_P2pNode := (c_P2pNode zero_Config)\<lparr>pn_Name := name\<rparr>, c_KnownPeers := [(kp_PeerID p, p)]\<rparr>)"

definition node_a :: AuthStatus where
  "node_a = node ''alice'' (zero_KnownPeer\<lparr>kp_PeerID := ''Qb'', kp_Alias := ''b''\<rparr>)"

definition node_b :: AuthStatus where
  "node_b = node ''bob'' (zero_KnownPeer\<lparr>kp_PeerID := ''Qa'', kp_Alias := ''a'', kp_WeAllowUsingAsExitNode := True\<rparr>)"

theorem exchange_agrees_witness:
  "\<exists>pb'. GetPeer (as_c (fst (snd (exchange_over_stream sample_ext 5 6 ''a'' ''b''
       (zero_KnownPeer\<lparr>kp_PeerID := ''Qb'', kp_Alias := ''b''\<rparr>) node_a node_b)))) ''Qb'' = Some pb' \<and>
     kp_Confirmed pb' \<and> kp_Name pb' = ''bob''"
proof -
  let ?pb = "zero_KnownPeer\<lparr>kp_PeerID := ''Qb'', kp_Alias := ''b''\<rparr>"
  let ?pa = "zero_KnownPeer\<lparr>kp_PeerID := ''Qa'', kp_Alias := ''a'', kp_WeAllowUsingAsExitNode := True\<rparr>"
  have d: "as_c node_a = zero_Config\<lparr>c_P2pNode := (c_P2pNode zero_Config)\<lparr>pn_Name := ''alice''\<rparr>, c_KnownPeers := [(''Qb'', ?pb)]\<rparr>"
    "as_c node_b = zero_Config\<lparr>c_P2pNode := (c_P2pNode zero_Config)\<lparr>pn_Name := ''bob''\<rparr>, c_KnownPeers := [(''Qa'', ?pa)]\<rparr>"
    by (simp_all add: node_a_def node_b_def node_def sample_auth_def)
  have ne: "valid_utf8 []" "valid_utf8 ''alice''" "valid_utf8 ''bob''" by code_simp+
  have "peers_wf (as_c node_a)" "peers_wf (as_c node_b)"
    by (simp_all add: d peers_wf_def zero_Config_def gm_wf_def)
  moreover have "GetPeer (as_c node_a) (x_String sample_ext ''b'') = Some ?pb" "GetPeer (as_c node_b) (x_String sample_ext ''a'') = Some ?pa"
    by (simp_all add: d sample_ext_def GetPeer_def gm_get_def)
  moreover have "GetBlockedPeer (as_c node_a) (x_String sample_ext ''b'') = None" "GetBlockedPeer (as_c node_b) (x_String sample_ext ''a'') = None"
    by (simp_all add: d sample_ext_def zero_Config_def GetBlockedPeer_def gm_get_def)
  moreover have "valid_utf8 (pn_Name (c_P2pNode (as_c node_a)))" "valid_utf8 (pn_Name (c_P2pNode (as_c node_b)))"
    "valid_utf8 (sc_UsingPeerID (c_SOCKS5 (as_c node_a)))" "valid_utf8 (sc_UsingPeerID (c_SOCKS5 (as_c node_b)))"
    using ne by (simp_all add: d zero_Config_def zero_SOCKS5Config_def)
  moreover obtain err a' b' where e: "exchange_over_stream sample_ext 5 6 ''a'' ''b'' ?pb node_a node_b = (err, a', b')"
    by (metis prod.collapse)
  ultimately have "\<exists>pb'. GetPeer (as_c a') (x_String sample_ext ''b'') = Some pb' \<and> kp_Confirmed pb' \<and>
      kp_Name pb' = pn_Name (c_P2pNode (as_c node_b))"
    using exchange_agrees [of node_a node_b sample_ext "''b''" ?pb "''a''" ?pa 5 6 err a' b'] by blast
  then show ?thesis unfolding e by (simp add: d sample_ext_def)
qed

section \<open>An invitation from end to end\<close>

lemma exchange_unknown:
  assumes "GetPeer (as_c b) (x_String x idA) = None" and "GetBlockedPeer (as_c b) (x_String x idA) = None"
  shows "exchange_over_stream x nowA nowB idA idB p a b = (Some ReceiveFailed, del_ingoing idB a, b)"
  using assms
  by (simp add: exchange_over_stream_def serve_status_def ExchangeNewStatusInfo_def StatusStreamHandler_def stream_env_def
      sent_of_def Let_def)

lemma auth_unknown:
  assumes "GetPeer (as_c b) (x_String x idA) = None" and "GetBlockedPeer (as_c b) (x_String x idA) = None"
    and "\<not> pn_AutoAcceptAuthRequests (c_P2pNode (as_c b))"
  shows "auth_over_stream x now idA idB req a b =
    Some (None, a\<lparr>as_outgoingAuths := gm_set (as_outgoingAuths a) idB req\<rparr>, [],
      b\<lparr>as_ingoingAuths := gm_set (as_ingoingAuths b) idA (req\<lparr>ap_Name := to_valid (ap_Name req)\<rparr>),
        as_conf := emit (ReceivedAuthRequest (req\<lparr>ap_Name := to_valid (ap_Name req)\<rparr>) (x_String x idA)) (as_conf b)\<rparr>)"
  using assms
  by (simp add: auth_over_stream_def serve_auth_def AuthStreamHandler_def SendAuthRequest_def sent_of_def Let_def)

lemma AddPeer_conf:
  assumes "AddPeer x now i n al cf ip s = Some (Inr ts, s')"
  obtains a where "as_c s' = (as_c s)\<lparr>c_BlockedPeers := gm_del (c_BlockedPeers (as_c s)) (x_String x i),
      c_KnownPeers := gm_set (c_KnownPeers (as_c s)) (x_String x i) (added_peer x now (x_String x i) n al cf a)\<rparr>"
    and "as_ingoingAuths s' = as_ingoingAuths s" and "as_outgoingAuths s' = as_outgoingAuths s"
  using AddPeer_Inr [OF assms] by (fastforce simp: RemoveBlockedPeer_conf)

lemma AddPeer_known:
  assumes "peers_wf (as_c s)" and "AddPeer x now i n al cf ip s = Some (Inr ts, s')"
  shows "peers_wf (as_c s') \<and> (\<exists>p. GetPeer (as_c s') (x_String x i) = Some p \<and> kp_Confirmed p = cf) \<and>
    GetBlockedPeer (as_c s') (x_String x i) = None \<and>
    c_P2pNode (as_c s') = c_P2pNode (as_c s) \<and> c_SOCKS5 (as_c s') = c_SOCKS5 (as_c s)"
proof -
  let ?k = "x_String x i"
  obtain a where c: "as_c s' = (as_c s)\<lparr>c_BlockedPeers := gm_del (c_BlockedPeers (as_c s)) ?k,
      c_KnownPeers := gm_set (c_KnownPeers (as_c s)) ?k (added_peer x now ?k n al cf a)\<rparr>"
    using AddPeer_conf [OF assms(2)] by blast
  have "peers_wf ((as_c s)\<lparr>c_BlockedPeers := gm_del (c_BlockedPeers (as_c s)) ?k\<rparr>)"
    by (rule peers_wf_blocked_del [OF assms(1)])
  from peers_wf_known_set [OF this, of "added_peer x now ?k n al cf a"] have "peers_wf (as_c s')" by (simp add: c)
  then show ?thesis by (simp add: c GetPeer_def GetBlockedPeer_def gm.get_put gm.get_del)
qed

text \<open>
  C9. An invitation completes. A node adds a peer and sends its request; the peer, which does not know it
  yet, lists the request under the node's own name and changes nothing else, and the status message that
  follows is not answered. Once the peer's user accepts the request and the status is exchanged, both have
  each other as confirmed, and neither has a request left.
\<close>

theorem invitation_completes:
  assumes "peers_wf (as_c a)" and "peers_wf (as_c b)"
    and "valid_utf8 (pn_Name (c_P2pNode (as_c a)))"
    and "GetPeer (as_c b) (x_String x idA) = None" and "GetBlockedPeer (as_c b) (x_String x idA) = None"
    and "\<not> pn_AutoAcceptAuthRequests (c_P2pNode (as_c b))"
    and "AddPeer x t1 idB [] alA False ipA a = Some (Inr ts1, a1)"
    and "auth_over_stream x t2 idA idB \<lparr>ap_Name = pn_Name (c_P2pNode (as_c a))\<rparr> a1 b = Some (e2, a2, ts2, b2)"
    and "exchange_over_stream x t3 t3 idA idB p3 a2 b2 = (e3, a3, b3)"
    and "AddPeer x t4 idA nameA alB True ipB b3 = Some (Inr ts4, b4)"
    and "GetPeer (as_c b4) (x_String x idA) = Some p4"
    and "exchange_over_stream x t5 t5 idB idA p4 b4 a3 = (e5, b5, a5)"
  shows "e2 = None \<and> gm_get (as_ingoingAuths b2) idA = Some \<lparr>ap_Name = pn_Name (c_P2pNode (as_c a))\<rparr> \<and> as_c b2 = as_c b \<and>
    e3 = Some ReceiveFailed \<and> b3 = b2 \<and> e5 = None \<and>
    (\<exists>pb. GetPeer (as_c a5) (x_String x idB) = Some pb \<and> kp_Confirmed pb) \<and>
    (\<exists>pa. GetPeer (as_c b5) (x_String x idA) = Some pa \<and> kp_Confirmed pa) \<and>
    gm_get (as_ingoingAuths b5) idA = None \<and> gm_get (as_outgoingAuths a5) idB = None"
proof -
  let ?req = "\<lparr>ap_Name = pn_Name (c_P2pNode (as_c a))\<rparr>"
  note auth = auth_unknown [OF assms(4-6), of t2 idB ?req a1]
  have req: "?req\<lparr>ap_Name := to_valid (ap_Name ?req)\<rparr> = ?req" using assms(3) by (simp add: to_valid_id)
  have 2: "e2 = None" "a2 = a1\<lparr>as_outgoingAuths := gm_set (as_outgoingAuths a1) idB ?req\<rparr>"
    "as_ingoingAuths b2 = gm_set (as_ingoingAuths b) idA ?req" "as_c b2 = as_c b"
    using assms(8) auth req by (auto simp: emit_def)
  have 3: "e3 = Some ReceiveFailed" "a3 = del_ingoing idB a2" "b3 = b2"
    using assms(9) exchange_unknown [of b2 x idA] assms(4,5) 2(4) by simp_all
  note ka = AddPeer_known [OF assms(1,7)]
  have kb: "peers_wf (as_c b4)" "kp_Confirmed p4" "GetBlockedPeer (as_c b4) (x_String x idA) = None"
    using AddPeer_known [OF _ assms(10)] assms(2,11) 2(4) 3(3) by auto
  have a3: "as_c a3 = as_c a1" using 2(2) 3(2) by simp
  then obtain p where p: "GetPeer (as_c a3) (x_String x idB) = Some p" using ka by auto
  have 5: "e5 = None" "b5 = reload_and_process x t5 (x_String x idA) (wire_info (own_info a3 p)) (del_ingoing idA b4)"
    "a5 = reload_and_process x t5 (x_String x idB) (wire_info (own_info b4 p4)) (del_outgoing idB a3)"
    using assms(12) exchange_known [OF assms(11) p kb(3)] ka a3 by simp_all
  have "\<not> psi_Declined (wire_info (own_info t q))" for t q by (simp add: wire_info_def own_info_def createPeerInfo_def)
  then have "\<exists>pb. GetPeer (as_c a5) (x_String x idB) = Some pb \<and> kp_Confirmed pb"
    "\<exists>pa. GetPeer (as_c b5) (x_String x idA) = Some pa \<and> kp_Confirmed pa"
    using GetPeer_reload [of "del_outgoing idB a3"] GetPeer_reload [of "del_ingoing idA b4"] p a3 ka kb(1) assms(11)
    by (simp_all add: 5 stored_peer_def)
  moreover have "gm_get (as_ingoingAuths b5) idA = None" "gm_get (as_outgoingAuths a5) idB = None"
    by (simp_all add: 5 reload_and_process_def del_ingoing_def del_outgoing_def gm.get_del)
  ultimately show ?thesis using 2 3 5(1) by (simp add: gm.get_put)
qed

definition lone_node :: AuthStatus where
  "lone_node = sample_auth (demo_conf ''10.66.0.1/24'' [])"

theorem invitation_completes_witness:
  "\<exists>ts1 a1 a2 b2 a3 b3 ts4 b4 p4 b5 a5 pb.
     AddPeer sample_ext 1 ''b'' [] ''bob'' False ''10.66.0.7'' lone_node = Some (Inr ts1, a1) \<and>
     auth_over_stream sample_ext 2 ''a'' ''b'' \<lparr>ap_Name = pn_Name (c_P2pNode (as_c lone_node))\<rparr> a1 lone_node =
       Some (None, a2, [], b2) \<and>
     exchange_over_stream sample_ext 3 3 ''a'' ''b'' zero_KnownPeer a2 b2 = (Some ReceiveFailed, a3, b3) \<and>
     AddPeer sample_ext 4 ''a'' ''alice'' ''al'' True ''10.66.0.7'' b3 = Some (Inr ts4, b4) \<and>
     exchange_over_stream sample_ext 5 5 ''b'' ''a'' p4 b4 a3 = (None, b5, a5) \<and>
     GetPeer (as_c a5) ''Qb'' = Some pb \<and> kp_Confirmed pb"
proof -
  let ?n = lone_node and ?req = "\<lparr>ap_Name = pn_Name (c_P2pNode (as_c lone_node))\<rparr>"
  have c: "as_c ?n = demo_conf ''10.66.0.1/24'' []" by (simp add: lone_node_def sample_auth_def)
  have "(case AddPeer sample_ext 1 ''b'' [] ''bob'' False ''10.66.0.7'' ?n of Some (Inr ts, _) \<Rightarrow> True | _ \<Rightarrow> False)"
    by code_simp
  then obtain ts1 a1 where 1: "AddPeer sample_ext 1 ''b'' [] ''bob'' False ''10.66.0.7'' ?n = Some (Inr ts1, a1)"
    by (auto split: option.splits sum.splits)
  have wf: "peers_wf (as_c ?n)" by (simp add: c demo_conf_def peers_wf_def zero_Config_def gm_wf_def)
  have v: "valid_utf8 (pn_Name (c_P2pNode (as_c ?n)))" by code_simp
  have un: "GetPeer (as_c ?n) (x_String sample_ext ''a'') = None" "GetBlockedPeer (as_c ?n) (x_String sample_ext ''a'') = None"
    "\<not> pn_AutoAcceptAuthRequests (c_P2pNode (as_c ?n))" by code_simp+
  obtain a2 b2 where 2: "auth_over_stream sample_ext 2 ''a'' ''b'' ?req a1 ?n = Some (None, a2, [], b2)"
    and b2: "b2 = ?n\<lparr>as_ingoingAuths := gm_set (as_ingoingAuths ?n) ''a'' ?req,
      as_conf := emit (ReceivedAuthRequest ?req ''Qa'') (as_conf ?n)\<rparr>"
    using auth_unknown [OF un, of 2 "''b''" ?req a1] v by (auto simp: to_valid_id sample_ext_def)
  have c2: "as_c b2 = as_c ?n" by (simp add: b2 emit_def)
  obtain a3 where 3: "exchange_over_stream sample_ext 3 3 ''a'' ''b'' zero_KnownPeer a2 b2 = (Some ReceiveFailed, a3, b2)"
    using exchange_unknown [of b2 sample_ext "''a''"] un c2 by simp
  have "(case AddPeer sample_ext 4 ''a'' ''alice'' ''al'' True ''10.66.0.7'' b2 of Some (Inr ts, _) \<Rightarrow> True | _ \<Rightarrow> False)"
    unfolding b2 by code_simp
  then obtain ts4 b4 where 4: "AddPeer sample_ext 4 ''a'' ''alice'' ''al'' True ''10.66.0.7'' b2 = Some (Inr ts4, b4)"
    by (auto split: option.splits sum.splits)
  obtain p4 where p4: "GetPeer (as_c b4) (x_String sample_ext ''a'') = Some p4"
    using AddPeer_known [OF _ 4] wf c2 by auto
  obtain e5 b5 a5 where 5: "exchange_over_stream sample_ext 5 5 ''b'' ''a'' p4 b4 a3 = (e5, b5, a5)" by (metis prod.collapse)
  from invitation_completes [OF wf wf v un 1 2 3 4 p4 5] obtain pb where
    "e5 = None" "GetPeer (as_c a5) (x_String sample_ext ''b'') = Some pb" "kp_Confirmed pb" by blast
  then have "GetPeer (as_c a5) ''Qb'' = Some pb" by (simp add: sample_ext_def)
  with 1 2 3 4 5 \<open>e5 = None\<close> \<open>kp_Confirmed pb\<close> show ?thesis by blast
qed

end
