(* ===== verification/Json_Indent.thy ===== *)
theory Json_Indent
  imports Go_Json
begin

text \<open>
  Indented JSON, as \<open>json.MarshalIndent\<close> writes it with an indentation of two spaces, and that the
  parser reads it back.
\<close>

section \<open>Text\<close>

definition line_break :: "nat \<Rightarrow> string" where
  "line_break n = CHR 0x0A # replicate (2 * n) CHR '' ''"

primrec json_indent :: "json \<Rightarrow> nat \<Rightarrow> string" where
  "json_indent JNull = (\<lambda>n. ''null'')"
| "json_indent (JBool b) = (\<lambda>n. if b then ''true'' else ''false'')"
| "json_indent (JNum x) = (\<lambda>n. x)"
| "json_indent (JStr s) = (\<lambda>n. json_quote s)"
| "json_indent (JArr vs) =
     (\<lambda>n. if vs = [] then ''[]''
          else CHR ''['' # commas (map (\<lambda>f. line_break (Suc n) @ f (Suc n)) (map json_indent vs)) @ line_break n @ '']'')"
| "json_indent (JObj ms) =
     (\<lambda>n. if ms = [] then ''{}''
          else CHR ''{'' # commas (map (\<lambda>(k, f). line_break (Suc n) @ json_quote k @ '': '' @ f (Suc n)) (map (map_prod id json_indent) ms)) @
            line_break n @ ''}'')"

section \<open>Reading it\<close>

lemma ws_break [simp]: "skip_ws (line_break n @ s) = skip_ws s"
proof -
  have "skip_ws (replicate k CHR '' '' @ s) = skip_ws s" for k by (induction k) (simp_all add: skip_ws_def)
  then show ?thesis by (simp add: line_break_def skip_ws_def)
qed

lemma ws_space [simp]: "skip_ws (CHR '' '' # s) = skip_ws s"
  by (simp add: skip_ws_def)

lemma parse_value_ws: "skip_ws s = skip_ws t \<Longrightarrow> parse_value d s = parse_value d t"
  by (simp add: parse_value.simps)

lemma parse_members_ws: "skip_ws s = skip_ws t \<Longrightarrow> parse_members d n s = parse_members d n t"
  by (simp add: parse_members.simps)

lemma parse_elems_ws: "skip_ws s = skip_ws t \<Longrightarrow> parse_elems d n s = parse_elems d n t"
  using parse_value_ws [of s t d] by (simp add: parse_elems.simps)

lemma stops_break [simp]: "stops (line_break n @ s)"
  by (simp add: line_break_def stops_def is_digit_def)

text \<open>A text from which a value is read, whatever follows.\<close>

definition text_reads :: "nat \<Rightarrow> json \<Rightarrow> string \<Rightarrow> bool" where
  "text_reads d v x \<longleftrightarrow> (\<forall>rest. stops rest \<longrightarrow> parse_value d (x @ rest) = Some (clean v, rest))"

lemma text_readsD: "text_reads d v x \<Longrightarrow> stops rest \<Longrightarrow> parse_value d (x @ rest) = Some (clean v, rest)"
  by (simp add: text_reads_def)

lemma elems_indent:
  "\<forall>v \<in> set vs. text_reads d v (f v) \<Longrightarrow> vs \<noteq> [] \<Longrightarrow> length vs \<le> n \<Longrightarrow>
     parse_elems d n (commas (map (\<lambda>v. line_break i @ f v) vs) @ line_break j @ CHR '']'' # rest) = Some (map clean vs, rest)"
proof (induction vs arbitrary: n)
  case (Cons v vs)
  have v: "parse_value d (line_break i @ f v @ u) = Some (clean v, u)" if "stops u" for u
    using Cons.prems(1) text_readsD [of d v "f v" u] that parse_value_ws [of "line_break i @ f v @ u" "f v @ u"] by simp
  show ?case
  proof (cases "vs = []")
    case True
    then show ?thesis using v Cons.prems(3) by (simp add: parse_elems.simps)
  next
    case False
    then have "parse_elems d (n - 1) (commas (map (\<lambda>v. line_break i @ f v) vs) @ line_break j @ CHR '']'' # rest) = Some (map clean vs, rest)"
      using Cons by simp
    with False v Cons.prems(3) show ?thesis by (subst parse_elems.simps) (simp add: commas_Cons)
  qed
qed simp

lemma member_indent:
  assumes "text_reads d v x" and "stops u" and "n \<noteq> 0"
  shows "parse_members d n (line_break i @ json_quote k @ '': '' @ x @ u) =
    (case skip_ws u of [] \<Rightarrow> None
     | e # t3 \<Rightarrow> if e = CHR '','' then map_option (\<lambda>(ms, z). ((to_valid k, clean v) # ms, z)) (parse_members d (n - 1) t3)
                else if e = CHR ''}'' then Some ([(to_valid k, clean v)], t3) else None)"
proof -
  let ?r = "'': '' @ x @ u"
  have q: "json_quote k @ ?r = quote_chr # tl (json_quote k) @ ?r" by (simp add: json_quote_def)
  have "parse_value d (CHR '' '' # x @ u) = Some (clean v, u)"
    using text_readsD [OF assms(1,2)] parse_value_ws [of "CHR '' '' # x @ u" "x @ u" d] by simp
  then have "parse_members d n (quote_chr # tl (json_quote k) @ ?r) =
    (case skip_ws u of [] \<Rightarrow> None
     | e # t3 \<Rightarrow> if e = CHR '','' then map_option (\<lambda>(ms, z). ((to_valid k, clean v) # ms, z)) (parse_members d (n - 1) t3)
                else if e = CHR ''}'' then Some ([(to_valid k, clean v)], t3) else None)"
    using assms(3) parse_quoted [of k ?r] by (subst parse_members.simps) (simp split: list.split)
  moreover have "parse_members d n (line_break i @ json_quote k @ ?r) = parse_members d n (json_quote k @ ?r)"
    by (rule parse_members_ws) simp
  ultimately show ?thesis unfolding q by simp
qed

lemma members_indent:
  "\<forall>m \<in> set ms. text_reads d (snd m) (f (snd m)) \<Longrightarrow> ms \<noteq> [] \<Longrightarrow> length ms \<le> n \<Longrightarrow>
     parse_members d n (commas (map (\<lambda>m. line_break i @ json_quote (fst m) @ '': '' @ f (snd m)) ms) @ line_break j @ CHR ''}'' # rest) =
       Some (map (\<lambda>(k, v). (to_valid k, clean v)) ms, rest)"
proof (induction ms arbitrary: n)
  case (Cons m ms)
  obtain k v where m: "m = (k, v)" by fastforce
  have v: "text_reads d v (f v)" and n: "n \<noteq> 0" using Cons.prems m by auto
  let ?t = "\<lambda>m. line_break i @ json_quote (fst m) @ '': '' @ f (snd m)"
  show ?case
  proof (cases "ms = []")
    case True
    then show ?thesis using member_indent [OF v _ n, of "line_break j @ CHR ''}'' # rest" i k] m by simp
  next
    case False
    then have "parse_members d (n - 1) (commas (map ?t ms) @ line_break j @ CHR ''}'' # rest) =
        Some (map (\<lambda>(k, v). (to_valid k, clean v)) ms, rest)"
      using Cons by simp
    then show ?thesis
      using member_indent [OF v _ n, of "CHR '','' # commas (map ?t ms) @ line_break j @ CHR ''}'' # rest" i k] False m
      by (simp add: commas_Cons)
  qed
qed simp

lemma break_not_Nil [simp]: "line_break n \<noteq> []"
  by (simp add: line_break_def)

lemma commas_head: "ts \<noteq> [] \<Longrightarrow> \<exists>z. commas ts = hd ts @ z"
  by (cases ts rule: commas.cases) auto

lemma indent_array:
  assumes "\<forall>v \<in> set vs. text_reads d v (json_indent v (Suc n)) \<and> (\<exists>c r. json_indent v (Suc n) = c # r \<and> \<not> is_ws c \<and> c \<noteq> CHR '']'')"
  shows "text_reads (Suc d) (JArr vs) (json_indent (JArr vs) n)"
proof (cases "vs = []")
  case True
  then show ?thesis by (simp add: text_reads_def parse_value.simps)
next
  case False
  let ?f = "\<lambda>v. json_indent v (Suc n)"
  let ?ts = "map (\<lambda>v. line_break (Suc n) @ ?f v) vs"
  have "hd vs \<in> set vs" using False by simp
  then obtain c r where c: "?f (hd vs) = c # r" "\<not> is_ws c" "c \<noteq> CHR '']''" using assms by blast
  have "hd ?ts = line_break (Suc n) @ c # r" using False c(1) by (simp add: hd_map)
  then obtain z where z: "commas ?ts = line_break (Suc n) @ c # z" using commas_head [of ?ts] False by auto
  have len: "length vs \<le> length (commas ?ts)" by (rule order_trans [OF _ length_commas]) auto
  have "parse_value (Suc d) (json_indent (JArr vs) n @ rest) = Some (clean (JArr vs), rest)" for rest
  proof -
    let ?r = "commas ?ts @ line_break n @ CHR '']'' # rest"
    have "skip_ws ?r = c # z @ line_break n @ CHR '']'' # rest" using z skip_ws_start [OF c(2)] by simp
    moreover have "parse_elems d (length ?r) ?r = Some (map clean vs, rest)"
      using elems_indent [of vs d ?f "length ?r" "Suc n" n rest] False len assms by simp
    ultimately show ?thesis using c(3) False by (simp add: parse_value.simps comp_def)
  qed
  then show ?thesis by (simp add: text_reads_def)
qed

lemma indent_object:
  assumes "\<forall>m \<in> set ms. text_reads d (snd m) (json_indent (snd m) (Suc n))"
  shows "text_reads (Suc d) (JObj ms) (json_indent (JObj ms) n)"
proof (cases "ms = []")
  case True
  then show ?thesis by (simp add: text_reads_def parse_value.simps clean_object)
next
  case False
  let ?f = "\<lambda>v. json_indent v (Suc n)"
  let ?ts = "map (\<lambda>m. line_break (Suc n) @ json_quote (fst m) @ '': '' @ ?f (snd m)) ms"
  have "hd ?ts = line_break (Suc n) @ quote_chr # tl (json_quote (fst (hd ms))) @ '': '' @ ?f (snd (hd ms))"
    using False by (simp add: hd_map json_quote_def)
  then obtain z where z: "commas ?ts = line_break (Suc n) @ quote_chr # z" using commas_head [of ?ts] False by auto
  have len: "length ms \<le> length (commas ?ts)" by (rule order_trans [OF _ length_commas]) auto
  have tx: "json_indent (JObj ms) n = CHR ''{'' # commas ?ts @ line_break n @ ''}''"
    using False by (simp add: comp_def split_def)
  have "parse_value (Suc d) (json_indent (JObj ms) n @ rest) = Some (clean (JObj ms), rest)" for rest
  proof -
    let ?r = "commas ?ts @ line_break n @ CHR ''}'' # rest"
    have "skip_ws ?r = quote_chr # z @ line_break n @ CHR ''}'' # rest" using z by simp
    moreover have "parse_members d (length ?r) ?r = Some (map (\<lambda>(k, v). (to_valid k, clean v)) ms, rest)"
      using members_indent [of ms d ?f "length ?r" "Suc n" n rest] False len assms by simp
    ultimately show ?thesis unfolding tx by (simp add: parse_value.simps clean_object)
  qed
  then show ?thesis by (simp add: text_reads_def)
qed

lemma indent_start:
  assumes "numbers_ok v"
  shows "\<exists>c r. json_indent v n = c # r \<and> \<not> is_ws c \<and> c \<noteq> CHR '']''"
proof (cases v)
  case (JNum x)
  then have "\<exists>c r. json_text v = c # r \<and> \<not> is_ws c \<and> c \<noteq> CHR '']''" using json_text_start [OF assms] by blast
  with JNum show ?thesis by simp
qed (auto simp: is_ws_def json_quote_def)

lemma indent_scalar:
  assumes "numbers_ok v" and "\<And>vs. v \<noteq> JArr vs" and "\<And>ms. v \<noteq> JObj ms"
  shows "text_reads d v (json_indent v n)"
proof -
  have "json_indent v n = json_text v" using assms by (cases v) auto
  then show ?thesis using reads_back_scalar [OF assms, of d] by (simp add: text_reads_def reads_back_def)
qed

theorem indent_reads_back: "nested v \<le> d \<Longrightarrow> numbers_ok v \<Longrightarrow> text_reads d v (json_indent v n)"
proof (induction v arbitrary: d n)
  case (JArr vs)
  obtain d' where d: "d = Suc d'" using JArr.prems(1) by (cases d) (auto simp: nested.simps)
  have "numbers_ok v \<and> text_reads d' v (json_indent v (Suc n))" if "v \<in> set vs" for v
    using JArr that nested_member(1) [of vs d' v] d by (simp add: list_all_iff)
  then show ?case using d indent_array [of vs d' n] indent_start by simp
next
  case (JObj ms)
  obtain d' where d: "d = Suc d'" using JObj.prems(1) by (cases d) (auto simp: nested.simps)
  have "text_reads d' (snd m) (json_indent (snd m) (Suc n))" if "m \<in> set ms" for m
    using JObj.IH [of m "snd m" d'] JObj.prems that nested_member(2) [of ms d' m] d
    by (auto simp: numbers_ok_object snds.simps)
  then show ?case using d indent_object by simp
qed (rule indent_scalar; simp)+

end
