(* ===== verification/Go_Time.thy ===== *)
theory Go_Time
  imports Go_Duration "HOL-Library.Monad_Syntax"
begin

text \<open>
  Times as texts, the way \<open>encoding/json\<close> writes and reads a \<open>time.Time\<close>: RFC 3339 with up to nine
  digits of a second. An instant is the number of nanoseconds since the first of January of the year 1,
  Go's zero time; the offset of the zone it is printed in is an argument, in minutes. What
  \<open>time.Parse\<close> accepts beyond the format is the argument \<open>lenient\<close>.
\<close>

section \<open>Calendar\<close>

definition leap :: "nat \<Rightarrow> bool" where
  "leap y \<longleftrightarrow> 4 dvd y \<and> \<not> 100 dvd y \<or> 400 dvd y"

definition days_before_year :: "nat \<Rightarrow> nat" where
  "days_before_year y = (let p = y - 1 in 365 * p + p div 4 + p div 400 - p div 100)"

definition month_lengths :: "nat \<Rightarrow> nat list" where
  "month_lengths y = [31, if leap y then 29 else 28, 31, 30, 31, 30, 31, 31, 30, 31, 30, 31]"

lemma days_before_year_Suc:
  assumes "1 \<le> y"
  shows "days_before_year (Suc y) = days_before_year y + sum_list (month_lengths y)"
proof -
  obtain p where y: "y = Suc p" using assms by (cases y) auto
  have d: "Suc p div 4 = p div 4 + (if 4 dvd Suc p then 1 else 0)" "Suc p div 100 = p div 100 + (if 100 dvd Suc p then 1 else 0)"
    "Suc p div 400 = p div 400 + (if 400 dvd Suc p then 1 else 0)"
    by (simp_all add: div_Suc mod_eq_0_iff_dvd)
  have e: "p div 100 \<le> p div 4" "400 dvd Suc p \<Longrightarrow> 100 dvd Suc p" "100 dvd Suc p \<Longrightarrow> 4 dvd Suc p"
    by (auto intro: div_le_mono2 dvd_trans [rotated])
  show ?thesis
    using d e unfolding y days_before_year_def month_lengths_def leap_def Let_def by (simp add: ac_simps split: if_splits)
qed

lemma days_before_year_ge: "y - 1 \<le> days_before_year y"
proof -
  have "p div 100 \<le> p div 4" for p :: nat by (intro div_le_mono2) simp_all
  moreover have "a \<le> b \<Longrightarrow> p \<le> 365 * p + b + c - a" for a b c p :: nat by linarith
  ultimately show ?thesis unfolding days_before_year_def Let_def by blast
qed

function year_from :: "nat \<Rightarrow> nat \<Rightarrow> nat" where
  "year_from y d = (if days_before_year (Suc y) \<le> d then year_from (Suc y) d else y)"
  by pat_completeness auto
termination
proof (relation "measure (\<lambda>(y, d). Suc d - y)")
  fix y d
  assume "days_before_year (Suc y) \<le> d"
  then have "y \<le> d" using days_before_year_ge [of "Suc y"] by simp
  then show "((Suc y, d), y, d) \<in> measure (\<lambda>(y, d). Suc d - y)" by simp
qed simp

declare year_from.simps [simp del]

fun month_from :: "nat list \<Rightarrow> nat \<Rightarrow> nat \<Rightarrow> nat \<times> nat" where
  "month_from [] m r = (m, r + 1)"
| "month_from (l # ls) m r = (if r < l then (m, r + 1) else month_from ls (m + 1) (r - l))"

definition date_of :: "nat \<Rightarrow> nat \<times> nat \<times> nat" where
  "date_of d =
     (let y = year_from (d div 366 + 1) d; (m, k) = month_from (month_lengths y) 1 (d - days_before_year y) in (y, m, k))"

definition day_number :: "nat \<Rightarrow> nat \<Rightarrow> nat \<Rightarrow> nat" where
  "day_number y m k = days_before_year y + sum_list (take (m - 1) (month_lengths y)) + (k - 1)"

lemma year_from_spec:
  "days_before_year y \<le> d \<Longrightarrow> y \<le> year_from y d \<and> days_before_year (year_from y d) \<le> d \<and> d < days_before_year (Suc (year_from y d))"
proof (induction y d rule: year_from.induct)
  case (1 y d)
  then show ?case by (cases "days_before_year (Suc y) \<le> d") (auto simp: year_from.simps [of y d])
qed

lemma month_from_spec:
  assumes "month_from ls m r = (m', k)" and "r < sum_list ls"
  shows "m \<le> m' \<and> m' - m < length ls \<and> 1 \<le> k \<and> k \<le> ls ! (m' - m) \<and> r = sum_list (take (m' - m) ls) + (k - 1)"
  using assms
proof (induction ls m r rule: month_from.induct)
  case (2 l ls m r)
  show ?case
  proof (cases "r < l")
    case False
    then have "r - l < sum_list ls" using 2(3) by simp
    with False 2 have ih: "m + 1 \<le> m'" "m' - (m + 1) < length ls" "1 \<le> k" "k \<le> ls ! (m' - (m + 1))" "r - l = sum_list (take (m' - (m + 1)) ls) + (k - 1)"
      by auto
    have "m' - m = Suc (m' - (m + 1))" using ih(1) by simp
    with False ih show ?thesis by (simp only: nth_Cons_Suc take_Suc_Cons sum_list.Cons length_Cons) simp
  qed (use 2 in auto)
qed simp

lemma start_year: "days_before_year (d div 366 + 1) \<le> d"
proof -
  let ?p = "d div 366"
  have "?p div 400 \<le> ?p div 100" by (intro div_le_mono2) simp_all
  moreover have "?p div 4 \<le> ?p" by simp
  moreover have "366 * ?p \<le> d" by simp
  moreover have "c \<le> a \<Longrightarrow> b \<le> p \<Longrightarrow> 366 * p \<le> d \<Longrightarrow> 365 * p + b + c - a \<le> d" for a b c p :: nat by linarith
  ultimately show ?thesis unfolding days_before_year_def Let_def by simp
qed

lemma date_of_spec:
  assumes "date_of d = (y, m, k)"
  shows "1 \<le> y" "1 \<le> m" "m \<le> 12" "1 \<le> k" "k \<le> month_lengths y ! (m - 1)" "day_number y m k = d"
proof -
  have y: "y = year_from (d div 366 + 1) d" and mk: "month_from (month_lengths y) 1 (d - days_before_year y) = (m, k)"
    using assms by (auto simp: date_of_def Let_def split: prod.splits)
  note s = year_from_spec [OF start_year, of d, folded y]
  show "1 \<le> y" using s by simp
  then have "d - days_before_year y < sum_list (month_lengths y)" using s days_before_year_Suc [of y] by linarith
  note q = month_from_spec [OF mk this]
  show "1 \<le> m" "m \<le> 12" "1 \<le> k" "k \<le> month_lengths y ! (m - 1)" "day_number y m k = d"
    using q s by (auto simp: day_number_def month_lengths_def)
qed

section \<open>Printing\<close>

definition pad2 :: "nat \<Rightarrow> string" where
  "pad2 n = [char_of (48 + n div 10 mod 10), char_of (48 + n mod 10)]"

definition pad4 :: "nat \<Rightarrow> string" where
  "pad4 n = pad2 (n div 100) @ pad2 (n mod 100)"

definition zone_text :: "int \<Rightarrow> string" where
  "zone_text off =
     (if off = 0 then ''Z''
      else (if off < 0 then CHR ''-'' else CHR ''+'') # pad2 (nat \<bar>off\<bar> div 60) @ '':'' @ pad2 (nat \<bar>off\<bar> mod 60))"

abbreviation minute :: int where
  "minute \<equiv> 60000000000"

definition local_time :: "int \<Rightarrow> nat \<Rightarrow> int" where
  "local_time off t = int t + off * minute"

definition time_text :: "int \<Rightarrow> nat \<Rightarrow> string" where
  "time_text off t =
     (let l = nat (local_time off t); secs = l div 10 ^ 9; s = secs mod 86400
      in case date_of (secs div 86400) of (y, m, k) \<Rightarrow>
        pad4 y @ ''-'' @ pad2 m @ ''-'' @ pad2 k @ ''T'' @ pad2 (s div 3600) @ '':'' @ pad2 (s div 60 mod 60) @ '':'' @ pad2 (s mod 60) @
        fst (fmtFrac 9 False (l mod 10 ^ 9) (zone_text off)))"

text \<open>\<open>MarshalJSON\<close> refuses years of more than four digits.\<close>

definition time_ok :: "int \<Rightarrow> nat \<Rightarrow> bool" where
  "time_ok off t \<longleftrightarrow>
     0 \<le> local_time off t \<and> fst (date_of (nat (local_time off t) div 10 ^ 9 div 86400)) \<le> 9999 \<and> \<bar>off\<bar> < 1440"

section \<open>Reading\<close>

definition parseUint :: "string \<Rightarrow> nat \<Rightarrow> nat \<Rightarrow> nat option" where
  "parseUint s lo hi = (if list_all is_digit s \<and> lo \<le> atoi s \<and> atoi s \<le> hi then Some (atoi s) else None)"

text \<open>The digits of a second after the point: at most nine count.\<close>

definition parse_nanos :: "string \<Rightarrow> nat" where
  "parse_nanos ds = atoi (take 9 ds) * 10 ^ (9 - length (take 9 ds))"

definition zone_of :: "string \<Rightarrow> int option" where
  "zone_of s =
     (if s = ''Z'' then Some 0
      else if length s \<noteq> 6 \<or> hd s \<notin> {CHR ''+'', CHR ''-''} \<or> s ! 3 \<noteq> CHR '':'' then None
      else case (parseUint (take 2 (drop 1 s)) 0 23, parseUint (drop 4 s) 0 59) of
        (Some h, Some m) \<Rightarrow> Some ((if hd s = CHR ''-'' then - 1 else 1) * int (h * 60 + m))
      | _ \<Rightarrow> None)"

definition parse_rest :: "string \<Rightarrow> (nat \<times> int) option" where
  "parse_rest s =
     (if 2 \<le> length s \<and> hd s = CHR ''.'' \<and> is_digit (s ! 1)
      then map_option (Pair (parse_nanos (takeWhile is_digit (tl s)))) (zone_of (dropWhile is_digit (tl s)))
      else map_option (Pair 0) (zone_of s))"

definition parseRFC3339 :: "string \<Rightarrow> int option" where
  "parseRFC3339 s =
     (if length s < 19 \<or> [s ! 4, s ! 7, s ! 10, s ! 13, s ! 16] \<noteq> ''--T::'' then None
      else do {
        y \<leftarrow> parseUint (take 4 s) 0 9999;
        m \<leftarrow> parseUint (take 2 (drop 5 s)) 1 12;
        k \<leftarrow> parseUint (take 2 (drop 8 s)) 1 (month_lengths y ! (m - 1));
        h \<leftarrow> parseUint (take 2 (drop 11 s)) 0 23;
        mi \<leftarrow> parseUint (take 2 (drop 14 s)) 0 59;
        sec \<leftarrow> parseUint (take 2 (drop 17 s)) 0 59;
        (ns, off) \<leftarrow> parse_rest (drop 19 s);
        let days = (if y = 0 then int (day_number 400 m k) - 146097 else int (day_number y m k));
        Some ((days * 86400 + int (h * 3600 + mi * 60 + sec)) * 10 ^ 9 + int ns - off * minute)
      })"

definition time_parse :: "(string \<Rightarrow> int option) \<Rightarrow> string \<Rightarrow> int option" where
  "time_parse lenient s = (case parseRFC3339 s of Some t \<Rightarrow> Some t | None \<Rightarrow> lenient s)"

section \<open>Printed times are read back\<close>

lemma pad2_read: "n < 100 \<Longrightarrow> lo \<le> n \<Longrightarrow> n \<le> hi \<Longrightarrow> parseUint (pad2 n) lo hi = Some n"
  by (simp add: parseUint_def pad2_def atoi_def)

lemma pad4_read: "n \<le> 9999 \<Longrightarrow> parseUint (pad4 n) 0 9999 = Some n"
proof -
  assume "n \<le> 9999"
  then have "n div 100 < 100" by simp
  then have a: "(n div 100 div 10 mod 10) * 10 + n div 100 mod 10 = n div 100" "(n mod 100 div 10 mod 10) * 10 + n mod 100 mod 10 = n mod 100"
    by simp_all
  have "atoi (pad4 n) = ((n div 100 div 10 mod 10) * 10 + n div 100 mod 10) * 100 + ((n mod 100 div 10 mod 10) * 10 + n mod 100 mod 10)"
    by (simp add: pad4_def pad2_def atoi_def)
  also have "\<dots> = n" unfolding a by simp
  finally show ?thesis using \<open>n \<le> 9999\<close> by (simp add: parseUint_def) (simp add: pad4_def pad2_def)
qed

lemma pad_length [simp]: "length (pad2 n) = 2" "length (pad4 n) = 4"
  by (simp_all add: pad2_def pad4_def)

lemma zone_read: "\<bar>off\<bar> < 1440 \<Longrightarrow> zone_of (zone_text off) = Some off"
proof (cases "off = 0")
  case False
  assume o: "\<bar>off\<bar> < 1440"
  let ?n = "nat \<bar>off\<bar>"
  have n: "?n div 60 < 24" "?n mod 60 < 60" "?n div 60 * 60 + ?n mod 60 = ?n" using o by (auto simp: div_less_iff_less_mult)
  let ?s = "zone_text off"
  have s: "?s = (if off < 0 then CHR ''-'' else CHR ''+'') # pad2 (?n div 60) @ '':'' @ pad2 (?n mod 60)"
    using False by (simp add: zone_text_def)
  have p: "take 2 (drop 1 ?s) = pad2 (?n div 60)" "drop 4 ?s = pad2 (?n mod 60)" "length ?s = 6" "?s ! 3 = CHR '':''" "?s \<noteq> ''Z''"
    unfolding s by (simp_all add: pad2_def)
  have "parseUint (pad2 (?n div 60)) 0 23 = Some (?n div 60)" "parseUint (pad2 (?n mod 60)) 0 59 = Some (?n mod 60)"
    using n by (auto intro: pad2_read)
  moreover have "hd ?s = (if off < 0 then CHR ''-'' else CHR ''+'')" unfolding s by simp
  ultimately show ?thesis using p n(3) by (simp add: zone_of_def)
qed (simp add: zone_of_def zone_text_def)

lemma zone_start: "no_digit (zone_text off)" "zone_text off \<noteq> []" "hd (zone_text off) \<noteq> CHR ''.''"
  by (auto simp: zone_text_def no_digit_def is_digit_def)

lemma rest_read:
  assumes "n < 10 ^ 9" and "\<bar>off\<bar> < 1440"
  shows "parse_rest (fst (fmtFrac 9 False n (zone_text off))) = Some (n, off)"
proof (cases "n = 0")
  case True
  then have "fst (fmtFrac 9 False n (zone_text off)) = zone_text off" using fmtFrac_trim [of n 9 "zone_text off"] by simp
  with True zone_start [of off] zone_read [OF assms(2)] show ?thesis by (simp add: parse_rest_def)
next
  case False
  with assms(1) have "n mod 10 ^ 9 \<noteq> 0" by simp
  with fmtFrac_trim [of n 9 "zone_text off"] obtain ds where
    ds: "fst (fmtFrac 9 False n (zone_text off)) = CHR ''.'' # ds @ zone_text off" "list_all is_digit ds" "ds \<noteq> []" "length ds \<le> 9"
    "atoi ds * 10 ^ (9 - length ds) = n mod 10 ^ 9" by auto
  have r: "takeWhile is_digit (ds @ zone_text off) = ds" "dropWhile is_digit (ds @ zone_text off) = zone_text off"
    using digits_read [OF ds(2) zone_start(1)] by auto
  have "parse_nanos ds = n" using ds(4,5) assms(1) by (simp add: parse_nanos_def)
  moreover have "is_digit (hd ds)" using ds(2,3) by (cases ds) auto
  ultimately show ?thesis
    using ds(1,3) r zone_read [OF assms(2)] zone_start(2) by (cases ds) (auto simp: parse_rest_def Suc_le_eq)
qed

lemma seconds_split: "s div 3600 * 3600 + s div 60 mod 60 * 60 + s mod 60 = (s :: nat)"
proof -
  have "s div 3600 = s div 60 div 60" by (simp add: div_mult2_eq [symmetric])
  moreover have "s div 60 div 60 * 60 + s div 60 mod 60 = s div 60" "s div 60 * 60 + s mod 60 = s" by (rule div_mult_mod_eq)+
  moreover have "a = b \<Longrightarrow> b * 60 + m = q \<Longrightarrow> q * 60 + r = s \<Longrightarrow> a * 3600 + m * 60 + r = s" for a b m q r :: nat by simp
  ultimately show ?thesis by blast
qed

text \<open>The fields of a text of fixed positions.\<close>

lemma fixed_fields:
  fixes y m k h i s rest
  defines "x \<equiv> pad4 y @ ''-'' @ pad2 m @ ''-'' @ pad2 k @ ''T'' @ pad2 h @ '':'' @ pad2 i @ '':'' @ pad2 s @ rest"
  shows "take 4 x = pad4 y" "take 2 (drop 5 x) = pad2 m" "take 2 (drop 8 x) = pad2 k" "take 2 (drop 11 x) = pad2 h"
    "take 2 (drop 14 x) = pad2 i" "take 2 (drop 17 x) = pad2 s" "drop 19 x = rest" "\<not> length x < 19"
    "[x ! 4, x ! 7, x ! 10, x ! 13, x ! 16] = ''--T::''"
  unfolding x_def by (simp_all add: pad2_def pad4_def)

theorem time_reads_back:
  assumes "time_ok off t"
  shows "time_parse lenient (time_text off t) = Some (int t)"
proof -
  define l where "l = nat (local_time off t)"
  let ?secs = "l div 10 ^ 9"
  let ?s = "?secs mod 86400"
  obtain y m k where d: "date_of (?secs div 86400) = (y, m, k)" by (metis prod_cases3)
  note ds = date_of_spec [OF d]
  have y: "y \<le> 9999" using assms d by (simp add: time_ok_def l_def)
  have off: "\<bar>off\<bar> < 1440" and l: "int l = local_time off t" using assms by (auto simp: time_ok_def l_def)
  let ?rest = "fst (fmtFrac 9 False (l mod 10 ^ 9) (zone_text off))"
  have x: "time_text off t = pad4 y @ ''-'' @ pad2 m @ ''-'' @ pad2 k @ ''T'' @ pad2 (?s div 3600) @ '':'' @ pad2 (?s div 60 mod 60) @ '':'' @ pad2 (?s mod 60) @ ?rest"
    using d by (simp add: time_text_def Let_def l_def)
  have "month_lengths y ! (m - 1) \<le> 31"
  proof -
    have "\<forall>n \<in> set (month_lengths y). n \<le> 31" by (simp add: month_lengths_def)
    moreover have "m - 1 < length (month_lengths y)" using ds(3) by (simp add: month_lengths_def)
    ultimately show ?thesis using nth_mem by blast
  qed
  then have k: "k < 100" using ds(5) by linarith
  have s: "?s div 3600 \<le> 23" "?s div 60 mod 60 \<le> 59" "?s mod 60 \<le> 59" by (auto simp: div_le_dividend less_Suc_eq_le [symmetric] div_less_iff_less_mult)
  have nums: "parseUint (pad4 y) 0 9999 = Some y" "parseUint (pad2 m) 1 12 = Some m" "parseUint (pad2 k) 1 (month_lengths y ! (m - 1)) = Some k"
    "parseUint (pad2 (?s div 3600)) 0 23 = Some (?s div 3600)" "parseUint (pad2 (?s div 60 mod 60)) 0 59 = Some (?s div 60 mod 60)"
    "parseUint (pad2 (?s mod 60)) 0 59 = Some (?s mod 60)"
    using y ds k s by (auto intro!: pad4_read pad2_read)
  have rest: "parse_rest ?rest = Some (l mod 10 ^ 9, off)" by (rule rest_read) (use off in auto)
  have "parseRFC3339 (time_text off t) =
      Some ((int (day_number y m k) * 86400 + int (?s div 3600 * 3600 + ?s div 60 mod 60 * 60 + ?s mod 60)) * 10 ^ 9 + int (l mod 10 ^ 9) - off * minute)"
    unfolding x parseRFC3339_def fixed_fields using ds(1) nums rest by simp
  also have "\<dots> = Some (int t)"
  proof -
    have "(?secs div 86400 * 86400 + ?s) * 10 ^ 9 + l mod 10 ^ 9 = l" by (simp only: div_mult_mod_eq)
    then have "int ((?secs div 86400 * 86400 + ?s) * 10 ^ 9 + l mod 10 ^ 9) = int l" by (simp only:)
    then have "(int (?secs div 86400) * 86400 + int ?s) * 10 ^ 9 + int (l mod 10 ^ 9) = int l"
      by (simp only: of_nat_add of_nat_mult of_nat_power of_nat_numeral)
    then show ?thesis unfolding seconds_split ds(6) using l by (simp add: local_time_def)
  qed
  finally show ?thesis by (simp add: time_parse_def)
qed

end
