(* ===== verification/Config_Json.thy ===== *)
theory Config_Json
  imports Config_Defaults Wire_Messages Json_Indent Go_Time "HOL-Library.List_Lexorder" "HOL-Library.Char_ord"
begin

text \<open>
  The text of the configuration file: how \<open>src/config/config.go\<close> exports a configuration as indented
  JSON and how \<open>src/config/other.go\<close> reads it. Times are printed in the zone given by the argument
  \<open>zone\<close>, with which every instant has an offset in minutes. A time that is written with JSON
  escapes, and a null inside a list of texts, are read here like the plain text and the empty one.
\<close>

section \<open>Fields\<close>

fun int_text :: "int \<Rightarrow> string" where
  "int_text n = (if n < 0 then CHR ''-'' # itoa (nat (- n)) else itoa (nat n))"

declare int_text.simps [simp del]

text \<open>\<open>strconv.ParseInt\<close> of a JSON number: no fraction, no exponent, 64 bits.\<close>

definition json_int :: "string \<Rightarrow> int option" where
  "json_int s =
     (let neg = (s \<noteq> [] \<and> hd s = CHR ''-''); d = (if neg then tl s else s); v = (if neg then - int (atoi d) else int (atoi d))
      in if d = [] \<or> \<not> list_all is_digit d \<or> v < - (2 ^ 63) \<or> 2 ^ 63 \<le> v then None else Some v)"

fun int_field :: "string \<Rightarrow> (int \<Rightarrow> 'a \<Rightarrow> 'a) \<Rightarrow> 'a field" where
  "int_field n upd = (n, \<lambda>v. case v of JNum s \<Rightarrow> map_option upd (json_int s) | JNull \<Rightarrow> Some id | _ \<Rightarrow> None)"

fun bool_option_field :: "string \<Rightarrow> (bool option \<Rightarrow> 'a \<Rightarrow> 'a) \<Rightarrow> 'a field" where
  "bool_option_field n upd = (n, \<lambda>v. case v of JBool b \<Rightarrow> Some (upd (Some b)) | JNull \<Rightarrow> Some (upd None) | _ \<Rightarrow> None)"

definition json_string :: "json \<Rightarrow> string option" where
  "json_string v = (case v of JStr s \<Rightarrow> Some s | JNull \<Rightarrow> Some [] | _ \<Rightarrow> None)"

fun strings_field :: "string \<Rightarrow> (string list \<Rightarrow> 'a \<Rightarrow> 'a) \<Rightarrow> 'a field" where
  "strings_field n upd =
     (n, \<lambda>v. case v of JArr vs \<Rightarrow> map_option upd (those (map json_string vs)) | JNull \<Rightarrow> Some (upd []) | _ \<Rightarrow> None)"

text \<open>Instants before the year 1 do not occur in the model and are read as the zero time.\<close>

fun time_field :: "(string \<Rightarrow> int option) \<Rightarrow> string \<Rightarrow> (nat \<Rightarrow> 'a \<Rightarrow> 'a) \<Rightarrow> 'a field" where
  "time_field lenient n upd =
     (n, \<lambda>v. case v of JStr s \<Rightarrow> map_option (upd \<circ> nat) (time_parse lenient s) | JNull \<Rightarrow> Some id | _ \<Rightarrow> None)"

text \<open>
  A struct inside a struct. Whether its members fit does not depend on what is there already; when one
  does not, the whole file is refused, so that the parts stored before do not matter.
\<close>

definition struct_value :: "'b field list \<Rightarrow> 'b \<Rightarrow> json \<Rightarrow> ('b \<Rightarrow> 'b) option" where
  "struct_value fs zero v = (if snd (store_struct fs v zero) then Some (\<lambda>b. fst (store_struct fs v b)) else None)"

fun struct_field :: "string \<Rightarrow> 'b field list \<Rightarrow> 'b \<Rightarrow> (('b \<Rightarrow> 'b) \<Rightarrow> 'a \<Rightarrow> 'a) \<Rightarrow> 'a field" where
  "struct_field n fs zero upd = (n, \<lambda>v. map_option upd (struct_value fs zero v))"

text \<open>A map: every member becomes a new value under its key.\<close>

definition map_entry :: "'b field list \<Rightarrow> 'b \<Rightarrow> string \<times> json \<Rightarrow> (string \<times> 'b) option" where
  "map_entry fs zero m = map_option (\<lambda>u. (fst m, u zero)) (struct_value fs zero (snd m))"

definition map_value :: "'b field list \<Rightarrow> 'b \<Rightarrow> json \<Rightarrow> ((string, 'b) gomap \<Rightarrow> (string, 'b) gomap) option" where
  "map_value fs zero v =
     (case v of
        JObj ms \<Rightarrow> map_option (\<lambda>es m. fold (\<lambda>(k, b) m. gm_set m k b) es m) (those (map (map_entry fs zero) ms))
      | JNull \<Rightarrow> Some (\<lambda>_. [])
      | _ \<Rightarrow> None)"

fun map_field :: "string \<Rightarrow> 'b field list \<Rightarrow> 'b \<Rightarrow> (((string, 'b) gomap \<Rightarrow> (string, 'b) gomap) \<Rightarrow> 'a \<Rightarrow> 'a) \<Rightarrow> 'a field" where
  "map_field n fs zero upd = (n, \<lambda>v. map_option upd (map_value fs zero v))"

section \<open>Structs\<close>

definition KnownPeer_fields :: "(string \<Rightarrow> int option) \<Rightarrow> KnownPeer field list" where
  "KnownPeer_fields lenient =
     [string_field ''peerId'' (\<lambda>x r. r\<lparr>kp_PeerID := x\<rparr>), string_field ''name'' (\<lambda>x r. r\<lparr>kp_Name := x\<rparr>),
      string_field ''alias'' (\<lambda>x r. r\<lparr>kp_Alias := x\<rparr>), string_field ''ipAddr'' (\<lambda>x r. r\<lparr>kp_IPAddr := x\<rparr>),
      string_field ''domainName'' (\<lambda>x r. r\<lparr>kp_DomainName := x\<rparr>), time_field lenient ''createdAt'' (\<lambda>x r. r\<lparr>kp_CreatedAt := x\<rparr>),
      time_field lenient ''lastSeen'' (\<lambda>x r. r\<lparr>kp_LastSeen := x\<rparr>), bool_field ''confirmed'' (\<lambda>x r. r\<lparr>kp_Confirmed := x\<rparr>),
      bool_field ''declined'' (\<lambda>x r. r\<lparr>kp_Declined := x\<rparr>),
      bool_field ''weAllowUsingAsExitNode'' (\<lambda>x r. r\<lparr>kp_WeAllowUsingAsExitNode := x\<rparr>),
      bool_field ''allowedUsingAsExitNode'' (\<lambda>x r. r\<lparr>kp_AllowedUsingAsExitNode := x\<rparr>),
      string_field ''reportedUsingPeerID'' (\<lambda>x r. r\<lparr>kp_ReportedUsingPeerID := x\<rparr>)]"

definition KnownPeer_json :: "(nat \<Rightarrow> int) \<Rightarrow> KnownPeer \<Rightarrow> json" where
  "KnownPeer_json zone p =
     JObj ([(''peerId'', JStr (kp_PeerID p)), (''name'', JStr (kp_Name p)), (''alias'', JStr (kp_Alias p)),
       (''ipAddr'', JStr (kp_IPAddr p)), (''domainName'', JStr (kp_DomainName p)),
       (''createdAt'', JStr (time_text (zone (kp_CreatedAt p)) (kp_CreatedAt p))),
       (''lastSeen'', JStr (time_text (zone (kp_LastSeen p)) (kp_LastSeen p))),
       (''confirmed'', JBool (kp_Confirmed p)), (''declined'', JBool (kp_Declined p)),
       (''weAllowUsingAsExitNode'', JBool (kp_WeAllowUsingAsExitNode p)),
       (''allowedUsingAsExitNode'', JBool (kp_AllowedUsingAsExitNode p))] @
       (if kp_ReportedUsingPeerID p = [] then [] else [(''reportedUsingPeerID'', JStr (kp_ReportedUsingPeerID p))]))"

definition BlockedPeer_fields :: "(string \<Rightarrow> int option) \<Rightarrow> BlockedPeer field list" where
  "BlockedPeer_fields lenient =
     [string_field ''peerId'' (\<lambda>x r. r\<lparr>bp_PeerID := x\<rparr>), string_field ''displayName'' (\<lambda>x r. r\<lparr>bp_DisplayName := x\<rparr>),
      time_field lenient ''createdAt'' (\<lambda>x r. r\<lparr>bp_CreatedAt := x\<rparr>)]"

definition BlockedPeer_json :: "(nat \<Rightarrow> int) \<Rightarrow> BlockedPeer \<Rightarrow> json" where
  "BlockedPeer_json zone b =
     JObj [(''peerId'', JStr (bp_PeerID b)), (''displayName'', JStr (bp_DisplayName b)),
       (''createdAt'', JStr (time_text (zone (bp_CreatedAt b)) (bp_CreatedAt b)))]"

definition HttpBasicAuthConfig_fields :: "HttpBasicAuthConfig field list" where
  "HttpBasicAuthConfig_fields =
     [string_field ''username'' (\<lambda>x r. r\<lparr>ha_Username := x\<rparr>), string_field ''password'' (\<lambda>x r. r\<lparr>ha_Password := x\<rparr>)]"

definition HttpBasicAuthConfig_json :: "HttpBasicAuthConfig \<Rightarrow> json" where
  "HttpBasicAuthConfig_json h = JObj [(''username'', JStr (ha_Username h)), (''password'', JStr (ha_Password h))]"

definition P2pNodeConfig_fields :: "P2pNodeConfig field list" where
  "P2pNodeConfig_fields =
     [string_field ''peerId'' (\<lambda>x r. r\<lparr>pn_PeerID := x\<rparr>), string_field ''name'' (\<lambda>x r. r\<lparr>pn_Name := x\<rparr>),
      string_field ''identity'' (\<lambda>x r. r\<lparr>pn_Identity := x\<rparr>), strings_field ''bootstrapPeers'' (\<lambda>x r. r\<lparr>pn_BootstrapPeers := x\<rparr>),
      bool_option_field ''ignoreDefaultBootstrapPeers'' (\<lambda>x r. r\<lparr>pn_IgnoreDefaultBootstrapPeers := x\<rparr>),
      strings_field ''listenAddresses'' (\<lambda>x r. r\<lparr>pn_ListenAddresses := x\<rparr>),
      int_field ''reconnectionIntervalSec'' (\<lambda>x r. r\<lparr>pn_ReconnectionIntervalSec := x\<rparr>),
      bool_field ''autoAcceptAuthRequests'' (\<lambda>x r. r\<lparr>pn_AutoAcceptAuthRequests := x\<rparr>),
      bool_field ''useDedicatedConnForEachStream'' (\<lambda>x r. r\<lparr>pn_UseDedicatedConnForEachStream := x\<rparr>),
      int_field ''parallelSendingStreamsCount'' (\<lambda>x r. r\<lparr>pn_ParallelSendingStreamsCount := x\<rparr>)]"

definition P2pNodeConfig_json :: "P2pNodeConfig \<Rightarrow> json" where
  "P2pNodeConfig_json n =
     JObj ([(''peerId'', JStr (pn_PeerID n)), (''name'', JStr (pn_Name n)), (''identity'', JStr (pn_Identity n)),
       (''bootstrapPeers'', JArr (map JStr (pn_BootstrapPeers n)))] @
       (case pn_IgnoreDefaultBootstrapPeers n of None \<Rightarrow> [] | Some b \<Rightarrow> [(''ignoreDefaultBootstrapPeers'', JBool b)]) @
       [(''listenAddresses'', JArr (map JStr (pn_ListenAddresses n))),
        (''reconnectionIntervalSec'', JNum (int_text (pn_ReconnectionIntervalSec n))),
        (''autoAcceptAuthRequests'', JBool (pn_AutoAcceptAuthRequests n)),
        (''useDedicatedConnForEachStream'', JBool (pn_UseDedicatedConnForEachStream n)),
        (''parallelSendingStreamsCount'', JNum (int_text (pn_ParallelSendingStreamsCount n)))])"

definition VPNConfig_fields :: "VPNConfig field list" where
  "VPNConfig_fields =
     [bool_field ''disableVPNInterface'' (\<lambda>x r. r\<lparr>vc_DisableVPNInterface := x\<rparr>),
      string_field ''interfaceName'' (\<lambda>x r. r\<lparr>vc_InterfaceName := x\<rparr>), string_field ''ipNet'' (\<lambda>x r. r\<lparr>vc_IPNet := x\<rparr>)]"

definition VPNConfig_json :: "VPNConfig \<Rightarrow> json" where
  "VPNConfig_json v =
     JObj [(''disableVPNInterface'', JBool (vc_DisableVPNInterface v)), (''interfaceName'', JStr (vc_InterfaceName v)),
       (''ipNet'', JStr (vc_IPNet v))]"

definition SOCKS5Config_fields :: "SOCKS5Config field list" where
  "SOCKS5Config_fields =
     [bool_field ''listenerEnabled'' (\<lambda>x r. r\<lparr>sc_ListenerEnabled := x\<rparr>), bool_field ''proxyingEnabled'' (\<lambda>x r. r\<lparr>sc_ProxyingEnabled := x\<rparr>),
      string_field ''listenAddress'' (\<lambda>x r. r\<lparr>sc_ListenAddress := x\<rparr>), string_field ''usingPeerID'' (\<lambda>x r. r\<lparr>sc_UsingPeerID := x\<rparr>)]"

definition SOCKS5Config_json :: "SOCKS5Config \<Rightarrow> json" where
  "SOCKS5Config_json s =
     JObj [(''listenerEnabled'', JBool (sc_ListenerEnabled s)), (''proxyingEnabled'', JBool (sc_ProxyingEnabled s)),
       (''listenAddress'', JStr (sc_ListenAddress s)), (''usingPeerID'', JStr (sc_UsingPeerID s))]"

definition DNSConfig_fields :: "DNSConfig field list" where
  "DNSConfig_fields =
     [bool_field ''disableDNS'' (\<lambda>x r. r\<lparr>dc_DisableDNS := x\<rparr>), string_field ''listenAddress'' (\<lambda>x r. r\<lparr>dc_ListenAddress := x\<rparr>)]"

definition DNSConfig_json :: "DNSConfig \<Rightarrow> json" where
  "DNSConfig_json d = JObj [(''disableDNS'', JBool (dc_DisableDNS d)), (''listenAddress'', JStr (dc_ListenAddress d))]"

definition UpdateConfig_fields :: "UpdateConfig field list" where
  "UpdateConfig_fields =
     [string_field ''lowestPriorityChan'' (\<lambda>x r. r\<lparr>uc_LowestPriorityChan := x\<rparr>), string_field ''updateServerURL'' (\<lambda>x r. r\<lparr>uc_UpdateServerURL := x\<rparr>),
      bool_field ''trayAutoCheckEnabled'' (\<lambda>x r. r\<lparr>uc_TrayAutoCheckEnabled := x\<rparr>),
      string_field ''trayAutoCheckInterval'' (\<lambda>x r. r\<lparr>uc_TrayAutoCheckInterval := x\<rparr>)]"

definition UpdateConfig_json :: "UpdateConfig \<Rightarrow> json" where
  "UpdateConfig_json u =
     JObj [(''lowestPriorityChan'', JStr (uc_LowestPriorityChan u)), (''updateServerURL'', JStr (uc_UpdateServerURL u)),
       (''trayAutoCheckEnabled'', JBool (uc_TrayAutoCheckEnabled u)), (''trayAutoCheckInterval'', JStr (uc_TrayAutoCheckInterval u))]"

definition Config_fields :: "(string \<Rightarrow> int option) \<Rightarrow> Config field list" where
  "Config_fields lenient =
     [string_field ''version'' (\<lambda>x r. r\<lparr>c_Version := x\<rparr>), string_field ''loggerLevel'' (\<lambda>x r. r\<lparr>c_LoggerLevel := x\<rparr>),
      string_field ''httpListenAddress'' (\<lambda>x r. r\<lparr>c_HttpListenAddress := x\<rparr>),
      bool_field ''httpListenOnAdminHost'' (\<lambda>x r. r\<lparr>c_HttpListenOnAdminHost := x\<rparr>),
      struct_field ''httpBasicAuth'' HttpBasicAuthConfig_fields (c_HttpBasicAuth zero_Config) (\<lambda>f r. r\<lparr>c_HttpBasicAuth := f (c_HttpBasicAuth r)\<rparr>),
      struct_field ''p2pNode'' P2pNodeConfig_fields (c_P2pNode zero_Config) (\<lambda>f r. r\<lparr>c_P2pNode := f (c_P2pNode r)\<rparr>),
      struct_field ''vpn'' VPNConfig_fields (c_VPNConfig zero_Config) (\<lambda>f r. r\<lparr>c_VPNConfig := f (c_VPNConfig r)\<rparr>),
      struct_field ''socks5'' SOCKS5Config_fields zero_SOCKS5Config (\<lambda>f r. r\<lparr>c_SOCKS5 := f (c_SOCKS5 r)\<rparr>),
      struct_field ''dns'' DNSConfig_fields (c_DNS zero_Config) (\<lambda>f r. r\<lparr>c_DNS := f (c_DNS r)\<rparr>),
      map_field ''knownPeers'' (KnownPeer_fields lenient) zero_KnownPeer (\<lambda>f r. r\<lparr>c_KnownPeers := f (c_KnownPeers r)\<rparr>),
      map_field ''blockedPeers'' (BlockedPeer_fields lenient) zero_BlockedPeer (\<lambda>f r. r\<lparr>c_BlockedPeers := f (c_BlockedPeers r)\<rparr>),
      struct_field ''update'' UpdateConfig_fields (c_Update zero_Config) (\<lambda>f r. r\<lparr>c_Update := f (c_Update r)\<rparr>)]"

text \<open>Maps are written in the order of their keys. After the defaults are set, no list and no map is nil.\<close>

definition map_json :: "('b \<Rightarrow> json) \<Rightarrow> (string, 'b) gomap \<Rightarrow> json" where
  "map_json f m = JObj (map (\<lambda>(k, b). (k, f b)) (sort_key fst m))"

definition Config_json :: "(nat \<Rightarrow> int) \<Rightarrow> Config \<Rightarrow> json" where
  "Config_json zone c =
     JObj [(''version'', JStr (c_Version c)), (''loggerLevel'', JStr (c_LoggerLevel c)), (''httpListenAddress'', JStr (c_HttpListenAddress c)),
       (''httpListenOnAdminHost'', JBool (c_HttpListenOnAdminHost c)), (''httpBasicAuth'', HttpBasicAuthConfig_json (c_HttpBasicAuth c)),
       (''p2pNode'', P2pNodeConfig_json (c_P2pNode c)), (''vpn'', VPNConfig_json (c_VPNConfig c)),
       (''socks5'', SOCKS5Config_json (c_SOCKS5 c)), (''dns'', DNSConfig_json (c_DNS c)),
       (''knownPeers'', map_json (KnownPeer_json zone) (c_KnownPeers c)), (''blockedPeers'', map_json (BlockedPeer_json zone) (c_BlockedPeers c)),
       (''update'', UpdateConfig_json (c_Update c))]"

section \<open>Export and load\<close>

definition times_ok :: "(nat \<Rightarrow> int) \<Rightarrow> Config \<Rightarrow> bool" where
  "times_ok zone c \<longleftrightarrow>
     list_all (\<lambda>(_, p). time_ok (zone (kp_CreatedAt p)) (kp_CreatedAt p) \<and> time_ok (zone (kp_LastSeen p)) (kp_LastSeen p)) (c_KnownPeers c) \<and>
     list_all (\<lambda>(_, b). time_ok (zone (bp_CreatedAt b)) (bp_CreatedAt b)) (c_BlockedPeers c)"

text \<open>The error of marshalling, for a time that cannot be printed, leaves no data.\<close>

definition Export :: "(nat \<Rightarrow> int) \<Rightarrow> Config \<Rightarrow> string option" where
  "Export zone c = (if times_ok zone c then Some (json_indent (Config_json zone c) 0) else None)"

definition Unmarshal_Config :: "(string \<Rightarrow> int option) \<Rightarrow> string \<Rightarrow> Config option" where
  "Unmarshal_Config lenient data =
     (case parse_value maxNestingDepth data of
        None \<Rightarrow> None
      | Some (v, rest) \<Rightarrow>
          if skip_ws rest \<noteq> [] then None
          else case store_struct (Config_fields lenient) v zero_Config of (c, ok) \<Rightarrow> if ok then Some c else None)"

text \<open>A file is what parsing its text gives; so loading texts is the loading of \<open>Config_Defaults\<close>.\<close>

definition parsed_file :: "(string \<Rightarrow> int option) \<Rightarrow> string \<Rightarrow> conf_file" where
  "parsed_file lenient data = (case Unmarshal_Config lenient data of None \<Rightarrow> Inl () | Some c \<Rightarrow> Inr c)"

definition LoadConfig_text :: "def_env \<Rightarrow> (string \<Rightarrow> int option) \<Rightarrow> (string \<Rightarrow> string option) \<Rightarrow> (load_error + Config) option" where
  "LoadConfig_text e lenient files = LoadConfig e (\<lambda>p. map_option (parsed_file lenient) (files p))"

definition save_text :: "(nat \<Rightarrow> int) \<Rightarrow> (string \<Rightarrow> bool) \<Rightarrow> Config \<Rightarrow> (string \<Rightarrow> string option) \<Rightarrow> (string \<Rightarrow> string option)" where
  "save_text zone writable c files =
     (case Export zone c of
        None \<Rightarrow> files
      | Some data \<Rightarrow> if writable (config_path c) then files(config_path c \<mapsto> data) else files)"

section \<open>Numbers and times\<close>

lemma itoa_all: "list_all is_digit (itoa n)"
  using itoa_digits by (simp add: list_all_iff)

lemma itoa_hd: "is_digit (hd (itoa n))" "hd (itoa n) \<noteq> CHR ''-''"
proof -
  show "is_digit (hd (itoa n))" using itoa_digits [of n] hd_in_set [of "itoa n"] by simp
  then show "hd (itoa n) \<noteq> CHR ''-''" by (auto simp: is_digit_def)
qed

lemma json_int_text:
  assumes "- (2 ^ 63) \<le> n" and "n < 2 ^ 63"
  shows "json_int (int_text n) = Some n"
  using assms itoa_all [of "nat n"] itoa_all [of "nat (- n)"] itoa_hd(2) [of "nat n"]
  by (simp add: json_int_def int_text.simps) linarith

lemma zero_char: "char_of (48 + n) = CHR ''0'' \<longleftrightarrow> n = 0" if "n < 10" for n :: nat
proof -
  have "char_of (48 + n) = CHR ''0'' \<longleftrightarrow> (of_char (char_of (48 + n) :: char) :: nat) = of_char CHR ''0''" by (simp only: of_char_eq_iff)
  also have "\<dots> \<longleftrightarrow> n = 0" using that by simp
  finally show ?thesis .
qed

lemma itoa_no_zero: "0 < n \<Longrightarrow> hd (itoa n) \<noteq> CHR ''0''"
proof (induction n rule: itoa.induct)
  case (1 n)
  then show ?case by (cases "n < 10") (simp_all add: itoa.simps [of n] zero_char hd_append)
qed

lemma num_int_itoa: "num_int (itoa n) = Some (itoa n, [])"
proof (cases "n = 0")
  case True
  then show ?thesis using zero_char [of 0] by (simp add: num_int_def itoa.simps)
next
  case False
  then have "hd (itoa n) \<noteq> CHR ''0''" by (simp add: itoa_no_zero)
  moreover have "takeWhile is_digit (itoa n) = itoa n" "dropWhile is_digit (itoa n) = []"
    using itoa_digits by (simp_all add: takeWhile_eq_all_conv)
  ultimately show ?thesis by (cases "itoa n") (simp_all add: num_int_def digits1_def)
qed

lemma int_text_number: "parse_number (int_text n) = Some (int_text n, [])"
  using itoa_hd(2) by (simp add: parse_number_def int_text.simps num_int_itoa num_frac_def num_exp_def)

lemma ascii_append [simp]: "ascii (s @ t) \<longleftrightarrow> ascii s \<and> ascii t" "ascii (c # s) \<longleftrightarrow> of_char c < (0x80 :: nat) \<and> ascii s" "ascii []"
  by (simp_all add: ascii_def)

lemma ascii_digits: "list_all is_digit ds \<Longrightarrow> ascii ds"
  by (auto simp: ascii_def list_all_iff is_digit_def)

lemma ascii_pad [simp]: "ascii (pad2 n)" "ascii (pad4 n)"
proof -
  show two: "ascii (pad2 n)" for n by (rule ascii_digits) (simp add: pad2_def)
  show "ascii (pad4 n)" by (simp add: pad4_def two)
qed

lemma ascii_frac: "ascii acc \<Longrightarrow> ascii (fst (fmtFrac p False v acc))"
  using fmtFrac_trim [of v p acc] by (auto simp: ascii_digits split: if_splits)

lemma time_text_ascii: "ascii (time_text off t)"
  by (simp add: time_text_def Let_def ascii_frac zone_text_def split: prod.split)

lemma time_arrives [simp]: "to_valid (time_text off t) = time_text off t"
  by (simp add: to_valid_ascii time_text_ascii)

section \<open>Structs are read back\<close>

lemma nested_le:
  "nested (JObj ms) \<le> n \<longleftrightarrow> 0 < n \<and> (\<forall>m \<in> set ms. nested (snd m) \<le> n - 1)"
  "nested (JArr vs) \<le> n \<longleftrightarrow> 0 < n \<and> (\<forall>v \<in> set vs. nested v \<le> n - 1)"
  by (cases n; auto simp: nested.simps)+

lemma update_not_in: "k \<notin> fst ` set m \<Longrightarrow> AList.update k b m = m @ [(k, b)]"
  by (induction m) auto

lemma fold_gm_set:
  "distinct (map fst (m @ es)) \<Longrightarrow> fold (\<lambda>(k, b) m. gm_set m k b) es m = m @ es"
proof (induction es arbitrary: m)
  case (Cons e es)
  obtain k b where e: "e = (k, b)" by fastforce
  have "gm_set m k b = m @ [(k, b)]" using Cons.prems e by (simp add: gm_set_def update_not_in)
  then show ?case using Cons e by simp
qed simp

locale json_codec =
  fixes enc :: "'b \<Rightarrow> json" and fs :: "'b field list" and zero :: 'b and ok :: "'b \<Rightarrow> bool"
  assumes reads: "ok b \<Longrightarrow> store_struct fs (clean (enc b)) zero = (b, True)"
    and numbers: "numbers_ok (enc b)"
    and shallow: "nested (enc b) \<le> 2"
begin

lemma struct_reads: "ok b \<Longrightarrow> \<exists>f. struct_value fs zero (clean (enc b)) = Some f \<and> f zero = b"
  by (simp add: struct_value_def reads)

lemma entry_reads: "valid_utf8 k \<Longrightarrow> ok b \<Longrightarrow> map_entry fs zero (to_valid k, clean (enc b)) = Some (k, b)"
  by (simp add: map_entry_def struct_value_def reads to_valid_id)

lemma entries_read:
  "list_all (\<lambda>(k, b). valid_utf8 k \<and> ok b) m \<Longrightarrow>
     those (map (map_entry fs zero) (map (\<lambda>(k, b). (to_valid k, clean (enc b))) m)) = Some m"
  by (induction m) (auto simp: entry_reads)

lemma map_reads:
  assumes "gm_wf m" and "list_all (\<lambda>(k, b). valid_utf8 k \<and> ok b) m"
  shows "\<exists>f. map_value fs zero (clean (map_json enc m)) = Some f \<and> f [] = sort_key fst m"
proof -
  let ?s = "sort_key fst m"
  have "mset (map fst ?s) = mset (map fst m)" by simp
  then have "distinct (map fst ?s)" using assms(1) unfolding gm_wf_def by (metis mset_eq_imp_distinct_iff)
  then have "fold (\<lambda>(k, b) m. gm_set m k b) ?s [] = ?s" by (simp add: fold_gm_set)
  moreover have "list_all (\<lambda>(k, b). valid_utf8 k \<and> ok b) ?s" using assms(2) by (simp add: list_all_iff)
  ultimately show ?thesis
    using entries_read [of ?s] by (simp add: map_value_def map_json_def clean_object comp_def case_prod_unfold)
qed

lemma map_numbers: "numbers_ok (map_json enc m)"
  by (auto simp: map_json_def numbers_ok_object numbers)

lemma map_nested: "nested (map_json enc m) \<le> 3"
  using shallow by (simp add: map_json_def nested_le case_prod_unfold)

end

text \<open>Which values a struct is read back for.\<close>

definition int64 :: "int \<Rightarrow> bool" where
  "int64 n \<longleftrightarrow> - (2 ^ 63) \<le> n \<and> n < 2 ^ 63"

definition KnownPeer_ok :: "(nat \<Rightarrow> int) \<Rightarrow> KnownPeer \<Rightarrow> bool" where
  "KnownPeer_ok zone p \<longleftrightarrow>
     list_all valid_utf8 [kp_PeerID p, kp_Name p, kp_Alias p, kp_IPAddr p, kp_DomainName p, kp_ReportedUsingPeerID p] \<and>
     time_ok (zone (kp_CreatedAt p)) (kp_CreatedAt p) \<and> time_ok (zone (kp_LastSeen p)) (kp_LastSeen p)"

definition BlockedPeer_ok :: "(nat \<Rightarrow> int) \<Rightarrow> BlockedPeer \<Rightarrow> bool" where
  "BlockedPeer_ok zone b \<longleftrightarrow>
     list_all valid_utf8 [bp_PeerID b, bp_DisplayName b] \<and> time_ok (zone (bp_CreatedAt b)) (bp_CreatedAt b)"

definition HttpBasicAuthConfig_ok :: "HttpBasicAuthConfig \<Rightarrow> bool" where
  "HttpBasicAuthConfig_ok h \<longleftrightarrow> list_all valid_utf8 [ha_Username h, ha_Password h]"

definition P2pNodeConfig_ok :: "P2pNodeConfig \<Rightarrow> bool" where
  "P2pNodeConfig_ok n \<longleftrightarrow>
     list_all valid_utf8 ([pn_PeerID n, pn_Name n, pn_Identity n] @ pn_BootstrapPeers n @ pn_ListenAddresses n) \<and>
     int64 (pn_ReconnectionIntervalSec n) \<and> int64 (pn_ParallelSendingStreamsCount n)"

definition VPNConfig_ok :: "VPNConfig \<Rightarrow> bool" where
  "VPNConfig_ok v \<longleftrightarrow> list_all valid_utf8 [vc_InterfaceName v, vc_IPNet v]"

definition SOCKS5Config_ok :: "SOCKS5Config \<Rightarrow> bool" where
  "SOCKS5Config_ok s \<longleftrightarrow> list_all valid_utf8 [sc_ListenAddress s, sc_UsingPeerID s]"

definition DNSConfig_ok :: "DNSConfig \<Rightarrow> bool" where
  "DNSConfig_ok d \<longleftrightarrow> valid_utf8 (dc_ListenAddress d)"

definition UpdateConfig_ok :: "UpdateConfig \<Rightarrow> bool" where
  "UpdateConfig_ok u \<longleftrightarrow> list_all valid_utf8 [uc_LowestPriorityChan u, uc_UpdateServerURL u, uc_TrayAutoCheckInterval u]"

lemma strings_read: "list_all valid_utf8 xs \<Longrightarrow> those (map (json_string \<circ> (clean \<circ> JStr)) xs) = Some xs"
  by (induction xs) (auto simp: json_string_def to_valid_id)

lemmas store_simps = store_struct_def clean_object store_exact to_valid_ascii to_valid_id time_reads_back

interpretation http_auth: json_codec HttpBasicAuthConfig_json HttpBasicAuthConfig_fields "c_HttpBasicAuth zero_Config" HttpBasicAuthConfig_ok
proof unfold_locales
  show "store_struct HttpBasicAuthConfig_fields (clean (HttpBasicAuthConfig_json b)) (c_HttpBasicAuth zero_Config) = (b, True)"
    if "HttpBasicAuthConfig_ok b" for b
    using that by (cases b) (simp add: HttpBasicAuthConfig_json_def HttpBasicAuthConfig_fields_def HttpBasicAuthConfig_ok_def zero_Config_def store_simps)
qed (simp_all add: nested_le HttpBasicAuthConfig_json_def numbers_ok_object)

interpretation vpn_conf: json_codec VPNConfig_json VPNConfig_fields "c_VPNConfig zero_Config" VPNConfig_ok
proof unfold_locales
  show "store_struct VPNConfig_fields (clean (VPNConfig_json b)) (c_VPNConfig zero_Config) = (b, True)" if "VPNConfig_ok b" for b
    using that by (cases b) (simp add: VPNConfig_json_def VPNConfig_fields_def VPNConfig_ok_def zero_Config_def store_simps)
qed (simp_all add: nested_le VPNConfig_json_def numbers_ok_object)

interpretation socks5_conf: json_codec SOCKS5Config_json SOCKS5Config_fields zero_SOCKS5Config SOCKS5Config_ok
proof unfold_locales
  show "store_struct SOCKS5Config_fields (clean (SOCKS5Config_json b)) zero_SOCKS5Config = (b, True)" if "SOCKS5Config_ok b" for b
    using that by (cases b) (simp add: SOCKS5Config_json_def SOCKS5Config_fields_def SOCKS5Config_ok_def zero_SOCKS5Config_def store_simps)
qed (simp_all add: nested_le SOCKS5Config_json_def numbers_ok_object)

interpretation dns_conf: json_codec DNSConfig_json DNSConfig_fields "c_DNS zero_Config" DNSConfig_ok
proof unfold_locales
  show "store_struct DNSConfig_fields (clean (DNSConfig_json b)) (c_DNS zero_Config) = (b, True)" if "DNSConfig_ok b" for b
    using that by (cases b) (simp add: DNSConfig_json_def DNSConfig_fields_def DNSConfig_ok_def zero_Config_def store_simps)
qed (simp_all add: nested_le DNSConfig_json_def numbers_ok_object)

interpretation update_conf: json_codec UpdateConfig_json UpdateConfig_fields "c_Update zero_Config" UpdateConfig_ok
proof unfold_locales
  show "store_struct UpdateConfig_fields (clean (UpdateConfig_json b)) (c_Update zero_Config) = (b, True)" if "UpdateConfig_ok b" for b
    using that by (cases b) (simp add: UpdateConfig_json_def UpdateConfig_fields_def UpdateConfig_ok_def zero_Config_def store_simps)
qed (simp_all add: nested_le UpdateConfig_json_def numbers_ok_object)

interpretation blocked: json_codec "BlockedPeer_json zone" "BlockedPeer_fields lenient" zero_BlockedPeer "BlockedPeer_ok zone"
proof unfold_locales
  show "store_struct (BlockedPeer_fields lenient) (clean (BlockedPeer_json zone b)) zero_BlockedPeer = (b, True)" if "BlockedPeer_ok zone b" for b
    using that by (cases b) (simp add: BlockedPeer_json_def BlockedPeer_fields_def BlockedPeer_ok_def zero_BlockedPeer_def store_simps)
qed (simp_all add: nested_le BlockedPeer_json_def numbers_ok_object)

interpretation known: json_codec "KnownPeer_json zone" "KnownPeer_fields lenient" zero_KnownPeer "KnownPeer_ok zone"
proof unfold_locales
  show "store_struct (KnownPeer_fields lenient) (clean (KnownPeer_json zone b)) zero_KnownPeer = (b, True)" if "KnownPeer_ok zone b" for b
    using that by (cases b) (simp add: KnownPeer_json_def KnownPeer_fields_def KnownPeer_ok_def zero_KnownPeer_def store_simps)
qed (simp_all add: nested_le KnownPeer_json_def numbers_ok_object)

interpretation p2p_conf: json_codec P2pNodeConfig_json P2pNodeConfig_fields "c_P2pNode zero_Config" P2pNodeConfig_ok
proof unfold_locales
  show "store_struct P2pNodeConfig_fields (clean (P2pNodeConfig_json b)) (c_P2pNode zero_Config) = (b, True)" if "P2pNodeConfig_ok b" for b
    using that by (cases b; cases "pn_IgnoreDefaultBootstrapPeers b")
      (simp_all add: P2pNodeConfig_json_def P2pNodeConfig_fields_def P2pNodeConfig_ok_def zero_Config_def store_simps json_int_text int64_def strings_read)
  show "numbers_ok (P2pNodeConfig_json b)" for b
    by (cases "pn_IgnoreDefaultBootstrapPeers b") (simp_all add: P2pNodeConfig_json_def numbers_ok_object int_text_number list_all_iff)
  show "nested (P2pNodeConfig_json b) \<le> 2" for b
    by (cases "pn_IgnoreDefaultBootstrapPeers b") (simp_all add: P2pNodeConfig_json_def nested_le)
qed

section \<open>The file is read back\<close>

definition config_ok :: "(nat \<Rightarrow> int) \<Rightarrow> Config \<Rightarrow> bool" where
  "config_ok zone c \<longleftrightarrow>
     list_all valid_utf8 [c_Version c, c_LoggerLevel c, c_HttpListenAddress c] \<and> HttpBasicAuthConfig_ok (c_HttpBasicAuth c) \<and>
     P2pNodeConfig_ok (c_P2pNode c) \<and> VPNConfig_ok (c_VPNConfig c) \<and> SOCKS5Config_ok (c_SOCKS5 c) \<and> DNSConfig_ok (c_DNS c) \<and>
     UpdateConfig_ok (c_Update c) \<and> gm_wf (c_KnownPeers c) \<and> gm_wf (c_BlockedPeers c) \<and>
     list_all (\<lambda>(k, p). valid_utf8 k \<and> KnownPeer_ok zone p) (c_KnownPeers c) \<and>
     list_all (\<lambda>(k, b). valid_utf8 k \<and> BlockedPeer_ok zone b) (c_BlockedPeers c)"

definition sorted_maps :: "Config \<Rightarrow> Config" where
  "sorted_maps c = c\<lparr>c_KnownPeers := sort_key fst (c_KnownPeers c), c_BlockedPeers := sort_key fst (c_BlockedPeers c)\<rparr>"

lemma Config_json_shape: "numbers_ok (Config_json zone c)" "nested (Config_json zone c) \<le> 4"
proof -
  note n = http_auth.numbers p2p_conf.numbers vpn_conf.numbers socks5_conf.numbers dns_conf.numbers update_conf.numbers
    known.map_numbers blocked.map_numbers
  show "numbers_ok (Config_json zone c)" by (simp add: Config_json_def numbers_ok_object n)
  have up: "nested v \<le> 2 \<Longrightarrow> nested v \<le> 3" for v by simp
  note d = http_auth.shallow [THEN up] p2p_conf.shallow [THEN up] vpn_conf.shallow [THEN up] socks5_conf.shallow [THEN up]
    dns_conf.shallow [THEN up] update_conf.shallow [THEN up]
  show "nested (Config_json zone c) \<le> 4"
    by (simp add: Config_json_def nested_le d known.map_nested blocked.map_nested)
qed

lemma Config_stored:
  assumes "config_ok zone c"
  shows "store_struct (Config_fields lenient) (clean (Config_json zone c)) zero_Config = ((sorted_maps c)\<lparr>c_dataDir := []\<rparr>, True)"
proof -
  note ok = assms [unfolded config_ok_def]
  obtain f1 where f1: "struct_value HttpBasicAuthConfig_fields (c_HttpBasicAuth zero_Config) (clean (HttpBasicAuthConfig_json (c_HttpBasicAuth c))) = Some f1"
    "f1 (c_HttpBasicAuth zero_Config) = c_HttpBasicAuth c" using http_auth.struct_reads ok by blast
  obtain f2 where f2: "struct_value P2pNodeConfig_fields (c_P2pNode zero_Config) (clean (P2pNodeConfig_json (c_P2pNode c))) = Some f2"
    "f2 (c_P2pNode zero_Config) = c_P2pNode c" using p2p_conf.struct_reads ok by blast
  obtain f3 where f3: "struct_value VPNConfig_fields (c_VPNConfig zero_Config) (clean (VPNConfig_json (c_VPNConfig c))) = Some f3"
    "f3 (c_VPNConfig zero_Config) = c_VPNConfig c" using vpn_conf.struct_reads ok by blast
  obtain f4 where f4: "struct_value SOCKS5Config_fields zero_SOCKS5Config (clean (SOCKS5Config_json (c_SOCKS5 c))) = Some f4"
    "f4 zero_SOCKS5Config = c_SOCKS5 c" using socks5_conf.struct_reads ok by blast
  obtain f5 where f5: "struct_value DNSConfig_fields (c_DNS zero_Config) (clean (DNSConfig_json (c_DNS c))) = Some f5"
    "f5 (c_DNS zero_Config) = c_DNS c" using dns_conf.struct_reads ok by blast
  obtain f6 where f6: "map_value (KnownPeer_fields lenient) zero_KnownPeer (clean (map_json (KnownPeer_json zone) (c_KnownPeers c))) = Some f6"
    "f6 [] = sort_key fst (c_KnownPeers c)" using known.map_reads ok by blast
  obtain f7 where f7: "map_value (BlockedPeer_fields lenient) zero_BlockedPeer (clean (map_json (BlockedPeer_json zone) (c_BlockedPeers c))) = Some f7"
    "f7 [] = sort_key fst (c_BlockedPeers c)" using blocked.map_reads ok by blast
  obtain f8 where f8: "struct_value UpdateConfig_fields (c_Update zero_Config) (clean (UpdateConfig_json (c_Update c))) = Some f8"
    "f8 (c_Update zero_Config) = c_Update c" using update_conf.struct_reads ok by blast
  have z: "c_SOCKS5 zero_Config = zero_SOCKS5Config" "c_KnownPeers zero_Config = []" "c_BlockedPeers zero_Config = []" "c_dataDir zero_Config = []"
    by (simp_all add: zero_Config_def)
  show ?thesis
    unfolding Config_json_def Config_fields_def using f1 f2 f3 f4 f5 f6 f7 f8 z ok
    by (simp add: store_simps sorted_maps_def)
qed

lemma Export_parsed:
  assumes "Export zone c = Some data"
  shows "parse_value maxNestingDepth data = Some (clean (Config_json zone c), [])"
proof -
  have "data = json_indent (Config_json zone c) 0" using assms by (simp add: Export_def split: if_splits)
  moreover have "nested (Config_json zone c) \<le> maxNestingDepth"
    using Config_json_shape(2) [of zone c] by (simp add: maxNestingDepth_def)
  moreover have "stops []" by (simp add: stops_def)
  ultimately show ?thesis
    using text_readsD [OF indent_reads_back [OF _ Config_json_shape(1)], of zone c maxNestingDepth "[]" 0] by simp
qed


lemma Export_reads:
  assumes "config_ok zone c"
  shows "\<exists>data. Export zone c = Some data \<and> Unmarshal_Config lenient data = Some ((sorted_maps c)\<lparr>c_dataDir := []\<rparr>)"
proof -
  have "times_ok zone c"
    using assms by (auto simp: config_ok_def times_ok_def list_all_iff KnownPeer_ok_def BlockedPeer_ok_def)
  then obtain data where data: "Export zone c = Some data" by (simp add: Export_def)
  then show ?thesis
    using Export_parsed [OF data] by (simp add: Unmarshal_Config_def Config_stored [OF assms] skip_ws_def)
qed

lemma sorted_lookup: "gm_wf m \<Longrightarrow> gm_get (sort_key fst m) k = gm_get m k"
proof -
  assume m: "gm_wf m"
  have "mset (map fst (sort_key fst m)) = mset (map fst m)" by simp
  then have "gm_wf (sort_key fst m)" using m unfolding gm_wf_def by (metis mset_eq_imp_distinct_iff)
  then have "gm_get (sort_key fst m) k = Some v \<longleftrightarrow> gm_get m k = Some v" for v using m by (simp add: gm_get_iff)
  then show ?thesis by (metis option.exhaust)
qed

lemma sorted_wf: "gm_wf m \<Longrightarrow> gm_wf (sort_key fst m)"
  unfolding gm_wf_def by (metis mset_eq_imp_distinct_iff mset_map mset_sort)

lemma default_vpn_blocked: "default_vpn g (c\<lparr>c_BlockedPeers := b\<rparr>) = (default_vpn g c)\<lparr>c_BlockedPeers := b\<rparr>"
proof -
  have "fst (VPNLocalIPMask (c\<lparr>c_BlockedPeers := b\<rparr>)) = fst (VPNLocalIPMask c)" for c by (simp add: VPNLocalIPMask_def)
  then show ?thesis by (cases c) (simp add: default_vpn_def Let_def VPNLocalIPMask_def)
qed

lemma default_head_blocked: "default_head e (c\<lparr>c_BlockedPeers := b\<rparr>) = (default_head e c)\<lparr>c_BlockedPeers := b\<rparr>"
proof -
  define upd where "upd d = d\<lparr>c_Version := de_Version e, c_P2pNode := default_p2p (c_P2pNode c),
            c_LoggerLevel := (if c_LoggerLevel c = [] then ''info'' else c_LoggerLevel c),
            c_HttpListenAddress := (if c_HttpListenAddress c = [] then ''127.0.0.1:'' @ itoa DefaultHTTPPort
                                    else c_HttpListenAddress c),
            c_HttpListenOnAdminHost := (c_Version c = [] \<or> c_HttpListenOnAdminHost c)\<rparr>" for d :: Config
  define tail where "tail d = d\<lparr>c_SOCKS5 := default_socks5 (c_SOCKS5 d),
            c_DNS := (if dc_ListenAddress (c_DNS d) = [] then (c_DNS d)\<lparr>dc_ListenAddress := DefaultDNSAddress\<rparr> else c_DNS d)\<rparr>" for d :: Config
  have "default_head e d = tail (default_vpn (de_GOOS e) (upd d))" if "d = c \<or> d = c\<lparr>c_BlockedPeers := b\<rparr>" for d
    using that by (elim disjE) (simp_all add: default_head_def Let_def tail_def upd_def)
  moreover have "upd (c\<lparr>c_BlockedPeers := b\<rparr>) = (upd c)\<lparr>c_BlockedPeers := b\<rparr>" by (simp add: upd_def)
  moreover have "tail (d\<lparr>c_BlockedPeers := b\<rparr>) = (tail d)\<lparr>c_BlockedPeers := b\<rparr>" for d by (simp add: tail_def)
  ultimately show ?thesis by (simp add: default_vpn_blocked)
qed

lemma setDefaults_sorted:
  assumes "gm_wf (c_KnownPeers c)" and "de_Version e \<noteq> []" and "setDefaults e c = Some c'"
  shows "setDefaults e (sorted_maps c') = Some (sorted_maps c')"
proof -
  obtain m where m: "c' = defaulted e c m" "gm_wf m" "settled (de_ulower e) c'" using setDefaults_defaulted [OF assms(1,3)] .
  let ?c = "c\<lparr>c_BlockedPeers := sort_key fst (c_BlockedPeers c)\<rparr>"
  have s: "sorted_maps c' = defaulted e ?c (sort_key fst m)"
    by (simp add: m(1) sorted_maps_def defaulted_def default_tail_def default_head_blocked)
  have "settled (de_ulower e) (sorted_maps c')" using m(3) by (simp add: settled_def alias_wf_def sorted_maps_def)
  then show ?thesis using setDefaults_settled [OF assms(2) sorted_wf [OF m(2)]] s by simp
qed

text \<open>
  C14. The configuration survives a restart: when \<open>save\<close> has written a configuration that
  \<open>setDefaults\<close> made, \<open>LoadConfig\<close> parses the text and returns that configuration, with every field,
  every time and the data directory as it was, whatever layouts of a time it accepts besides; only the maps,
  which have no order in Go, are now in the order in which their keys are written, and every lookup is as before.
\<close>

theorem saved_file_loads:
  assumes "gm_wf (c_KnownPeers c)" and "de_Version e \<noteq> []" and "setDefaults e c = Some c'"
    and "c_dataDir c = [] \<or> c_dataDir c = CalcAppDataDir (de_os e)" and "config_ok zone c'" and "writable (config_path c')"
  shows "LoadConfig_text e lenient (save_text zone writable c' files) = Some (Inr (sorted_maps c')) \<and>
     (\<forall>k. gm_get (c_KnownPeers (sorted_maps c')) k = gm_get (c_KnownPeers c') k) \<and>
     (\<forall>k. gm_get (c_BlockedPeers (sorted_maps c')) k = gm_get (c_BlockedPeers c') k)"
proof -
  obtain data where data: "Export zone c' = Some data" "Unmarshal_Config lenient data = Some ((sorted_maps c')\<lparr>c_dataDir := []\<rparr>)"
    using Export_reads [OF assms(5)] by blast
  obtain m where m: "c' = defaulted e c m" using setDefaults_defaulted [OF assms(1,3)] .
  then have dir: "c_dataDir c' = CalcAppDataDir (de_os e)"
    using assms(4) by (auto simp: defaulted_def default_tail_def default_head_def Let_def)
  have same: "(sorted_maps c')\<lparr>c_dataDir := CalcAppDataDir (de_os e)\<rparr> = sorted_maps c'"
    using dir by (simp add: sorted_maps_def)
  have "LoadConfig_text e lenient (save_text zone writable c' files) = Some (Inr (sorted_maps c'))"
    using setDefaults_sorted [OF assms(1-3)] data assms(6) same
    by (simp add: LoadConfig_text_def LoadConfig_def Let_def save_text_def config_path_def dir parsed_file_def)
  then show ?thesis using assms(5) by (simp add: sorted_maps_def sorted_lookup config_ok_def)
qed

definition sample_saved :: Config where
  "sample_saved = zero_Config\<lparr>c_KnownPeers :=
     [(''b'', zero_KnownPeer\<lparr>kp_PeerID := ''b'', kp_Name := ''bob'', kp_CreatedAt := 90061000123000\<rparr>),
      (''a'', zero_KnownPeer\<lparr>kp_PeerID := ''a'', kp_ReportedUsingPeerID := ''b''\<rparr>)]\<rparr>"

theorem saved_file_loads_witness:
  "\<exists>c'. setDefaults sample_def_env sample_saved = Some c' \<and>
     LoadConfig_text sample_def_env (\<lambda>_. None) (save_text (\<lambda>_. 180) (\<lambda>_. True) c' Map.empty) = Some (Inr (sorted_maps c'))"
proof -
  have "map_option (config_ok (\<lambda>_. 180)) (setDefaults sample_def_env sample_saved) = Some True" by code_simp
  then obtain c' where c': "setDefaults sample_def_env sample_saved = Some c'" "config_ok (\<lambda>_. 180) c'" by auto
  have "gm_wf (c_KnownPeers sample_saved)" "de_Version sample_def_env \<noteq> []" "c_dataDir sample_saved = []"
    by (simp_all add: sample_saved_def sample_def_env_def gm_wf_def zero_Config_def)
  from saved_file_loads [OF this(1,2) c'(1) _ c'(2), of "\<lambda>_. True" "\<lambda>_. None" Map.empty] this(3) c'(1) show ?thesis by simp
qed

lemma Export_start:
  assumes "Export zone c = Some data"
  shows "\<exists>y. data = CHR ''{'' # y" "1 < length data"
proof -
  obtain m ms where "Config_json zone c = JObj (m # ms)" by (simp add: Config_json_def)
  then have "data = json_indent (JObj (m # ms)) 0" using assms by (simp add: Export_def del: json_indent.simps split: if_splits)
  then show "\<exists>y. data = CHR ''{'' # y" "1 < length data" by simp_all
qed

text \<open>
  C29. A configuration file that was cut short, as by a crash while it was written, is never taken for a
  configuration: when any number of bytes is missing at the end of what \<open>save\<close> writes, \<open>LoadConfig\<close>
  returns the error of the format.
\<close>

theorem torn_file_refused:
  assumes "Export zone c = Some data" and "k < length data"
  shows "LoadConfig_text e lenient (files(path_Join (CalcAppDataDir (de_os e)) AppConfigFilename \<mapsto> take k data)) = Some (Inl BadFormat)"
proof -
  obtain y where y: "data = CHR ''{'' # y" using Export_start(1) [OF assms(1)] by blast
  have "parse_value maxNestingDepth (take k data) = None"
    by (rule cut_not_read [OF Export_parsed [OF assms(1)] y assms(2)])
  then show ?thesis by (simp add: LoadConfig_text_def LoadConfig_def Let_def parsed_file_def Unmarshal_Config_def)
qed

theorem torn_file_refused_witness:
  "\<exists>data. Export (\<lambda>_. 0) zero_Config = Some data \<and> 1 < length data \<and>
     LoadConfig_text sample_def_env (\<lambda>_. None) [path_Join (CalcAppDataDir (de_os sample_def_env)) AppConfigFilename \<mapsto> take 1 data] =
       Some (Inl BadFormat)"
proof -
  obtain data where data: "Export (\<lambda>_. 0) zero_Config = Some data" by (simp add: Export_def times_ok_def zero_Config_def)
  have "1 < length data" using Export_start(2) [OF data] .
  with data torn_file_refused [OF data this] show ?thesis by blast
qed

end
