(* ===== verification/Api_Http.thy ===== *)
theory Api_Http
  imports Awl_Api Awl_Debug Wire_Messages
begin

text \<open>
  The HTTP side of the API: the paths of \<open>src/api/const.go\<close>, the routes and the basic authentication of
  \<open>setupRouter\<close>, the error messages (\<open>src/api/api.go\<close>), and the request structs of \<open>src/entity/api.go\<close>
  with their JSON. A request reaches its handler of \<open>Awl_Api\<close>. Echo is a record of what it does:
  finding a route, reading the credentials of a request, handing the body to the JSON decoder, and
  the bodies of its own errors.
\<close>

section \<open>Paths\<close>

definition V0Prefix :: string where "V0Prefix = ''/api/v0/''"

definition GetKnownPeersPath :: string where "GetKnownPeersPath = V0Prefix @ ''peers/get_known''"
definition GetKnownPeerSettingsPath :: string where "GetKnownPeerSettingsPath = V0Prefix @ ''peers/get_known_peer_settings''"
definition UpdatePeerSettingsPath :: string where "UpdatePeerSettingsPath = V0Prefix @ ''peers/update_settings''"
definition RemovePeerSettingsPath :: string where "RemovePeerSettingsPath = V0Prefix @ ''peers/remove''"
definition GetBlockedPeersPath :: string where "GetBlockedPeersPath = V0Prefix @ ''peers/get_blocked''"
definition SendFriendRequestPath :: string where "SendFriendRequestPath = V0Prefix @ ''peers/invite_peer''"
definition AcceptPeerInvitationPath :: string where "AcceptPeerInvitationPath = V0Prefix @ ''peers/accept_peer''"
definition GetAuthRequestsPath :: string where "GetAuthRequestsPath = V0Prefix @ ''peers/auth_requests''"
definition GetMyPeerInfoPath :: string where "GetMyPeerInfoPath = V0Prefix @ ''settings/peer_info''"
definition UpdateMyInfoPath :: string where "UpdateMyInfoPath = V0Prefix @ ''settings/update''"
definition ListAvailableProxiesPath :: string where "ListAvailableProxiesPath = V0Prefix @ ''settings/list_proxies''"
definition UpdateProxySettingsPath :: string where "UpdateProxySettingsPath = V0Prefix @ ''settings/set_proxy''"
definition ExportServerConfigPath :: string where "ExportServerConfigPath = V0Prefix @ ''settings/export_server_config''"
definition GetP2pDebugInfoPath :: string where "GetP2pDebugInfoPath = V0Prefix @ ''debug/p2p_info''"
definition GetDebugLogPath :: string where "GetDebugLogPath = V0Prefix @ ''debug/log''"

lemmas path_defs = V0Prefix_def GetKnownPeersPath_def GetKnownPeerSettingsPath_def UpdatePeerSettingsPath_def
  RemovePeerSettingsPath_def GetBlockedPeersPath_def SendFriendRequestPath_def AcceptPeerInvitationPath_def
  GetAuthRequestsPath_def GetMyPeerInfoPath_def UpdateMyInfoPath_def ListAvailableProxiesPath_def
  UpdateProxySettingsPath_def ExportServerConfigPath_def GetP2pDebugInfoPath_def GetDebugLogPath_def

section \<open>Requests and responses\<close>

text \<open>
  The credentials are the decoded text of the basic authentication header. The query is that of the
  log endpoint, written by go-querystring and bound by echo.
\<close>

record http_request =
  rq_method :: string
  rq_path :: string
  rq_auth :: "string option"
  rq_query :: "LogRequest option"
  rq_json :: bool
  rq_body :: "byte list"

text \<open>The data of the listing endpoints is carried as the value; every other body is its bytes.\<close>

datatype api_value =
  VPeers "KnownPeersResponse list" | VPeer KnownPeer | VInfo PeerInfo | VProxies "AvailableProxy list"
| VRequests "AuthRequest list" | VBlocked "BlockedPeer list" | VConfig Config

datatype payload = Bytes "byte list" | Val api_value

type_synonym http_response = "nat \<times> payload"

section \<open>Errors\<close>

record api_Error =
  e_Message :: string
  e_AuthMessage :: string

definition Error_text :: "api_Error \<Rightarrow> string" where
  "Error_text e =
     (if e_Message e \<noteq> [] \<and> e_AuthMessage e \<noteq> []
      then ''error: '' @ e_Message e @ ''; message: '' @ e_AuthMessage e
      else e_Message e @ e_AuthMessage e)"

definition ErrorMessage :: "string \<Rightarrow> api_Error" where
  "ErrorMessage message = \<lparr>e_Message = message, e_AuthMessage = []\<rparr>"

definition Error_json :: "api_Error \<Rightarrow> byte list" where
  "Error_json e = encode_json (JObj [(''error'', JStr (e_Message e)), (''message'', JStr (e_AuthMessage e))])"

definition Error_fields :: "api_Error field list" where
  "Error_fields = [string_field ''error'' (\<lambda>s r. r\<lparr>e_Message := s\<rparr>), string_field ''message'' (\<lambda>s r. r\<lparr>e_AuthMessage := s\<rparr>)]"

section \<open>Request structs\<close>

definition FriendRequest_fields :: "'a FriendRequest_scheme field list" where
  "FriendRequest_fields =
     [string_field ''PeerID'' (\<lambda>s r. r\<lparr>fr_PeerID := s\<rparr>), string_field ''Alias'' (\<lambda>s r. r\<lparr>fr_Alias := s\<rparr>),
      string_field ''IPAddr'' (\<lambda>s r. r\<lparr>fr_IPAddr := s\<rparr>)]"

definition FriendRequestReply_fields :: "FriendRequestReply field list" where
  "FriendRequestReply_fields = FriendRequest_fields @ [bool_field ''Decline'' (\<lambda>b r. r\<lparr>fr_Decline := b\<rparr>)]"

definition UpdatePeerSettingsRequest_fields :: "UpdatePeerSettingsRequest field list" where
  "UpdatePeerSettingsRequest_fields =
     [string_field ''PeerID'' (\<lambda>s r. r\<lparr>up_PeerID := s\<rparr>), string_field ''Alias'' (\<lambda>s r. r\<lparr>up_Alias := s\<rparr>),
      string_field ''DomainName'' (\<lambda>s r. r\<lparr>up_DomainName := s\<rparr>), string_field ''IPAddr'' (\<lambda>s r. r\<lparr>up_IPAddr := s\<rparr>),
      bool_field ''AllowUsingAsExitNode'' (\<lambda>b r. r\<lparr>up_AllowUsingAsExitNode := b\<rparr>)]"

text \<open>A struct with one string field is that string.\<close>

definition one_field :: "string \<Rightarrow> string field list" where
  "one_field n = [string_field n (\<lambda>s _. s)]"

section \<open>Routes\<close>

datatype endpoint =
  EpMetrics | EpGetKnownPeers | EpGetKnownPeerSettings | EpSendFriendRequest | EpAcceptFriend | EpUpdatePeerSettings
| EpRemovePeer | EpGetAuthRequests | EpGetBlockedPeers | EpGetMyPeerInfo | EpUpdateMySettings | EpListAvailableProxies
| EpUpdateProxySettings | EpExportServerConfiguration | EpGetP2pDebugInfo | EpGetLog | EpPprof string | EpFiles

text \<open>\<open>None\<close> as the method is a route for every method; \<open>profiles\<close> are the runtime's profile names.\<close>

type_synonym route = "string option \<times> string \<times> endpoint"

definition setupRouter_routes :: "string list \<Rightarrow> route list" where
  "setupRouter_routes profiles =
     [(Some ''GET'', ''/metrics'', EpMetrics),
      (Some ''GET'', GetKnownPeersPath, EpGetKnownPeers),
      (Some ''POST'', GetKnownPeerSettingsPath, EpGetKnownPeerSettings),
      (Some ''POST'', SendFriendRequestPath, EpSendFriendRequest),
      (Some ''POST'', AcceptPeerInvitationPath, EpAcceptFriend),
      (Some ''POST'', UpdatePeerSettingsPath, EpUpdatePeerSettings),
      (Some ''POST'', RemovePeerSettingsPath, EpRemovePeer),
      (Some ''GET'', GetAuthRequestsPath, EpGetAuthRequests),
      (Some ''GET'', GetBlockedPeersPath, EpGetBlockedPeers),
      (Some ''GET'', GetMyPeerInfoPath, EpGetMyPeerInfo),
      (Some ''POST'', UpdateMyInfoPath, EpUpdateMySettings),
      (Some ''GET'', ListAvailableProxiesPath, EpListAvailableProxies),
      (Some ''POST'', UpdateProxySettingsPath, EpUpdateProxySettings),
      (Some ''GET'', ExportServerConfigPath, EpExportServerConfiguration),
      (Some ''GET'', GetP2pDebugInfoPath, EpGetP2pDebugInfo),
      (Some ''GET'', GetDebugLogPath, EpGetLog)] @
     map (\<lambda>n. (None, V0Prefix @ ''debug/pprof/'' @ n, EpPprof n)) ([[], ''profile'', ''trace'', ''cmdline'', ''symbol''] @ profiles)"

definition SetupFrontend_routes :: "route list" where
  "SetupFrontend_routes = [(Some ''GET'', ''/*'', EpFiles)]"

record web =
  w_route :: "route list \<Rightarrow> string \<Rightarrow> string \<Rightarrow> endpoint option"
  w_credentials :: "string \<Rightarrow> (string \<times> string) option"
  w_body :: "http_request \<Rightarrow> stream option"
  w_error :: "nat \<Rightarrow> byte list"

section \<open>Serving a request\<close>

text \<open>What the handlers need beside the state; \<open>en_text\<close> prints an error.\<close>

record api_env =
  en_vd :: validator
  en_isDomainName :: "string \<Rightarrow> bool"
  en_x :: externals
  en_now :: nat
  en_view :: p2p_view
  en_stats :: node_stats
  en_version :: string
  en_tunnel :: bool
  en_log :: string
  en_debug :: "byte list"
  en_other :: "endpoint \<Rightarrow> http_request \<Rightarrow> http_response"
  en_profiles :: "string list"
  en_text :: "api_error \<Rightarrow> string"

definition basic_auth_ok :: "web \<Rightarrow> HttpBasicAuthConfig \<Rightarrow> http_request \<Rightarrow> bool" where
  "basic_auth_ok w ha rq \<longleftrightarrow>
     ha_Password ha \<noteq> [] \<longrightarrow>
       (case rq_auth rq of
          None \<Rightarrow> False
        | Some cred \<Rightarrow> (case w_credentials w cred of None \<Rightarrow> False | Some (u, p) \<Rightarrow> u = ha_Username ha \<and> p = ha_Password ha))"

text \<open>\<open>c.Bind\<close>: nothing is read from an empty body.\<close>

definition bind_json :: "web \<Rightarrow> 'a field list \<Rightarrow> 'a \<Rightarrow> http_request \<Rightarrow> 'a option" where
  "bind_json w fs z rq =
     (case w_body w rq of
        None \<Rightarrow> Some z
      | Some st \<Rightarrow> (case decode_struct fs z st of (a, None) \<Rightarrow> Some a | (_, Some _) \<Rightarrow> None))"

definition respond :: "api_env \<Rightarrow> ('a \<Rightarrow> payload) \<Rightarrow> 'a response \<Rightarrow> http_response" where
  "respond en body r =
     (case r of
        Resp200 a \<Rightarrow> (200, body a)
      | Resp400 e \<Rightarrow> (400, Bytes (Error_json (ErrorMessage (en_text en e))))
      | Resp404 e \<Rightarrow> (404, Bytes (Error_json (ErrorMessage (en_text en e)))))"

definition respond_unit :: "api_env \<Rightarrow> unit response \<times> api_task list \<times> AuthStatus \<Rightarrow> http_response \<times> api_task list \<times> AuthStatus" where
  "respond_unit en r = (respond en (\<lambda>_. Bytes []) (fst r), snd r)"

definition get_log :: "api_env \<Rightarrow> http_request \<Rightarrow> http_response" where
  "get_log en rq =
     (case GetLog (case rq_query rq of None \<Rightarrow> \<lparr>lr_StartFromHead = False, lr_LogsRows = 0\<rparr> | Some q \<Rightarrow> q) (en_log en) of
        None \<Rightarrow> (400, Bytes (Error_json (ErrorMessage (en_text en Invalid))))
      | Some t \<Rightarrow> (200, Bytes (bytes_of t)))"

text \<open>The handler of a route; \<open>None\<close> is a panic.\<close>

definition handle ::
    "web \<Rightarrow> api_env \<Rightarrow> endpoint \<Rightarrow> http_request \<Rightarrow> AuthStatus \<Rightarrow> (http_response \<times> api_task list \<times> AuthStatus) option" where
  "handle w en ep rq s =
     (let vd = en_vd en; x = en_x en; c = as_c s; ok = (\<lambda>v. Some ((200, Val v), [], s)) in
      case ep of
        EpGetKnownPeers \<Rightarrow> ok (VPeers (getKnownPeers x (en_view en) c))
      | EpGetKnownPeerSettings \<Rightarrow>
          Some (respond en (Val \<circ> VPeer) (GetKnownPeerSettings vd (bind_json w (one_field ''PeerID'') [] rq) c), [], s)
      | EpSendFriendRequest \<Rightarrow>
          map_option (respond_unit en) (SendFriendRequest vd x (en_now en)
            (bind_json w FriendRequest_fields \<lparr>fr_PeerID = [], fr_Alias = [], fr_IPAddr = []\<rparr> rq) s)
      | EpAcceptFriend \<Rightarrow>
          map_option (respond_unit en) (AcceptFriend vd x (en_now en)
            (bind_json w FriendRequestReply_fields \<lparr>fr_PeerID = [], fr_Alias = [], fr_IPAddr = [], fr_Decline = False\<rparr> rq) s)
      | EpUpdatePeerSettings \<Rightarrow>
          map_option (respond_unit en) (UpdatePeerSettings vd (en_isDomainName en) x id
            (bind_json w UpdatePeerSettingsRequest_fields
              \<lparr>up_PeerID = [], up_Alias = [], up_DomainName = [], up_IPAddr = [], up_AllowUsingAsExitNode = False\<rparr> rq) s)
      | EpRemovePeer \<Rightarrow>
          Some (respond_unit en (api_RemovePeer vd x (en_now en) (bind_json w (one_field ''PeerID'') [] rq) s))
      | EpGetAuthRequests \<Rightarrow> (case GetAuthRequests x s of None \<Rightarrow> None | Some rs \<Rightarrow> ok (VRequests rs))
      | EpGetBlockedPeers \<Rightarrow> ok (VBlocked (GetBlockedPeers c))
      | EpGetMyPeerInfo \<Rightarrow> ok (VInfo (GetMyPeerInfo (en_stats en) (en_version en) (en_tunnel en) c))
      | EpUpdateMySettings \<Rightarrow> Some (respond_unit en (UpdateMySettings (bind_json w (one_field ''Name'') [] rq) s))
      | EpListAvailableProxies \<Rightarrow> ok (VProxies (ListAvailableProxies x (pv_IsConnected (en_view en)) c))
      | EpUpdateProxySettings \<Rightarrow>
          (case UpdateProxySettings (bind_json w (one_field ''UsingPeerID'') [] rq) s of
             (r, s') \<Rightarrow> Some (respond en (\<lambda>_. Bytes []) r, [], s'))
      | EpExportServerConfiguration \<Rightarrow> ok (VConfig c)
      | EpGetP2pDebugInfo \<Rightarrow> Some ((200, Bytes (en_debug en)), [], s)
      | EpGetLog \<Rightarrow> Some (get_log en rq, [], s)
      | _ \<Rightarrow> Some (en_other en ep rq, [], s))"

text \<open>\<open>ha\<close> is the configuration's authentication when the server was set up.\<close>

definition serve ::
    "web \<Rightarrow> api_env \<Rightarrow> HttpBasicAuthConfig \<Rightarrow> http_request \<Rightarrow> AuthStatus \<Rightarrow>
     (http_response \<times> api_task list \<times> AuthStatus) option" where
  "serve w en ha rq s =
     (if \<not> basic_auth_ok w ha rq then Some ((401, Bytes (w_error w 401)), [], s)
      else case w_route w (setupRouter_routes (en_profiles en) @ SetupFrontend_routes) (rq_method rq) (rq_path rq) of
        None \<Rightarrow> Some ((404, Bytes (w_error w 404)), [], s)
      | Some ep \<Rightarrow> handle w en ep rq s)"

section \<open>Documented behaviour of echo\<close>

text \<open>A path without wildcards that is registered once for a method is served by its route.\<close>

definition routes_static :: "web \<Rightarrow> bool" where
  "routes_static w \<longleftrightarrow> (\<forall>rs m p ep. (Some m, p, ep) \<in> set rs \<longrightarrow> (\<forall>m' ep'. (m', p, ep') \<in> set rs \<longrightarrow> ep' = ep) \<longrightarrow>
     CHR ''*'' \<notin> set p \<longrightarrow> CHR '':'' \<notin> set p \<longrightarrow> w_route w rs m p = Some ep)"

text \<open>The user name ends at the first colon (RFC 7617).\<close>

definition credentials_split :: "web \<Rightarrow> bool" where
  "credentials_split w \<longleftrightarrow> (\<forall>u p. CHR '':'' \<notin> set u \<longrightarrow> w_credentials w (u @ CHR '':'' # p) = Some (u, p))"

text \<open>The JSON decoder reads the body of a request that says it is JSON.\<close>

definition body_decoded :: "web \<Rightarrow> bool" where
  "body_decoded w \<longleftrightarrow> (\<forall>rq. rq_json rq \<longrightarrow> rq_body rq \<noteq> [] \<longrightarrow> w_body w rq = Some \<lparr>st_bytes = rq_body rq, st_end = EOF\<rparr>)"

end
