(* ===== verification/Api_Client.thy ===== *)
theory Api_Client
  imports Api_Http
begin

text \<open>
  The client of the API (\<open>src/api/apiclient/client.go\<close>): every method builds a request, sends it and
  reads the response. Sending is an argument, a function of the request and a state that returns the
  response or a transport error (and \<open>None\<close> when the server panics); \<open>local_server\<close> is the one that
  reaches the server of \<open>Api_Http\<close>.
\<close>

section \<open>Client\<close>

record ApiClient =
  cl_address :: string
  cl_transport :: "(string \<times> string) option"

definition client_New :: "string \<Rightarrow> ApiClient" where
  "client_New address = \<lparr>cl_address = address, cl_transport = None\<rparr>"

definition NewWithAuth :: "string \<Rightarrow> string \<Rightarrow> string \<Rightarrow> ApiClient" where
  "NewWithAuth address username password =
     (let c = client_New address in if password \<noteq> [] then c\<lparr>cl_transport := Some (username, password)\<rparr> else c)"

definition RoundTrip :: "ApiClient \<Rightarrow> http_request \<Rightarrow> http_request" where
  "RoundTrip c rq =
     (case cl_transport c of None \<Rightarrow> rq | Some (username, password) \<Rightarrow> rq\<lparr>rq_auth := Some (username @ CHR '':'' # password)\<rparr>)"

datatype client_error = TransportError | StatusUndecodable nat | StatusError nat string | DecodeError

type_synonym 's net = "string \<Rightarrow> http_request \<Rightarrow> 's \<Rightarrow> (http_response option \<times> 's) option"

type_synonym ('a, 's) call = "'s \<Rightarrow> ((client_error + 'a) \<times> 's) option"

section \<open>Sending and reading\<close>

text \<open>
  \<open>store\<close> is how the body is decoded into the caller's variable; without one (\<open>nil\<close>) the body is
  discarded.
\<close>

definition discard :: "payload \<Rightarrow> unit option" where
  "discard body = Some ()"

definition readResponseBody :: "(payload \<Rightarrow> 'a option) \<Rightarrow> http_response \<Rightarrow> client_error + 'a" where
  "readResponseBody store resp =
     (case resp of (status, body) \<Rightarrow>
        if status \<noteq> 200 then
          (case body of
             Bytes b \<Rightarrow>
               (case decode_struct Error_fields \<lparr>e_Message = [], e_AuthMessage = []\<rparr> \<lparr>st_bytes = b, st_end = EOF\<rparr> of
                  (_, Some _) \<Rightarrow> Inl (StatusUndecodable status)
                | (apiError, None) \<Rightarrow> Inl (StatusError status (Error_text apiError)))
           | Val _ \<Rightarrow> Inl (StatusUndecodable status))
        else case store body of None \<Rightarrow> Inl DecodeError | Some a \<Rightarrow> Inr a)"

definition get_request :: "string \<Rightarrow> LogRequest option \<Rightarrow> http_request" where
  "get_request path q =
     \<lparr>rq_method = ''GET'', rq_path = path, rq_auth = None, rq_query = q, rq_json = False, rq_body = []\<rparr>"

definition post_request :: "string \<Rightarrow> byte list \<Rightarrow> http_request" where
  "post_request path body =
     \<lparr>rq_method = ''POST'', rq_path = path, rq_auth = None, rq_query = None, rq_json = True, rq_body = body\<rparr>"

definition do_request :: "'s net \<Rightarrow> ApiClient \<Rightarrow> http_request \<Rightarrow> (http_response \<Rightarrow> client_error + 'a) \<Rightarrow> ('a, 's) call" where
  "do_request send c rq read s =
     map_option (\<lambda>(resp, s'). (case resp of None \<Rightarrow> Inl TransportError | Some r \<Rightarrow> read r, s'))
       (send (cl_address c) (RoundTrip c rq) s)"

definition sendGetRequest :: "'s net \<Rightarrow> ApiClient \<Rightarrow> string \<Rightarrow> (payload \<Rightarrow> 'a option) \<Rightarrow> ('a, 's) call" where
  "sendGetRequest send c path store = do_request send c (get_request path None) (readResponseBody store)"

definition sendPostRequest :: "'s net \<Rightarrow> ApiClient \<Rightarrow> string \<Rightarrow> json \<Rightarrow> (payload \<Rightarrow> 'a option) \<Rightarrow> ('a, 's) call" where
  "sendPostRequest send c path payload store = do_request send c (post_request path (encode_json payload)) (readResponseBody store)"

section \<open>Methods\<close>

definition client_KnownPeers :: "'s net \<Rightarrow> ApiClient \<Rightarrow> (KnownPeersResponse list, 's) call" where
  "client_KnownPeers send c = sendGetRequest send c GetKnownPeersPath (\<lambda>b. case b of Val (VPeers ps) \<Rightarrow> Some ps | _ \<Rightarrow> None)"

definition client_KnownPeerConfig :: "'s net \<Rightarrow> ApiClient \<Rightarrow> string \<Rightarrow> (KnownPeer, 's) call" where
  "client_KnownPeerConfig send c peerID =
     sendPostRequest send c GetKnownPeerSettingsPath (JObj [(''PeerID'', JStr peerID)])
       (\<lambda>b. case b of Val (VPeer p) \<Rightarrow> Some p | _ \<Rightarrow> None)"

definition client_PeerInfo :: "'s net \<Rightarrow> ApiClient \<Rightarrow> (PeerInfo, 's) call" where
  "client_PeerInfo send c = sendGetRequest send c GetMyPeerInfoPath (\<lambda>b. case b of Val (VInfo i) \<Rightarrow> Some i | _ \<Rightarrow> None)"

definition client_ListAvailableProxies :: "'s net \<Rightarrow> ApiClient \<Rightarrow> (AvailableProxy list, 's) call" where
  "client_ListAvailableProxies send c =
     sendGetRequest send c ListAvailableProxiesPath (\<lambda>b. case b of Val (VProxies ps) \<Rightarrow> Some ps | _ \<Rightarrow> None)"

definition client_UpdateProxySettings :: "'s net \<Rightarrow> ApiClient \<Rightarrow> string \<Rightarrow> (unit, 's) call" where
  "client_UpdateProxySettings send c usingPeerID =
     sendPostRequest send c UpdateProxySettingsPath (JObj [(''UsingPeerID'', JStr usingPeerID)]) discard"

definition client_SendFriendRequest :: "'s net \<Rightarrow> ApiClient \<Rightarrow> string \<Rightarrow> string \<Rightarrow> string \<Rightarrow> (unit, 's) call" where
  "client_SendFriendRequest send c peerID al ipAddr =
     sendPostRequest send c SendFriendRequestPath
       (JObj [(''PeerID'', JStr peerID), (''Alias'', JStr al), (''IPAddr'', JStr ipAddr)]) discard"

definition client_ReplyFriendRequest :: "'s net \<Rightarrow> ApiClient \<Rightarrow> string \<Rightarrow> string \<Rightarrow> bool \<Rightarrow> string \<Rightarrow> (unit, 's) call" where
  "client_ReplyFriendRequest send c peerID al decline ipAddr =
     sendPostRequest send c AcceptPeerInvitationPath
       (JObj [(''PeerID'', JStr peerID), (''Alias'', JStr al), (''Decline'', JBool decline), (''IPAddr'', JStr ipAddr)]) discard"

definition client_AuthRequests :: "'s net \<Rightarrow> ApiClient \<Rightarrow> (AuthRequest list, 's) call" where
  "client_AuthRequests send c = sendGetRequest send c GetAuthRequestsPath (\<lambda>b. case b of Val (VRequests rs) \<Rightarrow> Some rs | _ \<Rightarrow> None)"

definition client_BlockedPeers :: "'s net \<Rightarrow> ApiClient \<Rightarrow> (BlockedPeer list, 's) call" where
  "client_BlockedPeers send c = sendGetRequest send c GetBlockedPeersPath (\<lambda>b. case b of Val (VBlocked bs) \<Rightarrow> Some bs | _ \<Rightarrow> None)"

definition client_UpdatePeerSettings :: "'s net \<Rightarrow> ApiClient \<Rightarrow> UpdatePeerSettingsRequest \<Rightarrow> (unit, 's) call" where
  "client_UpdatePeerSettings send c r =
     sendPostRequest send c UpdatePeerSettingsPath
       (JObj [(''PeerID'', JStr (up_PeerID r)), (''Alias'', JStr (up_Alias r)), (''DomainName'', JStr (up_DomainName r)),
              (''IPAddr'', JStr (up_IPAddr r)), (''AllowUsingAsExitNode'', JBool (up_AllowUsingAsExitNode r))]) discard"

definition client_RemovePeer :: "'s net \<Rightarrow> ApiClient \<Rightarrow> string \<Rightarrow> (unit, 's) call" where
  "client_RemovePeer send c peerID =
     sendPostRequest send c RemovePeerSettingsPath (JObj [(''PeerID'', JStr peerID)]) discard"

definition client_UpdateMySettings :: "'s net \<Rightarrow> ApiClient \<Rightarrow> string \<Rightarrow> (unit, 's) call" where
  "client_UpdateMySettings send c name =
     sendPostRequest send c UpdateMyInfoPath (JObj [(''Name'', JStr name)]) discard"

definition client_P2pDebugInfo :: "'s net \<Rightarrow> ApiClient \<Rightarrow> (byte list \<Rightarrow> 'd option) \<Rightarrow> ('d, 's) call" where
  "client_P2pDebugInfo send c decode =
     sendGetRequest send c GetP2pDebugInfoPath (\<lambda>b. case b of Bytes bs \<Rightarrow> decode bs | _ \<Rightarrow> None)"

text \<open>The body is the log, whatever the status.\<close>

definition client_ApplicationLog :: "'s net \<Rightarrow> ApiClient \<Rightarrow> int \<Rightarrow> bool \<Rightarrow> (byte list, 's) call" where
  "client_ApplicationLog send c numberOfLogs startFromHead =
     do_request send c (get_request GetDebugLogPath (Some \<lparr>lr_StartFromHead = startFromHead, lr_LogsRows = numberOfLogs\<rparr>))
       (\<lambda>(status, body). case body of Bytes b \<Rightarrow> Inr b | Val _ \<Rightarrow> Inl DecodeError)"

section \<open>A client of this server\<close>

text \<open>The state is what the handlers spawned so far and the service.\<close>

definition local_server :: "web \<Rightarrow> api_env \<Rightarrow> HttpBasicAuthConfig \<Rightarrow> (api_task list \<times> AuthStatus) net" where
  "local_server w en ha address rq st =
     map_option (\<lambda>(resp, ts, s). (Some resp, fst st @ ts, s)) (serve w en ha rq (snd st))"

text \<open>What the client reports for the response of a handler.\<close>

definition reported :: "api_env \<Rightarrow> 'a response \<Rightarrow> client_error + 'a" where
  "reported en r =
     (case r of
        Resp200 a \<Rightarrow> Inr a
      | Resp400 e \<Rightarrow> Inl (StatusError 400 (to_valid (en_text en e)))
      | Resp404 e \<Rightarrow> Inl (StatusError 404 (to_valid (en_text en e))))"

definition reported_call :: "api_env \<Rightarrow> api_task list \<Rightarrow> 'a response \<times> api_task list \<times> AuthStatus \<Rightarrow> (client_error + 'a) \<times> api_task list \<times> AuthStatus" where
  "reported_call en ts r = (case r of (resp, ts', s') \<Rightarrow> (reported en resp, ts @ ts', s'))"

section \<open>From the client to the handler\<close>

definition login_ok :: "HttpBasicAuthConfig \<Rightarrow> ApiClient \<Rightarrow> bool" where
  "login_ok ha c \<longleftrightarrow> (ha_Password ha \<noteq> [] \<longrightarrow> cl_transport c = Some (ha_Username ha, ha_Password ha) \<and> CHR '':'' \<notin> set (ha_Username ha))"

definition echo_ok :: "web \<Rightarrow> bool" where
  "echo_ok w \<longleftrightarrow> routes_static w \<and> credentials_split w \<and> body_decoded w"

lemma login_authorized: "echo_ok w \<Longrightarrow> login_ok ha c \<Longrightarrow> rq_auth rq = None \<Longrightarrow> basic_auth_ok w ha (RoundTrip c rq)"
  by (auto simp: basic_auth_ok_def login_ok_def echo_ok_def credentials_split_def RoundTrip_def split: option.splits)

lemma RoundTrip_same [simp]:
  "rq_method (RoundTrip c rq) = rq_method rq" "rq_path (RoundTrip c rq) = rq_path rq" "rq_body (RoundTrip c rq) = rq_body rq"
  "rq_json (RoundTrip c rq) = rq_json rq" "rq_query (RoundTrip c rq) = rq_query rq"
  by (simp_all add: RoundTrip_def split: option.splits)

text \<open>The routes with a path of their own are found.\<close>

definition static_routes :: "route list" where
  "static_routes = take 16 (setupRouter_routes [])"

lemma routes_append: "setupRouter_routes profiles = static_routes @
     map (\<lambda>n. (None, V0Prefix @ ''debug/pprof/'' @ n, EpPprof n)) ([[], ''profile'', ''trace'', ''cmdline'', ''symbol''] @ profiles)"
  by (simp add: static_routes_def setupRouter_routes_def)

lemma static_ok:
  "list_all (\<lambda>r. CHR ''*'' \<notin> set (fst (snd r)) \<and> CHR '':'' \<notin> set (fst (snd r)) \<and>
      \<not> HasPrefix (fst (snd r)) (V0Prefix @ ''debug/pprof/'')) static_routes"
  "distinct (map (fst \<circ> snd) static_routes)"
  by code_simp+

lemma HasPrefix_append [simp]: "HasPrefix (p @ s) p"
  by (simp add: HasPrefix_def)

lemma route_found:
  assumes "echo_ok w" and "(Some m, p, ep) \<in> set static_routes"
  shows "w_route w (setupRouter_routes profiles @ SetupFrontend_routes) m p = Some ep"
proof -
  let ?rs = "setupRouter_routes profiles @ SetupFrontend_routes"
  have p: "CHR ''*'' \<notin> set p" "CHR '':'' \<notin> set p" "\<not> HasPrefix p (V0Prefix @ ''debug/pprof/'')"
    using static_ok(1) assms(2) by (auto simp: list_all_iff)
  have "ep' = ep" if "(m', p, ep') \<in> set ?rs" for m' ep'
  proof -
    have "p \<noteq> V0Prefix @ ''debug/pprof/'' @ n" for n
      using p(3) HasPrefix_append [of "V0Prefix @ ''debug/pprof/''" n] by auto
    then have "(m', p, ep') \<in> set static_routes"
      using that p(1) by (auto simp: routes_append SetupFrontend_routes_def)
    moreover have "inj_on (fst \<circ> snd) (set static_routes)" using static_ok(2) by (simp add: distinct_map)
    ultimately show ?thesis using inj_onD [of "fst \<circ> snd" _ "(m', p, ep')" "(Some m, p, ep)"] assms(2) by simp
  qed
  moreover have "(Some m, p, ep) \<in> set ?rs" using assms(2) by (simp add: routes_append)
  moreover have "routes_static w" using assms(1) by (simp add: echo_ok_def)
  ultimately show ?thesis using p(1,2) unfolding routes_static_def by blast
qed

lemma local_call:
  assumes "echo_ok w" and "login_ok ha c" and "(Some (rq_method rq), rq_path rq, ep) \<in> set static_routes" and "rq_auth rq = None"
  shows "do_request (local_server w en ha) c rq read (ts, s) =
    map_option (\<lambda>(resp, ts', s'). (read resp, ts @ ts', s')) (handle w en ep (RoundTrip c rq) s)"
  using route_found [OF assms(1,3)] login_authorized [OF assms(1,2,4)]
  by (auto simp: do_request_def local_server_def serve_def option.map_comp comp_def split: prod.split intro!: map_option_cong)

lemma bind_sent:
  assumes "echo_ok w" and "list_all flat_member ms"
  shows "bind_json w fs z (RoundTrip c (post_request p (encode_json (JObj ms)))) =
    (case fold (store_member fs) (map (\<lambda>(k, v). (to_valid k, clean v)) ms) (z, True) of (a, ok) \<Rightarrow> if ok then Some a else None)"
proof -
  have "encode_json (JObj ms) \<noteq> []" by (simp add: encode_json_def bytes_of_def)
  then have "w_body w (RoundTrip c (post_request p (encode_json (JObj ms)))) = Some \<lparr>st_bytes = encode_json (JObj ms), st_end = EOF\<rparr>"
    using assms(1) by (auto simp: echo_ok_def body_decoded_def post_request_def)
  then show ?thesis
    using decode_encoded [OF assms(2), of fs z "[]" EOF] by (simp add: bind_json_def split: prod.split)
qed

lemma error_read: "readResponseBody store (n, Bytes (Error_json (ErrorMessage m))) = Inl (StatusError n (to_valid m))" if "n \<noteq> 200"
proof -
  have k: "to_valid ''error'' = ''error''" "to_valid ''message'' = ''message''" "to_valid [] = []"
    by (simp_all add: to_valid_ascii ascii_def)
  show ?thesis
    using that decode_encoded [of "[(''error'', JStr m), (''message'', JStr [])]" Error_fields _ "[]" EOF] k
    by (simp add: readResponseBody_def Error_json_def ErrorMessage_def flat_member_def store_exact Error_fields_def Error_text_def)
qed

lemma respond_read:
  "(\<And>a. store (body a) = Some a) \<Longrightarrow> readResponseBody store (respond en body r) = reported en r"
  by (cases r) (simp add: readResponseBody_def respond_def reported_def, simp_all add: respond_def reported_def error_read)

lemma names_ascii2 [simp]: "to_valid ''PeerID'' = ''PeerID''" "to_valid ''Alias'' = ''Alias''" "to_valid ''IPAddr'' = ''IPAddr''"
  "to_valid ''Decline'' = ''Decline''" "to_valid ''DomainName'' = ''DomainName''"
  by (simp_all add: to_valid_ascii ascii_def)

lemma static_mem:
  "(Some ''POST'', SendFriendRequestPath, EpSendFriendRequest) \<in> set static_routes"
  "(Some ''POST'', AcceptPeerInvitationPath, EpAcceptFriend) \<in> set static_routes"
  "(Some ''POST'', UpdatePeerSettingsPath, EpUpdatePeerSettings) \<in> set static_routes"
  "(Some ''POST'', RemovePeerSettingsPath, EpRemovePeer) \<in> set static_routes"
  "(Some ''POST'', UpdateMyInfoPath, EpUpdateMySettings) \<in> set static_routes"
  "(Some ''POST'', UpdateProxySettingsPath, EpUpdateProxySettings) \<in> set static_routes"
  "(Some ''POST'', GetKnownPeerSettingsPath, EpGetKnownPeerSettings) \<in> set static_routes"
  "(Some ''GET'', GetKnownPeersPath, EpGetKnownPeers) \<in> set static_routes"
  "(Some ''GET'', GetAuthRequestsPath, EpGetAuthRequests) \<in> set static_routes"
  "(Some ''GET'', GetBlockedPeersPath, EpGetBlockedPeers) \<in> set static_routes"
  "(Some ''GET'', GetMyPeerInfoPath, EpGetMyPeerInfo) \<in> set static_routes"
  "(Some ''GET'', ListAvailableProxiesPath, EpListAvailableProxies) \<in> set static_routes"
  "(Some ''GET'', GetDebugLogPath, EpGetLog) \<in> set static_routes"
  by (simp_all add: static_routes_def setupRouter_routes_def)

lemma post_call:
  assumes "echo_ok w" and "login_ok ha c" and "(Some ''POST'', p, ep) \<in> set static_routes"
  shows "sendPostRequest (local_server w en ha) c p v store (ts, s) =
    map_option (\<lambda>(resp, ts', s'). (readResponseBody store resp, ts @ ts', s'))
      (handle w en ep (RoundTrip c (post_request p (encode_json v))) s)"
  unfolding sendPostRequest_def by (rule local_call) (use assms in \<open>simp_all add: post_request_def\<close>)

lemma get_call:
  assumes "echo_ok w" and "login_ok ha c" and "(Some ''GET'', p, ep) \<in> set static_routes"
  shows "sendGetRequest (local_server w en ha) c p store (ts, s) =
    map_option (\<lambda>(resp, ts', s'). (readResponseBody store resp, ts @ ts', s')) (handle w en ep (RoundTrip c (get_request p None)) s)"
  unfolding sendGetRequest_def by (rule local_call) (use assms in \<open>simp_all add: get_request_def\<close>)

lemma unit_call:
  "map_option (\<lambda>(resp, ts', s'). (readResponseBody discard resp, ts @ ts', s')) (map_option (respond_unit en) h) =
    map_option (reported_call en ts) h"
  by (cases h) (auto simp: respond_unit_def reported_call_def respond_read discard_def)

lemma client_posts:
  assumes "echo_ok w" and "login_ok ha c" and "list_all valid_utf8 [peerID, al, ip, dn]"
  shows "client_SendFriendRequest (local_server w en ha) c peerID al ip (ts, s) =
      map_option (reported_call en ts) (SendFriendRequest (en_vd en) (en_x en) (en_now en)
        (Some \<lparr>fr_PeerID = peerID, fr_Alias = al, fr_IPAddr = ip\<rparr>) s)"
    "client_ReplyFriendRequest (local_server w en ha) c peerID al b ip (ts, s) =
      map_option (reported_call en ts) (AcceptFriend (en_vd en) (en_x en) (en_now en)
        (Some \<lparr>fr_PeerID = peerID, fr_Alias = al, fr_IPAddr = ip, fr_Decline = b\<rparr>) s)"
    "client_UpdatePeerSettings (local_server w en ha) c
        \<lparr>up_PeerID = peerID, up_Alias = al, up_DomainName = dn, up_IPAddr = ip, up_AllowUsingAsExitNode = b\<rparr> (ts, s) =
      map_option (reported_call en ts) (UpdatePeerSettings (en_vd en) (en_isDomainName en) (en_x en) id
        (Some \<lparr>up_PeerID = peerID, up_Alias = al, up_DomainName = dn, up_IPAddr = ip, up_AllowUsingAsExitNode = b\<rparr>) s)"
    "client_RemovePeer (local_server w en ha) c peerID (ts, s) =
      Some (reported_call en ts (api_RemovePeer (en_vd en) (en_x en) (en_now en) (Some peerID) s))"
    "client_UpdateMySettings (local_server w en ha) c al (ts, s) =
      Some (reported_call en ts (UpdateMySettings (Some al) s))"
    "client_UpdateProxySettings (local_server w en ha) c peerID (ts, s) =
      (case UpdateProxySettings (Some peerID) s of (r, s') \<Rightarrow> Some (reported en r, ts, s'))"
proof -
  have v: "to_valid peerID = peerID" "to_valid al = al" "to_valid ip = ip" "to_valid dn = dn"
    using assms(3) by (simp_all add: to_valid_id)
  note call = post_call [OF assms(1,2)] and sent = bind_sent [OF assms(1)]
  note st = flat_member_def store_exact v
  show "client_SendFriendRequest (local_server w en ha) c peerID al ip (ts, s) =
      map_option (reported_call en ts) (SendFriendRequest (en_vd en) (en_x en) (en_now en)
        (Some \<lparr>fr_PeerID = peerID, fr_Alias = al, fr_IPAddr = ip\<rparr>) s)"
    by (simp add: client_SendFriendRequest_def call [OF static_mem(1)] handle_def Let_def sent st FriendRequest_fields_def unit_call)
  show "client_ReplyFriendRequest (local_server w en ha) c peerID al b ip (ts, s) =
      map_option (reported_call en ts) (AcceptFriend (en_vd en) (en_x en) (en_now en)
        (Some \<lparr>fr_PeerID = peerID, fr_Alias = al, fr_IPAddr = ip, fr_Decline = b\<rparr>) s)"
    by (simp add: client_ReplyFriendRequest_def call [OF static_mem(2)] handle_def Let_def sent st FriendRequestReply_fields_def
        FriendRequest_fields_def unit_call)
  show "client_UpdatePeerSettings (local_server w en ha) c
        \<lparr>up_PeerID = peerID, up_Alias = al, up_DomainName = dn, up_IPAddr = ip, up_AllowUsingAsExitNode = b\<rparr> (ts, s) =
      map_option (reported_call en ts) (UpdatePeerSettings (en_vd en) (en_isDomainName en) (en_x en) id
        (Some \<lparr>up_PeerID = peerID, up_Alias = al, up_DomainName = dn, up_IPAddr = ip, up_AllowUsingAsExitNode = b\<rparr>) s)"
    by (simp add: client_UpdatePeerSettings_def call [OF static_mem(3)] handle_def Let_def sent st
        UpdatePeerSettingsRequest_fields_def unit_call)
  show "client_RemovePeer (local_server w en ha) c peerID (ts, s) =
      Some (reported_call en ts (api_RemovePeer (en_vd en) (en_x en) (en_now en) (Some peerID) s))"
    using unit_call [of ts en "Some (api_RemovePeer (en_vd en) (en_x en) (en_now en) (Some peerID) s)"]
    by (simp add: client_RemovePeer_def call [OF static_mem(4)] handle_def Let_def sent st one_field_def)
  show "client_UpdateMySettings (local_server w en ha) c al (ts, s) = Some (reported_call en ts (UpdateMySettings (Some al) s))"
    using unit_call [of ts en "Some (UpdateMySettings (Some al) s)"]
    by (simp add: client_UpdateMySettings_def call [OF static_mem(5)] handle_def Let_def sent st one_field_def)
  show "client_UpdateProxySettings (local_server w en ha) c peerID (ts, s) =
      (case UpdateProxySettings (Some peerID) s of (r, s') \<Rightarrow> Some (reported en r, ts, s'))"
    by (simp add: client_UpdateProxySettings_def call [OF static_mem(6)] handle_def Let_def sent st one_field_def
        respond_read discard_def split: prod.split)
qed

text \<open>
  C7. A method of the client that changes something is the call of its handler: with the documented
  behaviour of echo, the right password and arguments that are UTF-8, the request is routed to the
  handler, the handler gets exactly the arguments of the method, the service and the goroutines it
  starts are those of the handler, and the client returns its result, an error with the handler's text.
\<close>

theorem client_calls_handler:
  assumes "echo_ok w" and "login_ok ha c" and "list_all valid_utf8 [peerID, al, ip, dn]"
  shows "client_SendFriendRequest (local_server w en ha) c peerID al ip (ts, s) =
      map_option (reported_call en ts) (SendFriendRequest (en_vd en) (en_x en) (en_now en)
        (Some \<lparr>fr_PeerID = peerID, fr_Alias = al, fr_IPAddr = ip\<rparr>) s) \<and>
    client_ReplyFriendRequest (local_server w en ha) c peerID al b ip (ts, s) =
      map_option (reported_call en ts) (AcceptFriend (en_vd en) (en_x en) (en_now en)
        (Some \<lparr>fr_PeerID = peerID, fr_Alias = al, fr_IPAddr = ip, fr_Decline = b\<rparr>) s) \<and>
    client_UpdatePeerSettings (local_server w en ha) c
        \<lparr>up_PeerID = peerID, up_Alias = al, up_DomainName = dn, up_IPAddr = ip, up_AllowUsingAsExitNode = b\<rparr> (ts, s) =
      map_option (reported_call en ts) (UpdatePeerSettings (en_vd en) (en_isDomainName en) (en_x en) id
        (Some \<lparr>up_PeerID = peerID, up_Alias = al, up_DomainName = dn, up_IPAddr = ip, up_AllowUsingAsExitNode = b\<rparr>) s) \<and>
    client_RemovePeer (local_server w en ha) c peerID (ts, s) =
      Some (reported_call en ts (api_RemovePeer (en_vd en) (en_x en) (en_now en) (Some peerID) s)) \<and>
    client_UpdateMySettings (local_server w en ha) c al (ts, s) =
      Some (reported_call en ts (UpdateMySettings (Some al) s)) \<and>
    client_UpdateProxySettings (local_server w en ha) c peerID (ts, s) =
      (case UpdateProxySettings (Some peerID) s of (r, s') \<Rightarrow> Some (reported en r, ts, s'))"
  by (intro conjI client_posts [OF assms])

section \<open>A concrete server\<close>

text \<open>Echo's documented behaviour holds of exact matching, cutting at the first colon and passing the body on.\<close>

definition exact_web :: web where
  "exact_web =
     \<lparr>w_route = (\<lambda>rs m p. map_option (snd \<circ> snd) (find (\<lambda>r. (fst r = None \<or> fst r = Some m) \<and> fst (snd r) = p) rs)),
      w_credentials = (\<lambda>c. case Cut c CHR '':'' of (u, p, found) \<Rightarrow> if found then Some (u, p) else None),
      w_body = (\<lambda>rq. if rq_body rq = [] then None else Some \<lparr>st_bytes = rq_body rq, st_end = EOF\<rparr>),
      w_error = (\<lambda>_. encode_json (JObj [(''message'', JStr ''error'')]))\<rparr>"

lemma exact_web_ok: "echo_ok exact_web"
proof -
  have "w_route exact_web rs m p = Some ep"
    if "(Some m, p, ep) \<in> set rs" "\<forall>m' ep'. (m', p, ep') \<in> set rs \<longrightarrow> ep' = ep" for rs m p ep
  proof -
    let ?P = "\<lambda>r :: route. (fst r = None \<or> fst r = Some m) \<and> fst (snd r) = p"
    have "find ?P rs \<noteq> None" using that(1) by (intro notI) (fastforce simp: find_None_iff)
    then obtain r where r: "find ?P rs = Some r" by blast
    then have "r \<in> set rs \<and> ?P r" by (auto simp: find_Some_iff)
    then have "snd (snd r) = ep" using that(2) by (metis prod.collapse)
    then show ?thesis using r by (simp add: exact_web_def)
  qed
  then have "routes_static exact_web" unfolding routes_static_def by blast
  then show ?thesis
    by (simp add: echo_ok_def credentials_split_def body_decoded_def exact_web_def Cut_found)
qed

definition sample_env :: api_env where
  "sample_env =
     \<lparr>en_vd = sample_validator, en_isDomainName = (\<lambda>s. s \<noteq> []), en_x = sample_ext, en_now = 7,
      en_view = \<lparr>pv_UserAgent = (\<lambda>_. []), pv_IsConnected = (\<lambda>_. False)\<rparr>,
      en_stats = \<lparr>ns_Uptime = 0, ns_TotalBootstrapPeers = 0, ns_ConnectedBootstrapPeers = 0, ns_Reachability = ''Unknown'',
                  ns_AwlDNSAddress = [], ns_IsAwlDNSSetAsSystem = False\<rparr>,
      en_version = ''dev'', en_tunnel = True, en_log = ''started'', en_debug = [], en_other = (\<lambda>_ _. (200, Bytes [])),
      en_profiles = [''heap''], en_text = (\<lambda>_. ''refused'')\<rparr>"

definition sample_login :: HttpBasicAuthConfig where
  "sample_login = \<lparr>ha_Username = ''me'', ha_Password = ''secret''\<rparr>"

theorem client_calls_handler_witness:
  "client_RemovePeer (local_server exact_web sample_env sample_login) (NewWithAuth ''127.0.0.1:8639'' ''me'' ''secret'') ''Qm''
     ([], sample_auth zero_Config) =
   Some (Inl (StatusError 404 ''refused''), [], sample_auth zero_Config)"
proof -
  let ?c = "NewWithAuth ''127.0.0.1:8639'' ''me'' ''secret''"
  have "login_ok sample_login ?c" by (simp add: login_ok_def sample_login_def NewWithAuth_def client_New_def)
  moreover have "list_all valid_utf8 [''Qm'', ''Qm'', [], []]" by code_simp
  ultimately have "client_RemovePeer (local_server exact_web sample_env sample_login) ?c ''Qm'' ([], sample_auth zero_Config) =
    Some (reported_call sample_env [] (api_RemovePeer (en_vd sample_env) (en_x sample_env) (en_now sample_env) (Some ''Qm'') (sample_auth zero_Config)))"
    using client_calls_handler [OF exact_web_ok, of sample_login ?c "''Qm''" "''Qm''" "[]" "[]" sample_env "[]" "sample_auth zero_Config" True]
    by blast
  moreover have "to_valid ''refused'' = ''refused''" by (simp add: to_valid_ascii ascii_def)
  ultimately show ?thesis
    by (simp add: sample_env_def api_RemovePeer_def sample_validator_def sample_ext_def sample_auth_def zero_Config_def RemovePeer_def
        GetPeer_def gm_get_def reported_call_def reported_def)
qed

section \<open>Authentication\<close>

text \<open>
  C20. With a password configured, a request without exactly the configured user name and password is
  answered 401 and changes nothing, whatever its method and path: API, metrics, profiles and files alike.
\<close>

theorem unauthorized_no_effect:
  assumes "ha_Password ha \<noteq> []"
    and "\<And>cred. rq_auth rq = Some cred \<Longrightarrow> w_credentials w cred \<noteq> Some (ha_Username ha, ha_Password ha)"
  shows "serve w en ha rq s = Some ((401, Bytes (w_error w 401)), [], s)"
  using assms by (auto simp: serve_def basic_auth_ok_def split: option.splits)

theorem unauthorized_no_effect_witness:
  "serve exact_web sample_env sample_login ((get_request ''/metrics'' None)\<lparr>rq_auth := Some ''me:Secret''\<rparr>) (sample_auth zero_Config) =
     Some ((401, Bytes (w_error exact_web 401)), [], sample_auth zero_Config)"
proof -
  let ?rq = "(get_request ''/metrics'' None)\<lparr>rq_auth := Some ''me:Secret''\<rparr>"
  have "w_credentials exact_web ''me:Secret'' = Some (''me'', ''Secret'')"
    using Cut_found [of "CHR '':''" "''me''" "''Secret''"] by (simp add: exact_web_def)
  then have "\<And>cred. rq_auth ?rq = Some cred \<Longrightarrow> w_credentials exact_web cred \<noteq> Some (ha_Username sample_login, ha_Password sample_login)"
    by (simp add: sample_login_def)
  moreover have "ha_Password sample_login \<noteq> []" by (simp add: sample_login_def)
  ultimately show ?thesis by (intro unauthorized_no_effect)
qed

section \<open>Reading\<close>

lemma client_reads:
  assumes "echo_ok w" and "login_ok ha c"
  shows "client_KnownPeers (local_server w en ha) c (ts, s) = Some (Inr (getKnownPeers (en_x en) (en_view en) (as_c s)), ts, s)"
    "client_BlockedPeers (local_server w en ha) c (ts, s) = Some (Inr (GetBlockedPeers (as_c s)), ts, s)"
    "client_PeerInfo (local_server w en ha) c (ts, s) =
       Some (Inr (GetMyPeerInfo (en_stats en) (en_version en) (en_tunnel en) (as_c s)), ts, s)"
    "client_ListAvailableProxies (local_server w en ha) c (ts, s) =
       Some (Inr (ListAvailableProxies (en_x en) (pv_IsConnected (en_view en)) (as_c s)), ts, s)"
    "client_AuthRequests (local_server w en ha) c (ts, s) = map_option (\<lambda>rs. (Inr rs, ts, s)) (GetAuthRequests (en_x en) s)"
    "valid_utf8 peerID \<Longrightarrow> client_KnownPeerConfig (local_server w en ha) c peerID (ts, s) =
       Some (reported en (GetKnownPeerSettings (en_vd en) (Some peerID) (as_c s)), ts, s)"
proof -
  note call = get_call [OF assms]
  note r = handle_def Let_def readResponseBody_def
  show "client_KnownPeers (local_server w en ha) c (ts, s) = Some (Inr (getKnownPeers (en_x en) (en_view en) (as_c s)), ts, s)"
    by (simp add: client_KnownPeers_def call [OF static_mem(8)] r)
  show "client_BlockedPeers (local_server w en ha) c (ts, s) = Some (Inr (GetBlockedPeers (as_c s)), ts, s)"
    by (simp add: client_BlockedPeers_def call [OF static_mem(10)] r)
  show "client_PeerInfo (local_server w en ha) c (ts, s) =
      Some (Inr (GetMyPeerInfo (en_stats en) (en_version en) (en_tunnel en) (as_c s)), ts, s)"
    by (simp add: client_PeerInfo_def call [OF static_mem(11)] r)
  show "client_ListAvailableProxies (local_server w en ha) c (ts, s) =
      Some (Inr (ListAvailableProxies (en_x en) (pv_IsConnected (en_view en)) (as_c s)), ts, s)"
    by (simp add: client_ListAvailableProxies_def call [OF static_mem(12)] r)
  show "client_AuthRequests (local_server w en ha) c (ts, s) = map_option (\<lambda>rs. (Inr rs, ts, s)) (GetAuthRequests (en_x en) s)"
    by (cases "GetAuthRequests (en_x en) s") (simp_all add: client_AuthRequests_def call [OF static_mem(9)] r)
  show "client_KnownPeerConfig (local_server w en ha) c peerID (ts, s) =
      Some (reported en (GetKnownPeerSettings (en_vd en) (Some peerID) (as_c s)), ts, s)" if "valid_utf8 peerID"
    by (simp add: client_KnownPeerConfig_def post_call [OF assms static_mem(7)] bind_sent [OF assms(1)] handle_def Let_def
        flat_member_def store_exact one_field_def to_valid_id [OF that] respond_read)
qed

text \<open>
  The log of the client is whatever text the server answers, its status is not looked at: for a
  negative number of rows, which the server refuses, the method returns the JSON of the error as the log
  and reports no error.
\<close>

theorem refused_log_is_no_error:
  assumes "echo_ok w" and "login_ok ha c" and "n < 0"
  shows "client_ApplicationLog (local_server w en ha) c n head (ts, s) =
    Some (Inr (Error_json (ErrorMessage (en_text en Invalid))), ts, s)"
proof -
  let ?rq = "get_request GetDebugLogPath (Some \<lparr>lr_StartFromHead = head, lr_LogsRows = n\<rparr>)"
  have mem: "(Some (rq_method ?rq), rq_path ?rq, EpGetLog) \<in> set static_routes" using static_mem(13) by (simp add: get_request_def)
  have "handle w en EpGetLog (RoundTrip c ?rq) s = Some ((400, Bytes (Error_json (ErrorMessage (en_text en Invalid)))), [], s)"
    using assms(3) by (simp add: handle_def Let_def get_log_def GetLog_def get_request_def)
  then show ?thesis
    unfolding client_ApplicationLog_def by (subst local_call [OF assms(1,2) mem]) (simp_all add: get_request_def)
qed

theorem refused_log_is_no_error_witness:
  "client_ApplicationLog (local_server exact_web sample_env sample_login) (NewWithAuth [] ''me'' ''secret'') (- 5) False ([], sample_auth zero_Config) =
     Some (Inr (Error_json (ErrorMessage ''refused'')), [], sample_auth zero_Config)"
proof -
  have "login_ok sample_login (NewWithAuth [] ''me'' ''secret'')" by (simp add: login_ok_def sample_login_def NewWithAuth_def client_New_def)
  from refused_log_is_no_error [OF exact_web_ok this, of "- 5" sample_env False "[]" "sample_auth zero_Config"] show ?thesis
    by (simp add: sample_env_def)
qed

end
