(* ===== verification/Awl_Cli.thy ===== *)
theory Awl_Cli
  imports Cli_Peers Api_Client Awl_Update Awl_Dns Awl_Lifecycle
begin

text \<open>
  The command line of \<open>src/cli/\<close>: the commands as they call the client, how a command finds the server
  and the peer it is about (\<open>cli.go\<close>), the table of peers, and the update command. Parsing the arguments
  into a command and its flags is urfave/cli's, drawing tables and the QR code are libraries'.
  A command is a function of the client's transport and its state; \<open>None\<close> is a panic of the server.
\<close>

section \<open>Actions\<close>

datatype run_error =
  ClientError client_error | EmptyName | NoSuchName string | PeerIDOrNameNeeded | NoAccess string client_error | NoConnection
| EmptyFormat | UnknownFormat string

type_synonym ('a, 's) act = "'s \<Rightarrow> ((run_error + 'a) \<times> 's) option"

definition ret :: "'a \<Rightarrow> ('a, 's) act" where
  "ret a s = Some (Inr a, s)"

definition fail :: "run_error \<Rightarrow> ('a, 's) act" where
  "fail e s = Some (Inl e, s)"

definition and_then :: "('a, 's) act \<Rightarrow> ('a \<Rightarrow> ('b, 's) act) \<Rightarrow> ('b, 's) act" where
  "and_then m f s =
     (case m s of
        None \<Rightarrow> None
      | Some (Inl e, s') \<Rightarrow> Some (Inl e, s')
      | Some (Inr a, s') \<Rightarrow> f a s')"

text \<open>A call of the client, whose error is returned as it is.\<close>

definition api :: "('a, 's) call \<Rightarrow> ('a, 's) act" where
  "api m s = map_option (\<lambda>(r, s'). (map_sum ClientError id r, s')) (m s)"

section \<open>Commands\<close>

definition cmd_printFriendRequests :: "'s net \<Rightarrow> ApiClient \<Rightarrow> (string, 's) act" where
  "cmd_printFriendRequests send c =
     and_then (api (client_AuthRequests send c)) (\<lambda>authRequests.
       if authRequests = [] then ret (line ''you have no incoming requests'')
       else ret (concat (map (\<lambda>r. line (''Name: '' @ [char_of (39 :: nat)] @ ap_Name (ar_AuthPeer r) @ [char_of (39 :: nat)] @
              '' peerID: '' @ ar_PeerID r @ '' suggestedIP: '' @ ar_SuggestedIP r)) authRequests)))"

definition cmd_getPeerIdByAlias :: "'s net \<Rightarrow> ApiClient \<Rightarrow> string \<Rightarrow> (string, 's) act" where
  "cmd_getPeerIdByAlias send c al =
     (if al = [] then fail EmptyName
      else and_then (api (client_KnownPeers send c)) (\<lambda>peers.
        case find (\<lambda>p. kr_Alias p = al) peers of None \<Rightarrow> fail (NoSuchName al) | Some p \<Rightarrow> ret (kr_PeerID p)))"

definition cmd_addPeer :: "'s net \<Rightarrow> ApiClient \<Rightarrow> string \<Rightarrow> string \<Rightarrow> string \<Rightarrow> (string, 's) act" where
  "cmd_addPeer send c peerID al ipAddr =
     and_then (api (client_AuthRequests send c)) (\<lambda>authRequests.
       if list_ex (\<lambda>r. ar_PeerID r = peerID) authRequests
       then and_then (api (client_ReplyFriendRequest send c peerID al False ipAddr)) (\<lambda>_. ret (line ''user added to friends list successfully''))
       else and_then (api (client_SendFriendRequest send c peerID al ipAddr)) (\<lambda>_. ret (line ''friend request sent successfully'')))"

definition cmd_removePeer :: "'s net \<Rightarrow> ApiClient \<Rightarrow> string \<Rightarrow> (string, 's) act" where
  "cmd_removePeer send c peerID =
     and_then (api (client_RemovePeer send c peerID)) (\<lambda>_. ret (line ''peer removed successfully''))"

definition cmd_changePeerAlias :: "'s net \<Rightarrow> ApiClient \<Rightarrow> string \<Rightarrow> string \<Rightarrow> (string, 's) act" where
  "cmd_changePeerAlias send c peerID newAlias =
     and_then (api (client_KnownPeerConfig send c peerID)) (\<lambda>pcfg.
     and_then (api (client_UpdatePeerSettings send c
         \<lparr>up_PeerID = peerID, up_Alias = newAlias, up_DomainName = kp_DomainName pcfg, up_IPAddr = kp_IPAddr pcfg,
          up_AllowUsingAsExitNode = kp_WeAllowUsingAsExitNode pcfg\<rparr>)) (\<lambda>_.
     ret (line ''peer name updated successfully'')))"

definition cmd_changePeerDomain :: "'s net \<Rightarrow> ApiClient \<Rightarrow> string \<Rightarrow> string \<Rightarrow> (string, 's) act" where
  "cmd_changePeerDomain send c peerID newDomain =
     and_then (api (client_KnownPeerConfig send c peerID)) (\<lambda>pcfg.
     and_then (api (client_UpdatePeerSettings send c
         \<lparr>up_PeerID = peerID, up_Alias = kp_Alias pcfg, up_DomainName = newDomain, up_IPAddr = kp_IPAddr pcfg,
          up_AllowUsingAsExitNode = kp_WeAllowUsingAsExitNode pcfg\<rparr>)) (\<lambda>_.
     ret (line ''peer domain name updated successfully'')))"

definition cmd_changePeerIP :: "'s net \<Rightarrow> ApiClient \<Rightarrow> string \<Rightarrow> string \<Rightarrow> (string, 's) act" where
  "cmd_changePeerIP send c peerID newIP =
     and_then (api (client_KnownPeerConfig send c peerID)) (\<lambda>pcfg.
     and_then (api (client_UpdatePeerSettings send c
         \<lparr>up_PeerID = peerID, up_Alias = kp_Alias pcfg, up_DomainName = kp_DomainName pcfg, up_IPAddr = newIP,
          up_AllowUsingAsExitNode = kp_WeAllowUsingAsExitNode pcfg\<rparr>)) (\<lambda>_.
     ret (line ''peer IP address updated successfully'')))"

definition cmd_setAllowUsingAsExitNode :: "'s net \<Rightarrow> ApiClient \<Rightarrow> string \<Rightarrow> bool \<Rightarrow> (string, 's) act" where
  "cmd_setAllowUsingAsExitNode send c peerID allow =
     and_then (api (client_KnownPeerConfig send c peerID)) (\<lambda>pcfg.
     and_then (api (client_UpdatePeerSettings send c
         \<lparr>up_PeerID = peerID, up_Alias = kp_Alias pcfg, up_DomainName = kp_DomainName pcfg, up_IPAddr = kp_IPAddr pcfg,
          up_AllowUsingAsExitNode = allow\<rparr>)) (\<lambda>_.
     ret (line ''AllowUsingAsExitNode config updated successfully'')))"

definition cmd_renameMe :: "'s net \<Rightarrow> ApiClient \<Rightarrow> string \<Rightarrow> (string, 's) act" where
  "cmd_renameMe send c newName =
     and_then (api (client_UpdateMySettings send c newName)) (\<lambda>_. ret (line ''my peer name updated successfully''))"

definition cmd_listProxies :: "'s net \<Rightarrow> ApiClient \<Rightarrow> (string, 's) act" where
  "cmd_listProxies send c =
     and_then (api (client_ListAvailableProxies send c)) (\<lambda>proxies.
       if proxies = [] then ret (line ''no available proxies'')
       else ret (line ''Proxies:'' @
         concat (map (\<lambda>p. line (''- peer name: '' @ av_PeerName p @ '' | peer id: '' @ av_PeerID p)) proxies)))"

definition cmd_setProxy :: "'s net \<Rightarrow> ApiClient \<Rightarrow> string \<Rightarrow> (string, 's) act" where
  "cmd_setProxy send c peerID =
     and_then (api (client_UpdateProxySettings send c peerID)) (\<lambda>_. ret (line ''proxy settings updated successfully''))"

text \<open>The QR code is drawn by \<open>qr\<close>, the status table by \<open>draw\<close>.\<close>

definition printPeerId :: "(string \<Rightarrow> string) \<Rightarrow> 's net \<Rightarrow> ApiClient \<Rightarrow> (string, 's) act" where
  "printPeerId qr send c =
     and_then (api (client_PeerInfo send c)) (\<lambda>info. ret (line (''your peer id: '' @ pi_PeerID info) @ qr (pi_PeerID info)))"

text \<open>
  The rows of the status table. The traffic figures and the duration are printed by the arguments;
  reachability is one of libp2p's ASCII names.
\<close>

definition printStatus ::
    "(string list list \<Rightarrow> string) \<Rightarrow> string \<times> string \<Rightarrow> (int \<Rightarrow> string) \<Rightarrow> 's net \<Rightarrow> ApiClient \<Rightarrow> (string, 's) act" where
  "printStatus draw rates duration send c =
     and_then (api (client_PeerInfo send c)) (\<lambda>stats. ret (draw
       [[''Download rate'', fst rates], [''Upload rate'', snd rates],
        [''Bootstrap peers'', itoa_int (ns_ConnectedBootstrapPeers stats) @ ''/'' @ itoa_int (ns_TotalBootstrapPeers stats)],
        [''DNS'', formatWorkingStatus (ns_IsAwlDNSSetAsSystem stats)],
        [''SOCKS5 Proxy'', formatWorkingStatus (si_ListenerEnabled (pi_SOCKS5 stats))],
        [''SOCKS5 Proxy address'', si_ListenAddress (pi_SOCKS5 stats)],
        [''SOCKS5 Proxy exit node'', si_UsingPeerName (pi_SOCKS5 stats)],
        [''Reachability'', ToLower id (ns_Reachability stats)],
        [''Uptime'', duration (ns_Uptime stats)],
        [''Server version'', pi_ServerVersion stats]]))"

section \<open>The table of peers\<close>

text \<open>What is printed by libraries or from figures of libp2p: times, traffic, connections and the table itself.\<close>

record table_env =
  te_time :: "nat \<Rightarrow> string"
  te_usage :: "KnownPeersResponse \<Rightarrow> string"
  te_connections :: "KnownPeersResponse \<Rightarrow> string"
  te_draw :: "string list \<Rightarrow> string list list \<Rightarrow> string"

definition fHeaderMap :: "(char \<times> string) list" where
  "fHeaderMap =
     [(CHR ''n'', map char_of [0xE2, 0x84, 0x96 :: nat]), (CHR ''p'', ''peer''), (CHR ''i'', ''peer ID''), (CHR ''s'', ''status''),
      (CHR ''l'', ''last seen''),
      (CHR ''u'', line ''network usage'' @ ''('' @ map char_of [0xE2, 0x86, 0x93 :: nat] @ ''in/'' @ map char_of [0xE2, 0x86, 0x91 :: nat] @ ''out)''),
      (CHR ''c'', line ''connections'' @ ''address | protocol''), (CHR ''v'', ''version''), (CHR ''e'', ''exit node'')]"

definition print_bool :: "bool \<Rightarrow> string" where
  "print_bool b = (if b then ''true'' else ''false'')"

definition peer_cell :: "table_env \<Rightarrow> nat \<Rightarrow> KnownPeersResponse \<Rightarrow> char \<Rightarrow> string" where
  "peer_cell te i peer col =
     (if col = CHR ''n'' then itoa (i + 1)
      else if col = CHR ''p'' then
        Join_nl ((if kr_DisplayName peer \<noteq> [] then [kr_DisplayName peer] else []) @
                 (if kr_DomainName peer \<noteq> [] then [kr_DomainName peer @ ''.'' @ LocalDomain] else []) @ [kr_IpAddr peer])
      else if col = CHR ''i'' then kr_PeerID peer
      else if col = CHR ''s'' then
        (if kr_Connected peer then ''online'' else ''offline'') @ (if \<not> kr_Confirmed peer then nl # ''(not confirmed)'' else [])
      else if col = CHR ''l'' then (if kr_LastSeen peer = 0 then ''never'' else te_time te (kr_LastSeen peer))
      else if col = CHR ''u'' then te_usage te peer
      else if col = CHR ''c'' then te_connections te peer
      else if col = CHR ''v'' then kr_Version peer
      else line (''we allow:     '' @ print_bool (kr_WeAllowUsingAsExitNode peer)) @
           ''peer allowed: '' @ print_bool (kr_AllowedUsingAsExitNode peer))"

text \<open>The format is read as code points; the first that names no column is reported.\<close>

fun table_columns :: "(nat \<times> string) list \<Rightarrow> run_error + char list" where
  "table_columns [] = Inr []"
| "table_columns ((r, b) # rs) =
     (if r < 0x80 \<and> map_of fHeaderMap (char_of r) \<noteq> None
      then (case table_columns rs of Inl e \<Rightarrow> Inl e | Inr cols \<Rightarrow> Inr (char_of r # cols))
      else Inl (UnknownFormat (encode_rune r)))"

definition printPeersStatus :: "table_env \<Rightarrow> 's net \<Rightarrow> ApiClient \<Rightarrow> string \<Rightarrow> (string, 's) act" where
  "printPeersStatus te send c format =
     (if length format < 1 then fail EmptyFormat
      else case table_columns (runes format) of
        Inl e \<Rightarrow> fail e
      | Inr columns \<Rightarrow>
          and_then (api (client_KnownPeers send c)) (\<lambda>peers.
            ret (te_draw te (map (\<lambda>col. the (map_of fHeaderMap col)) columns)
              (map (\<lambda>(i, peer). map (peer_cell te i peer) columns) (enumerate 0 peers)))))"

section \<open>Finding the server and the peer\<close>

text \<open>The flags of a command as urfave/cli parsed them.\<close>

record ctx =
  cx_String :: "string \<Rightarrow> string"
  cx_Bool :: "string \<Rightarrow> bool"
  cx_Int :: "string \<Rightarrow> int"

definition cx_Set :: "string \<Rightarrow> string \<Rightarrow> ctx \<Rightarrow> ctx" where
  "cx_Set name val c = c\<lparr>cx_String := (cx_String c)(name := val)\<rparr>"

definition defaultApiAddr :: string where
  "defaultApiAddr = ''127.0.0.1:'' @ itoa DefaultHTTPPort"

definition initApiFromAddr :: "'s net \<Rightarrow> string \<Rightarrow> string \<Rightarrow> string \<Rightarrow> (ApiClient, 's) act" where
  "initApiFromAddr send addr username password s =
     (let cl = NewWithAuth addr username password
      in map_option (\<lambda>(r, s'). (case r of Inl e \<Rightarrow> Inl (NoAccess addr e) | Inr _ \<Rightarrow> Inr cl, s')) (client_PeerInfo send cl s))"

text \<open>\<open>conf\<close> is what \<open>LoadConfig\<close> returns, \<open>None\<close> an error. The result is the client the command uses.\<close>

definition initApiConnection :: "'s net \<Rightarrow> Config option \<Rightarrow> ctx \<Rightarrow> (ApiClient, 's) act" where
  "initApiConnection send conf c s =
     (let username = cx_String c ''api_user''; password = cx_String c ''api_password''; apiAddr = cx_String c ''api_addr''
      in if apiAddr \<noteq> [] then initApiFromAddr send apiAddr username password s
         else case conf of
           Some cf \<Rightarrow>
             let (u, p) = (if username = [] \<and> password = []
                           then (ha_Username (c_HttpBasicAuth cf), ha_Password (c_HttpBasicAuth cf)) else (username, password))
             in initApiFromAddr send (c_HttpListenAddress cf) u p s
         | None \<Rightarrow>
             (case initApiFromAddr send defaultApiAddr username password s of
                None \<Rightarrow> None
              | Some (Inr cl, s') \<Rightarrow> Some (Inr cl, s')
              | Some (Inl _, s') \<Rightarrow> Some (Inl NoConnection, s')))"

definition initApiAndPeerId :: "'s net \<Rightarrow> Config option \<Rightarrow> bool \<Rightarrow> ctx \<Rightarrow> (ApiClient \<times> ctx, 's) act" where
  "initApiAndPeerId send conf isRequired c =
     and_then (initApiConnection send conf c) (\<lambda>cl.
       if cx_String c ''pid'' \<noteq> [] then ret (cl, c)
       else if cx_String c ''name'' = [] \<and> isRequired then fail PeerIDOrNameNeeded
       else if cx_String c ''name'' = [] \<and> \<not> isRequired then ret (cl, c)
       else and_then (cmd_getPeerIdByAlias send cl (cx_String c ''name'')) (\<lambda>pid. ret (cl, cx_Set ''pid'' pid c)))"

definition initApiAndPeerIdRequired :: "'s net \<Rightarrow> Config option \<Rightarrow> ctx \<Rightarrow> (ApiClient \<times> ctx, 's) act" where
  "initApiAndPeerIdRequired send conf c = initApiAndPeerId send conf True c"

section \<open>The commands of the application\<close>

text \<open>What the commands use beside the server; \<open>pretty\<close> prints the debug information.\<close>

record cli_env =
  ce_conf :: "Config option"
  ce_table :: table_env
  ce_qr :: "string \<Rightarrow> string"
  ce_status :: "string list list \<Rightarrow> string"
  ce_rates :: "string \<times> string"
  ce_duration :: "int \<Rightarrow> string"
  ce_debug :: "byte list \<Rightarrow> string option"

definition with_api :: "cli_env \<Rightarrow> 's net \<Rightarrow> ctx \<Rightarrow> (ApiClient \<Rightarrow> (string, 's) act) \<Rightarrow> (string, 's) act" where
  "with_api en send c action = and_then (initApiConnection send (ce_conf en) c) action"

definition with_peer :: "cli_env \<Rightarrow> 's net \<Rightarrow> ctx \<Rightarrow> (ApiClient \<Rightarrow> ctx \<Rightarrow> (string, 's) act) \<Rightarrow> (string, 's) act" where
  "with_peer en send c action = and_then (initApiAndPeerIdRequired send (ce_conf en) c) (\<lambda>(cl, c'). action cl c')"

definition me_status :: "cli_env \<Rightarrow> 's net \<Rightarrow> ctx \<Rightarrow> (string, 's) act" where
  "me_status en send c = with_api en send c (printStatus (ce_status en) (ce_rates en) (ce_duration en) send)"

definition me_id :: "cli_env \<Rightarrow> 's net \<Rightarrow> ctx \<Rightarrow> (string, 's) act" where
  "me_id en send c = with_api en send c (printPeerId (ce_qr en) send)"

definition me_rename :: "cli_env \<Rightarrow> 's net \<Rightarrow> ctx \<Rightarrow> (string, 's) act" where
  "me_rename en send c = with_api en send c (\<lambda>cl. cmd_renameMe send cl (cx_String c ''name''))"

definition me_list_proxies :: "cli_env \<Rightarrow> 's net \<Rightarrow> ctx \<Rightarrow> (string, 's) act" where
  "me_list_proxies en send c = with_api en send c (cmd_listProxies send)"

definition me_set_proxy :: "cli_env \<Rightarrow> 's net \<Rightarrow> ctx \<Rightarrow> (string, 's) act" where
  "me_set_proxy en send c =
     and_then (initApiAndPeerId send (ce_conf en) False c) (\<lambda>(cl, c'). cmd_setProxy send cl (cx_String c' ''pid''))"

definition peers_status :: "cli_env \<Rightarrow> 's net \<Rightarrow> ctx \<Rightarrow> (string, 's) act" where
  "peers_status en send c = with_api en send c (\<lambda>cl. printPeersStatus (ce_table en) send cl (cx_String c ''format''))"

definition peers_requests :: "cli_env \<Rightarrow> 's net \<Rightarrow> ctx \<Rightarrow> (string, 's) act" where
  "peers_requests en send c = with_api en send c (cmd_printFriendRequests send)"

definition peers_add :: "cli_env \<Rightarrow> 's net \<Rightarrow> ctx \<Rightarrow> (string, 's) act" where
  "peers_add en send c =
     with_api en send c (\<lambda>cl. cmd_addPeer send cl (cx_String c ''pid'') (cx_String c ''name'') (cx_String c ''ip''))"

definition peers_remove :: "cli_env \<Rightarrow> 's net \<Rightarrow> ctx \<Rightarrow> (string, 's) act" where
  "peers_remove en send c = with_peer en send c (\<lambda>cl c'. cmd_removePeer send cl (cx_String c' ''pid''))"

definition peers_rename :: "cli_env \<Rightarrow> 's net \<Rightarrow> ctx \<Rightarrow> (string, 's) act" where
  "peers_rename en send c =
     with_peer en send c (\<lambda>cl c'. cmd_changePeerAlias send cl (cx_String c' ''pid'') (cx_String c' ''new_name''))"

definition peers_update_domain :: "cli_env \<Rightarrow> 's net \<Rightarrow> ctx \<Rightarrow> (string, 's) act" where
  "peers_update_domain en send c =
     with_peer en send c (\<lambda>cl c'. cmd_changePeerDomain send cl (cx_String c' ''pid'') (cx_String c' ''domain''))"

definition peers_update_ip :: "cli_env \<Rightarrow> 's net \<Rightarrow> ctx \<Rightarrow> (string, 's) act" where
  "peers_update_ip en send c =
     with_peer en send c (\<lambda>cl c'. cmd_changePeerIP send cl (cx_String c' ''pid'') (cx_String c' ''ip''))"

definition peers_allow_exit_node :: "cli_env \<Rightarrow> 's net \<Rightarrow> ctx \<Rightarrow> (string, 's) act" where
  "peers_allow_exit_node en send c =
     with_peer en send c (\<lambda>cl c'. cmd_setAllowUsingAsExitNode send cl (cx_String c' ''pid'') (cx_Bool c' ''allow''))"

definition cli_logs :: "cli_env \<Rightarrow> 's net \<Rightarrow> ctx \<Rightarrow> (string, 's) act" where
  "cli_logs en send c =
     with_api en send c (\<lambda>cl. and_then (api (client_ApplicationLog send cl (cx_Int c ''n'') (cx_Bool c ''head'')))
       (\<lambda>logs. ret (line (text_of logs))))"

definition cli_p2p_info :: "cli_env \<Rightarrow> 's net \<Rightarrow> ctx \<Rightarrow> (string, 's) act" where
  "cli_p2p_info en send c =
     with_api en send c (\<lambda>cl. and_then (api (client_P2pDebugInfo send cl (ce_debug en))) (\<lambda>info. ret (line info)))"

text \<open>The tree of commands: the path of each with its flags (those marked are required) and what it does.\<close>

definition cli_commands :: "(string list \<times> (string \<times> bool) list \<times> (cli_env \<Rightarrow> 's net \<Rightarrow> ctx \<Rightarrow> (string, 's) act)) list" where
  "cli_commands =
     [([''me'', ''status''], [], me_status), ([''me'', ''id''], [], me_id),
      ([''me'', ''rename''], [(''name'', True)], me_rename), ([''me'', ''list_proxies''], [], me_list_proxies),
      ([''me'', ''set_proxy''], [(''pid'', False), (''name'', False)], me_set_proxy),
      ([''peers'', ''status''], [(''format'', False)], peers_status), ([''peers'', ''requests''], [], peers_requests),
      ([''peers'', ''add''], [(''pid'', True), (''name'', True), (''ip'', False)], peers_add),
      ([''peers'', ''remove''], [(''pid'', False), (''name'', False)], peers_remove),
      ([''peers'', ''rename''], [(''pid'', False), (''name'', False), (''new_name'', True)], peers_rename),
      ([''peers'', ''update_domain''], [(''pid'', False), (''name'', False), (''domain'', True)], peers_update_domain),
      ([''peers'', ''update_ip''], [(''pid'', False), (''name'', False), (''ip'', True)], peers_update_ip),
      ([''peers'', ''allow_exit_node''], [(''pid'', False), (''name'', False), (''allow'', False)], peers_allow_exit_node),
      ([''logs''], [(''head'', False), (''n'', False)], cli_logs), ([''p2p_info''], [], cli_p2p_info)]"

section \<open>Start of the program\<close>

text \<open>
  \<open>Run\<close> on the arguments of the program: it returns (the server starts) or ends the process with an
  exit code. \<open>cliapp\<close> runs the application's commands and tells whether one failed; a fatal log ends
  the process with 1.
\<close>

datatype run_result = Returns | Exits int string

definition printGlobalHelp :: "string \<Rightarrow> string" where
  "printGlobalHelp binaryName =
     line (''Usage: '' @ binaryName @ '' <command>'') @ line [] @
     line ''Run without a command to start the server.'' @ line [] @
     line ''Flags:'' @
     line ''  -h, --help     Show context-sensitive help.'' @
     line ''  -v, --version  Show version.'' @ line [] @
     line ''Commands:'' @
     line ''  cli    Command line interface for Anywherelan'' @ line [] @
     line (''Run '' @ [quote_chr] @ binaryName @ '' <command> --help'' @ [quote_chr] @ '' for more information on a command.'')"

definition printVersion :: "string \<Rightarrow> string \<Rightarrow> string" where
  "printVersion version platform = line (''Anywherelan version '' @ version @ '' ('' @ platform @ '')'')"

definition cli_Run ::
    "string \<Rightarrow> string \<Rightarrow> string \<Rightarrow> (string list \<Rightarrow> string \<times> bool) \<Rightarrow> string list \<Rightarrow> run_result" where
  "cli_Run binaryName version platform cliapp args =
     (if length args = 1 then Returns
      else let arg = args ! 1
        in if arg = ''with-env'' then Returns
           else if arg = ''cli'' then (case cliapp (tl args) of (out, ok) \<Rightarrow> if ok then Exits 0 out else Exits 1 out)
           else if arg = ''-h'' \<or> arg = ''--help'' then Exits 0 (printGlobalHelp binaryName)
           else if arg = ''-v'' \<or> arg = ''--version'' then Exits 0 (printVersion version platform)
           else Exits (- 1) (line (''Unknown command '' @ [char_of (39 :: nat)] @ arg @ [char_of (39 :: nat)] @ ''. Use '' @ [char_of (39 :: nat)] @
                  binaryName @ '' -h'' @ [char_of (39 :: nat)] @ '' for help, or run '' @ [char_of (39 :: nat)] @ binaryName @
                  [char_of (39 :: nat)] @ '' to start the server'')))"

section \<open>Updating\<close>

text \<open>
  The prompt: a line of the input at a time, until one is empty, yes or no. The end of the input reads as
  an empty line; \<open>wok k\<close> tells whether the \<open>k\<close>-th prompt can be written.
\<close>

definition answer :: "(nat \<Rightarrow> nat) \<Rightarrow> bool \<Rightarrow> string \<Rightarrow> bool option" where
  "answer ulower def l =
     (let s = TrimSpace l
      in if s = [] then Some def
         else let s' = ToLower ulower s
           in if s' = ''y'' \<or> s' = ''yes'' then Some True else if s' = ''n'' \<or> s' = ''no'' then Some False else None)"

function yesNoPrompt :: "(nat \<Rightarrow> nat) \<Rightarrow> (nat \<Rightarrow> bool) \<Rightarrow> bool \<Rightarrow> nat \<Rightarrow> string \<Rightarrow> bool option" where
  "yesNoPrompt ulower wok def k input =
     (if \<not> wok k then None
      else let l = takeWhile (\<lambda>c. c \<noteq> nl) input; rest = drop (length l + 1) input
        in if input = [] then Some def
           else case answer ulower def l of
             Some b \<Rightarrow> Some b
           | None \<Rightarrow> yesNoPrompt ulower wok def (Suc k) rest)"
  by pat_completeness auto
termination
  by (relation "measure (\<lambda>(_, _, _, _, input). length input)") auto

declare yesNoPrompt.simps [simp del]

text \<open>The action of the command \<open>update\<close>: \<open>inst\<close> and \<open>cleanup\<close> are the updater's, which ends or restarts the process.\<close>

datatype update_result =
  ReadConfigFailed | ServiceFailed update_error | CheckFailed | UpToDate | Stopped bool | InstallFailed | Installed bool bool

definition cli_update ::
    "(nat \<Rightarrow> bool) \<Rightarrow> (string \<Rightarrow> channel list \<Rightarrow> ApplicationType \<Rightarrow> 'a option) \<Rightarrow> string \<Rightarrow> ApplicationType \<Rightarrow> Config option \<Rightarrow>
     ('a \<Rightarrow> 'v option \<times> check_status) \<Rightarrow> (ctx \<Rightarrow> bool option) \<Rightarrow> ('v \<Rightarrow> bool) \<Rightarrow> (bool \<Rightarrow> bool) \<Rightarrow> ctx \<Rightarrow> update_result" where
  "cli_update udigit appConf version updateType conf look prompt inst cleanup c =
     (case conf of
        None \<Rightarrow> ReadConfigFailed
      | Some cf \<Rightarrow>
          (case NewUpdateService udigit appConf version cf updateType of
             Inl e \<Rightarrow> ServiceFailed e
           | Inr service \<Rightarrow>
               (case look service of (newVersion, st) \<Rightarrow>
                  (case CheckForUpdates newVersion st of
                     (_, True) \<Rightarrow> CheckFailed
                   | (False, False) \<Rightarrow> UpToDate
                   | (True, False) \<Rightarrow>
                       if \<not> cx_Bool c ''quiet'' \<and> prompt c \<noteq> Some True then Stopped (prompt c = None)
                       else if \<not> inst (the newVersion) then InstallFailed
                       else Installed (cx_Bool c ''run'') (cleanup (cx_Bool c ''run''))))))"

section \<open>The prompt\<close>

text \<open>
  The answer is that of the first line that is empty, yes or no; without one it is the default, so the end
  of the input counts as consent to an update.
\<close>

lemma Split_nl_first:
  "Split_nl s = takeWhile (\<lambda>c. c \<noteq> nl) s # (if nl \<in> set s then Split_nl (drop (length (takeWhile (\<lambda>c. c \<noteq> nl) s) + 1) s) else [])"
  by (induction s) auto

lemma answer_Nil [simp]: "answer ulower def [] = Some def"
  by (simp add: answer_def TrimSpace_def trim_runes_def)

lemma prompt_answer:
  "(\<And>k. wok k) \<Longrightarrow> yesNoPrompt ulower wok def k input =
     Some (case find (\<lambda>l. answer ulower def l \<noteq> None) (Split_nl input) of None \<Rightarrow> def | Some l \<Rightarrow> the (answer ulower def l))"
proof (induction ulower wok def k input rule: yesNoPrompt.induct)
  case (1 ulower wok def k input)
  let ?l = "takeWhile (\<lambda>c. c \<noteq> nl) input" and ?rest = "drop (length (takeWhile (\<lambda>c. c \<noteq> nl) input) + 1) input"
  show ?case
  proof (cases "input = [] \<or> answer ulower def ?l \<noteq> None")
    case True
    then show ?thesis
      using 1(2) by (subst Split_nl_first) (auto simp: yesNoPrompt.simps [of ulower wok def k input] Let_def)
  next
    case False
    have p: "yesNoPrompt ulower wok def k input = yesNoPrompt ulower wok def (Suc k) ?rest"
      using False 1(2) by (simp add: yesNoPrompt.simps [of ulower wok def k input] Let_def)
    have ih: "yesNoPrompt ulower wok def (Suc k) ?rest =
        Some (case find (\<lambda>l. answer ulower def l \<noteq> None) (Split_nl ?rest) of None \<Rightarrow> def | Some l \<Rightarrow> the (answer ulower def l))"
      by (rule 1(1) [OF _ refl refl]) (use 1(2) False in auto)
    show ?thesis
    proof (cases "nl \<in> set input")
      case True
      then show ?thesis using p ih False by (subst Split_nl_first) simp
    next
      case no: False
      then have l: "?l = input" by (metis (mono_tags, lifting) takeWhile_eq_all_conv)
      have "?rest = []" unfolding l by simp
      moreover have "Split_nl input = [input]" using no l Split_nl_first [of input] by simp
      ultimately show ?thesis using p ih False l by simp
    qed
  qed
qed

section \<open>Commands against this server\<close>

lemma api_call: "m s = Some (r, s') \<Longrightarrow> api m s = Some (map_sum ClientError id r, s')"
  by (simp add: api_def)

text \<open>What a command prints, if it does not fail.\<close>

definition printed :: "('e + string) \<times> 's \<Rightarrow> string option \<times> 's" where
  "printed r = (case fst r of Inl _ \<Rightarrow> None | Inr t \<Rightarrow> Some t, snd r)"

definition after :: "api_task list \<Rightarrow> ('e + string) \<times> api_task list \<times> AuthStatus \<Rightarrow> string option \<times> api_task list \<times> AuthStatus" where
  "after ts r = (case r of (out, ts', s') \<Rightarrow> printed (out, ts @ ts', s'))"

lemma unit_command:
  "m (ts, s) = map_option (reported_call en ts) h \<Longrightarrow>
     map_option printed (and_then (api m) (\<lambda>_. ret (line msg)) (ts, s)) =
     map_option (\<lambda>(r, ts', s'). after ts (done_or_error msg r, ts', s')) h"
proof (cases h)
  case (Some r)
  assume m: "m (ts, s) = map_option (reported_call en ts) h"
  obtain resp ts' s' where r: "r = (resp, ts', s')" by (metis prod.collapse)
  show ?thesis
    using m Some r by (cases resp) (simp_all add: and_then_def api_def reported_call_def reported_def ret_def after_def printed_def)
qed (simp add: and_then_def api_def)

lemma settings_command:
  assumes "echo_ok w" and "login_ok ha c" and "valid_utf8 peerID"
    and "\<And>pcfg. GetPeer (as_c s) peerID = Some pcfg \<Longrightarrow>
      client_UpdatePeerSettings (local_server w en ha) c (f (settings_of peerID pcfg)) (ts, s) =
        map_option (reported_call en ts) (UpdatePeerSettings (en_vd en) (en_isDomainName en) (en_x en) id (Some (f (settings_of peerID pcfg))) s)"
  shows "map_option printed (and_then (api (client_KnownPeerConfig (local_server w en ha) c peerID)) (\<lambda>pcfg.
      and_then (api (client_UpdatePeerSettings (local_server w en ha) c (f (settings_of peerID pcfg)))) (\<lambda>_. ret (line msg))) (ts, s)) =
    map_option (after ts) (change_setting (en_vd en) (en_isDomainName en) (en_x en) id f msg peerID s)"
proof (cases "GetKnownPeerSettings (en_vd en) (Some peerID) (as_c s)")
  case (Resp200 pcfg)
  then have "GetPeer (as_c s) peerID = Some pcfg"
    by (auto simp: GetKnownPeerSettings_def split: if_splits option.splits)
  from unit_command [of "client_UpdatePeerSettings (local_server w en ha) c (f (settings_of peerID pcfg))", OF assms(4) [OF this]] Resp200 client_reads(6) [OF assms(1-3), of en ts s] show ?thesis
    by (simp add: change_setting_def and_then_def api_def reported_def option.map_comp comp_def split_def)
qed (use client_reads(6) [OF assms(1-3), of en ts s] in
  \<open>simp_all add: change_setting_def and_then_def api_def reported_def after_def printed_def\<close>)

text \<open>The texts a command sends are UTF-8: its arguments and the stored settings of the peer.\<close>

definition sendable :: "AuthStatus \<Rightarrow> string \<Rightarrow> bool" where
  "sendable s peerID \<longleftrightarrow> valid_utf8 peerID \<and>
     (\<forall>p. GetPeer (as_c s) peerID = Some p \<longrightarrow> list_all valid_utf8 [kp_Alias p, kp_DomainName p, kp_IPAddr p])"

lemma sendable_update:
  assumes "echo_ok w" and "login_ok ha c" and "sendable s peerID" and "valid_utf8 v" and "GetPeer (as_c s) peerID = Some pcfg"
    and "r \<in> {(settings_of peerID pcfg)\<lparr>up_Alias := v\<rparr>, (settings_of peerID pcfg)\<lparr>up_DomainName := v\<rparr>,
           (settings_of peerID pcfg)\<lparr>up_IPAddr := v\<rparr>, (settings_of peerID pcfg)\<lparr>up_AllowUsingAsExitNode := b\<rparr>}"
  shows "client_UpdatePeerSettings (local_server w en ha) c r (ts, s) =
    map_option (reported_call en ts) (UpdatePeerSettings (en_vd en) (en_isDomainName en) (en_x en) id (Some r) s)"
proof -
  have "list_all valid_utf8 [up_PeerID r, up_Alias r, up_IPAddr r, up_DomainName r]"
    using assms(3-6) by (auto simp: sendable_def settings_of_def)
  from client_posts(3) [OF assms(1,2) this, of en "up_AllowUsingAsExitNode r" ts s] show ?thesis by (cases r) simp
qed

lemma settings_refine:
  assumes "echo_ok w" and "login_ok ha c" and "sendable s peerID" and "valid_utf8 v"
  shows "map_option printed (cmd_changePeerAlias (local_server w en ha) c peerID v (ts, s)) =
      map_option (after ts) (changePeerAlias (en_vd en) (en_isDomainName en) (en_x en) id peerID v s)"
    "map_option printed (cmd_changePeerDomain (local_server w en ha) c peerID v (ts, s)) =
      map_option (after ts) (changePeerDomain (en_vd en) (en_isDomainName en) (en_x en) id peerID v s)"
    "map_option printed (cmd_changePeerIP (local_server w en ha) c peerID v (ts, s)) =
      map_option (after ts) (changePeerIP (en_vd en) (en_isDomainName en) (en_x en) id peerID v s)"
    "map_option printed (cmd_setAllowUsingAsExitNode (local_server w en ha) c peerID b (ts, s)) =
      map_option (after ts) (setAllowUsingAsExitNode (en_vd en) (en_isDomainName en) (en_x en) id peerID b s)"
proof -
  have u: "valid_utf8 peerID" using assms(3) by (simp add: sendable_def)
  have set: "map_option printed (and_then (api (client_KnownPeerConfig (local_server w en ha) c peerID)) (\<lambda>pcfg.
      and_then (api (client_UpdatePeerSettings (local_server w en ha) c (f (settings_of peerID pcfg)))) (\<lambda>_. ret (line msg))) (ts, s)) =
      map_option (after ts) (change_setting (en_vd en) (en_isDomainName en) (en_x en) id f msg peerID s)"
    if "f \<in> {\<lambda>r. r\<lparr>up_Alias := v\<rparr>, \<lambda>r. r\<lparr>up_DomainName := v\<rparr>, \<lambda>r. r\<lparr>up_IPAddr := v\<rparr>, \<lambda>r. r\<lparr>up_AllowUsingAsExitNode := b\<rparr>}" for f msg
  proof (rule settings_command [OF assms(1,2) u])
    fix pcfg
    assume p: "GetPeer (as_c s) peerID = Some pcfg"
    show "client_UpdatePeerSettings (local_server w en ha) c (f (settings_of peerID pcfg)) (ts, s) =
        map_option (reported_call en ts) (UpdatePeerSettings (en_vd en) (en_isDomainName en) (en_x en) id (Some (f (settings_of peerID pcfg))) s)"
      by (rule sendable_update [OF assms(1-3) _ p, of v, where b = b]) (use assms(4) that in auto)
  qed
  show "map_option printed (cmd_changePeerAlias (local_server w en ha) c peerID v (ts, s)) =
      map_option (after ts) (changePeerAlias (en_vd en) (en_isDomainName en) (en_x en) id peerID v s)"
    using set [of "\<lambda>r. r\<lparr>up_Alias := v\<rparr>" "''peer name updated successfully''"]
    by (simp add: cmd_changePeerAlias_def changePeerAlias_def settings_of_def)
  show "map_option printed (cmd_changePeerDomain (local_server w en ha) c peerID v (ts, s)) =
      map_option (after ts) (changePeerDomain (en_vd en) (en_isDomainName en) (en_x en) id peerID v s)"
    using set [of "\<lambda>r. r\<lparr>up_DomainName := v\<rparr>" "''peer domain name updated successfully''"]
    by (simp add: cmd_changePeerDomain_def changePeerDomain_def settings_of_def)
  show "map_option printed (cmd_changePeerIP (local_server w en ha) c peerID v (ts, s)) =
      map_option (after ts) (changePeerIP (en_vd en) (en_isDomainName en) (en_x en) id peerID v s)"
    using set [of "\<lambda>r. r\<lparr>up_IPAddr := v\<rparr>" "''peer IP address updated successfully''"]
    by (simp add: cmd_changePeerIP_def changePeerIP_def settings_of_def)
  show "map_option printed (cmd_setAllowUsingAsExitNode (local_server w en ha) c peerID b (ts, s)) =
      map_option (after ts) (setAllowUsingAsExitNode (en_vd en) (en_isDomainName en) (en_x en) id peerID b s)"
    using set [of "\<lambda>r. r\<lparr>up_AllowUsingAsExitNode := b\<rparr>" "''AllowUsingAsExitNode config updated successfully''"]
    by (simp add: cmd_setAllowUsingAsExitNode_def setAllowUsingAsExitNode_def settings_of_def)
qed



section \<open>Commands about a peer\<close>

text \<open>The connection to the server of the loaded configuration, with its own password.\<close>

definition own_server :: "cli_env \<Rightarrow> ctx \<Rightarrow> Config \<Rightarrow> bool" where
  "own_server en c cf \<longleftrightarrow> ce_conf en = Some cf \<and> cx_String c ''api_addr'' = [] \<and> cx_String c ''api_user'' = [] \<and>
     cx_String c ''api_password'' = [] \<and> CHR '':'' \<notin> set (ha_Username (c_HttpBasicAuth cf))"

definition own_client :: "Config \<Rightarrow> ApiClient" where
  "own_client cf = NewWithAuth (c_HttpListenAddress cf) (ha_Username (c_HttpBasicAuth cf)) (ha_Password (c_HttpBasicAuth cf))"

lemma own_login: "own_server en c cf \<Longrightarrow> login_ok (c_HttpBasicAuth cf) (own_client cf)"
  by (simp add: login_ok_def own_server_def own_client_def NewWithAuth_def Let_def)

lemma own_connection:
  assumes "echo_ok w" and "own_server en c cf"
  shows "initApiConnection (local_server w an (c_HttpBasicAuth cf)) (ce_conf en) c (ts, s) = Some (Inr (own_client cf), ts, s)"
  using assms(2) client_reads(3) [OF assms(1) own_login [OF assms(2)], of an ts s]
  by (simp add: initApiConnection_def initApiFromAddr_def own_server_def own_client_def)

lemma lookup_call:
  assumes "echo_ok w" and "login_ok ha cl" and "al \<noteq> []"
  shows "cmd_getPeerIdByAlias (local_server w an ha) cl al (ts, s) =
    Some (case getPeerIdByAlias (en_x an) (en_view an) (as_c s) al of Inl _ \<Rightarrow> Inl (NoSuchName al) | Inr i \<Rightarrow> Inr i, ts, s)"
  using client_reads(1) [OF assms(1,2), of an ts s] assms(3)
  by (simp add: cmd_getPeerIdByAlias_def getPeerIdByAlias_def and_then_def api_def ret_def fail_def split: option.split)

text \<open>
  C22. A command about a peer acts on the peer that its flags name: on the one of the flag \<open>pid\<close>, otherwise
  on the one known peer whose alias is the flag \<open>name\<close>; it fails without a request to change anything when
  both are missing or no peer has that alias.
\<close>

theorem command_by_name:
  assumes "echo_ok w" and "own_server en c cf" and "conf_wf (as_c s)"
  shows "(cx_String c ''pid'' \<noteq> [] \<longrightarrow>
      with_peer en (local_server w an (c_HttpBasicAuth cf)) c action (ts, s) = action (own_client cf) c (ts, s)) \<and>
    (cx_String c ''pid'' = [] \<and> cx_String c ''name'' = [] \<longrightarrow>
      with_peer en (local_server w an (c_HttpBasicAuth cf)) c action (ts, s) = Some (Inl PeerIDOrNameNeeded, ts, s)) \<and>
    (cx_String c ''pid'' = [] \<and> cx_String c ''name'' \<noteq> [] \<longrightarrow>
      (\<forall>i p. GetPeer (as_c s) i = Some p \<and> kp_Alias p = cx_String c ''name'' \<longrightarrow>
         with_peer en (local_server w an (c_HttpBasicAuth cf)) c action (ts, s) = action (own_client cf) (cx_Set ''pid'' i c) (ts, s)) \<and>
      ((\<forall>i p. GetPeer (as_c s) i = Some p \<longrightarrow> kp_Alias p \<noteq> cx_String c ''name'') \<longrightarrow>
         with_peer en (local_server w an (c_HttpBasicAuth cf)) c action (ts, s) = Some (Inl (NoSuchName (cx_String c ''name'')), ts, s)))"
proof -
  let ?net = "local_server w an (c_HttpBasicAuth cf)" and ?al = "cx_String c ''name''"
  note con = own_connection [OF assms(1,2), of an ts s]
  note unf = with_peer_def initApiAndPeerIdRequired_def initApiAndPeerId_def and_then_def ret_def fail_def
  have look: "with_peer en ?net c action (ts, s) =
      (case getPeerIdByAlias (en_x an) (en_view an) (as_c s) ?al of
         Inl _ \<Rightarrow> Some (Inl (NoSuchName ?al), ts, s)
       | Inr i \<Rightarrow> action (own_client cf) (cx_Set ''pid'' i c) (ts, s))" if "cx_String c ''pid'' = []" "?al \<noteq> []"
    using that con lookup_call [OF assms(1) own_login [OF assms(2)] that(2), of an ts s] by (simp add: unf split: sum.split)
  have found: "getPeerIdByAlias (en_x an) (en_view an) (as_c s) ?al = Inr i"
    if "GetPeer (as_c s) i = Some p" "kp_Alias p = ?al" "?al \<noteq> []" for i p
    using alias_lookup [OF assms(3) that(3), of "en_x an" "en_view an" i] that by blast
  have missing: "\<exists>e. getPeerIdByAlias (en_x an) (en_view an) (as_c s) ?al = Inl e"
    if "\<forall>i p. GetPeer (as_c s) i = Some p \<longrightarrow> kp_Alias p \<noteq> ?al" "?al \<noteq> []"
    using alias_lookup [OF assms(3) that(2), of "en_x an" "en_view an"] that(1) by (metis sum.exhaust)
  show ?thesis
  proof (intro conjI impI allI)
    show "with_peer en ?net c action (ts, s) = action (own_client cf) c (ts, s)" if "cx_String c ''pid'' \<noteq> []"
      using that con by (simp add: unf)
    show "with_peer en ?net c action (ts, s) = Some (Inl PeerIDOrNameNeeded, ts, s)" if "cx_String c ''pid'' = [] \<and> ?al = []"
      using that con by (simp add: unf)
  next
    fix i p
    assume "cx_String c ''pid'' = [] \<and> ?al \<noteq> []" "GetPeer (as_c s) i = Some p \<and> kp_Alias p = ?al"
    then show "with_peer en ?net c action (ts, s) = action (own_client cf) (cx_Set ''pid'' i c) (ts, s)"
      using look found [of i p] by simp
  next
    assume "cx_String c ''pid'' = [] \<and> ?al \<noteq> []" "\<forall>i p. GetPeer (as_c s) i = Some p \<longrightarrow> kp_Alias p \<noteq> ?al"
    then show "with_peer en ?net c action (ts, s) = Some (Inl (NoSuchName ?al), ts, s)" using look missing by fastforce
  qed
qed

definition sample_cli :: "Config \<Rightarrow> cli_env" where
  "sample_cli cf =
     \<lparr>ce_conf = Some cf, ce_table = \<lparr>te_time = (\<lambda>_. []), te_usage = (\<lambda>_. []), te_connections = (\<lambda>_. []), te_draw = (\<lambda>_ _. [])\<rparr>,
      ce_qr = id, ce_status = concat \<circ> concat, ce_rates = ([], []), ce_duration = (\<lambda>_. []), ce_debug = (\<lambda>b. Some (text_of b))\<rparr>"

theorem command_by_name_witness:
  "peers_remove (sample_cli zero_Config) (local_server exact_web sample_env (c_HttpBasicAuth zero_Config))
       \<lparr>cx_String = (\<lambda>_. [])(''name'' := ''bob''), cx_Bool = (\<lambda>_. False), cx_Int = (\<lambda>_. 0)\<rparr>
       ([], sample_auth (zero_Config\<lparr>c_KnownPeers := [(''Qm'', sample_peer)]\<rparr>)) =
     cmd_removePeer (local_server exact_web sample_env (c_HttpBasicAuth zero_Config)) (own_client zero_Config) ''Qm''
       ([], sample_auth (zero_Config\<lparr>c_KnownPeers := [(''Qm'', sample_peer)]\<rparr>))"
proof -
  let ?c = "\<lparr>cx_String = (\<lambda>_. [])(''name'' := ''bob''), cx_Bool = (\<lambda>_. False), cx_Int = (\<lambda>_. 0)\<rparr>"
  let ?s = "sample_auth (zero_Config\<lparr>c_KnownPeers := [(''Qm'', sample_peer)]\<rparr>)"
  let ?net = "local_server exact_web sample_env (c_HttpBasicAuth zero_Config)"
  have "own_server (sample_cli zero_Config) ?c zero_Config" by (simp add: own_server_def sample_cli_def zero_Config_def)
  moreover have "conf_wf (as_c ?s)" by (simp add: sample_auth_def conf_wf_def peers_wf_def alias_wf_def gm_wf_def zero_Config_def sample_peer_def)
  moreover have "GetPeer (as_c ?s) ''Qm'' = Some sample_peer \<and> kp_Alias sample_peer = cx_String ?c ''name''"
    by (simp add: sample_auth_def GetPeer_def gm_get_def sample_peer_def)
  ultimately have "with_peer (sample_cli zero_Config) ?net ?c (\<lambda>cl c'. cmd_removePeer ?net cl (cx_String c' ''pid'')) ([], ?s) =
      cmd_removePeer ?net (own_client zero_Config) (cx_String (cx_Set ''pid'' ''Qm'' ?c) ''pid'') ([], ?s)"
    using command_by_name [OF exact_web_ok, of "sample_cli zero_Config" ?c zero_Config ?s sample_env
        "\<lambda>cl c'. cmd_removePeer ?net cl (cx_String c' ''pid'')" "[]"] by auto
  then show ?thesis by (simp add: peers_remove_def cx_Set_def)
qed

end
