(* ===== verification/P2p_Network.thy ===== *)
theory P2p_Network
  imports Awl_P2p Awl_Application Go_Duration Go_Json
begin

text \<open>
  The running host: bootstrapping, the background rounds that keep connections to the known and
  the bootstrap peers (\<open>src/p2p/p2p.go\<close>), and what is reported about connections and streams
  (\<open>src/p2p/metrics.go\<close>). The network, the peer store, the routing table and multiaddresses are
  libp2p's: their answers are arguments.
\<close>

section \<open>Connections\<close>

datatype direction = DirUnknown | DirInbound | DirOutbound

definition dir_String :: "direction \<Rightarrow> string" where
  \<comment> \<open>in lower case, as everywhere here\<close>
  "dir_String d = (case d of DirUnknown \<Rightarrow> ''unknown'' | DirInbound \<Rightarrow> ''inbound'' | DirOutbound \<Rightarrow> ''outbound'')"

text \<open>A connection: remote peer and address, its statistics and its streams with their protocols.\<close>

record 'm conn =
  cn_peer :: string
  cn_remote :: 'm
  cn_direction :: direction
  cn_opened :: int
  cn_limited :: bool
  cn_numStreams :: int
  cn_streams :: "(string \<times> direction) list"

text \<open>What is read from a multiaddress; the codes of the protocols are the library's constants.\<close>

record 'm multiaddr_ops =
  mo_String :: "'m \<Rightarrow> string"
  mo_Protocols :: "'m \<Rightarrow> (int \<times> string) list"
  mo_Value :: "'m \<Rightarrow> int \<Rightarrow> string option"
  mo_TCP :: int
  mo_QUIC :: int
  mo_QUIC_V1 :: int
  mo_CIRCUIT :: int
  mo_P2P :: int

definition connsToPeer :: "'m conn list \<Rightarrow> string \<Rightarrow> 'm conn list" where
  "connsToPeer conns peerID = filter (\<lambda>c. cn_peer c = peerID) conns"

definition peerAddressesString :: "'m multiaddr_ops \<Rightarrow> 'm conn list \<Rightarrow> string \<Rightarrow> string list" where
  "peerAddressesString mo conns peerID = map (\<lambda>c. mo_String mo (cn_remote c)) (connsToPeer conns peerID)"

section \<open>Bootstrapping\<close>

text \<open>
  One goroutine per bootstrap peer connects, and one waits: for at least two of them, but not longer
  than three seconds. \<open>bootstrap_wait n\<close> has \<open>n\<close> rounds to go; its result is \<open>None\<close> while it
  waits, and otherwise what happens after the routing table has been started.
\<close>

datatype boot_event = BootConnected | BootFailed | BootTimeout

fun bootstrap_wait :: "nat \<Rightarrow> boot_event list \<Rightarrow> boot_event list option" where
  "bootstrap_wait 0 evs = Some evs"
| "bootstrap_wait (Suc n) [] = None"
| "bootstrap_wait (Suc n) (ev # evs) =
     (case ev of
        BootConnected \<Rightarrow> bootstrap_wait n evs
      | BootFailed \<Rightarrow> bootstrap_wait (Suc n) evs
      | BootTimeout \<Rightarrow> Some evs)"

definition Bootstrap :: "'i list \<Rightarrow> boot_event list \<Rightarrow> boot_event list option" where
  "Bootstrap bootstrapPeers evs = bootstrap_wait (min 2 (length bootstrapPeers)) evs"

section \<open>Background rounds\<close>

text \<open>
  The parts of the host that a round changes: who is connected, the tags that protect a peer from
  trimming, the dial back-offs that are still set, the measured latencies and the stored report.
\<close>

record BootstrapPeerDebugInfo =
  bi_Error :: string
  bi_Connections :: "string list"
  bi_Ping :: int

record net_state =
  ns_connected :: "string \<Rightarrow> bool"
  ns_protected :: "(string \<times> string) list"
  ns_backoff :: "string \<Rightarrow> bool"
  ns_latency :: "string \<Rightarrow> int"
  ns_bootstrapsInfo :: "(string \<rightharpoonup> BootstrapPeerDebugInfo) option"

definition protectedBootstrapPeerTag :: string where
  "protectedBootstrapPeerTag = ''bootstrap''"

definition protectedPeerTag :: string where
  "protectedPeerTag = ''known''"

definition Protect :: "string \<Rightarrow> string \<Rightarrow> net_state \<Rightarrow> net_state" where
  "Protect tag peerID s = s\<lparr>ns_protected := List.insert (peerID, tag) (ns_protected s)\<rparr>"

definition ProtectPeer :: "string \<Rightarrow> net_state \<Rightarrow> net_state" where
  "ProtectPeer peerID s = Protect protectedPeerTag peerID s"

definition UnprotectPeer :: "string \<Rightarrow> net_state \<Rightarrow> net_state" where
  "UnprotectPeer peerID s = s\<lparr>ns_protected := removeAll (peerID, protectedPeerTag) (ns_protected s)\<rparr>"

definition ClearBackoff :: "string \<Rightarrow> net_state \<Rightarrow> net_state" where
  "ClearBackoff peerID s = s\<lparr>ns_backoff := (ns_backoff s)(peerID := False)\<rparr>"

definition BootstrapPeersStats :: "(string \<Rightarrow> bool) \<Rightarrow> string list \<Rightarrow> nat \<times> nat" where
  "BootstrapPeersStats isConnected bootstrapPeers =
     (length bootstrapPeers, foldl (\<lambda>n i. if isConnected i then n + 1 else n) 0 bootstrapPeers)"

text \<open>
  What the network answers during a round: the address found for a peer, the error of dialling one (given
  whether its back-off is set), the latency after pinging it and its addresses. \<open>re_counted\<close> is explained below.
\<close>

record round_env =
  re_counted :: nat
  re_find :: "string \<Rightarrow> string option"
  re_dial :: "string \<Rightarrow> bool \<Rightarrow> string option"
  re_ping :: "string \<Rightarrow> int"
  re_addrs :: "string \<Rightarrow> string list"

definition set_connected :: "string \<Rightarrow> net_state \<Rightarrow> net_state" where
  "set_connected peerID s = s\<lparr>ns_connected := (ns_connected s)(peerID := True)\<rparr>"

definition ping_peer :: "round_env \<Rightarrow> string \<Rightarrow> net_state \<Rightarrow> net_state" where
  "ping_peer e peerID s = s\<lparr>ns_latency := (ns_latency s)(peerID := re_ping e peerID)\<rparr>"

text \<open>The goroutine of a known peer, with \<open>ConnectPeer\<close>.\<close>

definition known_peer_round :: "round_env \<Rightarrow> string \<Rightarrow> net_state \<Rightarrow> net_state" where
  "known_peer_round e peerID s0 =
     (let s = ProtectPeer peerID s0
      in if ConnectPeer (ns_connected s peerID) (re_find e peerID) (\<lambda>_. re_dial e peerID (ns_backoff s peerID) = None) \<noteq> None
         then s else ping_peer e peerID (set_connected peerID s))"

text \<open>The goroutine of a bootstrap peer; \<open>host.Connect\<close> returns at once when connected.\<close>

definition bootstrap_peer_round :: "round_env \<Rightarrow> nat \<Rightarrow> string \<Rightarrow> net_state \<Rightarrow> BootstrapPeerDebugInfo \<times> net_state" where
  "bootstrap_peer_round e connectedCount peerID s0 =
     (let s1 = Protect protectedBootstrapPeerTag peerID s0;
          s2 = (if connectedCount \<le> 2 then ClearBackoff peerID s1 else s1);
          err = (if ns_connected s2 peerID then None else re_dial e peerID (ns_backoff s2 peerID));
          s3 = (if err = None then ping_peer e peerID (set_connected peerID s2) else s2)
      in (\<lparr>bi_Error = (case err of None \<Rightarrow> [] | Some t \<Rightarrow> t), bi_Connections = re_addrs e peerID, bi_Ping = ns_latency s3 peerID\<rparr>, s3))"

fun bootstrap_rounds ::
    "round_env \<Rightarrow> nat \<Rightarrow> string list \<Rightarrow> (string \<rightharpoonup> BootstrapPeerDebugInfo) \<Rightarrow> net_state \<Rightarrow> (string \<rightharpoonup> BootstrapPeerDebugInfo) \<times> net_state" where
  "bootstrap_rounds e n [] infos s = (infos, s)"
| "bootstrap_rounds e n (p # ps) infos s =
     (case bootstrap_peer_round e n p s of (info, s') \<Rightarrow> bootstrap_rounds e n ps (infos(p \<mapsto> info)) s')"

text \<open>
  The goroutines work on one peer each; the model runs them in the order they are started. The
  connected bootstrap peers are counted while those of the known peers run, so that any number of
  them may have connected by then: \<open>re_counted\<close> is the number that is found.
\<close>

definition connectToKnownPeers :: "round_env \<Rightarrow> string list \<Rightarrow> string list \<Rightarrow> net_state \<Rightarrow> net_state" where
  "connectToKnownPeers e bootstrapPeers peerIds s =
     (let s1 = fold (known_peer_round e) peerIds s;
          (infos, s2) = bootstrap_rounds e (re_counted e) bootstrapPeers Map.empty s1
      in s2\<lparr>ns_bootstrapsInfo := Some infos\<rparr>)"

text \<open>
  The schedule of the rounds: after the bootstrap, once more after five seconds, then at every tick, until the
  context ends. \<open>known\<close> are the peers known at each round.
\<close>

datatype maintain = WaitBootstrap | WaitRetry | Ticking | MaintainEnded

datatype maintain_event = CtxDone | BootstrapFinished | RetryDelayPassed | TickerFired

definition maintain_step :: "maintain_event \<Rightarrow> maintain \<Rightarrow> bool \<times> maintain" where
  \<comment> \<open>whether a round is made\<close>
  "maintain_step ev m =
     (case (m, ev) of
        (WaitBootstrap, CtxDone) \<Rightarrow> (False, MaintainEnded)
      | (WaitBootstrap, BootstrapFinished) \<Rightarrow> (True, WaitRetry)
      | (WaitRetry, CtxDone) \<Rightarrow> (False, MaintainEnded)
      | (WaitRetry, RetryDelayPassed) \<Rightarrow> (True, Ticking)
      | (Ticking, CtxDone) \<Rightarrow> (False, MaintainEnded)
      | (Ticking, TickerFired) \<Rightarrow> (True, Ticking)
      | _ \<Rightarrow> (False, m))"

fun MaintainBackgroundConnections ::
    "(round_env \<times> string list \<times> maintain_event) list \<Rightarrow> string list \<Rightarrow> maintain \<Rightarrow> net_state \<Rightarrow> maintain \<times> net_state" where
  "MaintainBackgroundConnections [] bootstrapPeers m s = (m, s)"
| "MaintainBackgroundConnections ((e, known, ev) # evs) bootstrapPeers m s =
     (case maintain_step ev m of (round, m') \<Rightarrow>
        MaintainBackgroundConnections evs bootstrapPeers m'
          (if round then connectToKnownPeers e bootstrapPeers known s else s))"

section \<open>Reports\<close>

record ConnectionInfo =
  ci_Multiaddr :: string
  ci_ThroughRelay :: bool
  ci_RelayPeerID :: string
  ci_Address :: string
  ci_Protocol :: string
  ci_Direction :: string
  ci_Opened :: int
  ci_Transient :: bool

definition value_or :: "string option \<Rightarrow> string" where
  "value_or v = (case v of None \<Rightarrow> [] | Some x \<Rightarrow> x)"

definition parseMultiaddrToInfo :: "'m multiaddr_ops \<Rightarrow> 'm \<Rightarrow> ConnectionInfo \<times> bool" where
  "parseMultiaddrToInfo mo addr =
     (let info = \<lparr>ci_Multiaddr = mo_String mo addr, ci_ThroughRelay = False, ci_RelayPeerID = [], ci_Address = [], ci_Protocol = [],
            ci_Direction = [], ci_Opened = 0, ci_Transient = False\<rparr>;
          protocols = mo_Protocols mo addr;
          address = JoinHostPort (value_or (mo_Value mo addr (fst (protocols ! 0)))) (value_or (mo_Value mo addr (fst (protocols ! 1))))
      in if length protocols = 2 \<and> fst (protocols ! 1) = mo_TCP mo
         then (info\<lparr>ci_Protocol := snd (protocols ! 1), ci_Address := address\<rparr>, True)
         else if length protocols = 3 \<and> (fst (protocols ! 2) = mo_QUIC mo \<or> fst (protocols ! 2) = mo_QUIC_V1 mo)
         then (info\<lparr>ci_Protocol := ''quic'', ci_Address := address\<rparr>, True)
         else if mo_Value mo addr (mo_CIRCUIT mo) \<noteq> None
         then (info\<lparr>ci_ThroughRelay := True, ci_RelayPeerID := value_or (mo_Value mo addr (mo_P2P mo))\<rparr>, True)
         else (info, False))"

text \<open>The logger of a release does not panic at an address that cannot be read.\<close>

definition PeerConnectionsInfo :: "'m multiaddr_ops \<Rightarrow> 'm conn list \<Rightarrow> string \<Rightarrow> ConnectionInfo list" where
  "PeerConnectionsInfo mo conns peerID =
     map (\<lambda>c. (fst (parseMultiaddrToInfo mo (cn_remote c)))
            \<lparr>ci_Direction := dir_String (cn_direction c), ci_Opened := cn_opened c, ci_Transient := cn_limited c\<rparr>)
       (connsToPeer conns peerID)"

definition OpenStreamsCount :: "'m conn list \<Rightarrow> int" where
  "OpenStreamsCount conns = foldl (\<lambda>count c. count + cn_numStreams c) 0 conns"

definition count_stream :: "string \<times> direction \<Rightarrow> (string \<rightharpoonup> (string \<rightharpoonup> nat)) \<Rightarrow> (string \<rightharpoonup> (string \<rightharpoonup> nat))" where
  "count_stream st stats =
     (case st of (proto, d) \<Rightarrow>
        let direction = dir_String d;
            protocolStats = (case stats proto of None \<Rightarrow> Map.empty | Some m \<Rightarrow> m);
            n = (case protocolStats direction of None \<Rightarrow> 0 | Some k \<Rightarrow> k)
        in stats(proto \<mapsto> protocolStats(direction \<mapsto> n + 1)))"

definition OpenStreamStats :: "'m conn list \<Rightarrow> (string \<rightharpoonup> (string \<rightharpoonup> nat))" where
  "OpenStreamStats conns = fold (\<lambda>c. fold count_stream (cn_streams c)) conns Map.empty"

definition PeerUserAgent :: "(string \<Rightarrow> string option) \<Rightarrow> string \<Rightarrow> string" where
  "PeerUserAgent agentVersion peerID = (case agentVersion peerID of Some version \<Rightarrow> version | None \<Rightarrow> [])"

definition ConnectionsLastTrimAgo :: "int \<Rightarrow> int option \<Rightarrow> int \<Rightarrow> int" where
  \<comment> \<open>the time, the last trimming if there was one, and the start\<close>
  "ConnectionsLastTrimAgo now lastTrim startedAt = now - (case lastTrim of None \<Rightarrow> startedAt | Some t \<Rightarrow> t)"

definition BootstrapPeersStatsDetailed :: "net_state \<Rightarrow> (string \<rightharpoonup> BootstrapPeerDebugInfo) option" where
  "BootstrapPeersStatsDetailed s = ns_bootstrapsInfo s"

definition Duration_MarshalJSON :: "int \<Rightarrow> json" where
  "Duration_MarshalJSON d = JStr (duration_String d)"

text \<open>A null leaves the text empty, which is no duration.\<close>

definition Duration_UnmarshalJSON :: "(nat \<Rightarrow> nat \<Rightarrow> nat \<Rightarrow> nat) \<Rightarrow> json \<Rightarrow> int option" where
  "Duration_UnmarshalJSON frac v =
     (case v of JStr s \<Rightarrow> ParseDuration frac s | JNull \<Rightarrow> ParseDuration frac [] | _ \<Rightarrow> None)"

section \<open>Bootstrapping ends\<close>

lemma bootstrap_wait_timeout: "BootTimeout \<in> set evs \<Longrightarrow> bootstrap_wait n evs \<noteq> None"
  by (induction n evs rule: bootstrap_wait.induct) (auto split: boot_event.splits)

lemma bootstrap_wait_early:
  "BootTimeout \<notin> set evs \<Longrightarrow> bootstrap_wait n evs \<noteq> None \<longleftrightarrow> n \<le> count_list evs BootConnected"
  by (induction n evs rule: bootstrap_wait.induct) (auto split: boot_event.splits)

text \<open>
  The routing table is always started: at the latest when the time is over, and before that exactly when two
  bootstrap peers, or the only one, have been connected.
\<close>

theorem bootstrap_finishes:
  "(BootTimeout \<in> set evs \<longrightarrow> Bootstrap peers evs \<noteq> None) \<and>
   (BootTimeout \<notin> set evs \<longrightarrow> (Bootstrap peers evs \<noteq> None \<longleftrightarrow> min 2 (length peers) \<le> count_list evs BootConnected))"
  using bootstrap_wait_timeout bootstrap_wait_early by (simp add: Bootstrap_def)

section \<open>A round\<close>

definition known_reached :: "round_env \<Rightarrow> net_state \<Rightarrow> string \<Rightarrow> bool" where
  "known_reached e s p \<longleftrightarrow> re_find e p \<noteq> None \<and> re_dial e p (ns_backoff s p) = None"

text \<open>The error of dialling a bootstrap peer, whose back-off may have been cleared.\<close>

definition boot_err :: "round_env \<Rightarrow> net_state \<Rightarrow> string \<Rightarrow> string option" where
  "boot_err e s p = re_dial e p (ns_backoff s p \<and> 2 < re_counted e)"

lemmas round_ops = Protect_def ProtectPeer_def ClearBackoff_def set_connected_def ping_peer_def

lemma known_peer_step:
  "ns_connected (known_peer_round e p s) = (\<lambda>q. ns_connected s q \<or> q = p \<and> known_reached e s q)"
  "ns_backoff (known_peer_round e p s) = ns_backoff s"
  "set (ns_protected (known_peer_round e p s)) = insert (p, protectedPeerTag) (set (ns_protected s))"
  by (auto simp: known_peer_round_def round_ops ConnectPeer_def known_reached_def fun_eq_iff Let_def split: option.splits)

lemma known_rounds:
  "ns_connected (fold (known_peer_round e) ps s) = (\<lambda>q. ns_connected s q \<or> q \<in> set ps \<and> known_reached e s q) \<and>
   ns_backoff (fold (known_peer_round e) ps s) = ns_backoff s \<and>
   set (ns_protected (fold (known_peer_round e) ps s)) = (\<lambda>q. (q, protectedPeerTag)) ` set ps \<union> set (ns_protected s)"
proof (induction ps arbitrary: s)
  case (Cons p ps)
  then show ?case by (simp add: known_peer_step known_reached_def fun_eq_iff) auto
qed simp

text \<open>The report of a peer agrees with whether it is connected in the end.\<close>

definition report_ok :: "round_env \<Rightarrow> net_state \<Rightarrow> net_state \<Rightarrow> string \<Rightarrow> BootstrapPeerDebugInfo \<Rightarrow> bool" where
  "report_ok e s s' p info \<longleftrightarrow> (if ns_connected s' p then bi_Error info = [] else boot_err e s p = Some (bi_Error info))"

lemma bootstrap_peer_step:
  assumes "bootstrap_peer_round e (re_counted e) p s = (info, s')"
  shows "ns_connected s' = (\<lambda>q. ns_connected s q \<or> q = p \<and> boot_err e s q = None)"
    "boot_err e s' = boot_err e s"
    "set (ns_protected s') = insert (p, protectedBootstrapPeerTag) (set (ns_protected s))"
    "report_ok e s s' p info"
  using assms
  by (auto simp: bootstrap_peer_round_def round_ops boot_err_def report_ok_def fun_eq_iff Let_def split: if_splits option.splits)

lemma bootstrap_rounds_effect:
  assumes "bootstrap_rounds e (re_counted e) ps infos s = (infos', s')"
  shows "ns_connected s' = (\<lambda>q. ns_connected s q \<or> q \<in> set ps \<and> boot_err e s q = None) \<and>
    set (ns_protected s') = (\<lambda>q. (q, protectedBootstrapPeerTag)) ` set ps \<union> set (ns_protected s) \<and>
    (\<forall>q. if q \<in> set ps then \<exists>i. infos' q = Some i \<and> report_ok e s s' q i else infos' q = infos q)"
  using assms
proof (induction ps arbitrary: infos s)
  case (Cons p ps)
  obtain info s1 where p: "bootstrap_peer_round e (re_counted e) p s = (info, s1)" by fastforce
  note st = bootstrap_peer_step [OF p]
  have rest: "bootstrap_rounds e (re_counted e) ps (infos(p \<mapsto> info)) s1 = (infos', s')" using Cons.prems p by simp
  note ih = Cons.IH [OF rest]
  then have con: "ns_connected s' = (\<lambda>q. ns_connected s q \<or> q \<in> set (p # ps) \<and> boot_err e s q = None)"
    using st(1,2) by (auto simp: fun_eq_iff)
  have same: "report_ok e s1 s' q i = report_ok e s s' q i" for q i by (simp add: report_ok_def st(2))
  have now: "infos' p = Some info \<and> report_ok e s s' p info" if "p \<notin> set ps"
  proof -
    have "ns_connected s' p = ns_connected s1 p" using ih that by simp
    then show ?thesis using ih that st(4) by (auto simp: report_ok_def)
  qed
  have reports: "if q \<in> set (p # ps) then \<exists>i. infos' q = Some i \<and> report_ok e s s' q i else infos' q = infos q" for q
  proof -
    have "if q \<in> set ps then \<exists>i. infos' q = Some i \<and> report_ok e s s' q i else infos' q = (infos(p \<mapsto> info)) q"
      using ih unfolding same by blast
    with now show ?thesis by (cases "q \<in> set ps"; cases "q = p") simp_all
  qed
  show ?case using con reports ih st(3) by auto
qed simp

section \<open>Properties\<close>

text \<open>
  C24. A background round connects and protects: afterwards every known and every bootstrap peer is protected by
  its tag; exactly those peers are connected that were, that are known, found and dialled
  successfully, or that are bootstrap peers dialled successfully, with their back-off cleared when at most two
  bootstrap peers were connected; and the stored report has an entry for exactly the bootstrap peers,
  without an error if the peer is connected and with the dialling error otherwise.
\<close>

theorem background_round:
  fixes e boots ids s
  defines "s' \<equiv> connectToKnownPeers e boots ids s"
  shows "(\<forall>p. (p \<in> set ids \<longrightarrow> (p, protectedPeerTag) \<in> set (ns_protected s')) \<and>
        (p \<in> set boots \<longrightarrow> (p, protectedBootstrapPeerTag) \<in> set (ns_protected s'))) \<and>
    (\<forall>p. ns_connected s' p \<longleftrightarrow> ns_connected s p \<or> p \<in> set ids \<and> known_reached e s p \<or> p \<in> set boots \<and> boot_err e s p = None) \<and>
    (\<exists>infos. BootstrapPeersStatsDetailed s' = Some infos \<and> dom infos = set boots \<and>
       (\<forall>p i. infos p = Some i \<longrightarrow> report_ok e s s' p i))"
proof -
  let ?s1 = "fold (known_peer_round e) ids s"
  note k = known_rounds [of e ids s]
  obtain infos s2 where b: "bootstrap_rounds e (re_counted e) boots Map.empty ?s1 = (infos, s2)" by fastforce
  note r = bootstrap_rounds_effect [OF b]
  have err: "boot_err e ?s1 = boot_err e s" using k by (auto simp: boot_err_def fun_eq_iff)
  have s': "s' = s2\<lparr>ns_bootstrapsInfo := Some infos\<rparr>" using b by (simp add: s'_def connectToKnownPeers_def)
  have rep: "report_ok e ?s1 s2 p i = report_ok e s s' p i" for p i by (simp add: report_ok_def s' err)
  have dom: "dom infos = set boots" "\<forall>p i. infos p = Some i \<longrightarrow> report_ok e s s' p i"
    using r by (auto simp: rep dom_def split: if_splits) (metis option.distinct(1) option.inject)+
  show ?thesis using r k dom unfolding s' BootstrapPeersStatsDetailed_def by (auto simp: err)
qed

definition sample_round :: round_env where
  "sample_round = \<lparr>re_counted = 0, re_find = (\<lambda>_. Some ''/ip4/10.0.0.1''), re_dial = (\<lambda>_ backoff. if backoff then Some ''dial backoff'' else None),
     re_ping = (\<lambda>_. 20), re_addrs = (\<lambda>_. [])\<rparr>"

definition sample_net :: net_state where
  "sample_net = \<lparr>ns_connected = (\<lambda>_. False), ns_protected = [], ns_backoff = (\<lambda>_. True), ns_latency = (\<lambda>_. 0), ns_bootstrapsInfo = None\<rparr>"

theorem background_round_witness:
  "let s' = connectToKnownPeers sample_round [''boot''] [''bob''] sample_net
   in (''bob'', ''known'') \<in> set (ns_protected s') \<and> ns_connected s' ''boot'' \<and> \<not> ns_connected s' ''bob''"
  using background_round [where e = sample_round and boots = "[''boot'']" and ids = "[''bob'']" and s = sample_net]
  by (simp add: Let_def protectedPeerTag_def boot_err_def known_reached_def sample_round_def sample_net_def)

text \<open>
  Measured latencies survive their text form: a duration of the range of \<open>int64\<close>, printed for JSON, is read
  back as the same number of nanoseconds, provided that the floating-point product for a fraction is exact
  where the unit is a power of ten of at most nine digits and the fraction has no more digits.
\<close>

theorem duration_json_roundtrip:
  assumes "exact frac" and "- (2 ^ 63) \<le> d" and "d < 2 ^ 63"
  shows "Duration_UnmarshalJSON frac (Duration_MarshalJSON d) = Some d"
  using duration_reads_back [OF assms] by (simp add: Duration_UnmarshalJSON_def Duration_MarshalJSON_def)

theorem duration_json_roundtrip_witness:
  "Duration_UnmarshalJSON (\<lambda>f n unit. f * (unit div 10 ^ n)) (Duration_MarshalJSON (- 1500)) = Some (- 1500)"
proof -
  have "exact (\<lambda>f n unit. f * (unit div 10 ^ n))" by (simp add: exact_def power_diff)
  from duration_json_roundtrip [OF this, of "- 1500"] show ?thesis by simp
qed

text \<open>The statistics of streams count every stream under its protocol and direction.\<close>

definition streams_of :: "'m conn list \<Rightarrow> (string \<times> direction) list" where
  "streams_of conns = concat (map cn_streams conns)"

definition stat_of :: "(string \<rightharpoonup> (string \<rightharpoonup> nat)) \<Rightarrow> string \<Rightarrow> string \<Rightarrow> nat" where
  "stat_of stats proto dir = (case stats proto of None \<Rightarrow> 0 | Some m \<Rightarrow> (case m dir of None \<Rightarrow> 0 | Some n \<Rightarrow> n))"

lemma dir_String_inj: "dir_String a = dir_String b \<longleftrightarrow> a = b"
  by (cases a; cases b) (simp_all add: dir_String_def)

lemma count_stream_stat:
  "stat_of (count_stream (p, d) stats) q (dir_String d') = stat_of stats q (dir_String d') + (if p = q \<and> d = d' then 1 else 0)"
  by (auto simp: stat_of_def count_stream_def dir_String_inj Let_def split: option.splits)

lemma fold_count_stat:
  "stat_of (fold count_stream sts stats) q (dir_String d) = stat_of stats q (dir_String d) + count_list sts (q, d)"
proof (induction sts arbitrary: stats)
  case (Cons st sts)
  then show ?case by (cases st) (auto simp: count_stream_stat)
qed simp

lemma OpenStreamStats_counts: "stat_of (OpenStreamStats conns) q (dir_String d) = count_list (streams_of conns) (q, d)"
proof -
  have "fold (\<lambda>c. fold count_stream (cn_streams c)) conns m = fold count_stream (streams_of conns) m" for m
    by (induction conns arbitrary: m) (simp_all add: streams_of_def)
  then show ?thesis by (simp add: OpenStreamStats_def fold_count_stat) (simp add: stat_of_def)
qed

lemma BootstrapPeersStats_eq: "BootstrapPeersStats con ps = (length ps, length (filter con ps))"
proof -
  have "foldl (\<lambda>n i. if con i then n + 1 else n) k ps = k + length (filter con ps)" for k
    by (induction ps arbitrary: k) simp_all
  then show ?thesis by (simp add: BootstrapPeersStats_def)
qed

text \<open>After the bootstrap there is a round, and then at most one for every event; the end of the context ends them.\<close>

lemma maintain_ended: "fst (MaintainBackgroundConnections evs boots MaintainEnded s) = MaintainEnded \<and>
    snd (MaintainBackgroundConnections evs boots MaintainEnded s) = s"
  by (induction evs arbitrary: s) (auto simp: maintain_step_def split: maintain_event.splits)

lemma maintain_ctx_done:
  "MaintainBackgroundConnections ((e, known, CtxDone) # evs) boots m s = (MaintainEnded, s)"
  using maintain_ended [of evs boots s] by (cases m) (simp_all add: maintain_step_def prod_eq_iff)

end
