(* ===== verification/Api_Stats.thy ===== *)
theory Api_Stats
  imports Awl_Api P2p_Network
begin

text \<open>
  The statistics that the program reports: the debug information of \<open>src/api/debug.go\<close> with its
  amounts of data as texts, and the gauges that \<open>src/metrics/metrics.go\<close> sets every two seconds. A
  double is its exact value. The counters themselves are libp2p's.
\<close>

section \<open>Amounts of data\<close>

definition round_half_even :: "nat \<Rightarrow> nat \<Rightarrow> nat" where
  "round_half_even n d =
     (let q = n div d; r = n mod d in if 2 * r < d \<or> 2 * r = d \<and> even q then q else q + 1)"

fun bit_count :: "nat \<Rightarrow> nat" where
  "bit_count n = (if n = 0 then 0 else Suc (bit_count (n div 2)))"

declare bit_count.simps [simp del]

text \<open>The double nearest to a number below \<open>2 ^ 63\<close>: 53 significant bits.\<close>

definition float64_of :: "nat \<Rightarrow> nat" where
  "float64_of b = (let e = bit_count b - 53 in round_half_even b (2 ^ e) * 2 ^ e)"

fun iec_loop :: "nat \<Rightarrow> nat \<Rightarrow> nat \<Rightarrow> nat \<times> nat" where
  "iec_loop n d k = (if 1024 \<le> n then iec_loop (n div 1024) (d * 1024) (k + 1) else (d, k))"

declare iec_loop.simps [simp del]

text \<open>Tenths with one decimal, rounded as \<open>%.1f\<close> does: exactly, and halves to the even digit.\<close>

definition tenths_text :: "nat \<Rightarrow> string" where
  "tenths_text t = itoa (t div 10) @ ''.'' @ itoa (t mod 10)"

definition byteCountIEC :: "int \<Rightarrow> string option" where
  \<comment> \<open>\<open>None\<close> is an index out of range\<close>
  "byteCountIEC b =
     (if b < 1024 then Some ((if b < 0 then CHR ''-'' # itoa (nat (- b)) else itoa (nat b)) @ '' B'')
      else case iec_loop (nat b div 1024) 1024 0 of (d, k) \<Rightarrow>
        if k < length ''KMGTPE''
        then Some (tenths_text (round_half_even (10 * float64_of (nat b)) d) @ '' '' @ [''KMGTPE'' ! k] @ ''iB'')
        else None)"

text \<open>The totals and rates of libp2p; the rates are truncated doubles.\<close>

record stats =
  st_TotalIn :: int
  st_TotalOut :: int
  st_RateIn :: int
  st_RateOut :: int

record BandwidthInfo =
  bw_TotalIn :: string
  bw_TotalOut :: string
  bw_RateIn :: string
  bw_RateOut :: string

definition makeBandwidthInfo :: "stats \<Rightarrow> BandwidthInfo option" where
  "makeBandwidthInfo s =
     (case (byteCountIEC (st_TotalIn s), byteCountIEC (st_TotalOut s), byteCountIEC (st_RateIn s), byteCountIEC (st_RateOut s)) of
        (Some a, Some b, Some c, Some d) \<Rightarrow> Some \<lparr>bw_TotalIn = a, bw_TotalOut = b, bw_RateIn = c, bw_RateOut = d\<rparr>
      | _ \<Rightarrow> None)"

section \<open>Debug information\<close>

definition maToStrings :: "('m \<Rightarrow> string) \<Rightarrow> 'm list \<Rightarrow> string list" where
  "maToStrings str addrs = sort (map str addrs)"

record GeneralDebugInfo =
  gd_Version :: string
  gd_Uptime :: string

record DhtDebugInfo =
  dh_RoutingTableSize :: int
  dh_RoutingTable :: "string list"
  dh_Reachability :: string
  dh_ListenAddress :: "string list"
  dh_PeersWithAddrsCount :: int
  dh_ReachableAddrs :: "string list"
  dh_UnreachableAddrs :: "string list"
  dh_UnknownAddrs :: "string list"
  dh_BootstrapPeers :: "(string \<rightharpoonup> BootstrapPeerDebugInfo) option"

record ConnectionsDebugInfo =
  cd_ConnectedPeersCount :: int
  cd_OpenConnectionsCount :: int
  cd_OpenStreamsCount :: int
  cd_LastTrimAgo :: string

record BandwidthDebugInfo =
  bd_Total :: BandwidthInfo
  bd_ByProtocol :: "(string \<times> BandwidthInfo) list"

record P2pDebugInfo =
  pd_General :: GeneralDebugInfo
  pd_DHT :: DhtDebugInfo
  pd_Connections :: ConnectionsDebugInfo
  pd_Bandwidth :: BandwidthDebugInfo
  pd_KnownPeers :: "KnownPeersResponse list"

text \<open>What the host answers; an entry of the routing table is a text here.\<close>

record 'm host_view =
  hv_now :: int
  hv_startedAt :: int
  hv_routingTable :: "string list"
  hv_reachability :: string
  hv_announced :: "'m list"
  hv_peersWithAddrs :: "string list"
  hv_reachable :: "'m list"
  hv_unreachable :: "'m list"
  hv_unknown :: "'m list"
  hv_peers :: "string list"
  hv_connCount :: int
  hv_conns :: "'m conn list"
  hv_lastTrim :: "int option"
  hv_stats :: stats
  hv_statsByProtocol :: "(string \<times> stats) list"
  hv_bootstrapPeers :: "string list"
  hv_latency :: "string \<Rightarrow> int"

definition Uptime :: "'m host_view \<Rightarrow> int" where
  "Uptime h = hv_now h - hv_startedAt h"

definition bandwidth_by_protocol :: "(string \<times> stats) list \<Rightarrow> (string \<times> BandwidthInfo) list option" where
  "bandwidth_by_protocol ps =
     those (map (\<lambda>(p, s). map_option (Pair p) (makeBandwidthInfo s)) ps)"

definition GetP2pDebugInfo ::
    "('m \<Rightarrow> string) \<Rightarrow> externals \<Rightarrow> p2p_view \<Rightarrow> string \<Rightarrow> 'm host_view \<Rightarrow> net_state \<Rightarrow> Config \<Rightarrow> P2pDebugInfo option" where
  "GetP2pDebugInfo str x v version h ns c =
     (case (bandwidth_by_protocol (hv_statsByProtocol h), makeBandwidthInfo (hv_stats h)) of
        (Some byProtocol, Some tot) \<Rightarrow>
          Some \<lparr>pd_General = \<lparr>gd_Version = version, gd_Uptime = duration_String (Uptime h)\<rparr>,
            pd_DHT = \<lparr>dh_RoutingTableSize = int (length (hv_routingTable h)), dh_RoutingTable = hv_routingTable h,
              dh_Reachability = hv_reachability h, dh_ListenAddress = maToStrings str (hv_announced h),
              dh_PeersWithAddrsCount = int (length (hv_peersWithAddrs h)), dh_ReachableAddrs = maToStrings str (hv_reachable h),
              dh_UnreachableAddrs = maToStrings str (hv_unreachable h), dh_UnknownAddrs = maToStrings str (hv_unknown h),
              dh_BootstrapPeers = BootstrapPeersStatsDetailed ns\<rparr>,
            pd_Connections = \<lparr>cd_ConnectedPeersCount = int (length (hv_peers h)), cd_OpenConnectionsCount = hv_connCount h,
              cd_OpenStreamsCount = OpenStreamsCount (hv_conns h),
              cd_LastTrimAgo = duration_String (ConnectionsLastTrimAgo (hv_now h) (hv_lastTrim h) (hv_startedAt h))\<rparr>,
            pd_Bandwidth = \<lparr>bd_Total = tot, bd_ByProtocol = byProtocol\<rparr>,
            pd_KnownPeers = getKnownPeers x v c\<rparr>
      | _ \<Rightarrow> None)"

section \<open>Gauges\<close>

definition GetBlockedPeersCount :: "Config \<Rightarrow> nat" where
  "GetBlockedPeersCount c = length (c_BlockedPeers c)"

record gauges =
  ga_PeersKnownTotal :: int
  ga_PeersConfirmedTotal :: int
  ga_PeersConnected :: int
  ga_PeersBlockedTotal :: int
  ga_PeersAuthRequestsIngoing :: int
  ga_PeersAuthRequestsOutgoing :: int
  ga_P2PConnectedPeers :: int
  ga_P2POpenConnections :: int
  ga_P2POpenStreams :: int
  ga_P2PDHTRoutingTableSize :: int
  ga_P2PBootstrapPeersTotal :: int
  ga_P2PBootstrapPeersConnected :: int
  ga_P2PPeerLatency :: "string \<rightharpoonup> int"
  ga_NodeUptime :: int

text \<open>Latency and uptime are in nanoseconds here and in seconds there.\<close>

definition updateGauges ::
    "externals \<Rightarrow> (string \<Rightarrow> bool) \<Rightarrow> Config \<Rightarrow> AuthStatus \<Rightarrow> 'm host_view \<Rightarrow> int \<Rightarrow> gauges \<Rightarrow> gauges" where
  "updateGauges x isConnected c auth h startTime g =
     (case GetKnownPeersSnapshot x isConnected c of (known, confirmed, connected, peerIDs) \<Rightarrow>
        case GetAuthRequestCounts auth of (ingoing, outgoing) \<Rightarrow>
        case BootstrapPeersStats isConnected (hv_bootstrapPeers h) of (bootstrapTotal, bootstrapConnected) \<Rightarrow>
        g\<lparr>ga_PeersKnownTotal := int known, ga_PeersConfirmedTotal := int confirmed, ga_PeersConnected := int connected,
          ga_PeersBlockedTotal := int (GetBlockedPeersCount c), ga_PeersAuthRequestsIngoing := int ingoing,
          ga_PeersAuthRequestsOutgoing := int outgoing, ga_P2PConnectedPeers := int (length (hv_peers h)),
          ga_P2POpenConnections := hv_connCount h, ga_P2POpenStreams := OpenStreamsCount (hv_conns h),
          ga_P2PDHTRoutingTableSize := int (length (hv_routingTable h)), ga_P2PBootstrapPeersTotal := int bootstrapTotal,
          ga_P2PBootstrapPeersConnected := int bootstrapConnected,
          ga_P2PPeerLatency := fold (\<lambda>p m. m(p \<mapsto> hv_latency h p)) peerIDs (ga_P2PPeerLatency g),
          ga_NodeUptime := hv_now h - startTime\<rparr>)"

section \<open>Properties\<close>

lemma iec_loop_spec:
  "1 \<le> n \<Longrightarrow> \<exists>j. iec_loop n d k = (d * 1024 ^ j, k + j) \<and> 1024 ^ j \<le> n \<and> n < 1024 ^ Suc j"
proof (induction n d k rule: iec_loop.induct)
  case (1 n d k)
  show ?case
  proof (cases "1024 \<le> n")
    case True
    then obtain j where j: "iec_loop (n div 1024) (d * 1024) (k + 1) = (d * 1024 * 1024 ^ j, k + 1 + j)"
      "1024 ^ j \<le> n div 1024" "n div 1024 < 1024 ^ Suc j" using 1 by (auto simp: Suc_le_eq div_greater_zero_iff)
    have "1024 ^ Suc j \<le> n" using j(2) by (simp add: less_eq_div_iff_mult_less_eq mult.commute)
    moreover have "n < 1024 ^ Suc (Suc j)" using j(3) by (simp add: div_less_iff_less_mult mult.commute)
    ultimately show ?thesis using True j(1) by (intro exI [of _ "Suc j"]) (simp add: iec_loop.simps [of n])
  next
    case False
    with 1 show ?thesis by (intro exI [of _ 0]) (simp add: iec_loop.simps [of n])
  qed
qed

lemma iec_unit:
  assumes "1024 \<le> b" and "b < 2 ^ 63"
  obtains k where "iec_loop (nat b div 1024) 1024 0 = (1024 ^ Suc k, k)" "k < 6" "1024 ^ Suc k \<le> nat b" "nat b < 1024 ^ Suc (Suc k)"
proof -
  have "1 \<le> nat b div 1024" using assms(1) by (simp add: div_greater_zero_iff Suc_le_eq)
  from iec_loop_spec [OF this, of 1024 0] obtain k where
    k: "iec_loop (nat b div 1024) 1024 0 = (1024 ^ Suc k, k)" "1024 ^ k \<le> nat b div 1024" "nat b div 1024 < 1024 ^ Suc k" by auto
  have lo: "1024 ^ Suc k \<le> nat b" using k(2) by (simp add: less_eq_div_iff_mult_less_eq mult.commute)
  also have "nat b < 2 ^ 63" using assms(2) by (simp add: nat_less_iff)
  finally have "(1024 :: nat) ^ Suc k < 1024 ^ 7" by simp
  then have "k < 6" by (simp only: power_strict_increasing_iff)
  moreover have "nat b < 1024 ^ Suc (Suc k)" using k(3) by (simp add: div_less_iff_less_mult mult.commute)
  ultimately show thesis using that k(1) lo by blast
qed

lemma round_near:
  assumes "0 < d"
  shows "2 * \<bar>int n - int (round_half_even n d * d)\<bar> \<le> int d"
proof -
  have "n = n div d * d + n mod d" by simp
  then have n: "int n = int (n div d) * int d + int (n mod d)" by (metis of_nat_add of_nat_mult)
  have r: "n mod d < d" using assms by simp
  show ?thesis
  proof (cases "2 * (n mod d) < d \<or> 2 * (n mod d) = d \<and> even (n div d)")
    case True
    then have "round_half_even n d = n div d" by (simp add: round_half_even_def Let_def)
    with n True show ?thesis by auto
  next
    case False
    then have "round_half_even n d = n div d + 1" by (auto simp: round_half_even_def Let_def)
    with n False r show ?thesis by (auto simp: algebra_simps)
  qed
qed

lemma bit_count_le: "b < 2 ^ k \<Longrightarrow> bit_count b \<le> k"
proof (induction k arbitrary: b)
  case (Suc k)
  then have "b div 2 < 2 ^ k" by (simp add: div_less_iff_less_mult mult.commute)
  with Suc.IH show ?case by (simp add: bit_count.simps [of b])
qed (simp add: bit_count.simps [of 0])

lemma float64_exact: "b < 2 ^ 53 \<Longrightarrow> float64_of b = b"
  using bit_count_le [of b 53] by (simp add: float64_of_def round_half_even_def)

text \<open>
  Amounts of data are always printed: for no \<open>int64\<close> does the index into the list of units leave its range.
  From 1024 on the unit is the power of 1024 just below the amount, and below \<open>2 ^ 53\<close> the number shown is
  within half a tenth of the unit of the true one.
\<close>

theorem byteCountIEC_bounds:
  assumes "1024 \<le> b" and "b < 2 ^ 63"
  shows "\<exists>k t. byteCountIEC b = Some (tenths_text t @ '' '' @ [''KMGTPE'' ! k] @ ''iB'') \<and> k < 6 \<and>
    1024 ^ (k + 1) \<le> b \<and> b < 1024 ^ (k + 2) \<and> (b < 2 ^ 53 \<longrightarrow> 2 * \<bar>10 * b - int t * 1024 ^ (k + 1)\<bar> \<le> 1024 ^ (k + 1))"
proof -
  let ?n = "nat b"
  obtain j where j: "iec_loop (?n div 1024) 1024 0 = (1024 ^ Suc j, j)" and k: "j < 6" and lo: "1024 ^ Suc j \<le> ?n" and hi: "?n < 1024 ^ Suc (Suc j)"
    using iec_unit [OF assms] by blast
  let ?t = "round_half_even (10 * float64_of ?n) (1024 ^ Suc j)"
  have "byteCountIEC b = Some (tenths_text ?t @ '' '' @ [''KMGTPE'' ! j] @ ''iB'')"
    using assms(1) j k by (simp add: byteCountIEC_def del: power_Suc)
  moreover have "2 * \<bar>10 * b - int ?t * 1024 ^ (j + 1)\<bar> \<le> 1024 ^ (j + 1)" if "b < 2 ^ 53"
    using round_near [of "1024 ^ Suc j" "10 * ?n"] that assms(1) by (simp add: float64_exact nat_less_iff del: power_Suc)
  moreover have "1024 ^ (j + 1) \<le> b" "b < 1024 ^ (j + 2)"
    using lo hi assms(1) by (simp_all add: nat_less_iff le_nat_iff del: power_Suc)
  ultimately show ?thesis using k by blast
qed

theorem byteCountIEC_bounds_witness:
  "byteCountIEC 1536 = Some ''1.5 KiB'' \<and> (\<exists>k < 6. 1024 ^ (k + 1) \<le> (1536 :: int) \<and> (1536 :: int) < 1024 ^ (k + 2))"
proof -
  have "byteCountIEC 1536 = Some ''1.5 KiB''" by code_simp
  then show ?thesis using byteCountIEC_bounds [of 1536] by auto
qed

lemma byteCountIEC_total:
  assumes "b < 2 ^ 63"
  shows "byteCountIEC b \<noteq> None"
proof (cases "b < 1024")
  case False
  then have "1024 \<le> b" by simp
  then obtain k where "iec_loop (nat b div 1024) 1024 0 = (1024 ^ Suc k, k)" "k < 6" using iec_unit [OF _ assms] by blast
  with False show ?thesis by (simp add: byteCountIEC_def del: power_Suc)
qed (simp add: byteCountIEC_def)

text \<open>The number is rounded only after the unit is chosen, so it can reach 1024.\<close>

lemma byteCountIEC_1024: "byteCountIEC 1048575 = Some ''1024.0 KiB''"
  by code_simp

text \<open>The debug information is always produced.\<close>

lemma makeBandwidthInfo_total:
  assumes "st_TotalIn s < 2 ^ 63" "st_TotalOut s < 2 ^ 63" "st_RateIn s < 2 ^ 63" "st_RateOut s < 2 ^ 63"
  shows "makeBandwidthInfo s \<noteq> None"
  using assms [THEN byteCountIEC_total] by (auto simp: makeBandwidthInfo_def)

text \<open>The gauges of peers follow the configuration; latencies of removed peers stay.\<close>

lemma snapshot_fold:
  "foldl (\<lambda>(total, confirmed, connected, ids) kp.
         let pid = PeerId dec kp
         in (total, (if kp_Confirmed kp then confirmed + 1 else confirmed),
             (if con pid then connected + 1 else connected), ids @ [pid])) (t, a, b, ids) ps =
   (t, a + length (filter kp_Confirmed ps), b + length (filter (\<lambda>p. con (PeerId dec p)) ps), ids @ map (PeerId dec) ps)"
  by (induction ps arbitrary: a b ids) (simp_all add: Let_def)

lemma snapshot:
  "GetKnownPeersSnapshot x con c =
     (length (c_KnownPeers c), length (filter kp_Confirmed (gm_vals (c_KnownPeers c))),
      length (filter (\<lambda>p. con (PeerId (x_Decode x) p)) (gm_vals (c_KnownPeers c))), map (PeerId (x_Decode x)) (gm_vals (c_KnownPeers c)))"
  by (simp add: GetKnownPeersSnapshot_def snapshot_fold)

lemma latency_fold: "fold (\<lambda>p m. m(p \<mapsto> f p)) ps m = (\<lambda>p. if p \<in> set ps then Some (f p) else m p)"
  by (induction ps arbitrary: m) (auto simp: fun_eq_iff)

lemma gauges_follow:
  fixes x con c auth h startTime g
  defines "g' \<equiv> updateGauges x con c auth h startTime g"
  shows "0 \<le> ga_PeersConnected g'" "ga_PeersConnected g' \<le> ga_PeersKnownTotal g'" "ga_PeersConfirmedTotal g' \<le> ga_PeersKnownTotal g'"
    "ga_P2PBootstrapPeersConnected g' \<le> ga_P2PBootstrapPeersTotal g'"
    "ga_P2PPeerLatency g' = (\<lambda>p. if p \<in> set (map (PeerId (x_Decode x)) (gm_vals (c_KnownPeers c))) then Some (hv_latency h p) else ga_P2PPeerLatency g p)"
  by (simp_all add: g'_def updateGauges_def snapshot BootstrapPeersStats_eq GetAuthRequestCounts_def latency_fold
      length_filter_le gm_vals_def order.trans [OF length_filter_le])

end
