(* ===== verification/Awl_Metrics.thy ===== *)
theory Awl_Metrics
  imports Api_Stats
begin

text \<open>
  The metrics of \<open>src/metrics\<close>: every declaration with its registration when the program starts, the node
  information, the background updater, and the accounting of proxied connections in
  \<open>src/service/socks5.go\<close>. Prometheus is a parameter: \<open>register\<close> adds a metric to a registry or panics.
\<close>

section \<open>Declarations\<close>

datatype metric_kind = Counter | CounterVec | Gauge | GaugeVec | Histogram | HistogramVec

text \<open>Buckets are in milliseconds; \<open>DefBuckets\<close> are the default ones of Prometheus.\<close>

record metric =
  me_kind :: metric_kind
  me_Subsystem :: string
  me_Name :: string
  me_Help :: string
  me_labels :: "string list"
  me_Buckets :: "nat list"

definition metrics_namespace :: string where
  "metrics_namespace = ''awl''"

definition DNSQueriesTotal :: "metric" where
  "DNSQueriesTotal = \<lparr>me_kind = CounterVec, me_Subsystem = ''dns'', me_Name = ''queries_total'', me_Help = ''Total DNS queries handled.'',
     me_labels = [''handler''], me_Buckets = []\<rparr>"

definition DNSQueryErrorsTotal :: "metric" where
  "DNSQueryErrorsTotal = \<lparr>me_kind = Counter, me_Subsystem = ''dns'', me_Name = ''query_errors_total'', me_Help = ''Total DNS query errors (upstream failures).'',
     me_labels = [], me_Buckets = []\<rparr>"

definition DNSQueryDurationSeconds :: "metric" where
  "DNSQueryDurationSeconds = \<lparr>me_kind = Histogram, me_Subsystem = ''dns'', me_Name = ''query_duration_seconds'', me_Help = ''DNS query duration in seconds.'',
     me_labels = [], me_Buckets = [1, 5, 10, 25, 50, 100, 250, 500, 1000, 2500, 10000]\<rparr>"

definition NodeInfo :: "metric" where
  "NodeInfo = \<lparr>me_kind = GaugeVec, me_Subsystem = ''node'', me_Name = ''info'', me_Help = ''Static node information.'',
     me_labels = [''version'', ''peer_id'', ''go_version'', ''os'', ''arch''], me_Buckets = []\<rparr>"

definition NodeUptimeSeconds :: "metric" where
  "NodeUptimeSeconds = \<lparr>me_kind = Gauge, me_Subsystem = ''node'', me_Name = ''uptime_seconds'', me_Help = ''Node uptime in seconds.'',
     me_labels = [], me_Buckets = []\<rparr>"

definition NodeStartTimestamp :: "metric" where
  "NodeStartTimestamp = \<lparr>me_kind = Gauge, me_Subsystem = ''node'', me_Name = ''start_timestamp'', me_Help = ''Unix timestamp of node start.'',
     me_labels = [], me_Buckets = []\<rparr>"

definition P2PBootstrapPeersTotal :: "metric" where
  "P2PBootstrapPeersTotal = \<lparr>me_kind = Gauge, me_Subsystem = ''p2p'', me_Name = ''bootstrap_peers_total'', me_Help = ''Total number of configured bootstrap peers.'',
     me_labels = [], me_Buckets = []\<rparr>"

definition P2PBootstrapPeersConnected :: "metric" where
  "P2PBootstrapPeersConnected = \<lparr>me_kind = Gauge, me_Subsystem = ''p2p'', me_Name = ''bootstrap_peers_connected'', me_Help = ''Number of connected bootstrap peers.'',
     me_labels = [], me_Buckets = []\<rparr>"

definition P2PDHTRoutingTableSize :: "metric" where
  "P2PDHTRoutingTableSize = \<lparr>me_kind = Gauge, me_Subsystem = ''p2p'', me_Name = ''dht_routing_table_size'', me_Help = ''DHT routing table size.'',
     me_labels = [], me_Buckets = []\<rparr>"

definition P2POpenConnections :: "metric" where
  "P2POpenConnections = \<lparr>me_kind = Gauge, me_Subsystem = ''p2p'', me_Name = ''open_connections'', me_Help = ''Number of open connections.'',
     me_labels = [], me_Buckets = []\<rparr>"

definition P2POpenStreams :: "metric" where
  "P2POpenStreams = \<lparr>me_kind = Gauge, me_Subsystem = ''p2p'', me_Name = ''open_streams'', me_Help = ''Number of open streams.'',
     me_labels = [], me_Buckets = []\<rparr>"

definition P2PConnectedPeers :: "metric" where
  "P2PConnectedPeers = \<lparr>me_kind = Gauge, me_Subsystem = ''p2p'', me_Name = ''connected_peers'', me_Help = ''Total number of connected peers (all, not just known).'',
     me_labels = [], me_Buckets = []\<rparr>"

definition P2PPeerLatencySeconds :: "metric" where
  "P2PPeerLatencySeconds = \<lparr>me_kind = GaugeVec, me_Subsystem = ''p2p'', me_Name = ''peer_latency_seconds'', me_Help = ''Last measured latency to known peers in seconds.'',
     me_labels = [''peer_id''], me_Buckets = []\<rparr>"

definition PeersKnownTotal :: "metric" where
  "PeersKnownTotal = \<lparr>me_kind = Gauge, me_Subsystem = ''peers'', me_Name = ''known_total'', me_Help = ''Total number of known peers.'',
     me_labels = [], me_Buckets = []\<rparr>"

definition PeersConnected :: "metric" where
  "PeersConnected = \<lparr>me_kind = Gauge, me_Subsystem = ''peers'', me_Name = ''connected'', me_Help = ''Number of currently connected known peers.'',
     me_labels = [], me_Buckets = []\<rparr>"

definition PeersConfirmedTotal :: "metric" where
  "PeersConfirmedTotal = \<lparr>me_kind = Gauge, me_Subsystem = ''peers'', me_Name = ''confirmed_total'', me_Help = ''Number of confirmed (mutual) peers.'',
     me_labels = [], me_Buckets = []\<rparr>"

definition PeersBlockedTotal :: "metric" where
  "PeersBlockedTotal = \<lparr>me_kind = Gauge, me_Subsystem = ''peers'', me_Name = ''blocked_total'', me_Help = ''Number of blocked peers.'',
     me_labels = [], me_Buckets = []\<rparr>"

definition PeersAuthRequestsIngoing :: "metric" where
  "PeersAuthRequestsIngoing = \<lparr>me_kind = Gauge, me_Subsystem = ''peers'', me_Name = ''auth_requests_ingoing'', me_Help = ''Number of pending ingoing auth requests.'',
     me_labels = [], me_Buckets = []\<rparr>"

definition PeersAuthRequestsOutgoing :: "metric" where
  "PeersAuthRequestsOutgoing = \<lparr>me_kind = Gauge, me_Subsystem = ''peers'', me_Name = ''auth_requests_outgoing'', me_Help = ''Number of pending outgoing auth requests.'',
     me_labels = [], me_Buckets = []\<rparr>"

definition PeersAuthRequestsSentTotal :: "metric" where
  "PeersAuthRequestsSentTotal = \<lparr>me_kind = Counter, me_Subsystem = ''peers'', me_Name = ''auth_requests_sent_total'', me_Help = ''Total number of auth requests sent.'',
     me_labels = [], me_Buckets = []\<rparr>"

definition PeersAuthRequestsReceivedTotal :: "metric" where
  "PeersAuthRequestsReceivedTotal = \<lparr>me_kind = Counter, me_Subsystem = ''peers'', me_Name = ''auth_requests_received_total'', me_Help = ''Total number of auth requests received.'',
     me_labels = [], me_Buckets = []\<rparr>"

definition PeersStatusRequestsSentTotal :: "metric" where
  "PeersStatusRequestsSentTotal = \<lparr>me_kind = Counter, me_Subsystem = ''peers'', me_Name = ''status_requests_sent_total'', me_Help = ''Total number of status requests sent.'',
     me_labels = [], me_Buckets = []\<rparr>"

definition PeersStatusRequestsReceivedTotal :: "metric" where
  "PeersStatusRequestsReceivedTotal = \<lparr>me_kind = Counter, me_Subsystem = ''peers'', me_Name = ''status_requests_received_total'', me_Help = ''Total number of status requests received.'',
     me_labels = [], me_Buckets = []\<rparr>"

definition PeersConnectionEventsTotal :: "metric" where
  "PeersConnectionEventsTotal = \<lparr>me_kind = CounterVec, me_Subsystem = ''peers'', me_Name = ''connection_events_total'', me_Help = ''Total peer connection events.'',
     me_labels = [''event''], me_Buckets = []\<rparr>"

definition SOCKS5ConnectionsTotal :: "metric" where
  "SOCKS5ConnectionsTotal = \<lparr>me_kind = CounterVec, me_Subsystem = ''socks5'', me_Name = ''connections_total'', me_Help = ''Total SOCKS5 connections.'',
     me_labels = [''direction''], me_Buckets = []\<rparr>"

definition SOCKS5ActiveConnections :: "metric" where
  "SOCKS5ActiveConnections = \<lparr>me_kind = GaugeVec, me_Subsystem = ''socks5'', me_Name = ''active_connections'', me_Help = ''Current active SOCKS5 connections.'',
     me_labels = [''direction''], me_Buckets = []\<rparr>"

definition SOCKS5BytesTransferredTotal :: "metric" where
  "SOCKS5BytesTransferredTotal = \<lparr>me_kind = CounterVec, me_Subsystem = ''socks5'', me_Name = ''bytes_transferred_total'', me_Help = ''Total bytes transferred via SOCKS5.'',
     me_labels = [''direction''], me_Buckets = []\<rparr>"

definition SOCKS5ErrorsTotal :: "metric" where
  "SOCKS5ErrorsTotal = \<lparr>me_kind = CounterVec, me_Subsystem = ''socks5'', me_Name = ''errors_total'', me_Help = ''Total SOCKS5 errors.'',
     me_labels = [''direction'', ''reason''], me_Buckets = []\<rparr>"

definition SOCKS5ConnectionDurationSeconds :: "nat list \<Rightarrow> metric" where
  "SOCKS5ConnectionDurationSeconds DefBuckets = \<lparr>me_kind = HistogramVec, me_Subsystem = ''socks5'', me_Name = ''connection_duration_seconds'', me_Help = ''SOCKS5 connection duration in seconds.'',
     me_labels = [''direction''], me_Buckets = DefBuckets @ [20000, 40000, 80000, 160000, 320000, 640000, 1280000]\<rparr>"

definition VPNPacketsSentTotal :: "metric" where
  "VPNPacketsSentTotal = \<lparr>me_kind = Counter, me_Subsystem = ''vpn'', me_Name = ''packets_sent_total'', me_Help = ''Total VPN packets written to tunnel streams.'',
     me_labels = [], me_Buckets = []\<rparr>"

definition VPNPacketsReceivedTotal :: "metric" where
  "VPNPacketsReceivedTotal = \<lparr>me_kind = Counter, me_Subsystem = ''vpn'', me_Name = ''packets_received_total'', me_Help = ''Total VPN packets received from tunnel streams.'',
     me_labels = [], me_Buckets = []\<rparr>"

definition VPNBytesSentTotal :: "metric" where
  "VPNBytesSentTotal = \<lparr>me_kind = Counter, me_Subsystem = ''vpn'', me_Name = ''bytes_sent_total'', me_Help = ''Total VPN bytes sent via tunnel streams.'',
     me_labels = [], me_Buckets = []\<rparr>"

definition VPNBytesReceivedTotal :: "metric" where
  "VPNBytesReceivedTotal = \<lparr>me_kind = Counter, me_Subsystem = ''vpn'', me_Name = ''bytes_received_total'', me_Help = ''Total VPN bytes received from tunnel streams.'',
     me_labels = [], me_Buckets = []\<rparr>"

definition VPNPacketsDroppedTotal :: "metric" where
  "VPNPacketsDroppedTotal = \<lparr>me_kind = CounterVec, me_Subsystem = ''vpn'', me_Name = ''packets_dropped_total'', me_Help = ''Total VPN packets dropped.'',
     me_labels = [''reason''], me_Buckets = []\<rparr>"

definition VPNTunReadErrorsTotal :: "metric" where
  "VPNTunReadErrorsTotal = \<lparr>me_kind = Counter, me_Subsystem = ''vpn'', me_Name = ''tun_read_errors_total'', me_Help = ''Total TUN device read errors.'',
     me_labels = [], me_Buckets = []\<rparr>"

definition VPNTunWriteErrorsTotal :: "metric" where
  "VPNTunWriteErrorsTotal = \<lparr>me_kind = Counter, me_Subsystem = ''vpn'', me_Name = ''tun_write_errors_total'', me_Help = ''Total TUN device write errors.'',
     me_labels = [], me_Buckets = []\<rparr>"

definition VPNStreamOpenErrorsTotal :: "metric" where
  "VPNStreamOpenErrorsTotal = \<lparr>me_kind = Counter, me_Subsystem = ''vpn'', me_Name = ''stream_open_errors_total'', me_Help = ''Total errors opening tunnel streams.'',
     me_labels = [], me_Buckets = []\<rparr>"

text \<open>The variables in the order in which the files of the package are initialised.\<close>

definition all_metrics :: "nat list \<Rightarrow> metric list" where
  "all_metrics DefBuckets =
     [DNSQueriesTotal, DNSQueryErrorsTotal, DNSQueryDurationSeconds,
      NodeInfo, NodeUptimeSeconds, NodeStartTimestamp,
      P2PBootstrapPeersTotal, P2PBootstrapPeersConnected, P2PDHTRoutingTableSize, P2POpenConnections, P2POpenStreams, P2PConnectedPeers, P2PPeerLatencySeconds,
      PeersKnownTotal, PeersConnected, PeersConfirmedTotal, PeersBlockedTotal, PeersAuthRequestsIngoing, PeersAuthRequestsOutgoing, PeersAuthRequestsSentTotal, PeersAuthRequestsReceivedTotal, PeersStatusRequestsSentTotal, PeersStatusRequestsReceivedTotal, PeersConnectionEventsTotal,
      SOCKS5ConnectionsTotal, SOCKS5ActiveConnections, SOCKS5BytesTransferredTotal, SOCKS5ErrorsTotal, SOCKS5ConnectionDurationSeconds DefBuckets,
      VPNPacketsSentTotal, VPNPacketsReceivedTotal, VPNBytesSentTotal, VPNBytesReceivedTotal, VPNPacketsDroppedTotal, VPNTunReadErrorsTotal, VPNTunWriteErrorsTotal, VPNStreamOpenErrorsTotal]"

section \<open>Registration\<close>

definition fqName :: "metric \<Rightarrow> string" where
  "fqName m = metrics_namespace @ ''_'' @ me_Subsystem m @ ''_'' @ me_Name m"

definition name_char :: "char \<Rightarrow> bool" where
  "name_char c \<longleftrightarrow> (let n = of_char c :: nat in 48 \<le> n \<and> n \<le> 57 \<or> 65 \<le> n \<and> n \<le> 90 \<or> 97 \<le> n \<and> n \<le> 122 \<or> n = 95)"

text \<open>What Prometheus asks of a declaration: names of letters, digits and underscores, labels that differ, buckets that increase.\<close>

definition valid_metric :: "metric \<Rightarrow> bool" where
  "valid_metric m \<longleftrightarrow>
     list_all name_char (fqName m) \<and> list_all (\<lambda>l. l \<noteq> [] \<and> list_all name_char l \<and> \<not> is_digit (hd l)) (me_labels m) \<and>
     distinct (me_labels m) \<and> sorted (me_Buckets m) \<and> distinct (me_Buckets m)"

text \<open>\<open>promauto\<close> registers every variable as it is initialised; \<open>None\<close> is the panic of \<open>MustRegister\<close>.\<close>

fun init_metrics :: "(metric \<Rightarrow> 'r \<Rightarrow> 'r option) \<Rightarrow> metric list \<Rightarrow> 'r \<Rightarrow> 'r option" where
  "init_metrics register [] r = Some r"
| "init_metrics register (m # ms) r = (case register m r of None \<Rightarrow> None | Some r' \<Rightarrow> init_metrics register ms r')"

section \<open>Node and updater\<close>

record metrics_state =
  ms_gauges :: gauges
  ms_NodeInfo :: "string list \<rightharpoonup> int"
  ms_NodeStartTimestamp :: int

definition SetNodeInfo :: "string \<Rightarrow> string \<Rightarrow> string \<Rightarrow> string \<Rightarrow> string \<Rightarrow> int \<Rightarrow> metrics_state \<Rightarrow> metrics_state" where
  "SetNodeInfo goVersion goos goarch version peerID now s =
     s\<lparr>ms_NodeInfo := (ms_NodeInfo s)([version, peerID, goVersion, goos, goarch] \<mapsto> 1), ms_NodeStartTimestamp := now div 10 ^ 9\<rparr>"

text \<open>What the updater sees at one moment, and what its loop selects.\<close>

record 'm metrics_view =
  mv_isConnected :: "string \<Rightarrow> bool"
  mv_conf :: Config
  mv_auth :: AuthStatus
  mv_host :: "'m host_view"

datatype 'm updater_event = UpdaterTick "'m metrics_view" | UpdaterDone

definition update_view :: "externals \<Rightarrow> int \<Rightarrow> 'm metrics_view \<Rightarrow> metrics_state \<Rightarrow> metrics_state" where
  "update_view x startTime v s =
     s\<lparr>ms_gauges := updateGauges x (mv_isConnected v) (mv_conf v) (mv_auth v) (mv_host v) startTime (ms_gauges s)\<rparr>"

fun updater_loop :: "externals \<Rightarrow> int \<Rightarrow> 'm updater_event list \<Rightarrow> metrics_state \<Rightarrow> metrics_state" where
  "updater_loop x startTime [] s = s"
| "updater_loop x startTime (UpdaterDone # es) s = s"
| "updater_loop x startTime (UpdaterTick v # es) s = updater_loop x startTime es (update_view x startTime v s)"

definition StartBackgroundUpdater :: "externals \<Rightarrow> 'm metrics_view \<Rightarrow> 'm updater_event list \<Rightarrow> metrics_state \<Rightarrow> metrics_state" where
  "StartBackgroundUpdater x v es s =
     (let startTime = hv_now (mv_host v)
      in updater_loop x startTime es (update_view x startTime v (s\<lparr>ms_NodeStartTimestamp := startTime div 10 ^ 9\<rparr>)))"

section \<open>Proxied connections\<close>

text \<open>What one handler does to the metrics: the reason it counts as an error, and the steps in order.\<close>

definition server_reason :: "externals \<Rightarrow> Config \<Rightarrow> string \<Rightarrow> string option" where
  "server_reason x c remotePeer =
     (case GetPeer c (x_String x remotePeer) of
        None \<Rightarrow> Some ''denied''
      | Some knownPeer \<Rightarrow>
          if \<not> kp_WeAllowUsingAsExitNode knownPeer then Some ''denied''
          else if \<not> sc_ProxyingEnabled (c_SOCKS5 c) then Some ''proxying_disabled'' else None)"

definition client_reason :: "socks_error + string \<Rightarrow> string option" where
  "client_reason r =
     (case r of
        Inl NoProxyPeer \<Rightarrow> Some ''no_proxy_peer''
      | Inl PeerNotAllowed \<Rightarrow> Some ''peer_not_allowed''
      | Inl PeerConnectFailed \<Rightarrow> Some ''peer_connect_failed''
      | Inl PeerStreamFailed \<Rightarrow> Some ''peer_stream_failed''
      | _ \<Rightarrow> None)"

datatype metric_action = IncTotal string | IncActive string | IncError string string | DecActive string | ObserveDuration string

definition handler_actions :: "string \<Rightarrow> string option \<Rightarrow> metric_action list" where
  "handler_actions d reason =
     [IncTotal d, IncActive d] @ (case reason of None \<Rightarrow> [] | Some r \<Rightarrow> [IncError d r]) @ [DecActive d, ObserveDuration d]"

record proxy_counts =
  pc_total :: "string \<Rightarrow> nat"
  pc_active :: "string \<Rightarrow> int"
  pc_errors :: "string \<times> string \<Rightarrow> nat"
  pc_durations :: "string \<Rightarrow> nat"

definition zero_counts :: proxy_counts where
  "zero_counts = \<lparr>pc_total = (\<lambda>_. 0), pc_active = (\<lambda>_. 0), pc_errors = (\<lambda>_. 0), pc_durations = (\<lambda>_. 0)\<rparr>"

fun metric_act :: "metric_action \<Rightarrow> proxy_counts \<Rightarrow> proxy_counts" where
  "metric_act (IncTotal d) n = n\<lparr>pc_total := (pc_total n)(d := Suc (pc_total n d))\<rparr>"
| "metric_act (IncActive d) n = n\<lparr>pc_active := (pc_active n)(d := pc_active n d + 1)\<rparr>"
| "metric_act (IncError d r) n = n\<lparr>pc_errors := (pc_errors n)((d, r) := Suc (pc_errors n (d, r)))\<rparr>"
| "metric_act (DecActive d) n = n\<lparr>pc_active := (pc_active n)(d := pc_active n d - 1)\<rparr>"
| "metric_act (ObserveDuration d) n = n\<lparr>pc_durations := (pc_durations n)(d := Suc (pc_durations n d))\<rparr>"

text \<open>
  The handlers run in goroutines of their own: a stream or a local connection arrives, or one of the running
  handlers takes its next step. A handler is its direction and the steps it has left.
\<close>

type_synonym proxy_state = "proxy_counts \<times> (string \<times> metric_action list) list"

inductive proxy_step :: "proxy_state \<Rightarrow> proxy_state \<Rightarrow> bool" where
  accept_stream: "proxy_step (n, rs) (n, rs @ [(''server'', handler_actions ''server'' (server_reason x c remotePeer))])"
| accept_conn: "proxy_step (n, rs) (n, rs @ [(''client'', handler_actions ''client'' (client_reason (fst (proxyConn x e c cn))))])"
| run_handler: "i < length rs \<Longrightarrow> rs ! i = (d, a # as) \<Longrightarrow> proxy_step (n, rs) (metric_act a n, rs[i := (d, as)])"

section \<open>Properties\<close>

lemma init_registers:
  assumes "\<And>m r. valid_metric m \<Longrightarrow> fqName m \<notin> names r \<Longrightarrow> \<exists>r'. register m r = Some r' \<and> names r' = insert (fqName m) (names r)"
    and "list_all valid_metric ms" and "distinct (map fqName ms)" and "set (map fqName ms) \<inter> names r = {}"
  shows "\<exists>r'. init_metrics register ms r = Some r' \<and> names r' = names r \<union> set (map fqName ms)"
  using assms(2-)
proof (induction ms arbitrary: r)
  case (Cons m ms)
  then obtain r1 where r1: "register m r = Some r1" "names r1 = insert (fqName m) (names r)" using assms(1) [of m r] by auto
  then have "set (map fqName ms) \<inter> names r1 = {}" using Cons.prems by auto
  moreover have "list_all valid_metric ms" "distinct (map fqName ms)" using Cons.prems by simp_all
  ultimately obtain r2 where "init_metrics register ms r1 = Some r2" "names r2 = names r1 \<union> set (map fqName ms)"
    using Cons.IH [of r1] by blast
  with r1 show ?case by auto
qed simp

text \<open>Only one declaration uses the default buckets.\<close>

lemma all_metrics_split:
  "\<exists>xs ys. \<forall>b. all_metrics b = xs @ SOCKS5ConnectionDurationSeconds b # ys"
  by (intro exI [of _ "take 28 (all_metrics [])"] exI [of _ "drop 29 (all_metrics [])"]) (simp add: all_metrics_def)

lemma all_metrics_names: "map fqName (all_metrics b) = map fqName (all_metrics [])"
  by (simp add: all_metrics_def fqName_def SOCKS5ConnectionDurationSeconds_def)

lemma all_metrics_valid:
  assumes "sorted DefBuckets" and "distinct DefBuckets" and "list_all (\<lambda>b. b < 20000) DefBuckets"
  shows "list_all valid_metric (all_metrics DefBuckets)"
proof -
  obtain xs ys where s: "\<And>b. all_metrics b = xs @ SOCKS5ConnectionDurationSeconds b # ys" using all_metrics_split by blast
  have "list_all valid_metric (all_metrics [])" by code_simp
  then have r: "list_all valid_metric (xs @ ys)" "valid_metric (SOCKS5ConnectionDurationSeconds [])" by (simp_all add: s)
  have "\<forall>b \<in> set DefBuckets. b < 20000" using assms(3) by (simp add: list_all_iff)
  then have "valid_metric (SOCKS5ConnectionDurationSeconds DefBuckets)"
    using r(2) assms(1,2) by (auto simp: valid_metric_def SOCKS5ConnectionDurationSeconds_def fqName_def sorted_append less_imp_le)
  with r(1) show ?thesis by (simp add: s)
qed

lemma all_metrics_distinct: "distinct (map fqName (all_metrics DefBuckets))"
proof -
  have "distinct (map fqName (all_metrics []))" by code_simp
  then show ?thesis by (subst all_metrics_names)
qed

text \<open>
  Registering the metrics when the program starts does not panic, in a registry that has none of
  the names: every declaration is accepted and each has a name of its own.
\<close>

theorem metrics_registered:
  assumes "\<And>m r. valid_metric m \<Longrightarrow> fqName m \<notin> names r \<Longrightarrow> \<exists>r'. register m r = Some r' \<and> names r' = insert (fqName m) (names r)"
    and "sorted DefBuckets" and "distinct DefBuckets" and "list_all (\<lambda>b. b < 20000) DefBuckets"
    and "set (map fqName (all_metrics DefBuckets)) \<inter> names r = {}"
  shows "\<exists>r'. init_metrics register (all_metrics DefBuckets) r = Some r' \<and> names r' = names r \<union> set (map fqName (all_metrics DefBuckets))"
  using init_registers [OF assms(1) all_metrics_valid [OF assms(2-4)] all_metrics_distinct assms(5)] .

text \<open>The gauges are always those of the last moment the updater looked, with the time it was started.\<close>

lemma updater_start: "ms_NodeStartTimestamp (updater_loop x t es s) = ms_NodeStartTimestamp s"
  by (induction x t es s rule: updater_loop.induct) (simp_all add: update_view_def)

lemma updater_last:
  "UpdaterDone \<notin> set es \<Longrightarrow> updater_loop x t (es @ [UpdaterTick v]) s = update_view x t v (updater_loop x t es s)"
  by (induction x t es s rule: updater_loop.induct) simp_all

theorem updater_current:
  assumes "UpdaterDone \<notin> set es"
  shows "let s' = StartBackgroundUpdater x v0 (es @ UpdaterTick v # UpdaterDone # rest) s in
     ga_PeersKnownTotal (ms_gauges s') = int (length (c_KnownPeers (mv_conf v))) \<and>
     ga_PeersBlockedTotal (ms_gauges s') = int (GetBlockedPeersCount (mv_conf v)) \<and>
     ga_NodeUptime (ms_gauges s') = hv_now (mv_host v) - hv_now (mv_host v0) \<and>
     ms_NodeStartTimestamp s' = hv_now (mv_host v0) div 10 ^ 9"
proof -
  have "updater_loop x t (es @ UpdaterTick v # UpdaterDone # rest) s = update_view x t v (updater_loop x t es s)" for t s
    using assms by (induction x t es s rule: updater_loop.induct) simp_all
  then show ?thesis
    by (simp add: StartBackgroundUpdater_def Let_def update_view_def updater_start updateGauges_def snapshot split: prod.split)
qed

definition left :: "(metric_action \<Rightarrow> bool) \<Rightarrow> (string \<times> metric_action list) list \<Rightarrow> int" where
  "left P rs = (\<Sum>r \<leftarrow> rs. int (length (filter P (snd r))))"

definition of_direction :: "string \<Rightarrow> (string \<times> metric_action list) list \<Rightarrow> int" where
  "of_direction d rs = int (length (filter (\<lambda>r. fst r = d) rs))"

lemma left_simps [simp]: "left P [] = 0" "left P (r # rs) = int (length (filter P (snd r))) + left P rs" "left P (rs @ qs) = left P rs + left P qs"
  by (simp_all add: left_def)

lemma left_run:
  "i < length rs \<Longrightarrow> rs ! i = (d, a # as) \<Longrightarrow> left P (rs[i := (d, as)]) = left P rs - (if P a then 1 else 0)"
  by (induction rs arbitrary: i) (auto simp: nth_Cons split: nat.splits)

lemma direction_run: "i < length rs \<Longrightarrow> rs ! i = (d, a # as) \<Longrightarrow> of_direction d' (rs[i := (d, as)]) = of_direction d' rs"
  by (induction rs arbitrary: i) (auto simp: of_direction_def nth_Cons split: nat.splits)

definition steps_ok :: "string \<Rightarrow> metric_action list \<Rightarrow> bool" where
  "steps_ok d as \<longleftrightarrow> (\<forall>k d'. left (\<lambda>a. a = IncActive d') [(d, drop k as)] \<le> left (\<lambda>a. a = DecActive d') [(d, drop k as)] \<and>
     left (\<lambda>a. a = DecActive d') [(d, drop k as)] \<le> of_direction d' [(d, as)])"

lemma steps_ok_handler: "steps_ok d (handler_actions d reason)"
  by (cases reason) (auto simp: steps_ok_def handler_actions_def of_direction_def drop_Cons')

lemma steps_ok_tl:
  assumes "steps_ok d (a # as)"
  shows "steps_ok d as"
  unfolding steps_ok_def
proof (intro allI)
  fix k d'
  show "left (\<lambda>a. a = IncActive d') [(d, drop k as)] \<le> left (\<lambda>a. a = DecActive d') [(d, drop k as)] \<and>
     left (\<lambda>a. a = DecActive d') [(d, drop k as)] \<le> of_direction d' [(d, as)]"
    using assms [unfolded steps_ok_def, THEN spec [of _ "Suc k"], THEN spec [of _ d']] by (cases "d = d'") (auto simp: of_direction_def)
qed

lemma steps_ok_left:
  assumes "\<forall>r \<in> set rs. steps_ok (fst r) (snd r)"
  shows "left (\<lambda>a. a = IncActive d) rs \<le> left (\<lambda>a. a = DecActive d) rs \<and> left (\<lambda>a. a = DecActive d) rs \<le> of_direction d rs"
  using assms
proof (induction rs)
  case (Cons r rs)
  then have "steps_ok (fst r) (snd r)" by simp
  then have "left (\<lambda>a. a = IncActive d) [r] \<le> left (\<lambda>a. a = DecActive d) [r]" "left (\<lambda>a. a = DecActive d) [r] \<le> of_direction d [r]"
    unfolding steps_ok_def by (metis drop0 prod.collapse)+
  moreover have "of_direction d (r # rs) = of_direction d [r] + of_direction d rs" by (simp add: of_direction_def)
  ultimately show ?case using Cons by simp
qed (simp add: of_direction_def)

definition counted :: "proxy_state \<Rightarrow> bool" where
  "counted s \<longleftrightarrow> (case s of (n, rs) \<Rightarrow>
     (\<forall>r \<in> set rs. steps_ok (fst r) (snd r)) \<and>
     (\<forall>d. pc_active n d = left (\<lambda>a. a = DecActive d) rs - left (\<lambda>a. a = IncActive d) rs \<and>
       int (pc_total n d) = of_direction d rs - left (\<lambda>a. a = IncTotal d) rs \<and>
       int (pc_durations n d) = of_direction d rs - left (\<lambda>a. a = ObserveDuration d) rs))"

lemma handler_left:
  "left (\<lambda>a. a = DecActive d') [(d, handler_actions d reason)] = left (\<lambda>a. a = IncActive d') [(d, handler_actions d reason)]"
  "left (\<lambda>a. a = IncTotal d') [(d, handler_actions d reason)] = of_direction d' [(d, handler_actions d reason)]"
  "left (\<lambda>a. a = ObserveDuration d') [(d, handler_actions d reason)] = of_direction d' [(d, handler_actions d reason)]"
  by (cases reason; simp add: handler_actions_def of_direction_def)+

lemma counted_accept: "counted (n, rs) \<Longrightarrow> counted (n, rs @ [(d, handler_actions d reason)])"
proof -
  assume c: "counted (n, rs)"
  have "of_direction d' (rs @ [r]) = of_direction d' rs + of_direction d' [r]" for d' r by (simp add: of_direction_def)
  then show ?thesis
    using c by (simp add: counted_def handler_left steps_ok_handler ball_Un del: left_simps(2))
qed

lemma counted_run:
  assumes "counted (n, rs)" and "i < length rs" and "rs ! i = (d, a # as)"
  shows "counted (metric_act a n, rs[i := (d, as)])"
proof -
  have all: "\<forall>r \<in> set rs. steps_ok (fst r) (snd r)" using assms(1) by (simp add: counted_def)
  moreover have "(d, a # as) \<in> set rs" using assms(2,3) nth_mem by metis
  ultimately have "steps_ok d as" using steps_ok_tl by fastforce
  then have "\<forall>r \<in> set (rs[i := (d, as)]). steps_ok (fst r) (snd r)"
    using all set_update_subset_insert [of rs i "(d, as)"] by fastforce
  then show ?thesis
    using assms(1) left_run [OF assms(2,3)] direction_run [OF assms(2,3)] by (cases a) (simp_all add: counted_def)
qed

lemma counted_step: "proxy_step s t \<Longrightarrow> counted s \<Longrightarrow> counted t"
  by (induction rule: proxy_step.induct) (simp_all add: counted_accept counted_run)

definition proxy_init :: "proxy_state \<Rightarrow> bool" where
  "proxy_init s \<longleftrightarrow> s = (zero_counts, [])"

interpretation proxy_machine: inductive_invariant proxy_init proxy_step counted
proof
  show "proxy_init s \<Longrightarrow> counted s" for s by (simp add: proxy_init_def counted_def zero_counts_def of_direction_def)
  show "counted s \<Longrightarrow> proxy_step s t \<Longrightarrow> counted t" for s t by (rule counted_step)
qed

lemma left_none: "\<forall>r \<in> set rs. snd r = [] \<Longrightarrow> left P rs = 0"
  by (induction rs) simp_all

text \<open>
  C32. Proxied connections are accounted for, however the handlers interleave and whatever path each takes: the
  gauge of active connections is never negative and at most the number of handlers of its direction that were
  started, and once every handler has returned it is zero again, and as many connections were counted and as
  many durations recorded as handlers were started.
\<close>

theorem proxies_accounted:
  assumes "reachable proxy_init proxy_step (n, rs)"
  shows "0 \<le> pc_active n d \<and> pc_active n d \<le> of_direction d rs \<and>
    ((\<forall>r \<in> set rs. snd r = []) \<longrightarrow>
      pc_active n d = 0 \<and> int (pc_total n d) = of_direction d rs \<and> int (pc_durations n d) = of_direction d rs)"
proof -
  have c: "counted (n, rs)" using proxy_machine.inv_reachable [OF assms] .
  then have "left (\<lambda>a. a = IncActive d) rs \<le> left (\<lambda>a. a = DecActive d) rs" "left (\<lambda>a. a = DecActive d) rs \<le> of_direction d rs"
    using steps_ok_left by (simp_all add: counted_def)
  moreover have "0 \<le> left P rs" for P by (induction rs) simp_all
  moreover have "pc_active n d = left (\<lambda>a. a = DecActive d) rs - left (\<lambda>a. a = IncActive d) rs"
    "int (pc_total n d) = of_direction d rs - left (\<lambda>a. a = IncTotal d) rs"
    "int (pc_durations n d) = of_direction d rs - left (\<lambda>a. a = ObserveDuration d) rs"
    using c by (simp_all add: counted_def)
  ultimately show ?thesis using left_none [of rs] by (smt (verit))
qed

lemma handler_runs:
  "reachable proxy_init proxy_step (n, [(d, as)]) \<Longrightarrow> reachable proxy_init proxy_step (fold metric_act as n, [(d, [])])"
proof (induction as arbitrary: n)
  case (Cons a as)
  have "proxy_step (n, [(d, a # as)]) (metric_act a n, [(d, as)])" using proxy_step.run_handler [of 0 "[(d, a # as)]"] by simp
  then have "reachable proxy_init proxy_step (metric_act a n, [(d, as)])" using Cons.prems by (rule reach_step [rotated])
  then show ?case using Cons.IH by simp
qed simp

theorem proxies_accounted_witness:
  "\<exists>n. reachable proxy_init proxy_step (n, [(''server'', [])]) \<and> pc_active n ''server'' = 0 \<and> pc_total n ''server'' = 1"
proof -
  let ?x = "\<lparr>x_String = id, x_Decode = Some, x_ulower = id\<rparr>"
  let ?as = "handler_actions ''server'' (server_reason ?x zero_Config ''p'')"
  have "reachable proxy_init proxy_step (zero_counts, [])" by (rule reach_init) (simp add: proxy_init_def)
  moreover have "proxy_step (zero_counts, []) (zero_counts, [(''server'', ?as)])"
    using proxy_step.accept_stream [of zero_counts "[]" ?x zero_Config "''p''"] by simp
  ultimately have "reachable proxy_init proxy_step (zero_counts, [(''server'', ?as)])" by (rule reach_step)
  then have r: "reachable proxy_init proxy_step (fold metric_act ?as zero_counts, [(''server'', [])])" by (rule handler_runs)
  from proxies_accounted [OF r, of "''server''"] r show ?thesis by (auto simp: of_direction_def)
qed

theorem metrics_registered_sample:
  "\<exists>r'. init_metrics (\<lambda>m r. if fqName m \<in> set r \<or> \<not> valid_metric m then None else Some (fqName m # r)) (all_metrics [5, 10]) [''go_info''] = Some r'"
proof -
  have "\<exists>r'. init_metrics (\<lambda>m r. if fqName m \<in> set r \<or> \<not> valid_metric m then None else Some (fqName m # r)) (all_metrics [5, 10]) [''go_info''] = Some r' \<and>
      set r' = set [''go_info''] \<union> set (map fqName (all_metrics [5, 10]))"
  proof (rule metrics_registered)
    show "set (map fqName (all_metrics [5, 10])) \<inter> set [''go_info''] = {}"
      by (subst all_metrics_names) code_simp
  qed simp_all
  then show ?thesis by blast
qed

end
