(* ===== verification/Release_Info.thy ===== *)
theory Release_Info
  imports Go_Strings "HOL-Library.List_Lexorder" "HOL-Library.Char_ord"
begin

text \<open>
  The sorting of release files of \<open>src/tools/generate_release_info.go\<close>, which fills the template of a
  release description. Executing the template is the library's. The directory is fixed: the program
  declares a flag for it and never parses its flags.
\<close>

record release_info =
  ri_Android :: string
  ri_Linux :: "string list"
  ri_Windows :: "string list"
  ri_Windows7 :: "string list"
  ri_TrayLinux :: "string list"
  ri_TrayWindows :: "string list"
  ri_TrayWindows7 :: "string list"
  ri_TrayMacos :: "string list"

definition no_release :: release_info where
  "no_release = \<lparr>ri_Android = [], ri_Linux = [], ri_Windows = [], ri_Windows7 = [], ri_TrayLinux = [], ri_TrayWindows = [],
     ri_TrayWindows7 = [], ri_TrayMacos = []\<rparr>"

definition add_release_file :: "string \<Rightarrow> release_info \<Rightarrow> release_info" where
  "add_release_file f r =
     (if HasPrefix f ''awl-android'' then r\<lparr>ri_Android := f\<rparr>
      else if HasPrefix f ''awl-linux'' then r\<lparr>ri_Linux := ri_Linux r @ [f]\<rparr>
      else if HasPrefix f ''awl-windows7'' then r\<lparr>ri_Windows7 := ri_Windows7 r @ [f]\<rparr>
      else if HasPrefix f ''awl-windows'' then r\<lparr>ri_Windows := ri_Windows r @ [f]\<rparr>
      else if HasPrefix f ''awl-tray-linux'' then r\<lparr>ri_TrayLinux := ri_TrayLinux r @ [f]\<rparr>
      else if HasPrefix f ''awl-tray-windows7'' then r\<lparr>ri_TrayWindows7 := ri_TrayWindows7 r @ [f]\<rparr>
      else if HasPrefix f ''awl-tray-windows'' then r\<lparr>ri_TrayWindows := ri_TrayWindows r @ [f]\<rparr>
      else if HasPrefix f ''awl-tray-macos'' then r\<lparr>ri_TrayMacos := ri_TrayMacos r @ [f]\<rparr>
      else r)"

text \<open>The names in the directory, each with whether it is a directory; the tag of the release and the lists.\<close>

definition release_data :: "(string \<times> bool) list \<Rightarrow> string \<times> release_info" where
  "release_data files =
     (let r = fold (\<lambda>(f, isDir) r. if isDir then r else add_release_file f r) files no_release;
          releaseTag = TrimSuffix (TrimPrefix (ri_Android r) ''awl-android-'') ''.apk''
      in (releaseTag, r\<lparr>ri_Linux := sort (ri_Linux r), ri_Windows := sort (ri_Windows r), ri_Windows7 := sort (ri_Windows7 r),
            ri_TrayLinux := sort (ri_TrayLinux r), ri_TrayWindows := sort (ri_TrayWindows r),
            ri_TrayWindows7 := sort (ri_TrayWindows7 r), ri_TrayMacos := sort (ri_TrayMacos r)\<rparr>))"

section \<open>Facts\<close>

lemma prefixes_agree: "HasPrefix f p \<Longrightarrow> HasPrefix f q \<Longrightarrow> take (length q) p = take (length p) q"
  by (metis HasPrefix_def take_take min.commute)

text \<open>Files for Windows 7 do not appear among those for Windows.\<close>

lemma windows_lists:
  fixes files
  defines "fs \<equiv> map fst (filter (\<lambda>(f, isDir). \<not> isDir) files)"
  shows "ri_Windows (snd (release_data files)) = sort (filter (\<lambda>f. HasPrefix f ''awl-windows'' \<and> \<not> HasPrefix f ''awl-windows7'') fs)"
    "ri_Windows7 (snd (release_data files)) = sort (filter (\<lambda>f. HasPrefix f ''awl-windows7'') fs)"
proof -
  have other: "\<not> (HasPrefix f ''awl-windows'' \<and> HasPrefix f ''awl-android'')" "\<not> (HasPrefix f ''awl-windows'' \<and> HasPrefix f ''awl-linux'')"
    "\<not> (HasPrefix f ''awl-windows7'' \<and> HasPrefix f ''awl-android'')" "\<not> (HasPrefix f ''awl-windows7'' \<and> HasPrefix f ''awl-linux'')" for f
    using prefixes_agree [of f] by fastforce+
  let ?step = "\<lambda>(f, isDir) r. if isDir then r else add_release_file f r"
  have "ri_Windows (fold ?step files r) = ri_Windows r @ filter (\<lambda>f. HasPrefix f ''awl-windows'' \<and> \<not> HasPrefix f ''awl-windows7'') fs \<and>
      ri_Windows7 (fold ?step files r) = ri_Windows7 r @ filter (\<lambda>f. HasPrefix f ''awl-windows7'') fs" for r
    unfolding fs_def
  proof (induction files arbitrary: r)
    case (Cons a files)
    then show ?case using other [of "fst a"] by (cases a) (auto simp: add_release_file_def)
  qed simp
  then show "ri_Windows (snd (release_data files)) = sort (filter (\<lambda>f. HasPrefix f ''awl-windows'' \<and> \<not> HasPrefix f ''awl-windows7'') fs)"
    "ri_Windows7 (snd (release_data files)) = sort (filter (\<lambda>f. HasPrefix f ''awl-windows7'') fs)"
    by (simp_all add: release_data_def no_release_def Let_def)
qed

end
