(* ===== verification/Vpn_Iface.thy ===== *)
theory Vpn_Iface
  imports Net_Addr Vpn_Device
begin

text \<open>
  Creating the network interface on each platform: \<open>src/vpn/iface_linux.go\<close>, \<open>iface_darwin.go\<close>,
  \<open>iface_windows.go\<close>, \<open>iface_android.go\<close> and \<open>iface_other.go\<close>. The calls to the system and to the
  libraries are recorded in order; whether a call succeeds is an argument.
\<close>

section \<open>Masks and networks as text\<close>

text \<open>
  \<open>simpleMaskLength\<close> of \<open>net\<close>: how many bits lead the mask, \<open>None\<close> when others follow. The bits of a byte
  are shifted out while the first is set.
\<close>

primrec shift_ones :: "nat \<Rightarrow> byte \<Rightarrow> nat \<times> byte" where
  "shift_ones 0 v = (0, v)"
| "shift_ones (Suc k) v =
     (if v AND 0x80 = 0 then (0, v) else case shift_ones k (push_bit 1 v) of (n, w) \<Rightarrow> (Suc n, w))"

fun simpleMaskLength :: "byte list \<Rightarrow> nat option" where
  "simpleMaskLength [] = Some 0"
| "simpleMaskLength (v # vs) =
     (if v = 0xFF then map_option ((+) 8) (simpleMaskLength vs)
      else case shift_ones 8 v of (n, w) \<Rightarrow> if w \<noteq> 0 \<or> list_ex (\<lambda>x. x \<noteq> 0) vs then None else Some n)"

definition mask_Size :: "byte list \<Rightarrow> nat" where
  "mask_Size m = (case simpleMaskLength m of None \<Rightarrow> 0 | Some n \<Rightarrow> n)"

text \<open>\<open>IP.String\<close> of an address that is nil or has four bytes, as the addresses here do.\<close>

definition ip_text :: "ip \<Rightarrow> string" where
  "ip_text a = (if a = [] then ''<nil>'' else ip4_String a)"

definition hex_bytes :: "byte list \<Rightarrow> string" where
  "hex_bytes m = concat (map (\<lambda>b. [''0123456789abcdef'' ! (unat b div 16), ''0123456789abcdef'' ! (unat b mod 16)]) m)"

definition IPNet_String :: "IPNet \<Rightarrow> string" where
  "IPNet_String n =
     (case networkNumberAndMask n of
        (nn, m) \<Rightarrow>
          if nn = [] \<or> m = [] then ''<nil>''
          else case simpleMaskLength m of
            None \<Rightarrow> ip_text nn @ ''/'' @ hex_bytes m
          | Some l \<Rightarrow> ip_text nn @ ''/'' @ itoa l)"

text \<open>A prefix of \<open>netip\<close>; one that is longer than the address is invalid.\<close>

definition PrefixFrom :: "addr \<Rightarrow> int \<Rightarrow> addr \<times> int" where
  "PrefixFrom a bits = (a, if bits < 0 \<or> int (addr_BitLen a) < bits then - 1 else bits)"

text \<open>\<open>strconv.ParseInt\<close> to base 10 and 32 bits.\<close>

definition ParseInt32 :: "string \<Rightarrow> int option" where
  "ParseInt32 s =
     (let neg = (s \<noteq> [] \<and> hd s = CHR ''-'');
          d = (if s \<noteq> [] \<and> (hd s = CHR ''-'' \<or> hd s = CHR ''+'') then tl s else s);
          v = (if neg then - int (atoi d) else int (atoi d))
      in if d = [] \<or> \<not> list_all is_digit d \<or> v < - (2 ^ 31) \<or> 2 ^ 31 \<le> v then None else Some v)"

section \<open>Calls\<close>

datatype iface_call =
    CreateTUN string nat
  | TunName
  | NewLinkFrom string
  | SetLinkIp ip IPNet
  | SetLinkUp
  | RunCommand string "string list"
  | CreateTUNWithRequestedGUID string nat
  | SetIPAddresses "(addr \<times> int) list"
  | CreateUnmonitoredTUNFromFD int
  | CloseFD int
  | NewChannelTUN

datatype iface_error =
    CreateFailed | LinkInfoFailed | SetIPFailed | LinkUpFailed | NameFailed | MaskFailed | RouteFailed | InvalidFD string

text \<open>The calls of a function one after the other, up to the first that fails.\<close>

fun run_calls :: "(iface_call \<Rightarrow> bool) \<Rightarrow> (iface_call \<times> iface_error) list \<Rightarrow> iface_error option \<times> iface_call list" where
  "run_calls ok [] = (None, [])"
| "run_calls ok ((c, e) # cs) =
     (if ok c then (case run_calls ok cs of (r, done) \<Rightarrow> (r, c # done)) else (Some e, [c]))"

type_synonym iface_result = "iface_error option \<times> iface_call list"

section \<open>Platforms\<close>

definition newTUN_linux :: "(iface_call \<Rightarrow> bool) \<Rightarrow> string \<Rightarrow> nat \<Rightarrow> ip \<Rightarrow> byte list \<Rightarrow> iface_result" where
  "newTUN_linux ok ifname mtu localIP ipMask =
     (let ipNet = \<lparr>net_IP = ip_Mask localIP ipMask, net_Mask = ipMask\<rparr>
      in run_calls ok
        [(CreateTUN ifname mtu, CreateFailed), (NewLinkFrom ifname, LinkInfoFailed),
         (SetLinkIp localIP ipNet, SetIPFailed), (SetLinkUp, LinkUpFailed)])"

text \<open>\<open>realIfname\<close>: the name the system chose, which \<open>TunName\<close> returns.\<close>

definition newTUN_darwin :: "(iface_call \<Rightarrow> bool) \<Rightarrow> string \<Rightarrow> string \<Rightarrow> nat \<Rightarrow> ip \<Rightarrow> byte list \<Rightarrow> iface_result" where
  "newTUN_darwin ok realIfname ifname mtu localIP ipMask =
     (let ipNet = \<lparr>net_IP = localIP, net_Mask = ipMask\<rparr>; ipNetMasked = \<lparr>net_IP = ip_Mask localIP ipMask, net_Mask = ipMask\<rparr>
      in run_calls ok
        [(CreateTUN ifname mtu, CreateFailed), (TunName, NameFailed),
         (RunCommand ''ifconfig'' [realIfname, ''inet'', IPNet_String ipNet, ip_text localIP], MaskFailed),
         (RunCommand ''route'' [''-q'', ''-n'', ''add'', ''-inet'', IPNet_String ipNetMasked, ''-iface'', realIfname], RouteFailed)])"

text \<open>The first call runs as the system user. \<open>None\<close>: \<open>MustParseAddr\<close> panics.\<close>

definition newTUN_windows :: "(iface_call \<Rightarrow> bool) \<Rightarrow> string \<Rightarrow> nat \<Rightarrow> ip \<Rightarrow> byte list \<Rightarrow> iface_result option" where
  "newTUN_windows ok ifname mtu localIP ipMask =
     (case run_calls ok [(CreateTUNWithRequestedGUID ifname mtu, CreateFailed)] of
        (Some e, done) \<Rightarrow> Some (Some e, done)
      | (None, done) \<Rightarrow>
          (case ParseAddr (ip_text localIP) of
             None \<Rightarrow> None
           | Some netipAddr \<Rightarrow>
               let prefix = PrefixFrom netipAddr (int (mask_Size ipMask))
               in case run_calls ok [(SetIPAddresses [prefix], SetIPFailed)] of (r, done') \<Rightarrow> Some (r, done @ done')))"

text \<open>\<open>fdStr\<close>: the variable \<open>AWL_TUN_FD\<close>. The descriptor is closed when no device can be made of it.\<close>

definition newTUN_android :: "(iface_call \<Rightarrow> bool) \<Rightarrow> string \<Rightarrow> iface_result" where
  "newTUN_android ok fdStr =
     (case ParseInt32 fdStr of
        None \<Rightarrow> (Some (InvalidFD fdStr), [])
      | Some tunFD \<Rightarrow>
          if tunFD = 0 then (Some (InvalidFD fdStr), [])
          else if \<not> ok (CreateUnmonitoredTUNFromFD tunFD) then (Some CreateFailed, [CreateUnmonitoredTUNFromFD tunFD, CloseFD tunFD])
          else (None, [CreateUnmonitoredTUNFromFD tunFD]))"

definition newTUN_other :: iface_result where
  "newTUN_other = (None, [NewChannelTUN])"

text \<open>The file that is compiled.\<close>

datatype platform = Linux | Android | Darwin | Windows | OtherOS

definition newTUN ::
    "platform \<Rightarrow> (iface_call \<Rightarrow> bool) \<Rightarrow> string \<Rightarrow> string \<Rightarrow> string \<Rightarrow> nat \<Rightarrow> ip \<Rightarrow> byte list \<Rightarrow> iface_result option" where
  "newTUN p ok realIfname fdStr ifname mtu localIP ipMask =
     (case p of
        Linux \<Rightarrow> Some (newTUN_linux ok ifname mtu localIP ipMask)
      | Android \<Rightarrow> Some (newTUN_android ok fdStr)
      | Darwin \<Rightarrow> Some (newTUN_darwin ok realIfname ifname mtu localIP ipMask)
      | Windows \<Rightarrow> newTUN_windows ok ifname mtu localIP ipMask
      | OtherOS \<Rightarrow> Some newTUN_other)"

section \<open>Masks are printed and read back\<close>

lemma mask_length: "n \<le> 32 \<Longrightarrow> simpleMaskLength (CIDRMask n 32) = Some n"
proof -
  have "\<forall>n \<in> set [0..<33]. simpleMaskLength (CIDRMask n 32) = Some n" by code_simp
  moreover assume "n \<le> 32"
  then have "n \<in> set [0..<33]" by simp
  ultimately show ?thesis by blast
qed

lemma length_CIDRMask [simp]: "length (CIDRMask n 32) = 4"
  by (simp add: CIDRMask_def)

lemma and_bytes_same: "length a = length m \<Longrightarrow> and_bytes (and_bytes a m) m = and_bytes a m"
  by (induction a m rule: list_induct2) (simp_all add: and_bytes_def and.assoc)

lemma length_and_bytes [simp]: "length (and_bytes a m) = min (length a) (length m)"
  by (simp add: and_bytes_def)

lemma CIDR_text:
  assumes "length a = 4" and "n \<le> 32"
  shows "ParseCIDR (ip4_String a @ ''/'' @ itoa n) =
    Some (v4InV6Prefix @ a, \<lparr>net_IP = and_bytes a (CIDRMask n 32), net_Mask = CIDRMask n 32\<rparr>)"
proof -
  have "CHR ''/'' \<notin> set (itoa k)" for k using itoa_digits [of k] digit_not_sep by blast
  then have "CHR ''/'' \<notin> set (ip4_String a)" by (simp add: ip4_String_def)
  then have "Cut (ip4_String a @ ''/'' @ itoa n) (CHR ''/'') = (ip4_String a, itoa n, True)" using Cut_found by simp
  moreover have "list_all is_digit (itoa n)" using itoa_digits by (simp add: list_all_iff)
  ultimately show ?thesis using assms
    by (simp add: ParseCIDR_def ParseAddr_String Let_def ip_Mask_def)
qed

lemma IPNet_String_text:
  assumes "length a = 4" and "n \<le> 32"
  shows "IPNet_String \<lparr>net_IP = a, net_Mask = CIDRMask n 32\<rparr> = ip4_String a @ ''/'' @ itoa n"
proof -
  have "a \<noteq> []" "CIDRMask n 32 \<noteq> []" using assms(1) length_CIDRMask [of n] by force+
  then show ?thesis
    using assms by (simp add: IPNet_String_def networkNumberAndMask_def Let_def To4_def mask_length ip_text_def)
qed

lemma VPN_mask:
  assumes "fst (VPNLocalIPMask c) \<noteq> []" and "length (snd (VPNLocalIPMask c)) = 4"
  shows "\<exists>n \<le> 32. snd (VPNLocalIPMask c) = CIDRMask n 32"
proof -
  have "length (CIDRMask n (addr_BitLen a)) = 4 \<Longrightarrow> addr_BitLen a = 32" for n a by (cases a) (simp_all add: CIDRMask_def)
  then show ?thesis
    using assms by (auto simp: VPNLocalIPMask_def ParseCIDR_def Let_def not_less split: option.splits prod.splits if_splits)
qed

section \<open>Properties\<close>

lemma run_calls_ok: "list_all ok (map fst cs) \<Longrightarrow> run_calls ok cs = (None, map fst cs)"
  by (induction cs) auto

text \<open>
  C31. The interface is given the address and the network of the configuration on every platform: when every
  call succeeds, Linux sets the local address in the network of the VPN, macOS runs \<open>ifconfig\<close> and \<open>route\<close>
  with texts that stand for the same address and network, and Windows sets the address with the number of
  bits that makes the mask.
\<close>

theorem interface_network:
  assumes "VPNLocalIPMask c = (localIP, ipMask)" and "localIP \<noteq> []" and "length ipMask = 4"
  shows "newTUN_linux (\<lambda>_. True) ifname mtu localIP ipMask =
      (None, [CreateTUN ifname mtu, NewLinkFrom ifname, SetLinkIp localIP (vpn_net c), SetLinkUp]) \<and>
    (\<exists>addr route. newTUN_darwin (\<lambda>_. True) realIfname ifname mtu localIP ipMask =
        (None, [CreateTUN ifname mtu, TunName, RunCommand ''ifconfig'' [realIfname, ''inet'', addr, ip4_String localIP],
           RunCommand ''route'' [''-q'', ''-n'', ''add'', ''-inet'', route, ''-iface'', realIfname]]) \<and>
      ParseCIDR addr = Some (v4InV6Prefix @ localIP, vpn_net c) \<and>
      ParseCIDR route = Some (v4InV6Prefix @ net_IP (vpn_net c), vpn_net c)) \<and>
    (\<exists>n. newTUN_windows (\<lambda>_. True) ifname mtu localIP ipMask =
        Some (None, [CreateTUNWithRequestedGUID ifname mtu, SetIPAddresses [(A4 localIP, int n)]]) \<and> CIDRMask n 32 = ipMask)"
proof -
  obtain n where n: "n \<le> 32" "ipMask = CIDRMask n 32" using VPN_mask [of c] assms by auto
  have l: "length localIP = 4" using length_local_ip [of c] assms by simp
  let ?net = "and_bytes localIP ipMask"
  have net: "vpn_net c = \<lparr>net_IP = ?net, net_Mask = ipMask\<rparr>" "length ?net = 4"
    using assms(1,3) l by (simp_all add: vpn_net_def ip_Mask_def Let_def)
  have "and_bytes ?net ipMask = ?net" using l assms(3) by (simp add: and_bytes_same)
  then have r: "ParseCIDR (IPNet_String \<lparr>net_IP = ?net, net_Mask = ipMask\<rparr>) = Some (v4InV6Prefix @ ?net, vpn_net c)"
    using net n CIDR_text [OF net(2) n(1)] by (simp add: IPNet_String_text)
  have a: "ParseCIDR (IPNet_String \<lparr>net_IP = localIP, net_Mask = ipMask\<rparr>) = Some (v4InV6Prefix @ localIP, vpn_net c)"
    using l n net CIDR_text [OF l n(1)] by (simp add: IPNet_String_text)
  have mask: "ip_Mask localIP ipMask = ?net" using l assms(3) by (simp add: ip_Mask_def Let_def)
  have w: "PrefixFrom (A4 localIP) (int (mask_Size ipMask)) = (A4 localIP, int n)"
    using n by (simp add: PrefixFrom_def mask_Size_def mask_length)
  show ?thesis
    using a r w l n(2) net assms(2) mask
    by (simp add: newTUN_linux_def newTUN_darwin_def newTUN_windows_def Let_def ip_text_def ParseAddr_String del: append_Cons append.simps)
qed

theorem interface_network_witness:
  "newTUN_linux (\<lambda>_. True) ''awl0'' 3500 [10, 66, 0, 1] [255, 255, 255, 0] =
     (None, [CreateTUN ''awl0'' 3500, NewLinkFrom ''awl0'',
        SetLinkIp [10, 66, 0, 1] (vpn_net (zero_Config\<lparr>c_VPNConfig := (c_VPNConfig zero_Config)\<lparr>vc_IPNet := ''10.66.0.1/24''\<rparr>\<rparr>)), SetLinkUp])"
proof -
  have "VPNLocalIPMask (zero_Config\<lparr>c_VPNConfig := (c_VPNConfig zero_Config)\<lparr>vc_IPNet := ''10.66.0.1/24''\<rparr>\<rparr>) =
    ([10, 66, 0, 1], [255, 255, 255, 0])" by code_simp
  from interface_network [OF this] show ?thesis by simp
qed

text \<open>On Android the descriptor that the mobile library puts into the environment is the one that is used.\<close>

lemma android_descriptor:
  assumes "0 < fd" and "fd < 2 ^ 31"
  shows "newTUN_android (\<lambda>_. True) (itoa fd) = (None, [CreateUnmonitoredTUNFromFD (int fd)])"
proof -
  have "is_digit (hd (itoa fd))" using itoa_digits [of fd] hd_in_set [of "itoa fd"] by simp
  then have "hd (itoa fd) \<noteq> CHR ''-''" "hd (itoa fd) \<noteq> CHR ''+''" by (auto simp: is_digit_def)
  moreover have "list_all is_digit (itoa fd)" using itoa_digits by (simp add: list_all_iff)
  ultimately have "ParseInt32 (itoa fd) = Some (int fd)" using assms(2) by (simp add: ParseInt32_def)
  then show ?thesis using assms(1) by (simp add: newTUN_android_def)
qed

text \<open>
  An interface address is never made of a nil address: Windows is the only platform that would panic, and a
  configuration with its defaults has a local address.
\<close>

lemma newTUN_no_panic:
  assumes "localIP = [] \<or> length localIP = 4" and "localIP = [] \<longrightarrow> p \<noteq> Windows"
  shows "newTUN p ok realIfname fdStr ifname mtu localIP ipMask \<noteq> None"
proof (cases "localIP = []")
  case True
  then show ?thesis using assms(2) by (cases p) (simp_all add: newTUN_def)
next
  case False
  then have "ParseAddr (ip_text localIP) = Some (A4 localIP)" using assms(1) by (simp add: ip_text_def ParseAddr_String)
  then show ?thesis by (cases p) (simp_all add: newTUN_def newTUN_windows_def Let_def split: prod.split option.split)
qed

definition creates :: "iface_call \<Rightarrow> bool" where
  "creates x \<longleftrightarrow> (case x of CreateTUN _ _ \<Rightarrow> True | CreateTUNWithRequestedGUID _ _ \<Rightarrow> True | CreateUnmonitoredTUNFromFD _ \<Rightarrow> True | NewChannelTUN \<Rightarrow> True | _ \<Rightarrow> False)"

definition releases :: "iface_call \<Rightarrow> bool" where
  "releases x \<longleftrightarrow> (case x of CloseFD _ \<Rightarrow> True | _ \<Rightarrow> False)"

text \<open>
  Which failures leave an interface behind: when the function fails although the interface was created,
  which happens exactly on Linux, macOS and Windows, nothing is called that would release it, and no device is
  returned that the caller could close. On Android, where creation is the only step, the descriptor is closed
  when it fails.
\<close>

theorem failed_setup_keeps_interface:
  assumes "newTUN p ok realIfname fdStr ifname mtu localIP ipMask = Some (Some e, calls)"
  shows "((\<exists>x \<in> set calls. creates x \<and> ok x) \<longleftrightarrow> e \<in> {LinkInfoFailed, SetIPFailed, LinkUpFailed, NameFailed, MaskFailed, RouteFailed}) \<and>
    ((\<exists>x \<in> set calls. releases x) \<longleftrightarrow> p = Android \<and> e = CreateFailed) \<and>
    (e \<in> {LinkInfoFailed, SetIPFailed, LinkUpFailed, NameFailed, MaskFailed, RouteFailed} \<longrightarrow> p \<in> {Linux, Darwin, Windows})"
  using assms
  by (cases p; auto simp: newTUN_def newTUN_linux_def newTUN_darwin_def newTUN_windows_def newTUN_android_def newTUN_other_def
      creates_def releases_def Let_def split: if_splits option.splits prod.splits)

theorem failed_setup_keeps_interface_witness:
  "newTUN Linux (\<lambda>x. x \<noteq> SetLinkUp) [] [] ''awl0'' 3500 [10, 66, 0, 1] [255, 255, 255, 0] =
     Some (Some LinkUpFailed, [CreateTUN ''awl0'' 3500, NewLinkFrom ''awl0'',
       SetLinkIp [10, 66, 0, 1] \<lparr>net_IP = [10, 66, 0, 0], net_Mask = [255, 255, 255, 0]\<rparr>, SetLinkUp]) \<and>
   \<not> (\<exists>x \<in> set [CreateTUN ''awl0'' 3500, NewLinkFrom ''awl0'',
       SetLinkIp [10, 66, 0, 1] \<lparr>net_IP = [10, 66, 0, 0], net_Mask = [255, 255, 255, 0]\<rparr>, SetLinkUp]. releases x)"
proof -
  have w: "newTUN Linux (\<lambda>x. x \<noteq> SetLinkUp) [] [] ''awl0'' 3500 [10, 66, 0, 1] [255, 255, 255, 0] =
     Some (Some LinkUpFailed, [CreateTUN ''awl0'' 3500, NewLinkFrom ''awl0'',
       SetLinkIp [10, 66, 0, 1] \<lparr>net_IP = [10, 66, 0, 0], net_Mask = [255, 255, 255, 0]\<rparr>, SetLinkUp])"
    by (simp add: newTUN_def newTUN_linux_def ip_Mask_def and_bytes_def Let_def)
  with failed_setup_keeps_interface [OF w] show ?thesis by blast
qed

end
