(* ===== verification/Dns_Server.thy ===== *)
theory Dns_Server
  imports Awl_Application
begin

text \<open>
  The servers around the resolver of \<open>src/awldns/awldns.go\<close>: which handler a query reaches, when the two
  servers listen, and closing them; and closing the DNS service of \<open>src/application.go\<close>. The multiplexer of
  miekg/dns is the argument \<open>closest\<close>, which picks a registered pattern for a request.
\<close>

section \<open>Dispatch\<close>

datatype dns_handler = LocalHandler | PtrHandler | ProxyHandler

definition mux_handlers :: "(string \<times> dns_handler) list" where
  "mux_handlers = [(LocalDomain, LocalHandler), (TrimPrefix ptrV4Suffix ''.'', PtrHandler), (''.'', ProxyHandler)]"

text \<open>\<open>NotServed\<close>: no handler is called; \<open>NoAnswer\<close>: the handler writes nothing.\<close>

datatype dns_answer = NotServed | NoAnswer | Answer dns_msg

definition ServeDNS ::
    "(string list \<Rightarrow> question list \<Rightarrow> string option) \<Rightarrow> (nat \<Rightarrow> nat) \<Rightarrow> (string \<Rightarrow> bool \<Rightarrow> question list \<Rightarrow> dns_msg option) \<Rightarrow>
     (nat \<Rightarrow> dns_msg \<Rightarrow> dns_msg) \<Rightarrow> bool \<Rightarrow> nat option \<Rightarrow> dns_config \<Rightarrow> question list \<Rightarrow> dns_answer" where
  "ServeDNS closest ulower exchange trunc tcp udpsize cfg questions =
     (case Option.bind (closest (map fst mux_handlers) questions) (map_of mux_handlers) of
        None \<Rightarrow> NotServed
      | Some LocalHandler \<Rightarrow>
          (case dnsLocalDomainHandler ulower trunc tcp udpsize cfg questions of None \<Rightarrow> NoAnswer | Some m \<Rightarrow> Answer m)
      | Some PtrHandler \<Rightarrow> Answer (ptrv4Handler exchange trunc tcp udpsize cfg questions)
      | Some ProxyHandler \<Rightarrow> Answer (dnsProxyHandler exchange tcp cfg questions))"

text \<open>
  What the multiplexer documents: the pattern that most closely matches the name of the question, compared in
  canonical form; a query for DS records is redirected and not considered here.
\<close>

definition zone_of_name :: "string \<Rightarrow> string \<Rightarrow> bool" where
  "zone_of_name z n \<longleftrightarrow> z = ''.'' \<or> n = z \<or> HasSuffix n (CHR ''.'' # z)"

definition TypeDS :: qtype where
  "TypeDS = TypeOther 43"

definition mux_law :: "(string \<Rightarrow> string) \<Rightarrow> (string list \<Rightarrow> question list \<Rightarrow> string option) \<Rightarrow> bool" where
  "mux_law can closest \<longleftrightarrow> (\<forall>ps q qs. qu_Qtype q \<noteq> TypeDS \<longrightarrow> (\<exists>p \<in> set ps. zone_of_name (can p) (can (qu_Name q))) \<longrightarrow>
     (\<exists>p \<in> set ps. closest ps (q # qs) = Some p \<and> zone_of_name (can p) (can (qu_Name q)) \<and>
        (\<forall>p' \<in> set ps. zone_of_name (can p') (can (qu_Name q)) \<longrightarrow> length (can p') \<le> length (can p))))"

definition canonical_ok :: "(string \<Rightarrow> string) \<Rightarrow> bool" where
  "canonical_ok can \<longleftrightarrow> can ''awl'' = ''awl.'' \<and> can ''in-addr.arpa.'' = ''in-addr.arpa.'' \<and> can ''.'' = ''.''"

section \<open>Servers\<close>

datatype server_state = NotListening | Listening | Ended

record dns_servers =
  sv_resolver :: Resolver
  sv_udp :: server_state
  sv_tcp :: server_state
  sv_closed :: bool

definition start_servers :: "string \<Rightarrow> dns_servers" where
  "start_servers dnsAddress =
     \<lparr>sv_resolver = NewResolver dnsAddress, sv_udp = NotListening, sv_tcp = NotListening, sv_closed = False\<rparr>"

text \<open>\<open>NotifyStartedFunc\<close>, and what the goroutine does when \<open>ListenAndServe\<close> returns.\<close>

definition udp_to :: "server_state \<Rightarrow> dns_servers \<Rightarrow> dns_servers" where
  "udp_to st s = s\<lparr>sv_udp := st, sv_resolver := (sv_resolver s)\<lparr>rv_udpServerWorking := (st = Listening)\<rparr>\<rparr>"

definition tcp_to :: "server_state \<Rightarrow> dns_servers \<Rightarrow> dns_servers" where
  "tcp_to st s = s\<lparr>sv_tcp := st, sv_resolver := (sv_resolver s)\<lparr>rv_tcpServerWorking := (st = Listening)\<rparr>\<rparr>"

text \<open>
  \<open>Close\<close>: \<open>Shutdown\<close> ends a server that listens; for one that does not it only returns an error, which
  is logged. The result counts the warnings.
\<close>

definition Resolver_Close :: "dns_servers \<Rightarrow> nat \<times> dns_servers" where
  "Resolver_Close s =
     (let (w1, s1) = (if sv_udp s = Listening then (0, udp_to Ended s) else (1, s));
          (w2, s2) = (if sv_tcp s1 = Listening then (0, tcp_to Ended s1) else (1, s1))
      in (w1 + w2, s2\<lparr>sv_closed := True\<rparr>))"

text \<open>Closing the service: first the system's configuration, when there is one, then the resolver, when there is one.\<close>

datatype dns_close = CloseConfigurator | CloseResolver

definition DNSService_Close :: "bool \<Rightarrow> DNSService \<Rightarrow> dns_close list" where
  "DNSService_Close hasConfigurator a =
     (if hasConfigurator then [CloseConfigurator] else []) @ (if ds_resolver a \<noteq> None then [CloseResolver] else [])"

inductive server_step :: "dns_servers \<Rightarrow> dns_servers \<Rightarrow> bool" where
  udp_start: "sv_udp s = NotListening \<Longrightarrow> server_step s (udp_to Listening s)"
| udp_fail: "sv_udp s \<noteq> Ended \<Longrightarrow> server_step s (udp_to Ended s)"
| tcp_start: "sv_tcp s = NotListening \<Longrightarrow> server_step s (tcp_to Listening s)"
| tcp_fail: "sv_tcp s \<noteq> Ended \<Longrightarrow> server_step s (tcp_to Ended s)"
| close: "\<not> sv_closed s \<Longrightarrow> server_step s (snd (Resolver_Close s))"

section \<open>Properties\<close>

lemma zone_end: "zone_of_name z n \<Longrightarrow> z \<noteq> ''.'' \<Longrightarrow> \<exists>u. n = u @ z"
proof -
  assume z: "zone_of_name z n" "z \<noteq> ''.''"
  show ?thesis
  proof (cases "n = z")
    case False
    then have "drop (length n - length (CHR ''.'' # z)) n = CHR ''.'' # z" using z by (simp add: zone_of_name_def HasSuffix_def)
    then have "n = (take (length n - length (CHR ''.'' # z)) n @ ''.'') @ z"
      using append_take_drop_id [of "length n - length (CHR ''.'' # z)" n] by simp
    then show ?thesis by blast
  qed simp
qed

lemma zones_apart:
  assumes "zone_of_name ''awl.'' n"
  shows "\<not> zone_of_name ''in-addr.arpa.'' n"
proof
  assume "zone_of_name ''in-addr.arpa.'' n"
  then obtain u v where "n = u @ ''awl.''" "n = v @ ''in-addr.arpa.''" using zone_end assms by blast
  then have "rev (u @ ''awl.'') = rev (v @ ''in-addr.arpa.'')" by simp
  then show False by simp
qed

lemma handler_chosen:
  assumes "mux_law can closest" and "canonical_ok can" and "qu_Qtype q \<noteq> TypeDS"
  shows "closest (map fst mux_handlers) (q # qs) =
    Some (if zone_of_name ''awl.'' (can (qu_Name q)) then ''awl''
          else if zone_of_name ''in-addr.arpa.'' (can (qu_Name q)) then ''in-addr.arpa.'' else ''.'')"
proof -
  let ?ps = "[''awl'', ''in-addr.arpa.'', ''.'']"
  have ps: "map fst mux_handlers = ?ps"
    by (simp add: mux_handlers_def LocalDomain_def TrimPrefix_def HasPrefix_def ptrV4Suffix_def)
  have can: "can ''awl'' = ''awl.''" "can ''in-addr.arpa.'' = ''in-addr.arpa.''" "can ''.'' = ''.''"
    using assms(2) by (simp_all add: canonical_ok_def)
  have "zone_of_name (can ''.'') (can (qu_Name q))" by (simp add: can zone_of_name_def)
  then have ex: "\<exists>p \<in> set ?ps. zone_of_name (can p) (can (qu_Name q))" by auto
  obtain p where p: "p \<in> set ?ps" "closest ?ps (q # qs) = Some p" "zone_of_name (can p) (can (qu_Name q))"
    "\<forall>p' \<in> set ?ps. zone_of_name (can p') (can (qu_Name q)) \<longrightarrow> length (can p') \<le> length (can p)"
    using assms(1) [unfolded mux_law_def, rule_format, OF assms(3) ex, of qs] by blast
  show ?thesis
    unfolding ps using p zones_apart [of "can (qu_Name q)"] by (auto simp: can)
qed


text \<open>A multiplexer as documented.\<close>

definition sample_canonical :: "string \<Rightarrow> string" where
  "sample_canonical s = (if s \<noteq> [] \<and> last s = CHR ''.'' then s else s @ ''.'')"

definition sample_closest :: "string list \<Rightarrow> question list \<Rightarrow> string option" where
  "sample_closest ps qs =
     (case qs of
        [] \<Rightarrow> None
      | q # _ \<Rightarrow>
          let hits = sort_key (length \<circ> sample_canonical) (filter (\<lambda>p. zone_of_name (sample_canonical p) (sample_canonical (qu_Name q))) ps)
          in if hits = [] then None else Some (last hits))"

lemma sample_mux: "mux_law sample_canonical sample_closest"
  unfolding mux_law_def
proof (intro allI impI)
  fix ps and q :: question and qs
  let ?in = "\<lambda>p. zone_of_name (sample_canonical p) (sample_canonical (qu_Name q))"
  let ?hits = "sort_key (length \<circ> sample_canonical) (filter ?in ps)"
  assume "\<exists>p \<in> set ps. ?in p"
  then have "set ?hits \<noteq> {}" by auto
  then have ne: "?hits \<noteq> []" by force
  then have l: "last ?hits \<in> set ps" "?in (last ?hits)" using last_in_set [OF ne] by auto
  have "length (sample_canonical p') \<le> length (sample_canonical (last ?hits))" if "p' \<in> set ps" "?in p'" for p'
  proof -
    have "p' \<in> set ?hits" using that by simp
    then obtain i where i: "i < length ?hits" "?hits ! i = p'" by (metis in_set_conv_nth)
    have "sorted (map (length \<circ> sample_canonical) ?hits)" by simp
    from sorted_nth_mono [OF this, of i "length ?hits - 1"] i ne show ?thesis by (simp add: last_conv_nth)
  qed
  with l ne show "\<exists>p \<in> set ps. sample_closest ps (q # qs) = Some p \<and> ?in p \<and>
      (\<forall>p' \<in> set ps. ?in p' \<longrightarrow> length (sample_canonical p') \<le> length (sample_canonical p))"
    by (intro bexI [of _ "last ?hits"]) (simp_all add: sample_closest_def Let_def)
qed


definition flags_right :: "dns_servers \<Rightarrow> bool" where
  "flags_right s \<longleftrightarrow> rv_udpServerWorking (sv_resolver s) = (sv_udp s = Listening) \<and> rv_tcpServerWorking (sv_resolver s) = (sv_tcp s = Listening)"

definition servers_init :: "string \<Rightarrow> dns_servers \<Rightarrow> bool" where
  "servers_init a s \<longleftrightarrow> s = start_servers a"

interpretation servers: inductive_invariant "servers_init a" server_step "\<lambda>s. flags_right s \<and> rv_dnsAddress (sv_resolver s) = a" for a
proof
  show "servers_init a s \<Longrightarrow> flags_right s \<and> rv_dnsAddress (sv_resolver s) = a" for s
    by (simp add: servers_init_def flags_right_def start_servers_def NewResolver_def)
  fix s t
  assume "flags_right s \<and> rv_dnsAddress (sv_resolver s) = a" and "server_step s t"
  then show "flags_right t \<and> rv_dnsAddress (sv_resolver t) = a"
    by (cases rule: server_step.cases [OF \<open>server_step s t\<close>])
      (auto simp: flags_right_def udp_to_def tcp_to_def Resolver_Close_def Let_def split: if_splits)
qed

text \<open>
  The resolver tells its address exactly while both servers listen.
\<close>

theorem address_while_listening:
  assumes "reachable (servers_init a) server_step s"
  shows "DNSAddress (sv_resolver s) = (if sv_udp s = Listening \<and> sv_tcp s = Listening then a else [])"
  using servers.inv_reachable [OF assms] by (auto simp: DNSAddress_def flags_right_def)

text \<open>Closing can come before the servers listen; then they listen after it and nothing stops them.\<close>

theorem close_before_listening:
  "\<exists>s. reachable (servers_init a) server_step s \<and> sv_closed s \<and> sv_udp s = Listening \<and> sv_tcp s = Listening \<and> DNSAddress (sv_resolver s) = a"
proof -
  let ?s1 = "snd (Resolver_Close (start_servers a))"
  have n: "sv_udp ?s1 = NotListening" "sv_tcp (udp_to Listening ?s1) = NotListening" "sv_closed ?s1"
    by (simp_all add: Resolver_Close_def start_servers_def udp_to_def)
  have "reachable (servers_init a) server_step (start_servers a)" by (rule reach_init) (simp add: servers_init_def)
  moreover have "server_step (start_servers a) ?s1" by (rule server_step.close) (simp add: start_servers_def)
  ultimately have "reachable (servers_init a) server_step ?s1" by (rule reach_step)
  then have "reachable (servers_init a) server_step (udp_to Listening ?s1)" using server_step.udp_start [OF n(1)] by (rule reach_step)
  then have r: "reachable (servers_init a) server_step (tcp_to Listening (udp_to Listening ?s1))"
    using server_step.tcp_start [OF n(2)] by (rule reach_step)
  let ?s = "tcp_to Listening (udp_to Listening ?s1)"
  have "sv_closed ?s" "sv_udp ?s = Listening" "sv_tcp ?s = Listening" using n(3) by (simp_all add: udp_to_def tcp_to_def)
  then show ?thesis using r address_while_listening [OF r] by (intro exI [of _ ?s]) simp
qed

end
