(* ===== verification/Auth_Background.thy ===== *)
theory Auth_Background
  imports Auth_Status
begin

text \<open>
  The two background loops of \<open>src/service/auth_status.go\<close>, which the application starts: every five minutes
  the pending auth requests are sent again and the status is exchanged with every known peer, until the context
  ends. A tick comes with what other goroutines did since the last one and with the answers of the network.
\<close>

datatype 'e loop_event = LoopTick "AuthStatus \<Rightarrow> AuthStatus" 'e | LoopDone

fun ticker_loop :: "('e \<Rightarrow> AuthStatus \<Rightarrow> AuthStatus) \<Rightarrow> 'e loop_event list \<Rightarrow> AuthStatus \<Rightarrow> AuthStatus" where
  "ticker_loop f [] s = s"
| "ticker_loop f (LoopDone # es) s = s"
| "ticker_loop f (LoopTick mid e # es) s = ticker_loop f es (f e (mid s))"

definition BackgroundRetryAuthRequests :: "externals \<Rightarrow> (string \<Rightarrow> auth_env) loop_event list \<Rightarrow> AuthStatus \<Rightarrow> AuthStatus" where
  "BackgroundRetryAuthRequests x = ticker_loop (retry_auth_requests x)"

definition BackgroundExchangeStatusInfo :: "externals \<Rightarrow> (nat \<times> (string \<Rightarrow> exch_env)) loop_event list \<Rightarrow> AuthStatus \<Rightarrow> AuthStatus" where
  "BackgroundExchangeStatusInfo x = ticker_loop (\<lambda>(now, env). ExchangeStatusInfoWithAllKnownPeers x now env)"

section \<open>Requests are sent again until they are answered\<close>

text \<open>The peer was reached and answered the request with yes or no.\<close>

definition settles :: "auth_env \<Rightarrow> bool" where
  "settles e \<longleftrightarrow> ae_connectOk e \<and> ae_streamOk e \<and> ae_sendOk e \<and>
     (case ae_received e of None \<Rightarrow> False | Some r \<Rightarrow> apr_Confirmed r \<or> apr_Declined r)"

lemma send_outgoing:
  assumes "gm_get (as_outgoingAuths s) p = Some a"
  shows "as_outgoingAuths (snd (SendAuthRequest x e id p a s)) = (if settles e then gm_del (as_outgoingAuths s) p else as_outgoingAuths s)"
proof -
  have "gm_set (as_outgoingAuths s) p a = as_outgoingAuths s" using assms by (simp add: gm_get_def gm_set_def update_triv)
  then show ?thesis
    by (auto simp: SendAuthRequest_def Let_def settles_def del_outgoing_def split: option.splits)
qed

lemma gm_del_filter: "gm_del m k = filter (\<lambda>r. fst r \<noteq> k) m"
  unfolding gm_del_def AList.delete_eq by (rule filter_cong) auto

lemma retry_fold:
  assumes "gm_wf (as_outgoingAuths s)" and "distinct (map fst es)" and "set es \<subseteq> set (as_outgoingAuths s)"
  shows "as_outgoingAuths (foldl (\<lambda>s (p, a). snd (SendAuthRequest x (env p) id p a s)) s es) =
    filter (\<lambda>r. fst r \<in> fst ` set es \<longrightarrow> \<not> settles (env (fst r))) (as_outgoingAuths s)"
  using assms
proof (induction es arbitrary: s)
  case (Cons r es)
  obtain p a where r: "r = (p, a)" by fastforce
  let ?s = "snd (SendAuthRequest x (env p) id p a s)"
  have "gm_get (as_outgoingAuths s) p = Some a" using Cons.prems r by (simp add: gm_get_iff)
  note out = send_outgoing [OF this, of x "env p"]
  have wf: "gm_wf (as_outgoingAuths ?s)" using Cons.prems(1) by (simp add: out gm.wf_del)
  have d: "distinct (map fst es)" using Cons.prems(2) by simp
  have sub: "set es \<subseteq> set (as_outgoingAuths ?s)"
    using Cons.prems(2,3) r by (fastforce simp: out gm_del_filter image_iff)
  have "as_outgoingAuths (foldl (\<lambda>s (p, a). snd (SendAuthRequest x (env p) id p a s)) ?s es) =
      filter (\<lambda>r. fst r \<in> fst ` set es \<longrightarrow> \<not> settles (env (fst r))) (as_outgoingAuths ?s)"
    by (rule Cons.IH [OF wf d sub])
  also have "\<dots> = filter (\<lambda>r. fst r \<in> fst ` set ((p, a) # es) \<longrightarrow> \<not> settles (env (fst r))) (as_outgoingAuths s)"
    by (auto simp: out gm_del_filter intro!: filter_cong)
  finally show ?case by (simp only: r foldl_Cons prod.case)
qed simp

lemma retry_outgoing:
  assumes "gm_wf (as_outgoingAuths s)"
  shows "as_outgoingAuths (retry_auth_requests x env s) = filter (\<lambda>r. \<not> settles (env (fst r))) (as_outgoingAuths s)"
proof -
  have "as_outgoingAuths (retry_auth_requests x env s) =
      filter (\<lambda>r. fst r \<in> fst ` set (as_outgoingAuths s) \<longrightarrow> \<not> settles (env (fst r))) (as_outgoingAuths s)"
    using retry_fold [OF assms, of "as_outgoingAuths s" x env] assms by (simp add: retry_auth_requests_def gm_wf_def)
  also have "\<dots> = filter (\<lambda>r. \<not> settles (env (fst r))) (as_outgoingAuths s)" by (rule filter_cong) auto
  finally show ?thesis .
qed

text \<open>
  A pending auth request is sent in every round until a round in which the peer is reached and answers yes or
  no, and only then it is gone; when the context ends, the requests that are left are those never answered.
\<close>

theorem requests_retried:
  assumes "gm_wf (as_outgoingAuths s)"
  shows "as_outgoingAuths (BackgroundRetryAuthRequests x (map (LoopTick id) envs @ LoopDone # rest) s) =
    filter (\<lambda>r. \<forall>env \<in> set envs. \<not> settles (env (fst r))) (as_outgoingAuths s)"
  using assms
proof (induction envs arbitrary: s)
  case (Cons env envs)
  let ?s = "retry_auth_requests x env s"
  have "as_outgoingAuths (BackgroundRetryAuthRequests x (map (LoopTick id) envs @ LoopDone # rest) ?s) =
      filter (\<lambda>r. \<forall>env \<in> set envs. \<not> settles (env (fst r))) (as_outgoingAuths ?s)"
    using Cons.prems by (intro Cons.IH) (simp add: retry_outgoing gm_wf_def distinct_map_filter)
  then show ?case using Cons.prems by (simp add: BackgroundRetryAuthRequests_def retry_outgoing id_def)
qed (simp add: BackgroundRetryAuthRequests_def)

theorem requests_retried_sample:
  "as_outgoingAuths (BackgroundRetryAuthRequests x
       [LoopTick id (\<lambda>_. \<lparr>ae_connectOk = False, ae_streamOk = True, ae_sendOk = True, ae_received = None\<rparr>),
        LoopTick id (\<lambda>p. \<lparr>ae_connectOk = True, ae_streamOk = True, ae_sendOk = True,
          ae_received = Some \<lparr>apr_Confirmed = (p = ''a''), apr_Declined = False\<rparr>\<rparr>), LoopDone]
       (s\<lparr>as_outgoingAuths := [(''a'', \<lparr>ap_Name = ''n''\<rparr>), (''b'', \<lparr>ap_Name = ''n''\<rparr>)]\<rparr>)) = [(''b'', \<lparr>ap_Name = ''n''\<rparr>)]"
  using requests_retried [of "s\<lparr>as_outgoingAuths := [(''a'', \<lparr>ap_Name = ''n''\<rparr>), (''b'', \<lparr>ap_Name = ''n''\<rparr>)]\<rparr>" x
      "[\<lambda>_. \<lparr>ae_connectOk = False, ae_streamOk = True, ae_sendOk = True, ae_received = None\<rparr>,
        \<lambda>p. \<lparr>ae_connectOk = True, ae_streamOk = True, ae_sendOk = True,
          ae_received = Some \<lparr>apr_Confirmed = (p = ''a''), apr_Declined = False\<rparr>\<rparr>]" "[]"]
  by (simp add: gm_wf_def settles_def)

end
