(* ===== verification/Awl_Platforms.thy ===== *)
theory Awl_Platforms
  imports Awl_Embeds Awl_Lifecycle
begin

text \<open>
  Small parts that depend on the platform: how the tray starts on macOS
  (\<open>src/cmd/awl-tray/os_hacks_macos.go\<close>), installing the driver library on Windows
  (\<open>src/embeds/wintun_windows.go\<close>), the file that an update replaces (\<open>src/update/update.go\<close>), and the
  address of the API that the mobile application connects to (\<open>src/api/api.go\<close>,
  \<open>src/cmd/gomobile-lib/main.go\<close>).
\<close>

section \<open>macOS\<close>

definition osa_script :: "string \<Rightarrow> string" where
  "osa_script executable = ''do shell script '' @ [CHR 0x22] @ executable @ [CHR 0x22] @ '' with administrator privileges''"

text \<open>The process always ends here; the result is its exit code.\<close>

datatype osa_result = OsaNotStarted | OsaFinished int

definition mac_runItselfWithRoot :: "string option \<Rightarrow> string list \<Rightarrow> (string list \<Rightarrow> osa_result) \<Rightarrow> int" where
  "mac_runItselfWithRoot osExecutable args osascript =
     (let executable = (case osExecutable of None \<Rightarrow> args ! 0 | Some x \<Rightarrow> x)
      in case osascript [''-e'', osa_script executable] of OsaNotStarted \<Rightarrow> 1 | OsaFinished n \<Rightarrow> n)"

datatype mac_start = MacExits int | MacGoesOn "string list"

text \<open>As root, an alias of the loopback interface is set for the admin address; a failure is only printed.\<close>

definition mac_initOSSpecificHacks :: "int \<Rightarrow> int \<Rightarrow> mac_start" where
  "mac_initOSSpecificHacks euid rootExit =
     (if euid \<noteq> 0 then MacExits rootExit else MacGoesOn [''ifconfig'', ''lo0'', ''alias'', AdminHttpServerIP, ''up''])"

definition mac_getRealUserID :: "int \<times> bool" where
  "mac_getRealUserID = (0, False)"

section \<open>Windows\<close>

text \<open>
  What is on disk is a map from paths to contents; a file is compared with the embedded one before it is
  written. \<open>None\<close> is a panic of the comparison.
\<close>

definition file_stat :: "byte list option \<Rightarrow> stat_result" where
  "file_stat f = (case f of None \<Rightarrow> NotExist | Some b \<Rightarrow> StatSize (length b))"

definition file_stream :: "byte list option \<Rightarrow> stream option" where
  "file_stream f = map_option (\<lambda>b. \<lparr>st_bytes = b, st_end = EOF\<rparr>) f"

definition EmbedWintun ::
    "string option \<Rightarrow> byte list \<Rightarrow> (string \<Rightarrow> bool) \<Rightarrow> (string \<Rightarrow> byte list option) \<Rightarrow> (string \<Rightarrow> byte list option) option" where
  "EmbedWintun executable wintunDLL canWrite files =
     (case executable of
        None \<Rightarrow> Some files
      | Some ex \<Rightarrow>
          let wintunPath = path_Join (path_Dir ex) ''wintun.dll''
          in map_option (\<lambda>equal. if \<not> equal \<and> canWrite wintunPath then files(wintunPath \<mapsto> wintunDLL) else files)
               (checkIsFileEqual (file_stat (files wintunPath)) (file_stream (files wintunPath)) wintunDLL))"

section \<open>Updates\<close>

text \<open>\<open>filepath.Base\<close> on Unix.\<close>

definition path_Base :: "string \<Rightarrow> string" where
  "path_Base p =
     (if p = [] then ''.''
      else let q = rev (dropWhile (\<lambda>c. c = CHR ''/'') (rev p)); b = rev (takeWhile (\<lambda>c. c \<noteq> CHR ''/'') (rev q))
           in if b = [] then ''/'' else b)"

text \<open>Every file of the release replaces the running executable; installing is the updater's \<open>doUpdate\<close>.\<close>

definition DoUpdate :: "string option \<Rightarrow> ((string \<Rightarrow> string) \<Rightarrow> 'r) \<Rightarrow> 'r option" where
  "DoUpdate executable doUpdate = (case executable of None \<Rightarrow> None | Some ex \<Rightarrow> Some (doUpdate (\<lambda>loadedFilename. path_Base ex)))"

section \<open>Address of the API\<close>

text \<open>\<open>IP.String\<close>, with the text of IPv6 addresses as \<open>netip\<close> prints it: the first longest run of zero groups is shortened.\<close>

definition v6_groups :: "ip \<Rightarrow> nat list" where
  "v6_groups a = map (\<lambda>i. unat (a ! (2 * i)) * 256 + unat (a ! (2 * i + 1))) [0..<8]"

definition zero_run :: "nat list \<Rightarrow> nat \<times> nat" where
  "zero_run gs =
     foldl (\<lambda>(s, e) i. let j = i + length (takeWhile (\<lambda>g. g = 0) (drop i gs)) in if 2 \<le> j - i \<and> e - s < j - i then (i, j) else (s, e))
       (255, 255) [0..<8]"

definition lower_hex :: "nat \<Rightarrow> string" where
  "lower_hex n =
     (let ds = [n div 4096 mod 16, n div 256 mod 16, n div 16 mod 16, n mod 16]; d = dropWhile (\<lambda>x. x = 0) ds
      in map ((!) ''0123456789abcdef'') (if d = [] then [0] else d))"

fun hex_groups :: "nat list \<Rightarrow> string" where
  "hex_groups [] = []"
| "hex_groups [g] = lower_hex g"
| "hex_groups (g # gs) = lower_hex g @ '':'' @ hex_groups gs"

definition ip6_String :: "ip \<Rightarrow> string" where
  "ip6_String a =
     (let gs = v6_groups a; (s, e) = zero_run gs
      in if s < 8 then hex_groups (take s gs) @ ''::'' @ hex_groups (drop e gs) else hex_groups gs)"

definition IP_String :: "ip \<Rightarrow> string" where
  "IP_String a = (if a = [] then ''<nil>'' else if To4 a \<noteq> [] then ip4_String (To4 a) else ip6_String a)"

definition IsUnspecified :: "ip \<Rightarrow> bool" where
  "IsUnspecified a \<longleftrightarrow> ip_Equal a (v4InV6Prefix @ [0, 0, 0, 0]) \<or> ip_Equal a (replicate 16 0)"

text \<open>\<open>address\<close>: what the listener prints; \<open>None\<close> is the panic when it is no host and port.\<close>

definition Address :: "string \<Rightarrow> string option" where
  "Address address =
     (case SplitHostPort address of
        None \<Rightarrow> None
      | Some (host, port) \<Rightarrow>
          let a = ParseIP host
          in if a = [] then Some address
             else if IsUnspecified a then Some (JoinHostPort ''127.0.0.1'' port)
             else Some (JoinHostPort (IP_String a) port))"

definition GetApiAddress :: "(Application \<Rightarrow> string option) \<Rightarrow> mobile \<Rightarrow> string option" where
  \<comment> \<open>what the listener of the API, if there is one, prints\<close>
  "GetApiAddress listener m =
     (case mb_app m of None \<Rightarrow> Some [] | Some app \<Rightarrow> (case listener app of None \<Rightarrow> Some [] | Some a \<Rightarrow> Address a))"

section \<open>Properties\<close>

text \<open>
  Installing the driver library: afterwards it is on disk as embedded if the place can be written, nothing else
  is changed, and a second run writes nothing.
\<close>

theorem wintun_installed:
  assumes "canWrite (path_Join (path_Dir ex) ''wintun.dll'')"
  shows "EmbedWintun (Some ex) dll canWrite files = Some (files(path_Join (path_Dir ex) ''wintun.dll'' \<mapsto> dll))"
    and "EmbedWintun (Some ex) dll (\<lambda>_. False) (files(path_Join (path_Dir ex) ''wintun.dll'' \<mapsto> dll)) =
      Some (files(path_Join (path_Dir ex) ''wintun.dll'' \<mapsto> dll))"
proof -
  have r: "checkIsFileEqual (file_stat f) (file_stream f) dll = Some (f = Some dll)" for f
  proof (cases f)
    case (Some b)
    obtain r where "streamsEqual \<lparr>st_bytes = dll, st_end = EOF\<rparr> \<lparr>st_bytes = b, st_end = EOF\<rparr> = Some r" "r = Equal True \<longleftrightarrow> dll = b"
      using streamsEqual_EOF [of "\<lparr>st_bytes = dll, st_end = EOF\<rparr>" "\<lparr>st_bytes = b, st_end = EOF\<rparr>"] by auto
    then show ?thesis using Some by (auto simp: checkIsFileEqual_def file_stat_def file_stream_def)
  qed (auto simp: checkIsFileEqual_def file_stat_def)
  have same: "m(k \<mapsto> v) = m" if "m k = Some v" for m :: "string \<Rightarrow> byte list option" and k v using that by auto
  show "EmbedWintun (Some ex) dll canWrite files = Some (files(path_Join (path_Dir ex) ''wintun.dll'' \<mapsto> dll))"
    using assms r same [of files "path_Join (path_Dir ex) ''wintun.dll''" dll] by (simp add: EmbedWintun_def Let_def)
  show "EmbedWintun (Some ex) dll (\<lambda>_. False) (files(path_Join (path_Dir ex) ''wintun.dll'' \<mapsto> dll)) =
      Some (files(path_Join (path_Dir ex) ''wintun.dll'' \<mapsto> dll))"
    using r by (simp add: EmbedWintun_def Let_def)
qed

lemma split_join_ipv4:
  assumes "CHR '':'' \<notin> set host" and "CHR ''['' \<notin> set host" and "CHR '']'' \<notin> set host" and "list_all is_digit port"
  shows "SplitHostPort (JoinHostPort host port) = Some (host, port)"
proof -
  have p: "CHR '':'' \<notin> set port" "CHR ''['' \<notin> set port" "CHR '']'' \<notin> set port"
    using assms(4) by (auto simp: list_all_iff is_digit_def)
  have "takeWhile (\<lambda>c. c \<noteq> CHR '':'') (rev port @ CHR '':'' # rev host) = rev port"
    using p(1) by (subst takeWhile_append2) auto
  then have "last_colon (host @ CHR '':'' # port) = Some (length host)"
    by (simp add: last_colon_def)
  moreover have "hd (host @ CHR '':'' # port) \<noteq> CHR ''[''" using assms(2) by (cases host) auto
  ultimately show ?thesis using assms p by (simp add: SplitHostPort_def JoinHostPort_def)
qed

lemma ip4_String_chars: "c \<in> set (ip4_String a) \<Longrightarrow> is_digit c \<or> c = CHR ''.''"
  using itoa_digits by (auto simp: ip4_String_def)

text \<open>
  The address the mobile application is given can be connected to: for a listener on an IPv4 address
  it is that address, for one that listens on every address it is the loopback address, with the same port.
\<close>

theorem api_address_connectable:
  assumes "length a = 4" and "list_all is_digit port"
  shows "Address (JoinHostPort (ip4_String a) port) =
      Some (JoinHostPort (if a = [0, 0, 0, 0] then ''127.0.0.1'' else ip4_String a) port)"
    and "Address (''[::]:'' @ port) = Some (''127.0.0.1:'' @ port)"
proof -
  have "CHR '':'' \<notin> set (ip4_String a)" "CHR ''['' \<notin> set (ip4_String a)" "CHR '']'' \<notin> set (ip4_String a)"
    using ip4_String_chars [of _ a] by (auto simp: is_digit_def dest: ip4_String_chars)
  then have s: "SplitHostPort (JoinHostPort (ip4_String a) port) = Some (ip4_String a, port)"
    using assms(2) by (rule split_join_ipv4)
  have i: "ParseIP (ip4_String a) = v4InV6Prefix @ a" using assms(1) by (simp add: ParseIP_def ParseAddr_String)
  have "IsUnspecified (v4InV6Prefix @ a) \<longleftrightarrow> a = [0, 0, 0, 0]"
    using assms(1) by (auto simp: IsUnspecified_def ip_Equal_def v4InV6Prefix_def numeral_eq_Suc)
  moreover have "v4InV6Prefix @ a \<noteq> []" "To4 (v4InV6Prefix @ a) = a" "a \<noteq> []"
    using assms(1) by (auto simp: To4_def)
  ultimately show "Address (JoinHostPort (ip4_String a) port) =
      Some (JoinHostPort (if a = [0, 0, 0, 0] then ''127.0.0.1'' else ip4_String a) port)"
    by (simp add: Address_def s i Let_def IP_String_def)
  have p: "CHR '':'' \<notin> set port" "CHR ''['' \<notin> set port" "CHR '']'' \<notin> set port"
    using assms(2) by (auto simp: list_all_iff is_digit_def)
  have "takeWhile (\<lambda>c. c \<noteq> CHR '':'') (rev port @ rev ''[::]:'') = rev port"
    using p(1) by (subst takeWhile_append2) auto
  then have "last_colon (''[::]:'' @ port) = Some 4" by (simp add: last_colon_def)
  then have "SplitHostPort (''[::]:'' @ port) = Some (''::'', port)" using p by (simp add: SplitHostPort_def numeral_eq_Suc)
  moreover have "ParseIP ''::'' = replicate 16 0" by code_simp
  ultimately show "Address (''[::]:'' @ port) = Some (''127.0.0.1:'' @ port)"
    by (simp add: Address_def Let_def IsUnspecified_def ip_Equal_def JoinHostPort_def)
qed

end
