(* ===== verification/Spec2Isabelle.thy ===== *)
theory Spec2Isabelle
  imports Tunnel_Delivery Awl_Lifecycle Awl_Embeds Awl_Debug Awl_Update Tray_Program Status_Wire Config_Json Awl_Cli Awl_Metrics Release_Info Vpn_Iface Dns_Server Auth_Background Awl_Platforms
begin

text \<open>
  A verification library for awl (Anywherelan), a mesh VPN in Go: every node has a libp2p identity
  and a list of known peers, each with an address of a private IPv4 network; packets for such an
  address are read from a TUN interface, sent over a libp2p stream to the peer and written to the
  TUN interface there. The parts and how they work together:

  The configuration (\<open>src/config\<close>) is the shared state. Changing a known peer emits an event; the
  tunnel and the DNS service subscribe to it and rebuild what they hold. The auth and status
  exchange (\<open>src/service/auth_status.go\<close>) and the API handlers (\<open>src/api\<close>) change the
  configuration; the command line (\<open>src/cli\<close>) and the tray call the API. The tunnel
  (\<open>src/service/tunnel.go\<close>) moves packets between the device (\<open>src/vpn\<close>) and streams; the proxy
  (\<open>src/service/socks5.go\<close>, \<open>src/socks5\<close>) serves SOCKS5 clients through a chosen peer;
  \<open>src/application.go\<close> creates, connects and closes all of them.

  \<^bold>\<open>Conventions.\<close> A Go struct is a record with the fields the code uses (each with a prefix of its
  own), a map is an association list with the insertion order standing for the unspecified
  iteration order (\<open>gomap\<close>), a pointer that is shared is an index of a heap (packets in
  \<open>dv_heap\<close>, VPN peers in \<open>tn_heap\<close>), a section under a lock is one state change, a goroutine is a
  step that may run at any time. Bytes are \<open>8 word\<close>, checksums and addresses are computed on
  words of the width of the code. \<open>None\<close> of an operation is a panic, or, for the loops written with
  \<open>partial_function\<close>, that it never returns; errors are values of a sum or option type. libp2p,
  miekg/dns, the SOCKS5 library, echo, the updater, wireguard's TUN device and the operating
  system are arguments: functions or records of what they answer. What the code relies on in them
  is a named hypothesis, for example \<open>ids_roundtrip\<close> (a peer ID printed after decoding gives the
  same text) and \<open>names_ok\<close> (canonical DNS names are equal only for equal names).

  \<^bold>\<open>Theories.\<close>

  \<^item> \<open>Awl_Prelude\<close>: maps, results, byte strings, reachability and the locales of maps and inductive
    invariants. What the code uses of Go's library: \<open>Go_Strings\<close> and \<open>Go_Utf8\<close> (\<open>strings\<close>, \<open>strconv\<close>,
    \<open>utf8\<close>), \<open>Go_Net\<close> (\<open>net\<close>, \<open>netip\<close>), \<open>Go_Json\<close>, \<open>Json_Cut\<close> and \<open>Json_Indent\<close> (\<open>encoding/json\<close>: every
    value is read back from its text, compact or indented, and not from a part of it), \<open>Go_Time\<close> and
    \<open>Go_Duration\<close> (\<open>time\<close>: printed times and durations are read back).
  \<^item> \<open>Ring_Buffer\<close> (\<open>src/ringbuffer\<close>): the log buffer refines the last bytes of what was written.
  \<^item> \<open>Wire_Protocol\<close>, \<open>Wire_Messages\<close> (\<open>src/protocol\<close>): protocol names, streams, the frame of a packet, and
    the messages as the JSON bytes that are sent: read back, refused when cut, strings always UTF-8.
  \<^item> \<open>Awl_Config\<close>, \<open>Config_Defaults\<close>, \<open>Config_Json\<close>, \<open>Net_Addr\<close> (\<open>src/config\<close>): known and blocked peers,
    aliases, defaults, loading and importing, addresses. Well-formedness is kept by every operation;
    \<open>setDefaults\<close> returns for every file and is idempotent; the text that is saved is loaded as the same
    configuration and a torn one is refused; generated addresses are fresh.
  \<^item> \<open>Checksum\<close>, \<open>Vpn_Packet\<close>, \<open>Vpn_Device\<close>, \<open>Vpn_Iface\<close> (\<open>src/vpn\<close>): packets with slices into one buffer,
    the checksums against RFC 1071, reading frames from any chunking of a stream, the packet pool, the
    rewriting of addresses, the reading loop, and creating the interface on each platform.
  \<^item> \<open>Tunnel\<close>, \<open>Tunnel_Routes\<close>, \<open>Tunnel_Delivery\<close> (\<open>src/service/tunnel.go\<close>): the loops as a step
    relation in which no packet object has two owners; the peer tables follow the configuration;
    frames written on one side arrive in order and unchanged on the other.
  \<^item> \<open>Auth_Status\<close>, \<open>Auth_Background\<close> (\<open>src/service/auth_status.go\<close>): status exchange, friend requests,
    blocking, and the loops that repeat them. \<open>Status_Wire\<close>: two nodes that exchange bytes over a stream
    agree afterwards, and an accepted invitation completes.
  \<^item> \<open>Socks5_Proxy\<close> (\<open>src/socks5\<close>, \<open>src/service/socks5.go\<close>): greeting, replies, rules and who may use whom.
  \<^item> \<open>Awl_Dns\<close>, \<open>Dns_Server\<close> (\<open>src/awldns\<close>): the resolver, whose table is used through the locale
    \<open>name_service\<close>, and its servers: which handler a query reaches, listening and closing.
  \<^item> \<open>Awl_Api\<close>, \<open>Api_Http\<close>, \<open>Api_Client\<close>, \<open>Api_Stats\<close>, \<open>Awl_Debug\<close> (\<open>src/api\<close>, \<open>src/entity\<close>): the handlers;
    routes, authentication and request texts; the client, whose methods have the effect of the handlers;
    the debug page and the log endpoint. One invariant for everything that changes the configuration.
  \<^item> \<open>Cli_Peers\<close>, \<open>Awl_Cli\<close> (\<open>src/cli\<close>): the commands as compositions of handlers, and the commands over the
    client, which refine them, with the dispatch of arguments and the choice of server and peer.
  \<^item> \<open>Awl_P2p\<close>, \<open>P2p_Network\<close> (\<open>src/p2p\<close>): decisions around the libp2p host, background connections, and
    reports. \<open>Awl_Metrics\<close> (\<open>src/metrics\<close>): declarations, updater and the accounting of connections.
  \<^item> \<open>Awl_Application\<close> and \<open>Awl_Lifecycle\<close> (\<open>src/application.go\<close>): configuration at start, the DNS service
    and its events, \<open>Init\<close> and \<open>Close\<close>, and how the tray and the mobile library start and stop.
  \<^item> The programs under \<open>src/cmd\<close>: \<open>Server_Program\<close> (the server and how it exits), \<open>Tray_Menu\<close>,
    \<open>Tray_Linux\<close> and \<open>Tray_Program\<close> (menus, clicks, root rights), and \<open>Awl_Platforms\<close> (macOS, Windows, the
    address of the API). \<open>Awl_Update\<close> (\<open>src/update\<close>), \<open>Awl_Embeds\<close> (\<open>src/embeds\<close>), \<open>Release_Info\<close> (\<open>src/tools\<close>).

  \<^bold>\<open>Interfaces.\<close> Locales state what one part relies on in another and are interpreted on the
  model's own definitions: \<open>go_map\<close> (maps), \<open>byte_reader\<close> (a stream, for the reader of frames),
  \<open>packet_pool\<close> and \<open>packets_consumer\<close> (the pool, and what the device calls for read packets, which
  the tunnel provides), \<open>addr_allocator\<close> (fresh addresses), \<open>log_window\<close> (the log buffer),
  \<open>name_service\<close> (the resolver's table), \<open>json_codec\<close> (a struct and its JSON, for the maps of the
  configuration file) and \<open>inductive_invariant\<close> for the step relations.

  \<^bold>\<open>Properties across parts.\<close> Delivery from one node's outbound loop to the other's inbound
  channel; the routes after a configuration change; that two nodes agree after exchanging the bytes of
  their status; that a command, through client, HTTP and handler, does what the handler does; that the
  resolver answers with the current addresses once all pending events are handled, and finds every
  known peer after the start; that all requests and exchanges keep the configuration well-formed; that
  the configuration survives saving and loading; what \<open>Close\<close> does after every outcome of \<open>Init\<close>
  and what that means for the tray and the mobile library.

  \<^bold>\<open>Bounds.\<close> There is no fuel: loops are structural, have a measure, or are
  \<open>partial_function\<close>s whose results are proved (\<open>ReadFrom\<close> and \<open>streamsEqual\<close> return on finite
  streams, \<open>ReadFrom\<close> does not on oversized frames). The parser of JSON has the nesting limit of
  Go's. Buffer and channel sizes are those of the code. Integers of Go's type \<open>int\<close> are unbounded
  where the code only counts.

  \<^bold>\<open>Not modelled.\<close> The JSON text of the listings that the API returns (they are carried as values), the
  parsing of flags and drawing of tables of the command line, the floating-point amounts of
  \<open>src/api/metrics.go\<close>, the registry of Prometheus and the counters other than those of the proxy, the
  encoder of the log, downloading and installing updates, the SOCKS5 library, sockets, and everything
  inside echo, libp2p, miekg/dns and wireguard: the sources only call these. Methods of the libp2p host
  that only forward are left out. Timers appear as the steps they trigger, and the clicks of the tray
  are handled one after the other.
\<close>

end
